(* ===== verification/Prelude.thy ===== *)
theory Prelude
  imports "HOL-Library.Word" "HOL-Library.Monad_Syntax" "HOL-Library.Multiset"
begin

text \<open>
  Shared vocabulary of the development: the C integer types as words, the outcome type of C
  functions that may abort or run into undefined behaviour, checked array access, and the
  generic facts on lists and options the component theories rely on.

  A C function that may fail to return normally is a function into \<open>option\<close>: \<^term>\<open>None\<close> stands
  for \<open>abort()\<close> (the \<open>ASSERT\<close>/\<open>LOGA\<close> macros) or for undefined behaviour (a NULL dereference, an
  access outside an allocated array). The two are written \<open>aborts\<close> and \<open>undef\<close> so that the model
  says which one the source has. Logging and terminal output leave no trace in the model.
\<close>

type_synonym u8 = "8 word"
type_synonym u16 = "16 word"
type_synonym u32 = "32 word"
type_synonym u64 = "64 word"

type_synonym uuid = "u8 list"

abbreviation (input) aborts :: "'a option" where
  "aborts \<equiv> None"

abbreviation (input) undef :: "'a option" where
  "undef \<equiv> None"

named_theorems outcome_simps \<open>unfolding of the outcome combinators\<close>

text \<open>\<open>ASSERT(x)\<close>: abort unless \<open>x\<close>.\<close>

definition ASSERT :: "bool \<Rightarrow> unit option" where
  "ASSERT x = (if x then Some () else aborts)"

lemma ASSERT_simps [simp]: "ASSERT True = Some ()" "ASSERT False = None"
  by (simp_all add: ASSERT_def)

lemma ASSERT_eq_Some [simp]: "ASSERT b = Some u \<longleftrightarrow> b"
  by (cases u) (simp add: ASSERT_def)

lemma ASSERT_eq_None [simp]: "ASSERT b = None \<longleftrightarrow> \<not> b"
  by (simp add: ASSERT_def)

text \<open>Array access \<open>xs[i]\<close>, undefined out of range.\<close>

definition idx :: "'a list \<Rightarrow> nat \<Rightarrow> 'a option" where
  "idx xs i = (if i < length xs then Some (xs ! i) else undef)"

lemma idx_eq_Some [simp]: "idx xs i = Some x \<longleftrightarrow> i < length xs \<and> xs ! i = x"
  by (simp add: idx_def)

lemma idx_eq_None [simp]: "idx xs i = None \<longleftrightarrow> length xs \<le> i"
  by (simp add: idx_def not_less)

lemma idx_in [simp]: "i < length xs \<Longrightarrow> idx xs i = Some (xs ! i)"
  by (simp add: idx_def)

text \<open>Array update \<open>xs[i] = x\<close>, undefined out of range.\<close>

definition upd :: "'a list \<Rightarrow> nat \<Rightarrow> 'a \<Rightarrow> 'a list option" where
  "upd xs i x = (if i < length xs then Some (xs[i := x]) else undef)"

lemma upd_eq_Some [simp]: "upd xs i x = Some ys \<longleftrightarrow> i < length xs \<and> ys = xs[i := x]"
  by (auto simp: upd_def)

lemma upd_in [simp]: "i < length xs \<Longrightarrow> upd xs i x = Some (xs[i := x])"
  by (simp add: upd_def)

lemmas bind_Some_conv = Option.bind_eq_Some_conv

declare bind_Some_conv [outcome_simps] ASSERT_def [outcome_simps]

lemma unat_less_u8: "unat (v :: u8) < 256"
  using unsigned_less [of v, where ?'a = nat] by simp

lemma unat_less_u16: "unat (v :: u16) < 65536"
  using unsigned_less [of v, where ?'a = nat] by simp

lemma unat_less_u32: "unat (v :: u32) < 4294967296"
  using unsigned_less [of v, where ?'a = nat] by simp

text \<open>Removal of the first occurrence, as \<open>g_list_remove\<close> does.\<close>

lemma mset_remove1_mem: "x \<in> set xs \<Longrightarrow> add_mset x (mset (remove1 x xs)) = mset xs"
  by simp

lemma filter_upt_hd:
  assumes "filter P [0..<n] \<noteq> []"
  shows "P (hd (filter P [0..<n]))" and "hd (filter P [0..<n]) < n"
    and "\<forall>j < hd (filter P [0..<n]). \<not> P j"
proof -
  have "hd (filter P [0..<n]) \<in> set (filter P [0..<n])"
    using assms by (rule hd_in_set)
  then show "P (hd (filter P [0..<n]))" and "hd (filter P [0..<n]) < n"
    by simp_all
  obtain x xs where eq: "filter P [0..<n] = x # xs"
    using assms by (cases "filter P [0..<n]") auto
  have srt: "sorted (x # xs)"
    using eq sorted_wrt_filter [of "(\<le>)" "[0..<n]" P] by simp
  have "\<not> P j" if "j < x" for j
  proof
    assume "P j"
    moreover have "x \<in> set (filter P [0..<n])" using eq by simp
    then have "x < n" by simp
    ultimately have "j \<in> set (filter P [0..<n])" using that by simp
    then show False using srt eq that by auto
  qed
  then show "\<forall>j < hd (filter P [0..<n]). \<not> P j" using eq by simp
qed

end
