(* ===== verification/Bits.thy ===== *)
theory Bits
  imports Prelude
begin

text \<open>
  The bit macros of \<open>include/utils/utils.h\<close> and the bit helpers of \<open>utils/utils.c\<close>. The GCC
  builtins they call are written out on the 32 bit positions.
\<close>

unbundle bit_operations_syntax

definition BITOF :: "nat \<Rightarrow> 'a::len word" where
  "BITOF offs = push_bit offs 1"

definition BIT_SET :: "'a::len word \<Rightarrow> nat \<Rightarrow> 'a word" where
  "BIT_SET v n = v OR push_bit n 1"

definition BIT_CLR :: "'a::len word \<Rightarrow> nat \<Rightarrow> 'a word" where
  "BIT_CLR v n = v AND NOT (push_bit n 1)"

definition IS_BIT_SET :: "'a::len word \<Rightarrow> nat \<Rightarrow> bool" where
  "IS_BIT_SET v n \<longleftrightarrow> v AND push_bit n 1 \<noteq> 0"

definition BUILD_UINT16 :: "u8 \<Rightarrow> u8 \<Rightarrow> u16" where
  "BUILD_UINT16 l h = (ucast l AND 0xFF) OR push_bit 8 (ucast h AND 0xFF)"

subsection \<open>The macros read on bits\<close>

lemma IS_BIT_SET_iff_bit: "IS_BIT_SET v n \<longleftrightarrow> bit v n"
proof
  assume "IS_BIT_SET v n"
  then obtain k where "bit (v AND push_bit n 1) k"
    unfolding IS_BIT_SET_def by (metis bit_eqI bit_0_eq bot_apply bot_bool_def)
  then show "bit v n" by (auto simp: bit_simps)
next
  assume "bit v n"
  then have "bit (v AND push_bit n 1) n"
    by (auto simp: bit_simps dest: bit_imp_le_length)
  then show "IS_BIT_SET v n" unfolding IS_BIT_SET_def by auto
qed

lemma bit_BIT_SET:
  "bit (BIT_SET (v :: 'a::len word) n) k \<longleftrightarrow> bit v k \<or> (k = n \<and> n < LENGTH('a))"
  by (auto simp: BIT_SET_def bit_simps)

lemma bit_BIT_CLR: "bit (BIT_CLR (v :: 'a::len word) n) k \<longleftrightarrow> bit v k \<and> k \<noteq> n"
  by (auto simp: BIT_CLR_def bit_simps dest: bit_imp_le_length)

lemma IS_BIT_SET_BIT_SET [simp]:
  "IS_BIT_SET (BIT_SET (v :: 'a::len word) n) k \<longleftrightarrow> IS_BIT_SET v k \<or> (k = n \<and> n < LENGTH('a))"
  by (simp add: IS_BIT_SET_iff_bit bit_BIT_SET)

lemma IS_BIT_SET_BIT_CLR [simp]:
  "IS_BIT_SET (BIT_CLR (v :: 'a::len word) n) k \<longleftrightarrow> IS_BIT_SET v k \<and> k \<noteq> n"
  by (simp add: IS_BIT_SET_iff_bit bit_BIT_CLR)

lemma IS_BIT_SET_0 [simp]: "\<not> IS_BIT_SET (0 :: 'a::len word) n"
  by (simp add: IS_BIT_SET_def)

lemma BIT_SET_nonzero: "n < LENGTH('a) \<Longrightarrow> BIT_SET (v :: 'a::len word) n \<noteq> 0"
  by (metis IS_BIT_SET_0 IS_BIT_SET_BIT_SET)

lemma word_eq_iff_IS_BIT_SET:
  "(v :: 'a::len word) = w \<longleftrightarrow> (\<forall>n < LENGTH('a). IS_BIT_SET v n = IS_BIT_SET w n)"
  by (auto simp: IS_BIT_SET_iff_bit bit_word_eqI)

subsection \<open>Bit helpers of utils.c\<close>

definition ones32 :: "u32 \<Rightarrow> nat list" where
  "ones32 u = filter (bit u) [0..<32]"

definition utils_ffs :: "u32 \<Rightarrow> int" where
  "utils_ffs u = (if u = 0 then - 1 else int (hd (ones32 u)) + 1)"

definition utils_clz :: "u32 \<Rightarrow> int" where
  "utils_clz u = (if u = 0 then - 1 else 31 - int (last (ones32 u)))"

definition utils_ctz :: "u32 \<Rightarrow> int" where
  "utils_ctz u = (if u = 0 then - 1 else int (hd (ones32 u)))"

definition utils_popcount :: "u32 \<Rightarrow> int" where
  "utils_popcount u = int (length (ones32 u))"

text \<open>\<open>while (u % 2) { i++; u >>= 1; }\<close>\<close>

function frz_loop :: "nat \<Rightarrow> u32 \<Rightarrow> nat" where
  "frz_loop i u = (if u mod 2 \<noteq> 0 then frz_loop (Suc i) (drop_bit 1 u) else i)"
  by pat_completeness auto
termination
proof (relation "measure (\<lambda>(i, u). unat u)", goal_cases)
  case 1
  show ?case by simp
next
  case (2 i u)
  then have "u \<noteq> 0" by auto
  then have "unat u div 2 < unat u"
    by (simp add: unat_gt_0)
  then show ?case by (simp add: unat_drop_bit_eq drop_bit_eq_div unat_div)
qed

declare frz_loop.simps [simp del]

definition utils_frz :: "u32 \<Rightarrow> int" where
  "utils_frz u = int (frz_loop 0 u)"

subsection \<open>What the helpers compute\<close>

lemma ones32_nonempty: "u \<noteq> 0 \<Longrightarrow> ones32 u \<noteq> []"
  unfolding ones32_def filter_empty_conv bit_eq_iff by (auto simp del: upt_rec_numeral dest: bit_imp_le_length)

lemma set_ones32: "set (ones32 u) = {k. bit u k}"
  unfolding ones32_def by (auto simp del: upt_rec_numeral dest: bit_imp_le_length)

lemma hd_ones32:
  assumes "u \<noteq> 0"
  shows "bit u (hd (ones32 u))" and "hd (ones32 u) < 32" and "\<forall>j < hd (ones32 u). \<not> bit u j"
  using filter_upt_hd [OF ones32_nonempty [OF assms, unfolded ones32_def]]
  unfolding ones32_def by blast+

lemma utils_ctz_spec:
  assumes "u \<noteq> 0"
  shows "bit u (nat (utils_ctz u)) \<and> 0 \<le> utils_ctz u \<and> utils_ctz u < 32
    \<and> (\<forall>j < nat (utils_ctz u). \<not> bit u j)"
  using assms hd_ones32 [OF assms] by (simp add: utils_ctz_def)

lemma odd_word_bit0: "(u :: u32) mod 2 = 0 \<longleftrightarrow> \<not> bit u 0" "(u :: u32) mod 2 = 1 \<longleftrightarrow> bit u 0"
  by (simp_all add: bit_0 odd_iff_mod_2_eq_one even_iff_mod_2_eq_zero)

lemma bit_drop1: "bit (drop_bit (Suc 0) (u :: u32)) j = bit u (Suc j)"
  by (simp add: bit_drop_bit_eq)

lemma frz_loop_spec:
  "i \<le> frz_loop i u \<and> \<not> bit u (frz_loop i u - i) \<and> (\<forall>j. j < frz_loop i u - i \<longrightarrow> bit u j)"
proof (induction i u rule: frz_loop.induct)
  case (1 i u)
  show ?case
  proof (cases "bit u 0")
    case True
    let ?r = "frz_loop (Suc i) (drop_bit 1 u)"
    have eq: "frz_loop i u = ?r"
      using True odd_word_bit0 [of u] by (subst frz_loop.simps) simp
    have IH: "Suc i \<le> ?r" "\<not> bit u (Suc (?r - Suc i))" "\<forall>j. j < ?r - Suc i \<longrightarrow> bit u (Suc j)"
      using "1.IH" True by (simp_all add: odd_word_bit0 bit_drop1)
    have "\<forall>j. j < ?r - i \<longrightarrow> bit u j"
    proof (intro allI impI)
      fix j
      assume j: "j < ?r - i"
      show "bit u j"
      proof (cases j)
        case 0
        then show ?thesis using True by simp
      next
        case (Suc j')
        then have "j' < ?r - Suc i" using j IH(1) by simp
        then show ?thesis using IH(3) Suc by blast
      qed
    qed
    moreover have "Suc (?r - Suc i) = ?r - i" using IH(1) by simp
    ultimately show ?thesis using eq IH by simp
  next
    case False
    then have "frz_loop i u = i" using odd_word_bit0 [of u] by (subst frz_loop.simps) simp
    then show ?thesis using False by simp
  qed
qed

lemma utils_frz_zero: "\<not> bit u (nat (utils_frz u))"
  using frz_loop_spec [of 0 u] by (simp add: utils_frz_def)

lemma utils_frz_below: "j < nat (utils_frz u) \<Longrightarrow> bit u j"
  using frz_loop_spec [of 0 u] by (simp add: utils_frz_def)

lemma utils_frz_nonneg [simp]: "0 \<le> utils_frz u"
  by (simp add: utils_frz_def)

end
