(* ===== verification/Err.thy ===== *)
theory Err
  imports Bits "HOL-Library.Sublist"
begin

text \<open>
  \<open>include/utils/err.h\<close> and \<open>utils/err.c\<close>: the 32 bit error value that packs a source file
  index (8 bits), a line (14 bits) and an error code (10 bits), and the lookup of the file index
  from \<open>__FILE__\<close> (table of \<open>utils/src_names.c\<close>).

  In the other theories a C function of type \<open>err_t\<close> returns its error code only, as a value of
  \<open>error_code_t\<close>: the file and line bits serve logging and are never branched upon.
\<close>

datatype error_code_t =
    ec_success | ec_length_leak | ec_param_null | ec_not_exist | ec_file_ope
  | ec_not_supported | ec_param_invalid | ec_format | ec_state
  | ec_all_try_done_still_fail | ec_already_exist | ec_timeout
  | ec_json_null | ec_json_open | ec_json_save | ec_json_format
  | ec_bgrsp | ec_bgevt | ec_errno

fun ec_num :: "error_code_t \<Rightarrow> u32" where
  "ec_num ec_success = 0"
| "ec_num ec_length_leak = 1"
| "ec_num ec_param_null = 2"
| "ec_num ec_not_exist = 3"
| "ec_num ec_file_ope = 4"
| "ec_num ec_not_supported = 5"
| "ec_num ec_param_invalid = 6"
| "ec_num ec_format = 7"
| "ec_num ec_state = 8"
| "ec_num ec_all_try_done_still_fail = 10"
| "ec_num ec_already_exist = 11"
| "ec_num ec_timeout = 12"
| "ec_num ec_json_null = 30"
| "ec_num ec_json_open = 31"
| "ec_num ec_json_save = 32"
| "ec_num ec_json_format = 33"
| "ec_num ec_bgrsp = 50"
| "ec_num ec_bgevt = 51"
| "ec_num ec_errno = 0xff"

type_synonym err_t = u32

abbreviation (input) MAX_SOURCE_FILES_NUM_BITS :: nat where "MAX_SOURCE_FILES_NUM_BITS \<equiv> 8"
abbreviation (input) MAX_LINES_NUM_BITS :: nat where "MAX_LINES_NUM_BITS \<equiv> 14"
abbreviation (input) MAX_ERROR_CODE_NUM_BITS :: nat where "MAX_ERROR_CODE_NUM_BITS \<equiv> 10"

definition ERR_MAX :: "nat \<Rightarrow> u32" where
  "ERR_MAX n = push_bit n 1 - 1"

text \<open>The table \<open>source_files\<close>.\<close>

definition source_files :: "string list" where
  "source_files =
    [''main'', ''mng'', ''models'', ''dev_add'', ''nwk'', ''bgevt_hdr'', ''dev_bl'', ''stat'',
     ''demo'', ''dev_config'', ''as_rmend'', ''as_end'', ''as_setpub'', ''as_bindappkey'',
     ''as_rm'', ''as_setconfig'', ''as_getdcd'', ''as_addappkey'', ''as_addsub'', ''cfg'',
     ''cfgdb'', ''generic_parser'', ''json_parser'', ''cli'', ''cli_print'', ''src_names'',
     ''utils_print'', ''utils'', ''err'', ''logging'', ''startup'', ''bg_uart_cbs'',
     ''socket_handler'', ''gecko_bglib'', ''uart_posix'', ''sl_bgapi'', ''sl_security'',
     ''main'', ''sl_poll'', ''uart_win'', ''uart_posix'', ''platform'', ''read_char'']"

text \<open>\<open>strrchr\<close>: the suffix that starts at the last occurrence of \<open>c\<close>.\<close>

fun strrchr :: "string \<Rightarrow> char \<Rightarrow> string option" where
  "strrchr [] c = None"
| "strrchr (x # xs) c =
    (case strrchr xs c of Some r \<Rightarrow> Some r | None \<Rightarrow> (if x = c then Some (x # xs) else None))"

text \<open>\<open>strstr(n, name) != NULL\<close>.\<close>

fun strstr :: "string \<Rightarrow> string \<Rightarrow> bool" where
  "strstr [] pat = (pat = [])"
| "strstr (x # xs) pat = (prefix pat (x # xs) \<or> strstr xs pat)"

definition file_name_match :: "string \<Rightarrow> string \<Rightarrow> bool" where
  "file_name_match file_path name =
    (let n = (case strrchr file_path (CHR ''/'') of
                Some r \<Rightarrow> Some r
              | None \<Rightarrow> strrchr file_path (CHR 0x5C));
         base = (case n of Some r \<Rightarrow> tl r | None \<Rightarrow> file_path)
     in strstr base name)"

text \<open>The first matching entry; the code asserts when there is none.\<close>

fun get_file_index_from :: "nat \<Rightarrow> string list \<Rightarrow> string \<Rightarrow> nat option" where
  "get_file_index_from i [] file = aborts"
| "get_file_index_from i (s # ss) file =
    (if file_name_match file s then Some i else get_file_index_from (Suc i) ss file)"

definition get_file_index :: "string \<Rightarrow> nat option" where
  "get_file_index file = get_file_index_from 0 source_files file"

definition err_of_parts :: "u32 \<Rightarrow> u32 \<Rightarrow> err_t \<Rightarrow> err_t" where
  "err_of_parts fidx line ec =
    push_bit (MAX_ERROR_CODE_NUM_BITS + MAX_LINES_NUM_BITS) fidx
    OR push_bit MAX_ERROR_CODE_NUM_BITS line
    OR (ec AND ERR_MAX MAX_ERROR_CODE_NUM_BITS)"

definition err :: "string \<Rightarrow> u32 \<Rightarrow> err_t \<Rightarrow> err_t option" where
  "err file line ec =
    (if ec = 0 \<or> ec AND NOT (ERR_MAX MAX_ERROR_CODE_NUM_BITS) \<noteq> 0 then Some ec
     else do { i \<leftarrow> get_file_index file; Some (err_of_parts (of_nat i) line ec) })"

definition errof :: "err_t \<Rightarrow> u32" where
  "errof e = e AND ERR_MAX MAX_ERROR_CODE_NUM_BITS"

definition get_err_line :: "err_t \<Rightarrow> u32" where
  "get_err_line ec = drop_bit MAX_ERROR_CODE_NUM_BITS ec AND ERR_MAX MAX_LINES_NUM_BITS"

definition get_err_file_idx :: "err_t \<Rightarrow> u32" where
  "get_err_file_idx ec =
    drop_bit (MAX_LINES_NUM_BITS + MAX_ERROR_CODE_NUM_BITS) ec AND ERR_MAX MAX_SOURCE_FILES_NUM_BITS"

definition get_err_file_name :: "err_t \<Rightarrow> string option" where
  "get_err_file_name ec =
    (let i = unat (get_err_file_idx ec)
     in if length source_files \<le> i then None else Some (source_files ! i))"

subsection \<open>Facts on the packing\<close>

lemma ERR_MAX_mask: "n < 32 \<Longrightarrow> ERR_MAX n = mask n"
  by (simp add: ERR_MAX_def mask_eq_decr_exp push_bit_eq_mult)

lemma bit_and_ERR_MAX: "n < 32 \<Longrightarrow> bit (w AND ERR_MAX n) k \<longleftrightarrow> bit w k \<and> k < n"
  by (auto simp: ERR_MAX_mask bit_simps)

lemma word_lt_bits: "(w :: u32) < 2 ^ n \<Longrightarrow> n < 32 \<Longrightarrow> bit w k \<Longrightarrow> k < n"
  by (metis bit_take_bit_iff less_mask_eq take_bit_eq_mask)

lemma bit_err_of_parts:
  "bit (err_of_parts fidx line ec) k \<longleftrightarrow>
    k < 32 \<and> (24 \<le> k \<and> bit fidx (k - 24) \<or> 10 \<le> k \<and> bit line (k - 10) \<or> k < 10 \<and> bit ec k)"
  unfolding err_of_parts_def
  by (auto simp: bit_and_ERR_MAX bit_or_iff bit_push_bit_iff dest: bit_imp_le_length)

lemma errof_err_of_parts:
  assumes "ec < 2 ^ 10"
  shows "errof (err_of_parts fidx line ec) = ec"
  unfolding errof_def
  by (rule bit_word_eqI)
    (use word_lt_bits [OF assms] in \<open>auto simp: bit_and_ERR_MAX bit_err_of_parts\<close>)

lemma get_err_line_err_of_parts:
  assumes "line < 2 ^ 14"
  shows "get_err_line (err_of_parts fidx line ec) = line"
  unfolding get_err_line_def
  by (rule bit_word_eqI)
    (use word_lt_bits [OF assms] in
      \<open>force simp: bit_and_ERR_MAX bit_drop_bit_eq bit_err_of_parts\<close>)

lemma get_err_file_idx_err_of_parts:
  assumes "fidx < 2 ^ 8" and "line < 2 ^ 14"
  shows "get_err_file_idx (err_of_parts fidx line ec) = fidx"
  unfolding get_err_file_idx_def
  by (rule bit_word_eqI)
    (use word_lt_bits [OF assms(1)] word_lt_bits [OF assms(2)] in
      \<open>force simp: bit_and_ERR_MAX bit_drop_bit_eq bit_err_of_parts\<close>)

lemma ec_num_small: "ec_num e < 2 ^ 10"
  by (cases e) simp_all

lemma get_file_index_bound: "get_file_index_from i ss f = Some j \<Longrightarrow> j < i + length ss"
  by (induction ss arbitrary: i) (fastforce split: if_splits)+

lemma err_keeps_code:
  assumes "err file line (ec_num e) = Some r"
  shows "errof r = ec_num e"
proof (cases "ec_num e = 0")
  case True
  with assms show ?thesis by (simp add: err_def errof_def)
next
  case False
  have "ec_num e AND NOT (ERR_MAX 10) = 0"
    by (rule bit_word_eqI)
      (use word_lt_bits [OF ec_num_small] in \<open>auto simp: ERR_MAX_mask bit_simps\<close>)
  with False assms show ?thesis
    by (auto simp: err_def bind_Some_conv errof_err_of_parts [OF ec_num_small])
qed

end
