(* ===== verification/Strings.thy ===== *)
theory Strings
  imports Err
begin

text \<open>
  The conversions of \<open>utils/utils.c\<close> and \<open>include/utils/utils.h\<close> between machine integers, byte
  buffers and their text form: every address, key, UUID and flag of the configuration files
  passes through them. A string is given without its terminating NUL, so \<open>strlen\<close> is \<^const>\<open>length\<close>.
\<close>

definition hex_value_to_char :: "nat \<Rightarrow> char" where
  "hex_value_to_char x =
    (if x \<le> 9 then char_of (x + 48)
     else if 10 \<le> x \<and> x \<le> 15 then char_of (x + 97 - 10)
     else char_of x)"

text \<open>Only called on characters accepted by \<open>STR_HEX_VALID\<close>.\<close>

definition hex_char_to_value :: "char \<Rightarrow> int" where
  "hex_char_to_value c =
    (let x = int (of_char c) in
     if 48 \<le> x \<and> x \<le> 57 then x - 48
     else if 97 \<le> x \<and> x \<le> 102 then x - 97 + 10
     else x - 65 + 10)"

definition STR_HEX_VALID :: "char \<Rightarrow> bool" where
  "STR_HEX_VALID c =
    (let x = (of_char c :: nat) in
     48 \<le> x \<and> x \<le> 57 \<or> 97 \<le> x \<and> x \<le> 102 \<or> 65 \<le> x \<and> x \<le> 70)"

text \<open>\<open>(v & 0xF << 4k) >> 4k\<close> as a character.\<close>

definition nibble_char :: "'a::len word \<Rightarrow> nat \<Rightarrow> char" where
  "nibble_char v k = hex_value_to_char (unat (drop_bit (4 * k) (v AND push_bit (4 * k) 0xF)))"

definition uint32_tostr :: "u32 \<Rightarrow> string" where
  "uint32_tostr v = map (nibble_char v) [7, 6, 5, 4, 3, 2, 1, 0]"

definition uint16_tostr :: "u16 \<Rightarrow> string" where
  "uint16_tostr v = map (nibble_char v) [3, 2, 1, 0]"

definition uint8_tostr :: "u8 \<Rightarrow> string" where
  "uint8_tostr v = map (nibble_char v) [1, 0]"

definition addr_to_buf :: "u16 \<Rightarrow> string" where
  "addr_to_buf addr = ''0x'' @ uint16_tostr addr"

subsection \<open>\<open>str2uint\<close>\<close>

definition hex_digit :: "char \<Rightarrow> nat option" where
  "hex_digit c =
    (let x = (of_char c :: nat) in
     if 48 \<le> x \<and> x \<le> 57 then Some (x - 48)
     else if 97 \<le> x \<and> x \<le> 102 then Some (x - 97 + 10)
     else if 65 \<le> x \<and> x \<le> 70 then Some (x - 65 + 10)
     else None)"

definition dec_digit :: "char \<Rightarrow> nat option" where
  "dec_digit c =
    (let x = (of_char c :: nat) in if 48 \<le> x \<and> x \<le> 57 then Some (x - 48) else None)"

text \<open>
  The digit loop runs from the last character to the first, so it recurses on the reversed
  string; \<open>k\<close> is \<open>length - 1 - i\<close>. The sum goes through \<open>double\<close> (\<open>pow\<close>), which is exact below
  \<open>2^53\<close>; the model covers the strings whose partial sums stay there and leaves the others
  undefined.
\<close>

fun str2uint_loop :: "(char \<Rightarrow> nat option) \<Rightarrow> nat \<Rightarrow> string \<Rightarrow> nat \<Rightarrow> nat \<Rightarrow> (error_code_t + nat) option"
where
  "str2uint_loop dig base [] k ret = Some (Inr ret)"
| "str2uint_loop dig base (c # cs) k ret =
    (case dig c of
       None \<Rightarrow> Some (Inl ec_format)
     | Some tmp \<Rightarrow>
         (let ret' = ret + tmp * base ^ k
          in if 2 ^ 53 \<le> ret' then undef else str2uint_loop dig base cs (Suc k) ret'))"

text \<open>
  \<open>str2uint(input, strlen(input), p_ret, retlen)\<close>: the value as stored in the \<open>retlen\<close> bytes.
\<close>

definition store_bits :: "nat \<Rightarrow> nat" where
  "store_bits retlen = (if retlen < 2 then 8 else if retlen < 3 then 16 else if retlen < 5 then 32 else 64)"

definition str2uint :: "string \<Rightarrow> nat \<Rightarrow> (error_code_t + nat) option" where
  "str2uint input retlen =
    (if retlen = 0 \<or> input = [] then Some (Inl ec_param_invalid)
     else do {
       r \<leftarrow> (if take 2 input = ''0x''
             then str2uint_loop hex_digit 16 (rev (drop 2 input)) 0 0
             else str2uint_loop dec_digit 10 (rev input) 0 0);
       Some (case r of Inl e \<Rightarrow> Inl e | Inr n \<Rightarrow> Inr (n mod 2 ^ store_bits retlen))
     })"

subsection \<open>Evaluation\<close>

text \<open>The same computation on integers, whose arithmetic evaluates in binary.\<close>

fun str2int_loop :: "(char \<Rightarrow> nat option) \<Rightarrow> int \<Rightarrow> string \<Rightarrow> int \<Rightarrow> int \<Rightarrow> (error_code_t + int) option" where
  "str2int_loop dig base [] w ret = Some (Inr ret)"
| "str2int_loop dig base (c # cs) w ret =
    (case dig c of
       None \<Rightarrow> Some (Inl ec_format)
     | Some tmp \<Rightarrow>
         (let ret' = ret + int tmp * w
          in if 9007199254740992 \<le> ret' then undef else str2int_loop dig base cs (w * base) ret'))"

lemma str2int_loop_eq:
  "map_option (map_sum id int) (str2uint_loop dig base cs k ret)
    = str2int_loop dig (int base) cs (int base ^ k) (int ret)"
proof (induction dig base cs k ret rule: str2uint_loop.induct)
  case (2 dig base c cs k ret)
  have "(2 ^ 53 \<le> ret + tmp * base ^ k) \<longleftrightarrow> (9007199254740992 \<le> int ret + int tmp * int base ^ k)" for tmp
  proof -
    have "(2 ^ 53 \<le> ret + tmp * base ^ k) \<longleftrightarrow> (int (2 ^ 53) \<le> int (ret + tmp * base ^ k))" by (rule zle_int [symmetric])
    then show ?thesis by simp
  qed
  then show ?case using 2 by (auto simp: Let_def mult.commute split: option.splits)
qed simp

definition bits_value :: "nat \<Rightarrow> int" where
  "bits_value retlen = (if retlen < 2 then 256 else if retlen < 3 then 65536 else if retlen < 5 then 4294967296
     else 18446744073709551616)"

lemma str2uint_code [code]:
  "str2uint input retlen =
    (if retlen = 0 \<or> input = [] then Some (Inl ec_param_invalid)
     else map_option (map_sum id (\<lambda>n. nat (n mod bits_value retlen)))
       (if take 2 input = ''0x'' then str2int_loop hex_digit 16 (rev (drop 2 input)) 1 0
        else str2int_loop dec_digit 10 (rev input) 1 0))"
proof -
  have "nat (int n mod bits_value retlen) = n mod 2 ^ store_bits retlen" for n
    by (simp add: bits_value_def store_bits_def nat_mod_distrib)
  then have *: "map_option (map_sum id (\<lambda>n. nat (n mod bits_value retlen))) (map_option (map_sum id int) x)
     = do { r \<leftarrow> x; Some (case r of Inl e \<Rightarrow> Inl e | Inr n \<Rightarrow> Inr (n mod 2 ^ store_bits retlen)) }" for x :: "(error_code_t + nat) option"
    by (cases x) (auto simp: sum.map_comp split: sum.splits)
  show ?thesis
    using str2int_loop_eq [of hex_digit 16 "rev (drop 2 input)" 0 0] str2int_loop_eq [of dec_digit 10 "rev input" 0 0]
    by (simp add: str2uint_def * [symmetric])
qed

subsection \<open>Byte buffers\<close>

definition asmbhex :: "int \<Rightarrow> int \<Rightarrow> u8" where
  "asmbhex h l = of_int (h * 16 + l)"

text \<open>The loop of \<open>str2cbuf\<close>: the buffer keeps what was written before an invalid character.\<close>

fun str2cbuf_loop :: "nat \<Rightarrow> nat \<Rightarrow> bool \<Rightarrow> string \<Rightarrow> u8 list \<Rightarrow> (error_code_t \<times> u8 list) option" where
  "str2cbuf_loop half i rv (a # b # cs) dest =
    (if STR_HEX_VALID a \<and> STR_HEX_VALID b
     then do {
       dest \<leftarrow> upd dest (if rv then half - 1 - i else i)
                 (asmbhex (hex_char_to_value a) (hex_char_to_value b));
       str2cbuf_loop half (Suc i) rv cs dest
     }
     else Some (ec_param_invalid, dest))"
| "str2cbuf_loop half i rv cs dest = Some (ec_success, dest)"

definition str2cbuf :: "string \<Rightarrow> bool \<Rightarrow> u8 list \<Rightarrow> nat \<Rightarrow> (error_code_t \<times> u8 list) option" where
  "str2cbuf src rv dest destLen =
    (let len = length src in
     if destLen < len div 2 then Some (ec_length_leak, dest)
     else if len mod 2 \<noteq> 0 then Some (ec_param_invalid, dest)
     else str2cbuf_loop (len div 2) 0 rv src dest)"

definition byte_hex :: "u8 \<Rightarrow> string" where
  "byte_hex p = [hex_value_to_char (unat p div 16), hex_value_to_char (unat p mod 16)]"

text \<open>\<open>cbuf2str(src, srcLen, rev, dest, destLen)\<close>: the error code and the characters written.\<close>

definition cbuf2str :: "u8 list \<Rightarrow> bool \<Rightarrow> nat \<Rightarrow> error_code_t \<times> string" where
  "cbuf2str src rv destLen =
    (if destLen < length src * 2 then (ec_not_exist, [])
     else (ec_success, concat (map byte_hex (if rv then rev src else src))))"

text \<open>\<open>fmt_uuid\<close>: lower-case hex with a dash after byte 9 and before byte 13.\<close>

definition fmt_uuid :: "uuid \<Rightarrow> string" where
  "fmt_uuid u =
    concat (map (\<lambda>i. (if i = 13 then ''-'' else []) @ byte_hex (u ! i) @ (if i = 9 then ''-'' else []))
      [0..<16])"

subsection \<open>Hex digits\<close>

lemma of_char_char_of_small: "n < 256 \<Longrightarrow> (of_char (char_of n :: char) :: nat) = n"
  by simp

lemma hex_digit_hex_value_to_char: "n < 16 \<Longrightarrow> hex_digit (hex_value_to_char n) = Some n"
  by (auto simp: hex_value_to_char_def hex_digit_def Let_def)

lemma hex_valid_hex_value_to_char: "n < 16 \<Longrightarrow> STR_HEX_VALID (hex_value_to_char n)"
  by (auto simp: hex_value_to_char_def STR_HEX_VALID_def Let_def)

lemma hex_char_to_value_to_char: "n < 16 \<Longrightarrow> hex_char_to_value (hex_value_to_char n) = int n"
  by (auto simp: hex_value_to_char_def hex_char_to_value_def Let_def)

lemma nibble_char_eq:
  fixes v :: "'a::len word"
  shows "nibble_char v k = hex_value_to_char (unat v div 16 ^ k mod 16)"
proof -
  have F: "(0xF :: 'a word) = mask 4"
    by (simp add: mask_eq_exp_minus_1)
  have "drop_bit (4 * k) (v AND push_bit (4 * k) 0xF) = take_bit 4 (drop_bit (4 * k) v)"
    unfolding F by (rule bit_word_eqI) (auto simp: bit_simps dest: bit_imp_le_length)
  moreover have "unat (take_bit 4 (drop_bit (4 * k) v)) = unat v div 2 ^ (4 * k) mod 2 ^ 4"
    unfolding unsigned_take_bit_eq unat_drop_bit_eq
    by (simp only: take_bit_eq_mod drop_bit_eq_div)
  ultimately have "unat (drop_bit (4 * k) (v AND push_bit (4 * k) 0xF)) = unat v div 2 ^ (4 * k) mod 2 ^ 4"
    by (simp only:)
  then show ?thesis by (simp add: nibble_char_def power_mult)
qed

definition hex_string :: "nat \<Rightarrow> nat \<Rightarrow> string" where
  "hex_string n v = map (\<lambda>k. hex_value_to_char (v div 16 ^ k mod 16)) (rev [0..<n])"

lemma down_lists:
  "rev [0..<8] = [7, 6, 5, 4, 3, 2, 1, 0]" "rev [0..<4] = [3, 2, 1, 0]" "rev [0..<2] = [1, 0]"
  by code_simp+

lemma uint32_tostr_hex: "uint32_tostr v = hex_string 8 (unat v)"
  and uint16_tostr_hex: "uint16_tostr w = hex_string 4 (unat w)"
  and uint8_tostr_hex: "uint8_tostr x = hex_string 2 (unat x)"
  by (simp_all only: uint32_tostr_def uint16_tostr_def uint8_tostr_def hex_string_def
      nibble_char_eq down_lists list.map)

subsection \<open>Parsing what was printed\<close>

lemma str2uint_loop_hex:
  assumes "m \<le> 13"
  shows "k \<le> m \<Longrightarrow> str2uint_loop hex_digit 16
      (map (\<lambda>k. hex_value_to_char (v div 16 ^ k mod 16)) [k..<m]) k (v mod 16 ^ k)
    = Some (Inr (v mod 16 ^ m))"
proof (induction "m - k" arbitrary: k)
  case 0
  then show ?case by simp
next
  case (Suc d)
  then have km: "k < m" by simp
  have split: "v mod 16 ^ k + v div 16 ^ k mod 16 * 16 ^ k = v mod 16 ^ Suc k"
    by (simp only: power_Suc2 mod_mult2_eq) simp
  have "v mod 16 ^ Suc k < 16 ^ Suc k" by simp
  also have "(16 :: nat) ^ Suc k \<le> 16 ^ 13"
    using km assms by (intro power_increasing) auto
  also have "(16 :: nat) ^ 13 < 2 ^ 53" by simp
  finally have small: "v mod 16 ^ Suc k < 2 ^ 53" .
  have "str2uint_loop hex_digit 16
      (map (\<lambda>k. hex_value_to_char (v div 16 ^ k mod 16)) [Suc k..<m]) (Suc k) (v mod 16 ^ Suc k)
    = Some (Inr (v mod 16 ^ m))"
    using Suc.hyps(1) [of "Suc k"] Suc.hyps(2) km by simp
  then show ?case
    using km small split
    by (simp add: upt_conv_Cons hex_digit_hex_value_to_char Let_def not_le del: power_Suc)
qed

lemma str2uint_hex_string:
  assumes "n \<le> 13" and "0 < n" and "0 < retlen"
  shows "str2uint (''0x'' @ hex_string n v) retlen = Some (Inr (v mod 16 ^ n mod 2 ^ store_bits retlen))"
  using str2uint_loop_hex [OF assms(1), of 0 v] assms
  by (simp add: str2uint_def hex_string_def rev_map)

lemma str2uint_uint16: "str2uint (''0x'' @ uint16_tostr v) 2 = Some (Inr (unat v))"
  using unat_less_u16 [of v] str2uint_hex_string [of 4 2 "unat v"]
  by (simp add: uint16_tostr_hex store_bits_def del: append.simps)

lemma str2uint_uint32: "str2uint (''0x'' @ uint32_tostr v) 4 = Some (Inr (unat v))"
  using unat_less_u32 [of v] str2uint_hex_string [of 8 4 "unat v"]
  by (simp add: uint32_tostr_hex store_bits_def del: append.simps)

lemma str2uint_uint8: "str2uint (''0x'' @ uint8_tostr v) 1 = Some (Inr (unat v))"
  using unat_less_u8 [of v] str2uint_hex_string [of 2 1 "unat v"]
  by (simp add: uint8_tostr_hex store_bits_def del: append.simps)

subsection \<open>Byte buffers round trip\<close>

lemma asmbhex_byte: "asmbhex (int (unat p div 16)) (int (unat p mod 16)) = (p :: u8)"
proof -
  have "int (unat p div 16) * 16 + int (unat p mod 16) = int (unat p)"
    by (metis div_mult_mod_eq of_nat_add of_nat_mult of_nat_numeral)
  then show ?thesis by (simp add: asmbhex_def)
qed

lemma length_byte_hex [simp]: "length (byte_hex p) = 2"
  by (simp add: byte_hex_def)

lemma length_concat_byte_hex: "length (concat (map byte_hex bs)) = 2 * length bs"
  by (induction bs) auto

lemma unat_nibbles: "unat (p :: u8) div 16 < 16" "unat p mod 16 < 16"
  using unat_less_u8 [of p] by auto

lemma str2cbuf_loop_step:
  "str2cbuf_loop half i rv (byte_hex p @ cs) dest =
    do { dest \<leftarrow> upd dest (if rv then half - 1 - i else i) p; str2cbuf_loop half (Suc i) rv cs dest }"
  by (simp add: byte_hex_def hex_valid_hex_value_to_char hex_char_to_value_to_char unat_nibbles
      asmbhex_byte)

lemma str2cbuf_loop_fwd:
  "length pre + length bs \<le> length dest \<Longrightarrow> take (length pre) dest = pre \<Longrightarrow>
    str2cbuf_loop half (length pre) False (concat (map byte_hex bs)) dest =
    Some (ec_success, pre @ bs @ drop (length pre + length bs) dest)"
proof (induction bs arbitrary: pre dest)
  case Nil
  then show ?case by (metis append_Nil append_take_drop_id concat.simps(1) list.simps(8) list.size(3)
        plus_nat.add_0 str2cbuf_loop.simps(2) add.commute)
next
  case (Cons b bs)
  let ?d = "dest[length pre := b]"
  have "take (length (pre @ [b])) ?d = pre @ [b]"
    using Cons.prems by (simp add: take_Suc_conv_app_nth)
  then have "str2cbuf_loop half (length (pre @ [b])) False (concat (map byte_hex bs)) ?d =
      Some (ec_success, (pre @ [b]) @ bs @ drop (length (pre @ [b]) + length bs) ?d)"
    using Cons.prems by (intro Cons.IH) auto
  then show ?case
    using Cons.prems by (simp add: str2cbuf_loop_step)
qed

lemma str2cbuf_cbuf2str:
  assumes "length dest = length bs"
  shows "str2cbuf (snd (cbuf2str bs False (2 * length bs + 1))) False dest (length bs)
    = Some (ec_success, bs)"
  using str2cbuf_loop_fwd [of "[]" bs dest "length bs"] assms
  by (simp add: str2cbuf_def cbuf2str_def length_concat_byte_hex)

lemma length_fmt_uuid: "length (fmt_uuid u) = 34"
proof -
  have "[0..<16] = [0, 1, 2, 3, 4, 5, 6, 7, 8, 9, 10, 11, 12, 13, 14, 15 :: nat]" by code_simp
  then show ?thesis by (simp add: fmt_uuid_def)
qed

end
