(* ===== verification/UtilProps.thy ===== *)
theory UtilProps
  imports Strings Bits
begin

text \<open>Properties of the helpers of \<open>utils/\<close>: the error codes, the text form of numbers and UUIDs, the
  bit scans.\<close>

lemma file_index_small: "get_file_index f = Some i \<Longrightarrow> of_nat i < (2 ^ 8 :: u32) \<and> unat (of_nat i :: u32) = i"
proof -
  assume "get_file_index f = Some i"
  then have "i < 0 + length source_files" unfolding get_file_index_def by (rule get_file_index_bound)
  moreover have "length source_files < 256" by (simp add: source_files_def)
  ultimately have "i < 256" by linarith
  then show ?thesis by (simp add: word_less_nat_alt unsigned_of_nat take_bit_eq_mod)
qed

lemma err_packs:
  assumes "err file line (ec_num e) = Some r" and "e \<noteq> ec_success" and "line < 2 ^ 14"
  shows "errof r = ec_num e \<and> get_err_line r = line
    \<and> get_file_index file = Some (unat (get_err_file_idx r))"
proof -
  have "ec_num e AND NOT (ERR_MAX 10) = 0"
    by (rule bit_word_eqI)
      (use word_lt_bits [OF ec_num_small] in \<open>auto simp: ERR_MAX_mask bit_simps\<close>)
  moreover have "ec_num e \<noteq> 0" using assms(2) by (cases e) simp_all
  ultimately obtain i where i: "get_file_index file = Some i" "r = err_of_parts (of_nat i) line (ec_num e)"
    using assms(1) by (auto simp: err_def bind_Some_conv)
  then show ?thesis
    using file_index_small [OF i(1)] errof_err_of_parts [OF ec_num_small] assms(3)
    by (simp add: get_err_line_err_of_parts get_err_file_idx_err_of_parts)
qed

text \<open>The C files the program is built from (\<open>CMakeLists.txt\<close>), without their directories, and the name an
  error of each one is reported under: the lookup takes the first entry of the table that occurs in the name of the
  file, and \<open>cfg\<close> and \<open>cli\<close> stand before \<open>cfgdb\<close> and \<open>cli_print\<close>.\<close>

definition program_files :: "string list" where
  "program_files =
   [''gecko_bglib.c'', ''uart_posix.c'', ''bg_uart_cbs.c'', ''socket_handler.c'', ''cli.c'',
      ''cli_print.c'', ''mng.c'', ''models.c'', ''demo.c'', ''dev_add.c'', ''dev_config.c'', ''dev_bl.c'',
      ''bgevt_hdr.c'', ''nwk.c'', ''stat.c'', ''as_getdcd.c'', ''as_addappkey.c'', ''as_bindappkey.c'',
      ''as_setpub.c'', ''as_addsub.c'', ''as_setconfig.c'', ''as_rm.c'', ''as_rmend.c'', ''as_end.c'',
      ''cfg.c'', ''cfgdb.c'', ''generic_parser.c'', ''json_parser.c'', ''utils.c'', ''utils_print.c'',
      ''err.c'', ''logging.c'', ''main.c'', ''startup.c'']"

definition reported_as :: "string \<Rightarrow> string" where
  "reported_as base =
    (if base = ''cfgdb.c'' then ''cfg'' else if base = ''cli_print.c'' then ''cli'' else take (length base - 2) base)"

lemma strrchr_last: "c \<notin> set str \<Longrightarrow> strrchr (pre @ c # str) c = Some (c # str)"
proof -
  assume "c \<notin> set str"
  then have "strrchr str c = None" by (induction str) auto
  then show ?thesis by (induction pre) auto
qed

lemma match_base: "CHR ''/'' \<notin> set base \<Longrightarrow> file_name_match (dir @ CHR ''/'' # base) name = strstr base name"
  by (simp add: file_name_match_def strrchr_last)

lemma file_index_base:
  assumes "CHR ''/'' \<notin> set base"
  shows "get_file_index (dir @ CHR ''/'' # base) = get_file_index (CHR ''/'' # base)"
proof -
  have "get_file_index_from i ss (dir @ CHR ''/'' # base) = get_file_index_from i ss (CHR ''/'' # base)" for i ss
    using match_base [OF assms, of dir] match_base [OF assms, of "[]"] by (induction ss arbitrary: i) simp_all
  then show ?thesis by (simp add: get_file_index_def)
qed

lemma program_file_names:
  "list_all (\<lambda>base. CHR ''/'' \<notin> set base \<and>
    map_option ((!) source_files) (get_file_index (CHR ''/'' # base)) = Some (reported_as base)) program_files"
  by code_simp

text \<open>C17: An error made anywhere in the program is read back: \<open>errof\<close>, \<open>get_err_line\<close> and \<open>get_err_file_name\<close>
  give the code, the line (below 2^14) and the file that \<open>__err\<close> packed, for every C file the program is built from and wherever
  its directory is. The file is its name without \<open>.c\<close>, but for two files: \<open>cfg/cfgdb.c\<close> is reported as \<open>cfg\<close> and
  \<open>cli/cli_print.c\<close> as \<open>cli\<close>.\<close>

theorem err_roundtrip:
  assumes "base \<in> set program_files" and "e \<noteq> ec_success" and "line < 2 ^ 14"
  shows "\<exists>r. err (dir @ ''/'' @ base) line (ec_num e) = Some r \<and> errof r = ec_num e \<and> get_err_line r = line
    \<and> get_err_file_name r = Some (reported_as base)"
proof -
  have base: "CHR ''/'' \<notin> set base" "map_option ((!) source_files) (get_file_index (CHR ''/'' # base)) = Some (reported_as base)"
    using assms(1) program_file_names by (auto simp: list_all_iff)
  then obtain i where i: "get_file_index (dir @ ''/'' @ base) = Some i" "source_files ! i = reported_as base"
    using file_index_base [OF base(1), of dir] by auto
  then have "i < 0 + length source_files" unfolding get_file_index_def by (intro get_file_index_bound)
  moreover obtain r where r: "err (dir @ ''/'' @ base) line (ec_num e) = Some r"
    using i(1) by (cases "ec_num e = 0 \<or> ec_num e AND NOT (ERR_MAX 10) \<noteq> 0") (auto simp: err_def)
  moreover note p = err_packs [OF r assms(2,3)]
  ultimately show ?thesis using i by (auto simp: get_err_file_name_def Let_def)
qed

theorem err_roundtrip_witness:
  "\<exists>r. err ''/nwmng/mng/mng.c'' 300 (ec_num ec_param_invalid) = Some r \<and> errof r = 6 \<and> get_err_line r = 300
    \<and> get_err_file_name r = Some ''mng''"
proof -
  have "''mng.c'' \<in> set program_files" by (simp add: program_files_def)
  from err_roundtrip [OF this, of ec_param_invalid 300 "''/nwmng/mng''"] show ?thesis by (simp add: reported_as_def)
qed

text \<open>An error made in \<open>cfg/cfgdb.c\<close> is reported under the name of another file.\<close>

lemma cfgdb_errors_name_cfg:
  "\<exists>r. err (dir @ ''/cfgdb.c'') 216 (ec_num ec_param_invalid) = Some r \<and> get_err_file_name r = Some ''cfg''"
proof -
  have "get_file_index (dir @ CHR ''/'' # ''cfgdb.c'') = Some 19" by (subst file_index_base) code_simp+
  then have i: "get_file_index (dir @ ''/cfgdb.c'') = Some 19" by simp
  then have r: "err (dir @ ''/cfgdb.c'') 216 (ec_num ec_param_invalid) = Some (err_of_parts 19 216 6)"
    by (simp add: err_def ERR_MAX_def)
  have "get_err_file_name (err_of_parts 19 216 6) = Some ''cfg''" by code_simp
  then show ?thesis using r by blast
qed

text \<open>C18: The hexadecimal text that the program writes for an 8, 16 or 32-bit number reads back as the
  number.\<close>

theorem hex_text_roundtrip:
  "str2uint (''0x'' @ uint8_tostr a) 1 = Some (Inr (unat a))
    \<and> str2uint (''0x'' @ uint16_tostr b) 2 = Some (Inr (unat b))
    \<and> str2uint (''0x'' @ uint32_tostr c) 4 = Some (Inr (unat c))"
  by (intro conjI str2uint_uint8 str2uint_uint16 str2uint_uint32)

text \<open>C19: A byte buffer (a UUID, a key) written as hexadecimal text by \<open>cbuf2str\<close> is read back
  unchanged by \<open>str2cbuf\<close>, whatever the destination held before.\<close>

theorem buffer_text_roundtrip:
  assumes "length dest = length bs"
  shows "str2cbuf (snd (cbuf2str bs False (2 * length bs + 1))) False dest (length bs)
    = Some (ec_success, bs)"
  by (rule str2cbuf_cbuf2str [OF assms])

theorem buffer_text_roundtrip_witness:
  "str2cbuf (snd (cbuf2str [0x9d, 0xdb, 0x05] False 7)) False [0, 0, 0] 3 = Some (ec_success, [0x9d, 0xdb, 0x05])"
proof -
  have "length [0, 0, 0 :: u8] = length [0x9d, 0xdb, 0x05 :: u8]" by simp
  from buffer_text_roundtrip [OF this] show ?thesis by (simp add: eval_nat_numeral)
qed

text \<open>C20: \<open>utils_frz\<close>, which chooses the slot of a node, is the lowest clear bit of the map, and
  \<open>utils_ctz\<close>, which chooses the next slot to run, its lowest set bit.\<close>

theorem bit_scans:
  assumes "u \<noteq> 0"
  shows "\<not> bit v (nat (utils_frz v)) \<and> {..<nat (utils_frz v)} \<subseteq> {j. bit v j}
    \<and> bit u (nat (utils_ctz u)) \<and> {..<nat (utils_ctz u)} \<subseteq> {j. \<not> bit u j}"
  using utils_frz_zero [of v] utils_frz_below [of _ v] utils_ctz_spec [OF assms] by auto

theorem bit_scans_witness: "\<not> bit (5 :: u32) (nat (utils_frz 5)) \<and> bit (4 :: u32) (nat (utils_ctz 4))"
  using bit_scans [of 4 5] by simp

end
