(* ===== verification/Json.thy ===== *)
theory Json
  imports Strings
begin

text \<open>
  The JSON trees of the configuration files as the program sees them through json-c: objects keep
  their members in insertion order, adding a member under an existing key replaces its value in
  place. A \<open>json_object *\<close> into a loaded file is modelled by its path from the root: the program
  never moves or deletes the objects it keeps pointers to, and a pointer whose object has gone
  with its root (\<open>json_object_put\<close>) is a path that no longer resolves.
\<close>

datatype json =
    JStr string
  | JNum string
  | JNull
  | JArr "json list"
  | JObj "(string \<times> json) list"

datatype jstep = K string | I nat

type_synonym jpath = "jstep list"

subsection \<open>Member access\<close>

text \<open>\<open>json_object_object_get_ex\<close>: no member for a value that is not an object.\<close>

fun obj_get :: "json \<Rightarrow> string \<Rightarrow> json option" where
  "obj_get (JObj kvs) k = map_of kvs k"
| "obj_get j k = None"

fun kv_put :: "(string \<times> json) list \<Rightarrow> string \<Rightarrow> json \<Rightarrow> (string \<times> json) list" where
  "kv_put [] k v = [(k, v)]"
| "kv_put ((k', v') # kvs) k v = (if k' = k then (k, v) # kvs else (k', v') # kv_put kvs k v)"

text \<open>\<open>json_object_object_add\<close>, only meaningful on an object.\<close>

fun obj_add :: "json \<Rightarrow> string \<Rightarrow> json \<Rightarrow> json option" where
  "obj_add (JObj kvs) k v = Some (JObj (kv_put kvs k v))"
| "obj_add j k v = undef"

text \<open>\<open>json_object_array_length\<close> and \<open>json_object_array_get_idx\<close>, \<open>json_object_array_add\<close>.\<close>

fun arr_items :: "json \<Rightarrow> json list option" where
  "arr_items (JArr xs) = Some xs"
| "arr_items j = undef"

fun arr_add :: "json \<Rightarrow> json \<Rightarrow> json option" where
  "arr_add (JArr xs) v = Some (JArr (xs @ [v]))"
| "arr_add j v = undef"

subsection \<open>Paths\<close>

fun jget :: "json \<Rightarrow> jpath \<Rightarrow> json option" where
  "jget j [] = Some j"
| "jget j (K k # p) = (case obj_get j k of None \<Rightarrow> undef | Some c \<Rightarrow> jget c p)"
| "jget (JArr xs) (I i # p) = (if i < length xs then jget (xs ! i) p else undef)"
| "jget j (I i # p) = undef"

fun jupd :: "(json \<Rightarrow> json option) \<Rightarrow> json \<Rightarrow> jpath \<Rightarrow> json option" where
  "jupd f j [] = f j"
| "jupd f j (K k # p) =
    (case obj_get j k of
       None \<Rightarrow> undef
     | Some c \<Rightarrow> do { c \<leftarrow> jupd f c p; obj_add j k c })"
| "jupd f (JArr xs) (I i # p) =
    (if i < length xs then do { c \<leftarrow> jupd f (xs ! i) p; Some (JArr (xs[i := c])) } else undef)"
| "jupd f j (I i # p) = undef"

text \<open>\<open>__kv_replace(obj, key, value)\<close> on the object a path denotes.\<close>

definition kv_replace :: "json \<Rightarrow> jpath \<Rightarrow> string \<Rightarrow> string \<Rightarrow> json option" where
  "kv_replace root p key value = jupd (\<lambda>obj. obj_add obj key (JStr value)) root p"

subsection \<open>Laws\<close>

lemma map_of_kv_put: "map_of (kv_put kvs k v) = (map_of kvs)(k \<mapsto> v)"
  by (induction kvs k v rule: kv_put.induct) auto

lemma obj_get_obj_add:
  "obj_add j k v = Some j' \<Longrightarrow> obj_get j' k' = (if k' = k then Some v else obj_get j k')"
  by (cases j) (auto simp: map_of_kv_put)

lemma obj_add_ok: "obj_get j k' = Some c \<Longrightarrow> \<exists>j'. obj_add j k v = Some j'"
  by (cases j) auto

lemma jget_append: "jget j (p @ q) = do { c \<leftarrow> jget j p; jget c q }"
  by (induction j p rule: jget.induct) (auto split: option.splits)

lemma jget_jupd:
  "jupd f j p = Some j' \<Longrightarrow> jget j p = Some c \<Longrightarrow> jget j' p = f c"
proof (induction f j p arbitrary: j' rule: jupd.induct)
  case (2 f j k p)
  then show ?case
    by (auto split: option.splits simp: bind_Some_conv obj_get_obj_add)
next
  case (3 f xs i p)
  then show ?case by (auto split: if_splits simp: bind_Some_conv)
qed auto

lemma jupd_total:
  "jget j p = Some c \<Longrightarrow> f c = Some c' \<Longrightarrow> \<exists>j'. jupd f j p = Some j'"
proof (induction f j p rule: jupd.induct)
  case (2 f j k p)
  then show ?case
    by (auto split: option.splits simp: bind_Some_conv) (meson obj_add_ok)
next
  case (3 f xs i p)
  then show ?case by (auto split: if_splits simp: bind_Some_conv)
qed auto

text \<open>A path that parts from the updated one reads what it read before.\<close>

fun jdiverge :: "jpath \<Rightarrow> jpath \<Rightarrow> bool" where
  "jdiverge (a # p) (b # q) = (a \<noteq> b \<or> jdiverge p q)"
| "jdiverge p q = False"

lemma jget_jupd_other:
  "jupd f j p = Some j' \<Longrightarrow> jdiverge p q \<Longrightarrow> jget j' q = jget j q"
proof (induction f j p arbitrary: j' q rule: jupd.induct)
  case (1 f j)
  then show ?case by simp
next
  case (2 f j k p)
  then obtain b q' where q: "q = b # q'" by (cases q) auto
  from 2 obtain c c' where c: "obj_get j k = Some c" "jupd f c p = Some c'" "obj_add j k c' = Some j'"
    by (auto split: option.splits simp: bind_Some_conv)
  show ?case
  proof (cases b)
    case (K k')
    then show ?thesis
      using 2 c q by (cases "k' = k") (auto simp: obj_get_obj_add [OF c(3)] split: option.splits)
  next
    case (I i)
    obtain kvs where "j = JObj kvs" using c(1) by (cases j) auto
    moreover then obtain kvs' where "j' = JObj kvs'" using c(3) by auto
    ultimately show ?thesis using I q by simp
  qed
next
  case (3 f xs i p)
  then obtain b q' where q: "q = b # q'" by (cases q) auto
  from 3 obtain c' where c: "i < length xs" "jupd f (xs ! i) p = Some c'" "j' = JArr (xs[i := c'])"
    by (auto split: if_splits simp: bind_Some_conv)
  show ?case
  proof (cases b)
    case (K k')
    then show ?thesis using c q by simp
  next
    case (I i')
    then show ?thesis using 3 c q by (cases "i' = i") auto
  qed
qed auto

end
