(* ===== verification/Types.thy ===== *)
theory Types
  imports Json
begin

text \<open>
  The data of the program: the configuration database entries (\<open>include/cfg/cfgdb.h\<close>), the
  network manager's caches, lists and status (\<open>include/mng/mng.h\<close>), the states of the
  configuration engine (\<open>include/mng/dev_config.h\<close>) and the statistics (\<open>include/mng/stat.h\<close>).
  A field of pointer type that may be NULL is an option. A \<open>node_t *\<close> is a reference \<open>nref\<close> into the
  heap of nodes, because the trees, the work lists and the caches share nodes.
\<close>

subsection \<open>include/cfg/cfgdb.h\<close>

record uint16list_t =
  l_len :: u8
  l_data :: "u16 list"

record txparam_t =
  tx_cnt :: u8
  tx_intv :: u16

record timeout_t =
  to_normal :: u32
  to_lpn :: u32

record publication_t =
  pub_addr :: u16
  pub_aki :: u16
  pub_period :: u32
  pub_ttl :: u8
  pub_txp :: txparam_t

record features_t =
  dcd_status :: u16
  target :: u16
  current :: u16
  relay_txp :: "txparam_t option"

record mesh_config_t =
  ttl :: "u8 option"
  snb :: "u8 option"
  net_txp :: "txparam_t option"
  features :: features_t
  pub :: "publication_t option"
  bindings :: "uint16list_t option"
  sublist :: "uint16list_t option"

text \<open>\<open>tmpl_t\<close> has the fields of \<open>mesh_config_t\<close> in another order and its reference id.\<close>

record tmpl_t =
  t_refid :: u16
  t_config :: mesh_config_t

record node_t =
  n_uuid :: uuid
  n_addr :: u16
  n_done :: u8
  n_rmorbl :: u8
  n_err :: u32
  n_tmpl :: "u8 option"
  n_config :: mesh_config_t
  n_func :: u8
  n_venmod_supt :: u32

type_synonym nref = nat

abbreviation (input) ONOFF_SV_BIT :: u8 where "ONOFF_SV_BIT \<equiv> 1"
abbreviation (input) LIGHTNESS_SV_BIT :: u8 where "LIGHTNESS_SV_BIT \<equiv> 2"
abbreviation (input) CTL_SV_BIT :: u8 where "CTL_SV_BIT \<equiv> 4"
abbreviation (input) SENSOR_SV_BIT :: u8 where "SENSOR_SV_BIT \<equiv> 8"

record meshkey_t =
  k_refid :: u16
  k_id :: u16
  k_done :: u8
  k_val :: "u8 list"

record subnet_t =
  appkey_num :: u8
  active_appkey_num :: u8
  netkey :: meshkey_t
  appkey :: "meshkey_t list"

text \<open>
  Only \<open>subnets[0]\<close> is ever allocated or used. \<open>p_subnets_freed\<close> says that \<open>subnets\<close> is a pointer to
  freed memory: it is not NULL, but what it points to is gone.
\<close>

record provcfg_t =
  p_addr :: u16
  p_sync_time :: int
  p_ivi :: u32
  p_subnet_num :: u8
  p_subnets :: "subnet_t option"
  p_subnets_freed :: bool
  p_ttl :: "u8 option"
  p_net_txp :: "txparam_t option"
  p_timeout :: "timeout_t option"

subsection \<open>States of the configuration engine\<close>

text \<open>
  \<open>acc_state_emt\<close> without \<open>to_next_state_em\<close> (-1), which only \<open>next_state\<close> can hold: there it is
  \<^const>\<open>None\<close>.
\<close>

datatype acc_state_emt =
    provisioning_em | provisioned_em
  | get_dcd_em | addappkey_em | bindappkey_em | setpub_em | addsub_em | setconfig_em | end_em
  | rm_em | rmend_em

fun acc_num :: "acc_state_emt \<Rightarrow> nat" where
  "acc_num provisioning_em = 0"
| "acc_num provisioned_em = 1"
| "acc_num get_dcd_em = 2"
| "acc_num addappkey_em = 3"
| "acc_num bindappkey_em = 4"
| "acc_num setpub_em = 5"
| "acc_num addsub_em = 6"
| "acc_num setconfig_em = 7"
| "acc_num end_em = 8"
| "acc_num rm_em = 9"
| "acc_num rmend_em = 10"

datatype asr = asr_suc | asr_oom | asr_tonext | asr_bgapi | asr_unspec | asr_notfnd

datatype retry_reason_t = on_timeout_em | on_oom_em | on_guard_timer_expired_em

datatype bgerr_type_t = bgapi_em | bgevent_em

abbreviation (input) RELAY_BITOFS :: nat where "RELAY_BITOFS \<equiv> 0"
abbreviation (input) PROXY_BITOFS :: nat where "PROXY_BITOFS \<equiv> 1"
abbreviation (input) FRIEND_BITOFS :: nat where "FRIEND_BITOFS \<equiv> 2"
abbreviation (input) LPN_BITOFS :: nat where "LPN_BITOFS \<equiv> 3"
abbreviation (input) NETTX_BITOFS :: nat where "NETTX_BITOFS \<equiv> 4"
abbreviation (input) TTL_BITOFS :: nat where "TTL_BITOFS \<equiv> 5"
abbreviation (input) SNB_BITOFS :: nat where "SNB_BITOFS \<equiv> 6"

record vendor_model_t =
  vid :: u16
  mid :: u16

record elem_t =
  sigm_cnt :: u8
  vm_cnt :: u8
  sig_models :: "u16 list"
  vm :: "vendor_model_t list"

record dcd_t =
  dcd_feature :: u16
  element_cnt :: u8
  elems :: "elem_t list option"

text \<open>The three \<open>iterators\<close> count up from 0, so they are naturals here.\<close>

record config_cache_t =
  cc_state :: acc_state_emt
  next_state :: "acc_state_emt option"
  cc_node :: "nref option"
  expired :: int
  flags :: u8
  remaining_retry :: u8
  err_bgcall :: u32
  err_bgevt :: u32
  err_general :: u16
  cc_dcd :: dcd_t
  cc_handle :: u32
  vnm_vd :: u16
  vnm_md :: u16
  iter0 :: nat
  iter1 :: nat
  iter2 :: nat

subsection \<open>The network manager\<close>

record add_cache_t =
  ac_busy :: bool
  ac_expired :: int
  ac_uuid :: uuid

datatype bl_state_t = bl_idle | bl_prepare | bl_starting | bl_busy | bl_done

record remainig_nodes_t =
  rn_node :: "nref option"
  rn_phase :: u8

record bl_cache_t =
  bl_state :: bl_state_t
  bl_offset :: nat
  bl_tail :: nat
  rem_num :: int
  rem_nodes :: "remainig_nodes_t list option"

datatype mng_state_t =
    nil | initialized | configured | starting
  | adding_devices_em | configuring_devices_em | removing_devices_em | blacklisting_devices_em
  | stopping | state_reload

fun mng_num :: "mng_state_t \<Rightarrow> nat" where
  "mng_num nil = 0"
| "mng_num initialized = 1"
| "mng_num configured = 2"
| "mng_num starting = 3"
| "mng_num adding_devices_em = 4"
| "mng_num configuring_devices_em = 5"
| "mng_num removing_devices_em = 6"
| "mng_num blacklisting_devices_em = 7"
| "mng_num stopping = 8"
| "mng_num state_reload = 9"

record mng_t =
  m_state :: mng_state_t
  m_conn :: u8
  free_mode :: int
  seq_offs :: nat
  prios :: string
  m_oom :: bool
  oom_expired :: int
  c_add :: "add_cache_t list"
  used :: u32
  c_config :: "config_cache_t list"
  c_bl :: bl_cache_t
  ms_type :: u8
  ms_value :: u8
  ms_nodes :: "u16 list"
  l_add :: "nref list"
  l_config :: "nref list"
  l_bl :: "nref list"
  l_rm :: "nref list"
  l_fail :: "nref list"

abbreviation (input) MAX_PROV_SESSIONS :: nat where "MAX_PROV_SESSIONS \<equiv> 2"
abbreviation (input) MAX_CONCURRENT_CONFIG_NODES :: nat where "MAX_CONCURRENT_CONFIG_NODES \<equiv> 2"

subsection \<open>Statistics\<close>

datatype rc_state = rc_idle | rc_start | rc_end

record measure_time_t =
  mt_state :: rc_state
  mt_start :: int
  mt_end :: int

record stat_add_t =
  sa_dev_cnt :: u32
  sa_fail_times :: u32
  sa_time :: measure_time_t

record stat_rm_t =
  sr_dev_cnt :: u32
  sr_retry_times :: u32
  sr_time :: measure_time_t

record stat_config_t =
  sc_dev_cnt :: u32
  sc_retry_times :: u32
  sc_time :: measure_time_t
  sc_full_time :: int
  sc_full_meas :: measure_time_t

record stat_t =
  st_add :: stat_add_t
  st_rm :: stat_rm_t
  st_bl :: measure_time_t
  st_config :: stat_config_t

subsection \<open>Zero-initialised values (\<open>calloc\<close>, \<open>memset\<close>)\<close>

definition zero_txp :: txparam_t where
  "zero_txp = \<lparr>tx_cnt = 0, tx_intv = 0\<rparr>"

definition zero_dcd :: dcd_t where
  "zero_dcd = \<lparr>dcd_feature = 0, element_cnt = 0, elems = None\<rparr>"

definition zero_features :: features_t where
  "zero_features = \<lparr>dcd_status = 0, target = 0, current = 0, relay_txp = None\<rparr>"

definition zero_config :: mesh_config_t where
  "zero_config = \<lparr>ttl = None, snb = None, net_txp = None, features = zero_features, pub = None,
    bindings = None, sublist = None\<rparr>"

definition zero_node :: node_t where
  "zero_node = \<lparr>n_uuid = replicate 16 0, n_addr = 0, n_done = 0, n_rmorbl = 0, n_err = 0,
    n_tmpl = None, n_config = zero_config, n_func = 0, n_venmod_supt = 0\<rparr>"

definition zero_measure :: measure_time_t where
  "zero_measure = \<lparr>mt_state = rc_idle, mt_start = 0, mt_end = 0\<rparr>"

definition zero_stat_add :: stat_add_t where
  "zero_stat_add = \<lparr>sa_dev_cnt = 0, sa_fail_times = 0, sa_time = zero_measure\<rparr>"

definition zero_stat_rm :: stat_rm_t where
  "zero_stat_rm = \<lparr>sr_dev_cnt = 0, sr_retry_times = 0, sr_time = zero_measure\<rparr>"

definition zero_stat_config :: stat_config_t where
  "zero_stat_config = \<lparr>sc_dev_cnt = 0, sc_retry_times = 0, sc_time = zero_measure,
    sc_full_time = 0, sc_full_meas = zero_measure\<rparr>"

definition zero_stat :: stat_t where
  "zero_stat = \<lparr>st_add = zero_stat_add, st_rm = zero_stat_rm, st_bl = zero_measure,
    st_config = zero_stat_config\<rparr>"

definition zero_add_cache :: add_cache_t where
  "zero_add_cache = \<lparr>ac_busy = False, ac_expired = 0, ac_uuid = replicate 16 0\<rparr>"

definition zero_bl_cache :: bl_cache_t where
  "zero_bl_cache = \<lparr>bl_state = bl_idle, bl_offset = 0, bl_tail = 0, rem_num = 0, rem_nodes = None\<rparr>"

text \<open>\<open>memset(c, 0, ...)\<close> leaves \<open>provisioning_em\<close> (0) in both state fields.\<close>

definition zero_config_cache :: config_cache_t where
  "zero_config_cache = \<lparr>cc_state = provisioning_em, next_state = Some provisioning_em,
    cc_node = None, expired = 0, flags = 0, remaining_retry = 0, err_bgcall = 0, err_bgevt = 0,
    err_general = 0, cc_dcd = zero_dcd, cc_handle = 0, vnm_vd = 0, vnm_md = 0,
    iter0 = 0, iter1 = 0, iter2 = 0\<rparr>"

lemmas zero_defs = zero_txp_def zero_dcd_def zero_features_def zero_config_def zero_node_def
  zero_measure_def zero_stat_add_def zero_stat_rm_def zero_stat_config_def zero_stat_def
  zero_add_cache_def zero_bl_cache_def zero_config_cache_def

end
