(* ===== verification/Bgapi.thy ===== *)
theory Bgapi
  imports Types
begin

text \<open>
  The interface to the NCP target: the BGAPI commands the program issues, their responses, the
  events it receives with their message ids (\<open>host_gecko.h\<close>) and the error codes it compares with
  (\<open>bg_errorcodes.h\<close>). The target itself is not part of the repository: its answer to a command
  is an arbitrary function of the commands sent so far and of the command, the field \<open>ncp\<close> of the
  environment. The clock and the outcome of writing a file are environment too. One environment
  covers one call of a handler; \<open>time(NULL)\<close> does not change within a call.
\<close>

datatype (plugins only: code) bgcmd =
    cmd_system_reset
  | cmd_flash_ps_erase_all
  | cmd_le_connection_close u8
  | cmd_prov_init
  | cmd_prov_initialize_network u16 u32
  | cmd_prov_create_network "u8 list"
  | cmd_prov_create_appkey u16 "u8 list"
  | cmd_prov_scan_unprov_beacons
  | cmd_prov_stop_scan_unprov_beacons
  | cmd_prov_provision_device u16 uuid
  | cmd_prov_ddb_get uuid
  | cmd_prov_ddb_delete uuid
  | cmd_prov_ddb_list_devices
  | cmd_prov_set_key_refresh_blacklist u16 u8 uuid
  | cmd_prov_key_refresh_start u16
  | cmd_test_get_key u16 u8
  | cmd_test_set_nettx u8 u16
  | cmd_set_default_timeout u32 u32
  | cmd_generic_client_init
  | cmd_sensor_client_init
  | cmd_generic_client_set u16 u16 u8 u8 "u8 list"
  | cmd_get_dcd u16 u16 u8
  | cmd_add_appkey u16 u16 u16 u16
  | cmd_bind_model u16 u16 nat u16 u16 u16
  | cmd_set_model_pub u16 u16 nat u16 u16 u16 u16 u8 u32 u8 u16
  | cmd_set_model_sub u16 u16 nat u16 u16 u16
  | cmd_add_model_sub u16 u16 nat u16 u16 u16
  | cmd_set_relay u16 u16 bool u8 u16
  | cmd_set_gatt_proxy u16 u16 bool
  | cmd_set_friend u16 u16 bool
  | cmd_set_default_ttl u16 u16 u8
  | cmd_set_network_transmit u16 u16 u8 u16
  | cmd_set_beacon u16 u16 bool
  | cmd_reset_node u16 u16

record bgrsp =
  rsp_result :: u16
  rsp_handle :: u32
  rsp_id :: u16
  rsp_count :: u16
  rsp_key :: "u8 list"

record env =
  ncp :: "bgcmd list \<Rightarrow> bgcmd \<Rightarrow> bgrsp"
  now :: int
  save_ok :: "string \<Rightarrow> bool"
  json_text :: "json \<Rightarrow> string"

abbreviation (input) bg_err_success :: u16 where "bg_err_success \<equiv> 0"
abbreviation (input) bg_err_out_of_memory :: u16 where "bg_err_out_of_memory \<equiv> 386"
abbreviation (input) bg_err_timeout :: u16 where "bg_err_timeout \<equiv> 389"
abbreviation (input) bg_err_mesh_already_exists :: u16 where "bg_err_mesh_already_exists \<equiv> 3073"
abbreviation (input) bg_err_mesh_limit_reached :: u16 where "bg_err_mesh_limit_reached \<equiv> 3075"
abbreviation (input) bg_err_mesh_already_initialized :: u16 where "bg_err_mesh_already_initialized \<equiv> 3078"
abbreviation (input) bg_err_mesh_not_initialized :: u16 where "bg_err_mesh_not_initialized \<equiv> 3079"
abbreviation (input) bg_err_mesh_foundation_insufficient_resources :: u16 where
  "bg_err_mesh_foundation_insufficient_resources \<equiv> 3589"

subsection \<open>Events\<close>

text \<open>
  An event packet with the fields the handlers read. \<open>evt_other\<close> is any packet the program has no
  case for, with its message id.
\<close>

datatype (plugins only: code) bgevt =
    evt_dcd_data u32 u8 "u8 list"
  | evt_dcd_data_end u32 u16
  | evt_appkey_status u32 u16
  | evt_binding_status u32 u16
  | evt_model_pub_status u32 u16
  | evt_model_sub_status u32 u16
  | evt_relay_status u32 u16
  | evt_friend_status u32 u16
  | evt_gatt_proxy_status u32 u16
  | evt_default_ttl_status u32 u16
  | evt_network_transmit_status u32 u16
  | evt_beacon_status u32 u16
  | evt_reset_status u32 u16
  | evt_prov_initialized u8 u16 u32
  | evt_provisioning_failed u8 uuid
  | evt_device_provisioned u16 uuid
  | evt_unprov_beacon u8 uuid
  | evt_ddb_list uuid u16
  | evt_kr_phase_update u16 u8
  | evt_kr_node_update u16 u8 uuid
  | evt_kr_complete u16 u16
  | evt_adv_timeout
  | evt_system_boot
  | evt_other u32

fun msg_id :: "bgevt \<Rightarrow> u32" where
  "msg_id (evt_dcd_data _ _ _) = 0x192700a0"
| "msg_id (evt_dcd_data_end _ _) = 0x1a2700a0"
| "msg_id (evt_appkey_status _ _) = 0x042700a0"
| "msg_id (evt_binding_status _ _) = 0x072700a0"
| "msg_id (evt_model_pub_status _ _) = 0x0a2700a0"
| "msg_id (evt_model_sub_status _ _) = 0x0b2700a0"
| "msg_id (evt_relay_status _ _) = 0x132700a0"
| "msg_id (evt_friend_status _ _) = 0x162700a0"
| "msg_id (evt_gatt_proxy_status _ _) = 0x122700a0"
| "msg_id (evt_default_ttl_status _ _) = 0x112700a0"
| "msg_id (evt_network_transmit_status _ _) = 0x142700a0"
| "msg_id (evt_beacon_status _ _) = 0x102700a0"
| "msg_id (evt_reset_status _ _) = 0x1b2700a0"
| "msg_id (evt_prov_initialized _ _ _) = 0x001500a0"
| "msg_id (evt_provisioning_failed _ _) = 0x011500a0"
| "msg_id (evt_device_provisioned _ _) = 0x021500a0"
| "msg_id (evt_unprov_beacon _ _) = 0x031500a0"
| "msg_id (evt_ddb_list _ _) = 0x091500a0"
| "msg_id (evt_kr_phase_update _ _) = 0x141500a0"
| "msg_id (evt_kr_node_update _ _ _) = 0x151500a0"
| "msg_id (evt_kr_complete _ _) = 0x161500a0"
| "msg_id evt_adv_timeout = 0x010300a0"
| "msg_id evt_system_boot = 0x000100a0"
| "msg_id (evt_other h) = h AND 0xffff00f8"

end
