(* ===== verification/Sys.thy ===== *)
theory Sys
  imports Bgapi
begin

text \<open>
  The whole state of the program: the database (\<open>static cfgdb_t db\<close>), the open configuration files
  (\<open>static json_cfg_t jcfg\<close>) and the files on disk, the manager (\<open>static mng_t mng\<close>), the
  configuration engine (\<open>static acc_t acc\<close>), the statistics, and the commands already sent to the
  NCP target. \<open>mng->cfg\<close> always points to \<open>db.self\<close>, so it has no field of its own. A tree of GLib
  is the sorted association list of its keys and values.
\<close>

record cfgdb_t =
  db_initialized :: bool
  heap :: "nref \<Rightarrow> node_t option"
  theap :: "nref \<Rightarrow> tmpl_t option"
  hnext :: nref
  unprov_devs :: "(uuid \<times> nref) list"
  nodes :: "(u16 \<times> nref) list"
  backlog :: "(uuid \<times> nref) list"
  templates :: "(u16 \<times> nref) list"
  self :: provcfg_t

text \<open>\<open>cfg_general_t\<close> and \<open>json_cfg_t\<close>.\<close>

record cfg_general_t =
  autoflush :: bool
  fp :: "string option"
  root :: "json option"
  synctime :: int

record sbn_t =
  sbn_id :: u16
  sbn_nodes :: "jpath option"

record json_cfg_t =
  prov_gen :: cfg_general_t
  prov_subnet_num :: nat
  j_netkey :: "jpath option"
  j_appkey_num :: nat
  j_appkey_arr :: "jpath option"
  nw_gen :: cfg_general_t
  nw_subnet_num :: nat
  nw_subnets :: "sbn_t list option"
  nw_backlog :: "jpath option"
  tmpl_gen :: cfg_general_t

text \<open>\<open>acc_t\<close>: the list of states by their ids; their callbacks are dispatched on the id.\<close>

record acc_t =
  acc_started :: bool
  acc_states :: "acc_state_emt list"

text \<open>
  \<open>cmdq_t\<close>: the linked list of the commands, with the items that are allocated and the next address
  \<open>malloc\<close> hands out.
\<close>

record qitem_t =
  qi_offs :: nat
  qi_cmd :: "string list"
  qi_next :: "nat option"

record cmdq_t =
  q_head :: "nat option"
  q_tail :: "nat option"
  q_mem :: "nat \<Rightarrow> qitem_t option"
  q_fresh :: nat

definition zero_cmdq :: cmdq_t where
  "zero_cmdq = \<lparr>q_head = None, q_tail = None, q_mem = (\<lambda>_. None), q_fresh = 0\<rparr>"

lemma zero_cmdq_simps [simp]: "q_head zero_cmdq = None" "q_tail zero_cmdq = None" "q_mem zero_cmdq a = None"
  by (simp_all add: zero_cmdq_def)

record sys =
  db :: cfgdb_t
  jcfg :: json_cfg_t
  disk :: "string \<Rightarrow> (json option \<times> int) option"
  mng :: mng_t
  acc :: acc_t
  stat :: stat_t
  sent :: "bgcmd list"
  scan_need_recover :: bool
  tid :: u8
  demo_expired :: int
  demo_pos :: nat
  demo_ls :: "u8 list"
  cmdq :: cmdq_t
  evq :: "bgevt list"

text \<open>One BGAPI command: the response is the target's, and the command joins the trace.\<close>

definition bgcall :: "env \<Rightarrow> bgcmd \<Rightarrow> sys \<Rightarrow> bgrsp \<times> sys" where
  "bgcall E cmd s = (ncp E (sent s) cmd, s\<lparr>sent := sent s @ [cmd]\<rparr>)"

lemma bgcall_state [simp]: "snd (bgcall E cmd s) = s\<lparr>sent := sent s @ [cmd]\<rparr>"
  by (simp add: bgcall_def)

lemma bgcall_rsp [simp]: "fst (bgcall E cmd s) = ncp E (sent s) cmd"
  by (simp add: bgcall_def)

text \<open>Dereference of a \<open>node_t *\<close> and assignment through it.\<close>

definition nderef :: "sys \<Rightarrow> nref \<Rightarrow> node_t option" where
  "nderef s r = heap (db s) r"

definition nassign :: "nref \<Rightarrow> (node_t \<Rightarrow> node_t) \<Rightarrow> sys \<Rightarrow> sys option" where
  "nassign r f s =
    (case heap (db s) r of
       None \<Rightarrow> undef
     | Some n \<Rightarrow> Some (s\<lparr>db := (db s)\<lparr>heap := (heap (db s))(r \<mapsto> f n)\<rparr>\<rparr>))"

text \<open>\<open>mng->cfg->subnets[0]\<close>, which is undefined before the provisioner's file is loaded.\<close>

definition subnet0 :: "sys \<Rightarrow> subnet_t option" where
  "subnet0 s = p_subnets (self (db s))"

definition netkey_id :: "sys \<Rightarrow> u16 option" where
  "netkey_id s = do { sn \<leftarrow> subnet0 s; Some (k_id (netkey sn)) }"

lemma nderef_sent [simp]: "nderef (s\<lparr>sent := x\<rparr>) = nderef s"
  by (simp add: nderef_def fun_eq_iff)

lemma subnet0_sent [simp]: "subnet0 (s\<lparr>sent := x\<rparr>) = subnet0 s"
  by (simp add: subnet0_def)

lemma netkey_id_sent [simp]: "netkey_id (s\<lparr>sent := x\<rparr>) = netkey_id s"
  by (simp add: netkey_id_def)

subsection \<open>The state at program start (static storage)\<close>

definition zero_provcfg :: provcfg_t where
  "zero_provcfg = \<lparr>p_addr = 0, p_sync_time = 0, p_ivi = 0, p_subnet_num = 0, p_subnets = None, p_subnets_freed = False,
    p_ttl = None, p_net_txp = None, p_timeout = None\<rparr>"

definition zero_db :: cfgdb_t where
  "zero_db = \<lparr>db_initialized = False, heap = Map.empty, theap = Map.empty, hnext = 0,
    unprov_devs = [], nodes = [], backlog = [], templates = [], self = zero_provcfg\<rparr>"

definition zero_gen :: cfg_general_t where
  "zero_gen = \<lparr>autoflush = False, fp = None, root = None, synctime = 0\<rparr>"

definition zero_jcfg :: json_cfg_t where
  "zero_jcfg = \<lparr>prov_gen = zero_gen, prov_subnet_num = 0, j_netkey = None, j_appkey_num = 0,
    j_appkey_arr = None, nw_gen = zero_gen, nw_subnet_num = 0, nw_subnets = None,
    nw_backlog = None, tmpl_gen = zero_gen\<rparr>"

definition zero_mng :: mng_t where
  "zero_mng = \<lparr>m_state = nil, m_conn = 0, free_mode = 0, seq_offs = 0, prios = [],
    m_oom = False, oom_expired = 0, c_add = replicate MAX_PROV_SESSIONS zero_add_cache, used = 0,
    c_config = replicate MAX_CONCURRENT_CONFIG_NODES zero_config_cache, c_bl = zero_bl_cache,
    ms_type = 0, ms_value = 0, ms_nodes = [], l_add = [], l_config = [], l_bl = [], l_rm = [],
    l_fail = []\<rparr>"

definition zero_sys :: "(string \<Rightarrow> (json option \<times> int) option) \<Rightarrow> sys" where
  "zero_sys d = \<lparr>db = zero_db, jcfg = zero_jcfg, disk = d, mng = zero_mng\<lparr>m_conn := 0xff\<rparr>,
    acc = \<lparr>acc_started = False, acc_states = []\<rparr>, stat = zero_stat, sent = [],
    scan_need_recover = False, tid = 0, demo_expired = 0, demo_pos = 0,
    demo_ls = replicate 10 0, cmdq = zero_cmdq, evq = []\<rparr>"

end
