(* ===== verification/Glib.thy ===== *)
theory Glib
  imports Sys "HOL-Library.List_Lexorder"
begin

text \<open>
  What the program relies on of GLib's \<open>GTree\<close>: a map with ordered keys that \<open>g_tree_foreach\<close>
  visits in increasing order. A tree is its sorted association list. The order of \<open>uuid_comp\<close>
  (\<open>memcmp\<close>) is the lexicographic one, that of \<open>u16_comp\<close> the numeric one. The laws the database
  relies on are the locale \<open>gtree\<close>, interpreted below on the list.
\<close>

subsection \<open>The tree\<close>

definition g_tree_lookup :: "('k :: linorder \<times> 'v) list \<Rightarrow> 'k \<Rightarrow> 'v option" where
  "g_tree_lookup t k = map_of t k"

fun g_tree_insert :: "('k :: linorder \<times> 'v) list \<Rightarrow> 'k \<Rightarrow> 'v \<Rightarrow> ('k \<times> 'v) list" where
  "g_tree_insert [] k v = [(k, v)]"
| "g_tree_insert ((k', v') # t) k v =
    (if k < k' then (k, v) # (k', v') # t
     else if k = k' then (k, v) # t
     else (k', v') # g_tree_insert t k v)"

definition g_tree_remove :: "('k :: linorder \<times> 'v) list \<Rightarrow> 'k \<Rightarrow> ('k \<times> 'v) list" where
  "g_tree_remove t k = filter (\<lambda>p. fst p \<noteq> k) t"

definition g_tree_nnodes :: "('k \<times> 'v) list \<Rightarrow> nat" where
  "g_tree_nnodes t = length t"

definition gt_inv :: "('k :: linorder \<times> 'v) list \<Rightarrow> bool" where
  "gt_inv t = sorted_wrt (<) (map fst t)"

lemma set_g_tree_insert: "fst ` set (g_tree_insert t k v) = insert k (fst ` set t)"
  by (induction t k v rule: g_tree_insert.induct) auto

lemma gt_inv_insert: "gt_inv t \<Longrightarrow> gt_inv (g_tree_insert t k v)"
proof (induction t k v rule: g_tree_insert.induct)
  case (2 k' v' t k v)
  have "\<forall>x \<in> fst ` set (g_tree_insert t k v). k' < x" if "k' < k"
    using 2(2) that unfolding set_g_tree_insert gt_inv_def by auto
  with 2 show ?case by (auto simp: gt_inv_def)
qed (simp add: gt_inv_def)

lemma gt_inv_remove: "gt_inv t \<Longrightarrow> gt_inv (g_tree_remove t k)"
  by (induction t) (auto simp: gt_inv_def g_tree_remove_def)

lemma map_of_insert: "map_of (g_tree_insert t k v) = (map_of t)(k \<mapsto> v)"
  by (induction t k v rule: g_tree_insert.induct) auto

lemma map_of_remove: "map_of (g_tree_remove t k) = (map_of t)(k := None)"
  by (induction t) (auto simp: g_tree_remove_def)

subsection \<open>The interface\<close>

locale gtree =
  fixes empty :: 't and inv :: "'t \<Rightarrow> bool" and lookup :: "'t \<Rightarrow> 'k \<Rightarrow> 'v option"
    and insert :: "'t \<Rightarrow> 'k \<Rightarrow> 'v \<Rightarrow> 't" and remove :: "'t \<Rightarrow> 'k \<Rightarrow> 't"
  assumes inv_empty: "inv empty"
    and inv_insert: "inv t \<Longrightarrow> inv (insert t k v)"
    and inv_remove: "inv t \<Longrightarrow> inv (remove t k)"
    and lookup_empty: "lookup empty k = None"
    and lookup_insert: "lookup (insert t k v) k' = (if k' = k then Some v else lookup t k')"
    and lookup_remove: "lookup (remove t k) k' = (if k' = k then None else lookup t k')"
begin

text \<open>A value is moved from the key \<open>k\<close> of one tree to the key \<open>k'\<close> of another.\<close>

lemma lookup_remove_same: "lookup (remove t k) k = None"
  by (simp add: lookup_remove)

lemma dom_insert: "dom (lookup (insert t k v)) = Set.insert k (dom (lookup t))"
  by (auto simp: dom_def lookup_insert)

lemma ran_insert: "ran (lookup (insert t k v)) \<subseteq> Set.insert v (ran (lookup t))"
  by (auto simp: ran_def lookup_insert split: if_splits)

lemma ran_remove: "ran (lookup (remove t k)) \<subseteq> ran (lookup t)"
  by (auto simp: ran_def lookup_remove split: if_splits)

lemma dom_remove: "dom (lookup (remove t k)) = dom (lookup t) - {k}"
  by (auto simp: dom_def lookup_remove split: if_splits)

lemma not_in_ran_remove:
  assumes "inj_on (lookup t) (dom (lookup t))" and "lookup t k = Some v"
  shows "v \<notin> ran (lookup (remove t k))"
proof
  assume "v \<in> ran (lookup (remove t k))"
  then obtain k' where "k' \<noteq> k" "lookup t k' = Some v"
    by (auto simp: ran_def lookup_remove split: if_splits)
  with assms show False by (metis domI inj_onD)
qed

lemma inj_remove:
  "inj_on (lookup t) (dom (lookup t)) \<Longrightarrow> inj_on (lookup (remove t k)) (dom (lookup (remove t k)))"
  by (auto simp: inj_on_def lookup_remove dom_def split: if_splits)

lemma inj_insert:
  assumes "inj_on (lookup t) (dom (lookup t))" and "v \<notin> ran (lookup t)"
  shows "inj_on (lookup (insert t k v)) (dom (lookup (insert t k v)))"
  using assms by (fastforce simp: inj_on_def lookup_insert dom_def ran_def split: if_splits)

end

interpretation gt: gtree "[]" gt_inv g_tree_lookup g_tree_insert g_tree_remove
  by unfold_locales
    (simp_all add: g_tree_lookup_def map_of_insert map_of_remove gt_inv_insert gt_inv_remove,
     simp add: gt_inv_def)

end
