(* ===== verification/Cfgdb.thy ===== *)
theory Cfgdb
  imports Glib
begin

unbundle bit_operations_syntax

text \<open>
  The configuration database, \<open>cfg/cfgdb.c\<close>. A tree argument \<open>GTree *\<close> is its \<open>tree_id\<close>. Nodes live
  in the heap: the trees hold references, \<open>node_free\<close> clears the heap cell. The read-write lock has
  no effect in the single thread that uses the database.
\<close>

datatype tree_id = tmpl_em | upl_em | nodes_em | backlog_em

text \<open>\<open>G_HTB(n)\<close>: the tree is chosen by the address and the template of the node.\<close>

definition G_HTB :: "node_t \<Rightarrow> tree_id" where
  "G_HTB n =
    (if n_addr n \<noteq> 0 then nodes_em
     else case n_tmpl n of
       Some t \<Rightarrow> (if t \<noteq> 0 then upl_em else backlog_em)
     | None \<Rightarrow> backlog_em)"

text \<open>\<open>node_free\<close> on the value a tree held.\<close>

definition node_free :: "nref option \<Rightarrow> cfgdb_t \<Rightarrow> cfgdb_t" where
  "node_free r d = (case r of None \<Rightarrow> d | Some r \<Rightarrow> d\<lparr>heap := (heap d)(r := None)\<rparr>)"

definition tmpl_free :: "nref option \<Rightarrow> cfgdb_t \<Rightarrow> cfgdb_t" where
  "tmpl_free r d = (case r of None \<Rightarrow> d | Some r \<Rightarrow> d\<lparr>theap := (theap d)(r := None)\<rparr>)"

definition free_all :: "nref list \<Rightarrow> cfgdb_t \<Rightarrow> cfgdb_t" where
  "free_all rs d = fold (\<lambda>r. node_free (Some r)) rs d"

definition cfgdb_init :: "cfgdb_t \<Rightarrow> error_code_t \<times> cfgdb_t" where
  "cfgdb_init d =
    (if db_initialized d then (ec_success, d)
     else (ec_success, d\<lparr>unprov_devs := [], nodes := [], templates := [], backlog := [],
       db_initialized := True\<rparr>))"

definition cfgdb_deinit :: "cfgdb_t \<Rightarrow> cfgdb_t" where
  "cfgdb_deinit d =
    (if \<not> db_initialized d then d
     else
       let d = free_all (map snd (backlog d)) d\<lparr>backlog := []\<rparr>;
           d = free_all (map snd (unprov_devs d)) d\<lparr>unprov_devs := []\<rparr>;
           d = free_all (map snd (nodes d)) d\<lparr>nodes := []\<rparr>;
           d = fold (\<lambda>r. tmpl_free (Some r)) (map snd (templates d)) d\<lparr>templates := []\<rparr>
       in d\<lparr>self := zero_provcfg, db_initialized := False\<rparr>)"

definition cfgdb_get_devnum :: "tree_id \<Rightarrow> cfgdb_t \<Rightarrow> nat" where
  "cfgdb_get_devnum which d =
    (if \<not> db_initialized d then 0
     else case which of
       tmpl_em \<Rightarrow> g_tree_nnodes (templates d)
     | upl_em \<Rightarrow> g_tree_nnodes (unprov_devs d)
     | nodes_em \<Rightarrow> g_tree_nnodes (nodes d)
     | backlog_em \<Rightarrow> g_tree_nnodes (backlog d))"

subsection \<open>Lookup\<close>

definition cfgdb_node_get :: "u16 \<Rightarrow> cfgdb_t \<Rightarrow> nref option" where
  "cfgdb_node_get addr d =
    (if \<not> db_initialized d then None else g_tree_lookup (nodes d) addr)"

definition cfgdb_unprov_dev_get :: "uuid \<Rightarrow> cfgdb_t \<Rightarrow> nref option" where
  "cfgdb_unprov_dev_get uuid d =
    (if \<not> db_initialized d then None else g_tree_lookup (unprov_devs d) uuid)"

definition cfgdb_backlog_get :: "uuid \<Rightarrow> cfgdb_t \<Rightarrow> nref option" where
  "cfgdb_backlog_get uuid d =
    (if \<not> db_initialized d then None else g_tree_lookup (backlog d) uuid)"

definition cfgdb_tmpl_get :: "u16 \<Rightarrow> cfgdb_t \<Rightarrow> nref option" where
  "cfgdb_tmpl_get refid d = g_tree_lookup (templates d) refid"

subsection \<open>Templates\<close>

definition cfgdb_tmpl_remove :: "nref option \<Rightarrow> cfgdb_t \<Rightarrow> (error_code_t \<times> cfgdb_t) option" where
  "cfgdb_tmpl_remove n d =
    (if \<not> db_initialized d then Some (ec_state, d)
     else case n of
       None \<Rightarrow> Some (ec_param_invalid, d)
     | Some r \<Rightarrow> do {
         t \<leftarrow> theap d r;
         let old = g_tree_lookup (templates d) (t_refid t);
         Some (ec_success, tmpl_free old d\<lparr>templates := g_tree_remove (templates d) (t_refid t)\<rparr>) })"

definition cfgdb_tmpl_add :: "nref option \<Rightarrow> cfgdb_t \<Rightarrow> (error_code_t \<times> cfgdb_t) option" where
  "cfgdb_tmpl_add n d =
    (if \<not> db_initialized d then Some (ec_state, d)
     else case n of
       None \<Rightarrow> Some (ec_param_invalid, d)
     | Some r \<Rightarrow> do {
         t \<leftarrow> theap d r;
         case cfgdb_tmpl_get (t_refid t) d of
           None \<Rightarrow> Some (ec_success, d\<lparr>templates := g_tree_insert (templates d) (t_refid t) r\<rparr>)
         | Some tmp \<Rightarrow>
             if tmp \<noteq> r then do {
               (e, d) \<leftarrow> cfgdb_tmpl_remove (Some tmp) d;
               if e \<noteq> ec_success then Some (e, d)
               else Some (ec_success, d\<lparr>templates := g_tree_insert (templates d) (t_refid t) r\<rparr>) }
             else Some (ec_success, d) })"

subsection \<open>Adding and removing nodes\<close>

text \<open>
  \<open>G_KEY(n)\<close> is the UUID of a node without an address and the address of the others. The tree of
  provisioned nodes reads a key as two bytes, the other trees read sixteen bytes: those after the
  address are not a key, which is undefined here.
\<close>

definition G_KEY16 :: "node_t \<Rightarrow> u16" where
  "G_KEY16 n = (if n_addr n = 0 then BUILD_UINT16 (n_uuid n ! 0) (n_uuid n ! 1) else n_addr n)"

definition G_KEY_uuid :: "node_t \<Rightarrow> uuid option" where
  "G_KEY_uuid n = (if n_addr n = 0 then Some (n_uuid n) else undef)"

definition tree_lookup :: "tree_id \<Rightarrow> node_t \<Rightarrow> cfgdb_t \<Rightarrow> nref option option" where
  "tree_lookup tree n d =
    (case tree of
       nodes_em \<Rightarrow> Some (g_tree_lookup (nodes d) (G_KEY16 n))
     | upl_em \<Rightarrow> do { k \<leftarrow> G_KEY_uuid n; Some (g_tree_lookup (unprov_devs d) k) }
     | backlog_em \<Rightarrow> do { k \<leftarrow> G_KEY_uuid n; Some (g_tree_lookup (backlog d) k) }
     | tmpl_em \<Rightarrow> undef)"

text \<open>
  \<open>g_tree_insert\<close> on a key the tree holds frees the old value and keeps the old key, which lies
  inside the freed node: every later comparison with it reads freed memory. That case is undefined.
\<close>

definition insert_new :: "('k :: linorder \<times> nref) list \<Rightarrow> 'k \<Rightarrow> nref \<Rightarrow> ('k \<times> nref) list option" where
  "insert_new t k r =
    (case g_tree_lookup t k of None \<Rightarrow> Some (g_tree_insert t k r) | Some _ \<Rightarrow> undef)"

definition tree_insert :: "tree_id \<Rightarrow> node_t \<Rightarrow> nref \<Rightarrow> cfgdb_t \<Rightarrow> cfgdb_t option" where
  "tree_insert tree n r d =
    (case tree of
       nodes_em \<Rightarrow> do { t \<leftarrow> insert_new (nodes d) (G_KEY16 n) r; Some (d\<lparr>nodes := t\<rparr>) }
     | upl_em \<Rightarrow> do {
         k \<leftarrow> G_KEY_uuid n; t \<leftarrow> insert_new (unprov_devs d) k r; Some (d\<lparr>unprov_devs := t\<rparr>) }
     | backlog_em \<Rightarrow> do {
         k \<leftarrow> G_KEY_uuid n; t \<leftarrow> insert_new (backlog d) k r; Some (d\<lparr>backlog := t\<rparr>) }
     | tmpl_em \<Rightarrow> undef)"

definition tree_remove :: "tree_id \<Rightarrow> node_t \<Rightarrow> cfgdb_t \<Rightarrow> cfgdb_t option" where
  "tree_remove tree n d =
    (case tree of
       nodes_em \<Rightarrow> Some (d\<lparr>nodes := g_tree_remove (nodes d) (G_KEY16 n)\<rparr>)
     | upl_em \<Rightarrow> do { k \<leftarrow> G_KEY_uuid n; Some (d\<lparr>unprov_devs := g_tree_remove (unprov_devs d) k\<rparr>) }
     | backlog_em \<Rightarrow> do { k \<leftarrow> G_KEY_uuid n; Some (d\<lparr>backlog := g_tree_remove (backlog d) k\<rparr>) }
     | tmpl_em \<Rightarrow> undef)"

text \<open>
  \<open>__cfgdb_remove(n, tree, destory)\<close>: the tree it changes is \<open>G_HTB(n)\<close>, not its argument.
\<close>

definition cfgdb_remove ::
  "nref option \<Rightarrow> tree_id \<Rightarrow> bool \<Rightarrow> cfgdb_t \<Rightarrow> (error_code_t \<times> cfgdb_t) option" where
  "cfgdb_remove n tree destory d =
    (if \<not> db_initialized d then Some (ec_state, d)
     else case n of
       None \<Rightarrow> Some (ec_param_invalid, d)
     | Some r \<Rightarrow> do {
         nd \<leftarrow> heap d r;
         old \<leftarrow> tree_lookup (G_HTB nd) nd d;
         d \<leftarrow> tree_remove (G_HTB nd) nd d;
         Some (ec_success, if destory then node_free old d else d) })"

definition cfgdb_add :: "nref option \<Rightarrow> tree_id \<Rightarrow> cfgdb_t \<Rightarrow> (error_code_t \<times> cfgdb_t) option" where
  "cfgdb_add n tree d =
    (if \<not> db_initialized d then Some (ec_state, d)
     else case n of
       None \<Rightarrow> Some (ec_param_invalid, d)
     | Some r \<Rightarrow> do {
         nd \<leftarrow> heap d r;
         old \<leftarrow> tree_lookup tree nd d;
         case old of
           None \<Rightarrow> do { d \<leftarrow> tree_insert tree nd r d; Some (ec_success, d) }
         | Some node \<Rightarrow>
             if node \<noteq> r then do {
               (e, d) \<leftarrow> cfgdb_remove (Some node) tree True d;
               if e \<noteq> ec_success then Some (e, d)
               else do { d \<leftarrow> tree_insert tree nd r d; Some (ec_success, d) } }
             else Some (ec_success, d) })"

definition cfgdb_backlog_add :: "nref option \<Rightarrow> cfgdb_t \<Rightarrow> (error_code_t \<times> cfgdb_t) option" where
  "cfgdb_backlog_add n d = cfgdb_add n backlog_em d"

definition cfgdb_unpl_add :: "nref option \<Rightarrow> cfgdb_t \<Rightarrow> (error_code_t \<times> cfgdb_t) option" where
  "cfgdb_unpl_add n d = cfgdb_add n upl_em d"

definition cfgdb_nodes_add :: "nref option \<Rightarrow> cfgdb_t \<Rightarrow> (error_code_t \<times> cfgdb_t) option" where
  "cfgdb_nodes_add n d = cfgdb_add n nodes_em d"

definition cfgdb_backlog_remove ::
  "nref option \<Rightarrow> bool \<Rightarrow> cfgdb_t \<Rightarrow> (error_code_t \<times> cfgdb_t) option" where
  "cfgdb_backlog_remove n destory d = cfgdb_remove n backlog_em destory d"

definition cfgdb_unpl_remove ::
  "nref option \<Rightarrow> bool \<Rightarrow> cfgdb_t \<Rightarrow> (error_code_t \<times> cfgdb_t) option" where
  "cfgdb_unpl_remove n destory d = cfgdb_remove n upl_em destory d"

definition cfgdb_nodes_remove ::
  "nref option \<Rightarrow> bool \<Rightarrow> cfgdb_t \<Rightarrow> (error_code_t \<times> cfgdb_t) option" where
  "cfgdb_nodes_remove n destory d = cfgdb_remove n nodes_em destory d"

definition cfgdb_remove_all_upl :: "cfgdb_t \<Rightarrow> cfgdb_t" where
  "cfgdb_remove_all_upl d =
    (if \<not> db_initialized d then d
     else free_all (map snd (unprov_devs d)) d\<lparr>unprov_devs := []\<rparr>)"

definition cfgdb_remove_all_nodes :: "cfgdb_t \<Rightarrow> cfgdb_t" where
  "cfgdb_remove_all_nodes d =
    (if \<not> db_initialized d then d
     else free_all (map snd (nodes d)) d\<lparr>nodes := []\<rparr>)"

subsection \<open>Address lists\<close>

text \<open>
  \<open>get_node_addrs\<close>: the length of the list is a \<open>uint8_t\<close>, the data has every address.
\<close>

definition copy_addr_to_user :: "u16 \<times> nref \<Rightarrow> u16 list \<Rightarrow> u16 list" where
  "copy_addr_to_user kv ud = ud @ [fst kv]"

definition get_node_addrs :: "cfgdb_t \<Rightarrow> uint16list_t option" where
  "get_node_addrs d =
    (let num = cfgdb_get_devnum nodes_em d
     in if num = 0 then None
        else Some \<lparr>l_len = of_nat num, l_data = fold copy_addr_to_user (nodes d) []\<rparr>)"

text \<open>\<open>kind\<close> is used as a bit offset into \<open>models.func\<close>, although the callers pass a bit mask.\<close>

definition copy_light_addr_to_user ::
  "cfgdb_t \<Rightarrow> u8 \<Rightarrow> u16 \<times> nref \<Rightarrow> u16 list option \<Rightarrow> u16 list option" where
  "copy_light_addr_to_user d kind kv ud = do {
     ud \<leftarrow> ud;
     n \<leftarrow> heap d (snd kv);
     Some (if IS_BIT_SET (n_func n) (unat kind) then ud @ [n_addr n] else ud) }"

text \<open>
  The outer option is \<open>undef\<close> (a node of the tree that was freed), the inner one the NULL result.
\<close>

definition get_lights_addrs :: "u8 \<Rightarrow> cfgdb_t \<Rightarrow> uint16list_t option option" where
  "get_lights_addrs func d =
    (if func = 0 then Some None
     else if cfgdb_get_devnum nodes_em d = 0 then Some None
     else do {
       data \<leftarrow> fold (copy_light_addr_to_user d func) (nodes d) (Some []);
       Some (Some \<lparr>l_len = of_nat (length data), l_data = data\<rparr>) })"

subsection \<open>The invariant of the database\<close>

text \<open>
  Every reference a tree holds is a live node filed under its own key, and no node is in two trees
  (a provisioned node has an address, the others have none).
\<close>

definition db_wf :: "cfgdb_t \<Rightarrow> bool" where
  "db_wf d \<longleftrightarrow>
    db_initialized d \<and> gt_inv (nodes d) \<and> gt_inv (unprov_devs d) \<and> gt_inv (backlog d)
    \<and> (\<forall>a r. g_tree_lookup (nodes d) a = Some r
          \<longrightarrow> (\<exists>n. heap d r = Some n \<and> n_addr n = a \<and> a \<noteq> 0))
    \<and> (\<forall>u r. g_tree_lookup (unprov_devs d) u = Some r
          \<longrightarrow> (\<exists>n. heap d r = Some n \<and> n_uuid n = u \<and> n_addr n = 0))
    \<and> (\<forall>u r. g_tree_lookup (backlog d) u = Some r
          \<longrightarrow> (\<exists>n. heap d r = Some n \<and> n_uuid n = u \<and> n_addr n = 0))
    \<and> ran (g_tree_lookup (unprov_devs d)) \<inter> ran (g_tree_lookup (backlog d)) = {}"

lemma db_wf_nodesD:
  "db_wf d \<Longrightarrow> g_tree_lookup (nodes d) a = Some r \<Longrightarrow>
    \<exists>n. heap d r = Some n \<and> n_addr n = a \<and> a \<noteq> 0"
  by (simp add: db_wf_def)

lemma db_wf_uplD:
  "db_wf d \<Longrightarrow> g_tree_lookup (unprov_devs d) u = Some r \<Longrightarrow>
    \<exists>n. heap d r = Some n \<and> n_uuid n = u \<and> n_addr n = 0"
  by (simp add: db_wf_def)

lemma db_wf_initialized: "db_wf d \<Longrightarrow> db_initialized d"
  by (simp add: db_wf_def)

lemmas db_ops = cfgdb_nodes_add_def cfgdb_unpl_add_def cfgdb_backlog_add_def
  cfgdb_nodes_remove_def cfgdb_unpl_remove_def cfgdb_backlog_remove_def
  cfgdb_add_def cfgdb_remove_def tree_lookup_def tree_insert_def tree_remove_def insert_new_def
  G_KEY16_def G_KEY_uuid_def G_HTB_def node_free_def

text \<open>Filing a node with an address: it replaces the node that had this address, which is freed.\<close>

lemma cfgdb_nodes_add_spec:
  assumes "db_wf d" and "heap d r = Some n" and "n_addr n \<noteq> 0"
  shows "cfgdb_nodes_add (Some r) d =
    (case g_tree_lookup (nodes d) (n_addr n) of
       None \<Rightarrow> Some (ec_success, d\<lparr>nodes := g_tree_insert (nodes d) (n_addr n) r\<rparr>)
     | Some r' \<Rightarrow>
         if r' = r then Some (ec_success, d)
         else Some (ec_success, d\<lparr>nodes := g_tree_insert (g_tree_remove (nodes d) (n_addr n)) (n_addr n) r,
                heap := (heap d)(r' := None)\<rparr>))"
proof (cases "g_tree_lookup (nodes d) (n_addr n)")
  case None
  then show ?thesis using assms by (simp add: db_ops db_wf_initialized)
next
  case (Some r')
  then obtain n' where "heap d r' = Some n'" "n_addr n' = n_addr n"
    using db_wf_nodesD [OF assms(1)] by blast
  then show ?thesis
    using Some assms by (simp add: db_ops db_wf_initialized gt.lookup_remove)
qed

lemma cfgdb_nodes_add_wf:
  assumes "db_wf d" and "heap d r = Some n" and "n_addr n \<noteq> 0"
    and "cfgdb_nodes_add (Some r) d = Some (e, d')"
  shows "db_wf d'"
proof -
  have notin: "g_tree_lookup (unprov_devs d) u \<noteq> Some r'" "g_tree_lookup (backlog d) u \<noteq> Some r'"
    if "heap d r' = Some n'" "n_addr n' \<noteq> 0" for r' u n'
    using assms(1) that unfolding db_wf_def by force+
  show ?thesis
  proof (cases "g_tree_lookup (nodes d) (n_addr n)")
    case None
    then have d': "d' = d\<lparr>nodes := g_tree_insert (nodes d) (n_addr n) r\<rparr>"
      using assms cfgdb_nodes_add_spec [OF assms(1-3)] by simp
    show ?thesis
      using assms(1-3) unfolding d' db_wf_def by (simp add: gt.inv_insert gt.lookup_insert)
  next
    case (Some r')
    then obtain n' where n': "heap d r' = Some n'" "n_addr n' = n_addr n"
      using db_wf_nodesD [OF assms(1)] by blast
    show ?thesis
    proof (cases "r' = r")
      case True
      then show ?thesis using Some assms cfgdb_nodes_add_spec [OF assms(1-3)] by simp
    next
      case False
      then have d': "d' = d\<lparr>nodes := g_tree_insert (g_tree_remove (nodes d) (n_addr n)) (n_addr n) r,
                heap := (heap d)(r' := None)\<rparr>"
        using Some assms cfgdb_nodes_add_spec [OF assms(1-3)] by simp
      have other: "a = n_addr n" if "g_tree_lookup (nodes d) a = Some r'" for a
        using db_wf_nodesD [OF assms(1) that] n' by auto
      show ?thesis
        using assms(1-3) False notin [of r' n'] n' other unfolding d' db_wf_def
        by (auto simp: gt.inv_insert gt.inv_remove gt.lookup_insert gt.lookup_remove)
    qed
  qed
qed

text \<open>Taking a node out of the tree of provisioned nodes without freeing it.\<close>

lemma cfgdb_nodes_remove_spec:
  assumes "db_initialized d" and "heap d r = Some n" and "n_addr n \<noteq> 0"
  shows "cfgdb_nodes_remove (Some r) False d =
    Some (ec_success, d\<lparr>nodes := g_tree_remove (nodes d) (n_addr n)\<rparr>)"
  using assms by (simp add: db_ops)

lemma cfgdb_unpl_add_new:
  assumes "db_initialized d" and "heap d r = Some n" and "n_addr n = 0"
    and "g_tree_lookup (unprov_devs d) (n_uuid n) = None"
  shows "cfgdb_unpl_add (Some r) d =
    Some (ec_success, d\<lparr>unprov_devs := g_tree_insert (unprov_devs d) (n_uuid n) r\<rparr>)"
  using assms by (simp add: db_ops)

end
