(* ===== verification/JsonWrite.thy ===== *)
theory JsonWrite
  imports Cfgdb
begin

text \<open>
  The write and read side of \<open>cfg/parser/json_parser.c\<close>: finding a node in the node file, setting a
  field of a node or of the provisioner, saving the file (\<open>json_cfg_flush\<close>), closing it. A string
  value is stored as \<^const>\<open>JStr\<close>; \<open>json_object_get_string\<close> of another value is its text, and NULL
  for a JSON null or a missing member. A \<open>void *data\<close> argument has the type its writer reads.
\<close>

datatype cfg_fd = PROV_CFG_FILE | NW_NODES_CFG_FILE | TEMPLATE_FILE

abbreviation (input) "STR_REFID \<equiv> ''RefId''"
abbreviation (input) "STR_ID \<equiv> ''Id''"
abbreviation (input) "STR_ADDR \<equiv> ''Address''"
abbreviation (input) "STR_DONE \<equiv> ''Done''"
abbreviation (input) "STR_CNT \<equiv> ''Count''"
abbreviation (input) "STR_INTV \<equiv> ''Interval''"
abbreviation (input) "STR_SUBNETS \<equiv> ''Subnets''"
abbreviation (input) "STR_APPKEY \<equiv> ''AppKey''"
abbreviation (input) "STR_TTL \<equiv> ''TTL''"
abbreviation (input) "STR_TXP \<equiv> ''TX Parameters''"
abbreviation (input) "STR_VALUE \<equiv> ''Value''"
abbreviation (input) "STR_SYNC_TIME \<equiv> ''SyncTime''"
abbreviation (input) "STR_IVI \<equiv> ''IVI''"
abbreviation (input) "STR_NODES \<equiv> ''Nodes''"
abbreviation (input) "STR_BACKLOG \<equiv> ''Backlog''"
abbreviation (input) "STR_UUID \<equiv> ''UUID''"
abbreviation (input) "STR_RMORBL \<equiv> ''RM_Blacklist''"
abbreviation (input) "STR_FUNC \<equiv> ''Functionality''"
abbreviation (input) "STR_ERRBITS \<equiv> ''Err''"
abbreviation (input) "STR_TMPL \<equiv> ''Template ID''"

fun json_object_get_string :: "env \<Rightarrow> json option \<Rightarrow> string option" where
  "json_object_get_string E None = None"
| "json_object_get_string E (Some JNull) = None"
| "json_object_get_string E (Some (JStr v)) = Some v"
| "json_object_get_string E (Some (JNum v)) = Some v"
| "json_object_get_string E (Some j) = Some (json_text E j)"

subsection \<open>The open files\<close>

definition gen_from_fd :: "cfg_fd \<Rightarrow> sys \<Rightarrow> cfg_general_t" where
  "gen_from_fd fd s =
    (case fd of PROV_CFG_FILE \<Rightarrow> prov_gen (jcfg s) | NW_NODES_CFG_FILE \<Rightarrow> nw_gen (jcfg s)
     | TEMPLATE_FILE \<Rightarrow> tmpl_gen (jcfg s))"

definition set_gen :: "cfg_fd \<Rightarrow> cfg_general_t \<Rightarrow> sys \<Rightarrow> sys" where
  "set_gen fd g s =
    (case fd of PROV_CFG_FILE \<Rightarrow> s\<lparr>jcfg := (jcfg s)\<lparr>prov_gen := g\<rparr>\<rparr>
     | NW_NODES_CFG_FILE \<Rightarrow> s\<lparr>jcfg := (jcfg s)\<lparr>nw_gen := g\<rparr>\<rparr>
     | TEMPLATE_FILE \<Rightarrow> s\<lparr>jcfg := (jcfg s)\<lparr>tmpl_gen := g\<rparr>\<rparr>)"

definition json_cfg_close :: "cfg_fd \<Rightarrow> sys \<Rightarrow> sys" where
  "json_cfg_close fd s =
    (let gen = gen_from_fd fd s
     in if root gen = None then s
        else let s = (if fd = NW_NODES_CFG_FILE then s\<lparr>jcfg := (jcfg s)\<lparr>nw_subnets := None\<rparr>\<rparr> else s)
             in set_gen fd (gen\<lparr>root := None\<rparr>) s)"

definition json_cfg_flush :: "env \<Rightarrow> cfg_fd \<Rightarrow> sys \<Rightarrow> (error_code_t \<times> sys) option" where
  "json_cfg_flush E fd s =
    (let gen = gen_from_fd fd s
     in case (root gen, fp gen) of
          (Some r, Some path) \<Rightarrow> do {
            (r, t) \<leftarrow> (if fd \<noteq> TEMPLATE_FILE
                      then do {
                        let t = (word_of_int (now E) :: u32);
                        r \<leftarrow> kv_replace r [] STR_SYNC_TIME (''0x'' @ uint32_tostr t);
                        Some (r, uint t) }
                      else Some (r, synctime gen));
            let s = set_gen fd (gen\<lparr>root := Some r, synctime := t\<rparr>) s;
            if save_ok E path
            then Some (ec_success, s\<lparr>disk := (disk s)(path \<mapsto> (Some r, now E))\<rparr>)
            else Some (ec_json_save, s) }
        | _ \<Rightarrow> Some (ec_json_null, s))"

text \<open>\<open>__kv_replace\<close> on an object of the node file or of the provisioner's file.\<close>

definition file_replace :: "cfg_fd \<Rightarrow> jpath \<Rightarrow> string \<Rightarrow> string \<Rightarrow> sys \<Rightarrow> sys option" where
  "file_replace fd p key value s = do {
     r \<leftarrow> root (gen_from_fd fd s);
     r \<leftarrow> kv_replace r p key value;
     Some (set_gen fd ((gen_from_fd fd s)\<lparr>root := Some r\<rparr>) s) }"

subsection \<open>The node file\<close>

text \<open>\<open>jcfg.nw.subnets[0].nodes\<close> with the array it points to.\<close>

definition subnet0_nodes :: "sys \<Rightarrow> (jpath \<times> json list) option option" where
  "subnet0_nodes s = do {
     sns \<leftarrow> nw_subnets (jcfg s);
     sn \<leftarrow> idx sns 0;
     case sbn_nodes sn of
       None \<Rightarrow> Some None
     | Some p \<Rightarrow> do {
         r \<leftarrow> root (nw_gen (jcfg s)); j \<leftarrow> jget r p; xs \<leftarrow> arr_items j; Some (Some (p, xs)) } }"

text \<open>
  The UUID of a node object. A valid text of less than sixteen bytes leaves the rest of the buffer
  uninitialised, which is undefined here.
\<close>

definition node_uuid :: "env \<Rightarrow> json \<Rightarrow> (error_code_t + uuid) option" where
  "node_uuid E n =
    (case json_object_get_string E (obj_get n STR_UUID) of
       None \<Rightarrow> Some (Inl ec_param_invalid)
     | Some v \<Rightarrow> do {
         (e, buf) \<leftarrow> str2cbuf v False (replicate 16 0) 16;
         if e \<noteq> ec_success then Some (Inl e)
         else if length v = 32 then Some (Inr buf) else undef })"

fun find_node_from :: "env \<Rightarrow> uuid \<Rightarrow> nat \<Rightarrow> json list \<Rightarrow> nat option option" where
  "find_node_from E uuid i [] = Some None"
| "find_node_from E uuid i (n # ns) = do {
     u \<leftarrow> node_uuid E n;
     if u = Inr uuid then Some (Some i) else find_node_from E uuid (Suc i) ns }"

definition find_node :: "env \<Rightarrow> uuid \<Rightarrow> sys \<Rightarrow> jpath option option" where
  "find_node E uuid s = do {
     ns \<leftarrow> subnet0_nodes s;
     case ns of
       None \<Rightarrow> Some None
     | Some (p, xs) \<Rightarrow> do {
         i \<leftarrow> find_node_from E uuid 0 xs;
         Some (map_option (\<lambda>i. p @ [I i]) i) } }"

definition modify_node_field ::
  "env \<Rightarrow> uuid \<Rightarrow> string \<Rightarrow> string \<Rightarrow> sys \<Rightarrow> (error_code_t \<times> sys) option" where
  "modify_node_field E uuid key value s = do {
     obj \<leftarrow> find_node E uuid s;
     case obj of
       None \<Rightarrow> Some (ec_not_exist, s)
     | Some p \<Rightarrow> do { s \<leftarrow> file_replace NW_NODES_CFG_FILE p key value s; Some (ec_success, s) } }"

definition backlog_obj :: "string \<Rightarrow> json" where
  "backlog_obj uuid_str = JObj [(STR_UUID, JStr uuid_str), (STR_ADDR, JStr ''0x0000''),
     (STR_ERRBITS, JStr ''0x00000000''), (STR_TMPL, JStr ''0x00''), (STR_RMORBL, JStr ''0x00''),
     (STR_FUNC, JStr ''0x00''), (STR_DONE, JStr ''0x00'')]"

text \<open>\<open>_backlog_node_add\<close>; adding to the tree cannot fail once the database is initialised.\<close>

definition backlog_node_add :: "env \<Rightarrow> uuid \<Rightarrow> sys \<Rightarrow> (error_code_t \<times> sys) option" where
  "backlog_node_add E uuid s = do {
     let (e, uuid_str) = cbuf2str uuid False 33;
     if e \<noteq> ec_success then Some (e, s)
     else do {
       p \<leftarrow> nw_backlog (jcfg s);
       r \<leftarrow> root (nw_gen (jcfg s));
       r \<leftarrow> jupd (\<lambda>a. arr_add a (backlog_obj uuid_str)) r p;
       let s = s\<lparr>jcfg := (jcfg s)\<lparr>nw_gen := (nw_gen (jcfg s))\<lparr>root := Some r\<rparr>\<rparr>\<rparr>;
       let n = hnext (db s);
       let d = (db s)\<lparr>heap := (heap (db s))(n \<mapsto> zero_node\<lparr>n_uuid := uuid\<rparr>), hnext := Suc n\<rparr>;
       (e, d) \<leftarrow> cfgdb_backlog_add (Some n) d;
       ASSERT (e = ec_success);
       Some (ec_success, s\<lparr>db := d\<rparr>) } }"

definition set_node_addr :: "env \<Rightarrow> uuid \<Rightarrow> u16 \<Rightarrow> sys \<Rightarrow> (error_code_t \<times> sys) option" where
  "set_node_addr E key data s = modify_node_field E key STR_ADDR (''0x'' @ uint16_tostr data) s"

definition set_node_errbits :: "env \<Rightarrow> uuid \<Rightarrow> u32 \<Rightarrow> sys \<Rightarrow> (error_code_t \<times> sys) option" where
  "set_node_errbits E key data s = modify_node_field E key STR_ERRBITS (''0x'' @ uint32_tostr data) s"

definition set_node_func :: "env \<Rightarrow> uuid \<Rightarrow> u8 \<Rightarrow> sys \<Rightarrow> (error_code_t \<times> sys) option" where
  "set_node_func E key data s = modify_node_field E key STR_FUNC (''0x'' @ uint8_tostr data) s"

definition set_node_done :: "env \<Rightarrow> uuid \<Rightarrow> u8 \<Rightarrow> sys \<Rightarrow> (error_code_t \<times> sys) option" where
  "set_node_done E key data s = modify_node_field E key STR_DONE (''0x'' @ uint8_tostr data) s"

text \<open>The loops over \<open>jcfg.nw.subnets[0].nodes\<close> change each node object in turn.\<close>

fun update_nodes :: "(json \<Rightarrow> json option) \<Rightarrow> json list \<Rightarrow> json list option" where
  "update_nodes f [] = Some []"
| "update_nodes f (n # ns) = do { n \<leftarrow> f n; ns \<leftarrow> update_nodes f ns; Some (n # ns) }"

definition nodes_foreach :: "(json \<Rightarrow> json option) \<Rightarrow> sys \<Rightarrow> sys option" where
  "nodes_foreach f s = do {
     ns \<leftarrow> subnet0_nodes s;
     (p, xs) \<leftarrow> ns;
     xs \<leftarrow> update_nodes f xs;
     r \<leftarrow> root (nw_gen (jcfg s));
     r \<leftarrow> jupd (\<lambda>_. Some (JArr xs)) r p;
     Some (s\<lparr>jcfg := (jcfg s)\<lparr>nw_gen := (nw_gen (jcfg s))\<lparr>root := Some r\<rparr>\<rparr>\<rparr>) }"

definition rmall_nodes :: "env \<Rightarrow> sys \<Rightarrow> (error_code_t \<times> sys) option" where
  "rmall_nodes E s = do {
     s \<leftarrow> nodes_foreach (\<lambda>node. do {
            v \<leftarrow> json_object_get_string E (obj_get node STR_ADDR);
            if v = ''0x0000'' then Some node else obj_add node STR_RMORBL (JStr ''0x10'') }) s;
     Some (ec_success, s) }"

definition rmbl_clr :: "env \<Rightarrow> sys \<Rightarrow> (error_code_t \<times> sys) option" where
  "rmbl_clr E s = do {
     s \<leftarrow> nodes_foreach (\<lambda>node. do {
            v \<leftarrow> json_object_get_string E (obj_get node STR_ADDR);
            if v \<noteq> ''0x0000'' then Some node else obj_add node STR_RMORBL (JStr ''0x00'') }) s;
     Some (ec_success, s) }"

text \<open>
  \<open>nodes_clrctl\<close> up to the flush; it then reopens the file with \<open>json_cfg_open\<close>, see the theory of
  the loaders.
\<close>

definition nodes_clrctl_fields :: "sys \<Rightarrow> sys option" where
  "nodes_clrctl_fields s =
    nodes_foreach (\<lambda>node. do {
      node \<leftarrow> obj_add node STR_ADDR (JStr ''0x0000'');
      node \<leftarrow> obj_add node STR_ERRBITS (JStr ''0x00000000'');
      node \<leftarrow> obj_add node STR_RMORBL (JStr ''0x00'');
      node \<leftarrow> obj_add node STR_FUNC (JStr ''0x00'');
      obj_add node STR_DONE (JStr ''0x00'') }) s"

subsection \<open>Writing the node file\<close>

text \<open>The write types with the data each reads; \<open>wrt_clrctl\<close> is with the loaders.\<close>

datatype node_write =
    wrt_add_node uuid
  | wrt_errbits uuid u32
  | wrt_node_addr uuid u16
  | wrt_node_func uuid u8
  | wrt_node_rmall
  | wrt_node_rmblclr
  | wrt_done uuid u8

definition write_nodes :: "env \<Rightarrow> node_write \<Rightarrow> sys \<Rightarrow> (error_code_t \<times> sys) option" where
  "write_nodes E w s = do {
     (e, s) \<leftarrow> (case w of
         wrt_add_node uuid \<Rightarrow> backlog_node_add E uuid s
       | wrt_errbits key data \<Rightarrow> set_node_errbits E key data s
       | wrt_node_addr key data \<Rightarrow> set_node_addr E key data s
       | wrt_node_func key data \<Rightarrow> set_node_func E key data s
       | wrt_node_rmall \<Rightarrow> rmall_nodes E s
       | wrt_node_rmblclr \<Rightarrow> rmbl_clr E s
       | wrt_done key data \<Rightarrow> set_node_done E key data s);
     if autoflush (nw_gen (jcfg s)) \<and> e = ec_success
     then json_cfg_flush E NW_NODES_CFG_FILE s
     else Some (e, s) }"

subsection \<open>Writing the provisioner's file\<close>

datatype prov_write =
    wrt_prov_clrctl
  | wrt_prov_addr u16
  | wrt_prov_ivi u32
  | wrt_prov_synctime u32
  | wrt_prov_netkey_id u16
  | wrt_prov_netkey_val "u8 list"
  | wrt_prov_netkey_done u8
  | wrt_prov_appkey_id u16 u16
  | wrt_prov_appkey_done u16 u8

definition upd_self :: "(provcfg_t \<Rightarrow> provcfg_t) \<Rightarrow> sys \<Rightarrow> sys" where
  "upd_self f s = s\<lparr>db := (db s)\<lparr>self := f (self (db s))\<rparr>\<rparr>"

definition upd_subnet0 :: "(subnet_t \<Rightarrow> subnet_t) \<Rightarrow> sys \<Rightarrow> sys option" where
  "upd_subnet0 f s = do {
     sn \<leftarrow> p_subnets (self (db s));
     Some (upd_self (\<lambda>pc. pc\<lparr>p_subnets := Some (f sn)\<rparr>) s) }"

definition provself_setaddr :: "u16 \<Rightarrow> sys \<Rightarrow> sys option" where
  "provself_setaddr data s =
    file_replace PROV_CFG_FILE [] STR_ADDR (''0x'' @ uint16_tostr data)
      (upd_self (\<lambda>pc. pc\<lparr>p_addr := data\<rparr>) s)"

definition provself_setivi :: "u32 \<Rightarrow> sys \<Rightarrow> sys option" where
  "provself_setivi data s =
    file_replace PROV_CFG_FILE [] STR_IVI (''0x'' @ uint32_tostr data)
      (upd_self (\<lambda>pc. pc\<lparr>p_ivi := data\<rparr>) s)"

definition provself_setsynctime :: "u32 \<Rightarrow> sys \<Rightarrow> sys option" where
  "provself_setsynctime data s =
    file_replace PROV_CFG_FILE [] STR_SYNC_TIME (''0x'' @ uint32_tostr data)
      (upd_self (\<lambda>pc. pc\<lparr>p_sync_time := uint data\<rparr>) s)"

definition provself_setnetkeyid :: "u16 \<Rightarrow> sys \<Rightarrow> sys option" where
  "provself_setnetkeyid data s = do {
     s \<leftarrow> upd_subnet0 (\<lambda>sn. sn\<lparr>netkey := (netkey sn)\<lparr>k_id := data\<rparr>\<rparr>) s;
     p \<leftarrow> j_netkey (jcfg s);
     file_replace PROV_CFG_FILE p STR_ID (''0x'' @ uint16_tostr data) s }"

definition provself_setnetkeyval :: "u8 list \<Rightarrow> sys \<Rightarrow> sys option" where
  "provself_setnetkeyval data s = do {
     s \<leftarrow> upd_subnet0 (\<lambda>sn. sn\<lparr>netkey := (netkey sn)\<lparr>k_val := data\<rparr>\<rparr>) s;
     let (e, buf) = cbuf2str data False 33;
     if e \<noteq> ec_success then Some s
     else do {
       p \<leftarrow> j_netkey (jcfg s);
       file_replace PROV_CFG_FILE p STR_VALUE buf s } }"

definition provself_setnetkeydone :: "u8 \<Rightarrow> sys \<Rightarrow> sys option" where
  "provself_setnetkeydone data s = do {
     s \<leftarrow> upd_subnet0 (\<lambda>sn. sn\<lparr>netkey := (netkey sn)\<lparr>k_done := data\<rparr>\<rparr>) s;
     p \<leftarrow> j_netkey (jcfg s);
     file_replace PROV_CFG_FILE p STR_DONE (''0x'' @ uint8_tostr data) s }"

text \<open>
  The loop of \<open>__provself_setappkeyid\<close> and \<open>__provself_setappkeydone\<close>: the first of the
  \<open>appkey_num\<close> keys with the reference id.
\<close>

fun appkey_index :: "u16 \<Rightarrow> nat \<Rightarrow> nat \<Rightarrow> meshkey_t list \<Rightarrow> nat option option" where
  "appkey_index key 0 i ks = Some None"
| "appkey_index key (Suc n) i [] = undef"
| "appkey_index key (Suc n) i (k # ks) =
    (if k_refid k \<noteq> key then appkey_index key n (Suc i) ks else Some (Some i))"

definition upd_appkey :: "u16 \<Rightarrow> (meshkey_t \<Rightarrow> meshkey_t) \<Rightarrow> string \<Rightarrow> string \<Rightarrow> sys \<Rightarrow> sys option" where
  "upd_appkey key f jkey buf s = do {
     sn \<leftarrow> subnet0 s;
     i \<leftarrow> appkey_index key (unat (appkey_num sn)) 0 (appkey sn);
     case i of
       None \<Rightarrow> Some s
     | Some i \<Rightarrow> do {
         s \<leftarrow> upd_subnet0 (\<lambda>sn. sn\<lparr>appkey := (appkey sn)[i := f (appkey sn ! i)]\<rparr>) s;
         p \<leftarrow> j_appkey_arr (jcfg s);
         file_replace PROV_CFG_FILE (p @ [I i]) jkey buf s } }"

definition provself_setappkeyid :: "u16 \<Rightarrow> u16 \<Rightarrow> sys \<Rightarrow> sys option" where
  "provself_setappkeyid key data s =
    upd_appkey key (\<lambda>k. k\<lparr>k_id := data\<rparr>) STR_ID (''0x'' @ uint16_tostr data) s"

definition provself_setappkeydone :: "u16 \<Rightarrow> u8 \<Rightarrow> sys \<Rightarrow> sys option" where
  "provself_setappkeydone key data s =
    upd_appkey key (\<lambda>k. k\<lparr>k_done := data\<rparr>) STR_DONE (''0x'' @ uint8_tostr data) s"

fun clrctl_appkeys :: "meshkey_t list \<Rightarrow> sys \<Rightarrow> sys option" where
  "clrctl_appkeys [] s = Some s"
| "clrctl_appkeys (k # ks) s = do {
     s \<leftarrow> provself_setappkeyid (k_refid k) 0 s;
     s \<leftarrow> provself_setappkeydone (k_refid k) 0 s;
     clrctl_appkeys ks s }"

definition provself_clrctl :: "sys \<Rightarrow> sys option" where
  "provself_clrctl s = do {
     s \<leftarrow> provself_setaddr 0 s;
     s \<leftarrow> provself_setivi 0 s;
     s \<leftarrow> provself_setsynctime 0 s;
     s \<leftarrow> provself_setnetkeydone 0 s;
     s \<leftarrow> provself_setnetkeyid 0 s;
     sn \<leftarrow> subnet0 s;
     clrctl_appkeys (take (unat (appkey_num sn)) (appkey sn)) s }"

definition write_provself :: "env \<Rightarrow> prov_write \<Rightarrow> sys \<Rightarrow> (error_code_t \<times> sys) option" where
  "write_provself E w s = do {
     s \<leftarrow> (case w of
         wrt_prov_clrctl \<Rightarrow> provself_clrctl s
       | wrt_prov_addr data \<Rightarrow> provself_setaddr data s
       | wrt_prov_ivi data \<Rightarrow> provself_setivi data s
       | wrt_prov_synctime data \<Rightarrow> provself_setsynctime data s
       | wrt_prov_netkey_id data \<Rightarrow> provself_setnetkeyid data s
       | wrt_prov_netkey_val data \<Rightarrow> provself_setnetkeyval data s
       | wrt_prov_netkey_done data \<Rightarrow> provself_setnetkeydone data s
       | wrt_prov_appkey_id key data \<Rightarrow> provself_setappkeyid key data s
       | wrt_prov_appkey_done key data \<Rightarrow> provself_setappkeydone key data s);
     if autoflush (prov_gen (jcfg s)) then json_cfg_flush E PROV_CFG_FILE s
     else Some (ec_success, s) }"

text \<open>\<open>json_cfg_write\<close> on the two writable files.\<close>

definition json_write_nodes :: "env \<Rightarrow> node_write \<Rightarrow> sys \<Rightarrow> (error_code_t \<times> sys) option" where
  "json_write_nodes E w s =
    (if root (nw_gen (jcfg s)) = None \<or> fp (nw_gen (jcfg s)) = None then Some (ec_json_null, s)
     else write_nodes E w s)"

definition json_write_prov :: "env \<Rightarrow> prov_write \<Rightarrow> sys \<Rightarrow> (error_code_t \<times> sys) option" where
  "json_write_prov E w s =
    (if root (prov_gen (jcfg s)) = None \<or> fp (prov_gen (jcfg s)) = None then Some (ec_json_null, s)
     else write_provself E w s)"

subsection \<open>Reading\<close>

text \<open>\<open>json_cfg_read\<close> with \<open>rdt_modified\<close>: \<open>stat\<close> on a missing file leaves \<open>st\<close> uninitialised.\<close>

definition read_modified :: "cfg_fd \<Rightarrow> sys \<Rightarrow> bool option" where
  "read_modified fd s =
    (case fp (gen_from_fd fd s) of
       None \<Rightarrow> Some True
     | Some path \<Rightarrow> (case disk s path of
         None \<Rightarrow> undef
       | Some (_, mtime) \<Rightarrow> Some (mtime > synctime (gen_from_fd fd s))))"

definition read_node_str :: "env \<Rightarrow> uuid \<Rightarrow> sys \<Rightarrow> (error_code_t + string) option" where
  "read_node_str E key s = do {
     obj \<leftarrow> find_node E key s;
     case obj of
       None \<Rightarrow> Some (Inl ec_not_exist)
     | Some p \<Rightarrow> do {
         r \<leftarrow> root (nw_gen (jcfg s)); j \<leftarrow> jget r p; Some (Inr (json_text E j)) } }"

subsection \<open>The node file as a store of fields\<close>

text \<open>
  The interface the configuration code relies on: a field of a node is written under the node's
  UUID, read back as written, and writing it changes no other field and no other node.
\<close>

locale field_store =
  fixes ok :: "'s \<Rightarrow> bool" and present :: "'s \<Rightarrow> 'u \<Rightarrow> bool" and writable :: "'k \<Rightarrow> bool"
    and rd :: "'s \<Rightarrow> 'u \<Rightarrow> 'k \<Rightarrow> 'v option" and wr :: "'u \<Rightarrow> 'k \<Rightarrow> 'v \<Rightarrow> 's \<Rightarrow> 's option"
  assumes wr_total: "ok s \<Longrightarrow> present s u \<Longrightarrow> writable k \<Longrightarrow> \<exists>s'. wr u k v s = Some s'"
    and wr_ok: "ok s \<Longrightarrow> present s u \<Longrightarrow> writable k \<Longrightarrow> wr u k v s = Some s' \<Longrightarrow>
        ok s' \<and> (\<forall>u'. present s' u' = present s u')"
    and rd_wr: "ok s \<Longrightarrow> present s u \<Longrightarrow> writable k \<Longrightarrow> wr u k v s = Some s' \<Longrightarrow>
        rd s' u' k' = (if u' = u \<and> k' = k then Some v else rd s u' k')"
begin

lemma wr_wr_total:
  assumes "ok s" and "present s u" and "writable k" and "writable k'"
  shows "\<exists>s1 s2. wr u k v s = Some s1 \<and> wr u k' v' s1 = Some s2 \<and> ok s2"
proof -
  obtain s1 where s1: "wr u k v s = Some s1" using wr_total assms by blast
  then have "ok s1" "present s1 u" using wr_ok [OF assms(1-3) s1] assms(2) by auto
  moreover then obtain s2 where "wr u k' v' s1 = Some s2" using wr_total assms(4) by blast
  ultimately show ?thesis using s1 wr_ok assms(4) by blast
qed

text \<open>Two fields written one after the other both hold.\<close>

lemma rd_wr_wr:
  assumes "ok s" and "present s u" and "writable k" and "writable k'"
    and "wr u k v s = Some s1" and "wr u k' v' s1 = Some s2"
  shows "rd s2 u' l = (if u' = u \<and> l = k' then Some v' else if u' = u \<and> l = k then Some v else rd s u' l)"
  using rd_wr [OF assms(1-3,5)] rd_wr [of s1 u k' v' s2 u' l] wr_ok [OF assms(1-3,5)] assms(2,4,6)
  by auto

text \<open>The last write wins.\<close>

lemma rd_wr_same:
  assumes "ok s" and "present s u" and "writable k"
    and "wr u k v s = Some s1" and "wr u k v' s1 = Some s2"
  shows "rd s2 u k = Some v'"
  using rd_wr_wr [OF assms(1-3,3-5), of u k] by simp

end

subsubsection \<open>Finding a node does not depend on the other fields\<close>

lemma find_node_from_Some:
  "find_node_from E u i xs = Some (Some k) \<Longrightarrow>
    i \<le> k \<and> k - i < length xs \<and> node_uuid E (xs ! (k - i)) = Some (Inr u)"
proof (induction E u i xs rule: find_node_from.induct)
  case (2 E u i n ns)
  obtain u' where u': "node_uuid E n = Some u'" using "2.prems" by (auto simp: bind_Some_conv)
  show ?case
  proof (cases "u' = Inr u")
    case True
    then show ?thesis using "2.prems" u' by simp
  next
    case False
    then have "find_node_from E u (Suc i) ns = Some (Some k)" using "2.prems" u' by simp
    then have "Suc i \<le> k \<and> k - Suc i < length ns \<and> node_uuid E (ns ! (k - Suc i)) = Some (Inr u)"
      using "2.IH" [OF u' False] by simp
    moreover then have "k - i = Suc (k - Suc i)" by linarith
    ultimately show ?thesis by (simp add: less_Suc_eq_le)
  qed
qed simp

lemma find_node_from_cong:
  "map (node_uuid E) xs = map (node_uuid E) ys \<Longrightarrow> find_node_from E u i xs = find_node_from E u i ys"
proof (induction xs arbitrary: ys i)
  case (Cons x xs)
  then obtain y ys' where "ys = y # ys'" "node_uuid E x = node_uuid E y"
    "map (node_uuid E) xs = map (node_uuid E) ys'" by (cases ys) auto
  then show ?case using Cons.IH by (cases "node_uuid E y") auto
qed simp

lemma node_uuid_obj_add:
  "obj_add n key v = Some n' \<Longrightarrow> key \<noteq> STR_UUID \<Longrightarrow> node_uuid E n' = node_uuid E n"
  by (simp add: node_uuid_def obj_get_obj_add)

lemma jupd_append: "jupd f j (p @ q) = jupd (\<lambda>c. jupd f c q) j p"
  by (induction j p rule: jget.induct) (auto split: option.splits)

subsubsection \<open>The store on the loaded file\<close>

text \<open>
  A node file that is open and complete: the first subnet's node array is reached from the root
  over a member other than \<open>SyncTime\<close>, its items are objects with a readable UUID, and saving works.
\<close>

definition nw_at :: "env \<Rightarrow> sys \<Rightarrow> json \<Rightarrow> string \<Rightarrow> jpath \<Rightarrow> json list \<Rightarrow> string \<Rightarrow> bool" where
  "nw_at E s r k q xs path \<longleftrightarrow>
    root (nw_gen (jcfg s)) = Some r \<and> fp (nw_gen (jcfg s)) = Some path
    \<and> autoflush (nw_gen (jcfg s)) \<and> save_ok E path
    \<and> (\<exists>sn sns. nw_subnets (jcfg s) = Some (sn # sns) \<and> sbn_nodes sn = Some (K k # q))
    \<and> k \<noteq> STR_SYNC_TIME \<and> jget r (K k # q) = Some (JArr xs)
    \<and> (\<forall>n \<in> set xs. (\<exists>kvs. n = JObj kvs) \<and> node_uuid E n \<noteq> None)"

definition nw_ok :: "env \<Rightarrow> sys \<Rightarrow> bool" where
  "nw_ok E s \<longleftrightarrow> (\<exists>r k q xs path. nw_at E s r k q xs path)"

definition node_present :: "env \<Rightarrow> sys \<Rightarrow> uuid \<Rightarrow> bool" where
  "node_present E s u \<longleftrightarrow> (\<exists>p. find_node E u s = Some (Some p))"

definition node_field :: "env \<Rightarrow> sys \<Rightarrow> uuid \<Rightarrow> string \<Rightarrow> json option" where
  "node_field E s u key =
    (case find_node E u s of
       Some (Some p) \<Rightarrow> do { r \<leftarrow> root (nw_gen (jcfg s)); n \<leftarrow> jget r p; obj_get n key }
     | _ \<Rightarrow> None)"

definition put_field :: "env \<Rightarrow> uuid \<Rightarrow> string \<Rightarrow> string \<Rightarrow> sys \<Rightarrow> (error_code_t \<times> sys) option" where
  "put_field E u key v s = do {
     (e, s) \<leftarrow> modify_node_field E u key v s;
     if autoflush (nw_gen (jcfg s)) \<and> e = ec_success
     then json_cfg_flush E NW_NODES_CFG_FILE s
     else Some (e, s) }"

definition store_field :: "env \<Rightarrow> uuid \<Rightarrow> string \<Rightarrow> string \<Rightarrow> sys \<Rightarrow> sys option" where
  "store_field E u key v s =
    (case put_field E u key v s of
       Some (e, s') \<Rightarrow> if e = ec_success then Some s' else None
     | None \<Rightarrow> None)"

definition node_text :: "env \<Rightarrow> sys \<Rightarrow> uuid \<Rightarrow> string \<Rightarrow> string option" where
  "node_text E s u key = (case node_field E s u key of Some (JStr v) \<Rightarrow> Some v | _ \<Rightarrow> None)"

lemma write_nodes_put_field:
  "write_nodes E (wrt_node_addr u a) s = put_field E u STR_ADDR (''0x'' @ uint16_tostr a) s"
  "write_nodes E (wrt_errbits u b) s = put_field E u STR_ERRBITS (''0x'' @ uint32_tostr b) s"
  "write_nodes E (wrt_node_func u f) s = put_field E u STR_FUNC (''0x'' @ uint8_tostr f) s"
  "write_nodes E (wrt_done u f) s = put_field E u STR_DONE (''0x'' @ uint8_tostr f) s"
  by (simp_all add: write_nodes_def put_field_def set_node_addr_def set_node_errbits_def
      set_node_func_def set_node_done_def)

lemma subnet0_nodes_at: "nw_at E s r k q xs path \<Longrightarrow> subnet0_nodes s = Some (Some (K k # q, xs))"
  by (auto simp: nw_at_def subnet0_nodes_def)

lemma find_node_at:
  "nw_at E s r k q xs path \<Longrightarrow>
    find_node E u s = map_option (map_option (\<lambda>i. K k # q @ [I i])) (find_node_from E u 0 xs)"
  by (cases "find_node_from E u 0 xs") (simp_all add: find_node_def subnet0_nodes_at)

lemma node_field_at:
  assumes at: "nw_at E s r k q xs path" and i: "find_node_from E u 0 xs = Some (Some i)"
  shows "node_field E s u key = obj_get (xs ! i) key"
proof -
  have "i < length xs" using find_node_from_Some [OF i] by simp
  moreover have "jget r (K k # q) = Some (JArr xs)" using at by (simp add: nw_at_def)
  ultimately have "jget r ((K k # q) @ [I i]) = Some (xs ! i)"
    unfolding jget_append by simp
  moreover have "root (nw_gen (jcfg s)) = Some r" using at by (simp add: nw_at_def)
  ultimately show ?thesis using i by (simp add: node_field_def find_node_at [OF at])
qed

lemma put_field_at:
  assumes at: "nw_at E s r k q xs path" and i: "find_node_from E u 0 xs = Some (Some i)"
    and key: "key \<noteq> STR_UUID"
  shows "\<exists>s' r' n'. put_field E u key v s = Some (ec_success, s') \<and> obj_add (xs ! i) key (JStr v) = Some n'
    \<and> nw_at E s' r' k q (xs[i := n']) path \<and> disk s' = (disk s)(path \<mapsto> (Some r', now E))
    \<and> s' = s\<lparr>jcfg := jcfg s', disk := disk s'\<rparr>
    \<and> synctime (nw_gen (jcfg s')) = uint (word_of_int (now E) :: u32)"
proof -
  have ilt: "i < length xs" using find_node_from_Some [OF i] by simp
  have r: "root (nw_gen (jcfg s)) = Some r" "jget r (K k # q) = Some (JArr xs)" "k \<noteq> STR_SYNC_TIME"
    and items: "\<forall>n \<in> set xs. (\<exists>kvs. n = JObj kvs) \<and> node_uuid E n \<noteq> None"
    using at by (auto simp: nw_at_def)
  obtain kvs where "xs ! i = JObj kvs" using items ilt by (meson nth_mem)
  then obtain n' where n': "obj_add (xs ! i) key (JStr v) = Some n'" "\<exists>kvs. n' = JObj kvs" by simp
  let ?p = "K k # q"
  have "jupd (\<lambda>c. jupd (\<lambda>obj. obj_add obj key (JStr v)) c [I i]) r ?p \<noteq> None"
    using jupd_total [OF r(2), of "\<lambda>c. jupd (\<lambda>obj. obj_add obj key (JStr v)) c [I i]"] ilt n' by auto
  then obtain r1 where r1: "jupd (\<lambda>obj. obj_add obj key (JStr v)) r (?p @ [I i]) = Some r1"
    unfolding jupd_append by auto
  then have g1: "jget r1 ?p = Some (JArr (xs[i := n']))"
    using jget_jupd [OF _ r(2)] ilt n' unfolding jupd_append by fastforce
  then obtain kv1 where "r1 = JObj kv1" by (cases r1) auto
  then obtain r2 where r2: "obj_add r1 STR_SYNC_TIME (JStr (''0x'' @ uint32_tostr (word_of_int (now E)))) = Some r2"
    by simp
  have g2: "jget r2 ?p = Some (JArr (xs[i := n']))"
    using g1 r(3) by (simp add: obj_get_obj_add [OF r2])
  have uuid': "node_uuid E n' = node_uuid E (xs ! i)" using node_uuid_obj_add [OF n'(1) key] .
  have items': "\<forall>n \<in> set (xs[i := n']). (\<exists>kvs. n = JObj kvs) \<and> node_uuid E n \<noteq> None"
  proof
    fix n
    assume "n \<in> set (xs[i := n'])"
    then consider "n = n'" | "n \<in> set xs" using set_update_subset_insert [of xs i n'] by blast
    then show "(\<exists>kvs. n = JObj kvs) \<and> node_uuid E n \<noteq> None"
    proof cases
      case 1
      have "node_uuid E (xs ! i) \<noteq> None" using items ilt by (metis nth_mem)
      then show ?thesis using 1 uuid' n'(2) by simp
    next
      case 2
      then show ?thesis using items by blast
    qed
  qed
  have find: "find_node E u s = Some (Some (?p @ [I i]))" using i by (simp add: find_node_at [OF at])
  define s' where "s' = s\<lparr>jcfg := (jcfg s)\<lparr>nw_gen := (nw_gen (jcfg s))\<lparr>root := Some r2,
       synctime := uint (word_of_int (now E) :: u32)\<rparr>\<rparr>, disk := (disk s)(path \<mapsto> (Some r2, now E))\<rparr>"
  have "put_field E u key v s = Some (ec_success, s')"
    using at r1 r2 find unfolding nw_at_def s'_def
    by (simp add: put_field_def modify_node_field_def file_replace_def gen_from_fd_def set_gen_def
        kv_replace_def json_cfg_flush_def Let_def)
  moreover have "nw_at E s' r2 k q (xs[i := n']) path"
    using at g2 items' unfolding nw_at_def s'_def by simp
  moreover have "disk s' = (disk s)(path \<mapsto> (Some r2, now E))" "s' = s\<lparr>jcfg := jcfg s', disk := disk s'\<rparr>"
    "synctime (nw_gen (jcfg s')) = uint (word_of_int (now E) :: u32)"
    unfolding s'_def by simp_all
  ultimately show ?thesis using n'(1) by blast
qed

lemma find_node_from_upd:
  assumes "i < length xs" and "node_uuid E n' = node_uuid E (xs ! i)"
  shows "find_node_from E u j (xs[i := n']) = find_node_from E u j xs"
  by (rule find_node_from_cong) (simp add: map_update assms(2), metis assms(1) list_update_id length_map nth_map)

lemma nw_ok_present:
  assumes "nw_ok E s" and "node_present E s u"
  obtains r k q xs path i where "nw_at E s r k q xs path" and "find_node_from E u 0 xs = Some (Some i)"
proof -
  obtain r k q xs path where at: "nw_at E s r k q xs path" using assms(1) by (auto simp: nw_ok_def)
  moreover obtain i where "find_node_from E u 0 xs = Some (Some i)"
    using assms(2) by (auto simp: node_present_def find_node_at [OF at])
  ultimately show ?thesis by (rule that)
qed

lemma store_field_at:
  assumes "nw_ok E s" and "node_present E s u" and "key \<noteq> STR_UUID"
  shows "\<exists>s'. store_field E u key v s = Some s' \<and> nw_ok E s'
    \<and> (\<forall>u'. find_node E u' s' = find_node E u' s)
    \<and> (\<forall>u' key'. node_text E s' u' key' =
        (if u' = u \<and> key' = key then Some v else node_text E s u' key'))
    \<and> s' = s\<lparr>jcfg := jcfg s', disk := disk s'\<rparr>"
proof -
  obtain r k q xs path i where at: "nw_at E s r k q xs path"
    and i: "find_node_from E u 0 xs = Some (Some i)"
    using nw_ok_present [OF assms(1,2)] .
  obtain s' r' n' where s': "put_field E u key v s = Some (ec_success, s')"
    and n': "obj_add (xs ! i) key (JStr v) = Some n'" and at': "nw_at E s' r' k q (xs[i := n']) path"
    and fr: "s' = s\<lparr>jcfg := jcfg s', disk := disk s'\<rparr>"
    using put_field_at [OF at i assms(3)] by blast
  have ilt: "i < length xs" "node_uuid E (xs ! i) = Some (Inr u)" using find_node_from_Some [OF i] by simp_all
  have same: "find_node_from E u' 0 (xs[i := n']) = find_node_from E u' 0 xs" for u'
    by (rule find_node_from_upd [OF ilt(1) node_uuid_obj_add [OF n' assms(3)]])
  have find: "find_node E u' s' = find_node E u' s" for u'
    by (simp add: find_node_at [OF at] find_node_at [OF at'] same)
  have "node_text E s' u' key' = (if u' = u \<and> key' = key then Some v else node_text E s u' key')" for u' key'
  proof (cases "\<exists>j. find_node_from E u' 0 xs = Some (Some j)")
    case True
    then obtain j where j: "find_node_from E u' 0 xs = Some (Some j)" by blast
    then have "node_uuid E (xs ! j) = Some (Inr u')" "j < length xs" using find_node_from_Some by fastforce+
    moreover have "j = i" if "u' = u" using i j that by simp
    ultimately show ?thesis
      using ilt n' j same by (auto simp: node_text_def node_field_at [OF at] node_field_at [OF at']
          nth_list_update obj_get_obj_add)
  next
    case False
    then have "u' \<noteq> u" using i by blast
    moreover have "find_node_from E u' 0 xs = None \<or> find_node_from E u' 0 xs = Some None"
      using False by (metis option.exhaust)
    ultimately show ?thesis
      by (auto simp: node_text_def node_field_def find_node_at [OF at] find_node_at [OF at'] same)
  qed
  moreover have "store_field E u key v s = Some s'" using s' by (simp add: store_field_def)
  moreover have "nw_ok E s'" using at' unfolding nw_ok_def by blast
  ultimately show ?thesis using find fr by blast
qed

interpretation nf: field_store "nw_ok E" "node_present E" "\<lambda>key. key \<noteq> STR_UUID" "node_text E" "store_field E"
  for E :: env
proof unfold_locales
  fix s u k v
  assume *: "nw_ok E s" "node_present E s u" "k \<noteq> STR_UUID"
  show "\<exists>s'. store_field E u k v s = Some s'" using store_field_at [OF *] by blast
  fix s'
  assume "store_field E u k v s = Some s'"
  with store_field_at [OF *, of v]
  show "nw_ok E s' \<and> (\<forall>u'. node_present E s' u' = node_present E s u')"
    and "node_text E s' u' k' = (if u' = u \<and> k' = k then Some v else node_text E s u' k')" for u' k'
    by (auto simp: node_present_def)
qed

text \<open>What \<open>json_write_nodes\<close> does on an open and complete node file.\<close>

lemma nw_ok_open: "nw_ok E s \<Longrightarrow> root (nw_gen (jcfg s)) \<noteq> None \<and> fp (nw_gen (jcfg s)) \<noteq> None"
  by (auto simp: nw_ok_def nw_at_def)

lemma put_field_store:
  assumes "nw_ok E s" and "node_present E s u" and "key \<noteq> STR_UUID"
  shows "\<exists>s'. put_field E u key v s = Some (ec_success, s') \<and> store_field E u key v s = Some s'
    \<and> nw_ok E s' \<and> (\<forall>u'. node_present E s' u' = node_present E s u')
    \<and> s' = s\<lparr>jcfg := jcfg s', disk := disk s'\<rparr>"
proof -
  obtain s' where s': "store_field E u key v s = Some s'" "s' = s\<lparr>jcfg := jcfg s', disk := disk s'\<rparr>"
    using store_field_at [OF assms] by blast
  then have "put_field E u key v s = Some (ec_success, s')"
    by (auto simp: store_field_def split: option.splits if_splits)
  with s' show ?thesis using nf.wr_ok [OF assms s'(1)] by blast
qed

text \<open>A stored field is on disk: the file is the one in memory, with the time of the write.\<close>

lemma store_field_file:
  assumes "nw_ok E s" and "node_present E s u" and "key \<noteq> STR_UUID" and "store_field E u key v s = Some s'"
  shows "\<exists>path. fp (nw_gen (jcfg s')) = Some path \<and> disk s' path = Some (root (nw_gen (jcfg s')), now E)
    \<and> synctime (nw_gen (jcfg s')) = uint (word_of_int (now E) :: u32)"
proof -
  obtain r k q xs path i where at: "nw_at E s r k q xs path"
    and i: "find_node_from E u 0 xs = Some (Some i)"
    using nw_ok_present [OF assms(1,2)] .
  obtain t r' n' where "put_field E u key v s = Some (ec_success, t)" "nw_at E t r' k q (xs[i := n']) path"
    "disk t = (disk s)(path \<mapsto> (Some r', now E))"
    "synctime (nw_gen (jcfg t)) = uint (word_of_int (now E) :: u32)"
    using put_field_at [OF at i assms(3)] by blast
  moreover have "t = s'" using calculation(1) assms(4) by (simp add: store_field_def)
  ultimately show ?thesis by (auto simp: nw_at_def)
qed

end
