(* ===== verification/GenericParser.thy ===== *)
theory GenericParser
  imports JsonWrite
begin

text \<open>
  \<open>cfg/parser/generic_parser.c\<close>: the operations on a node or on the provisioner that keep the
  database and the configuration file in step. \<open>gp.write\<close> and \<open>gp.read\<close> are the JSON functions,
  which \<open>gp_init(cft_json, NULL)\<close> installs at start-up before anything here runs. Loading a file
  (\<open>load_cfg_file\<close>, \<open>cfg_clrctl\<close>) is with the loaders.
\<close>

definition with_db :: "(cfgdb_t \<Rightarrow> (error_code_t \<times> cfgdb_t) option) \<Rightarrow> sys \<Rightarrow> (error_code_t \<times> sys) option" where
  "with_db f s = do { (e, d) \<leftarrow> f (db s); Some (e, s\<lparr>db := d\<rparr>) }"

subsection \<open>The provisioner's own configuration\<close>

definition provset_addr :: "env \<Rightarrow> u16 \<Rightarrow> sys \<Rightarrow> (error_code_t \<times> sys) option" where
  "provset_addr E addr s = json_write_prov E (wrt_prov_addr addr) s"

definition provset_ivi :: "env \<Rightarrow> u32 \<Rightarrow> sys \<Rightarrow> (error_code_t \<times> sys) option" where
  "provset_ivi E ivi s = json_write_prov E (wrt_prov_ivi ivi) s"

definition provset_netkeyid :: "env \<Rightarrow> u16 \<Rightarrow> sys \<Rightarrow> (error_code_t \<times> sys) option" where
  "provset_netkeyid E kid s = json_write_prov E (wrt_prov_netkey_id kid) s"

definition provset_netkeyval :: "env \<Rightarrow> u8 list \<Rightarrow> sys \<Rightarrow> (error_code_t \<times> sys) option" where
  "provset_netkeyval E val s = json_write_prov E (wrt_prov_netkey_val val) s"

definition provset_netkeydone :: "env \<Rightarrow> u8 \<Rightarrow> sys \<Rightarrow> (error_code_t \<times> sys) option" where
  "provset_netkeydone E d s = json_write_prov E (wrt_prov_netkey_done d) s"

definition provset_appkeyid :: "env \<Rightarrow> u16 \<Rightarrow> u16 \<Rightarrow> sys \<Rightarrow> (error_code_t \<times> sys) option" where
  "provset_appkeyid E refid kid s = json_write_prov E (wrt_prov_appkey_id refid kid) s"

definition provset_appkeydone :: "env \<Rightarrow> u16 \<Rightarrow> u8 \<Rightarrow> sys \<Rightarrow> (error_code_t \<times> sys) option" where
  "provset_appkeydone E refid d s = json_write_prov E (wrt_prov_appkey_done refid d) s"

subsection \<open>Nodes\<close>

definition backlog_dev :: "env \<Rightarrow> uuid \<Rightarrow> sys \<Rightarrow> (error_code_t \<times> sys) option" where
  "backlog_dev E uuid s = json_write_nodes E (wrt_add_node uuid) s"

text \<open>\<open>file_modified\<close>; the JSON reader never fails on \<open>rdt_modified\<close>, so -1 is not returned.\<close>

definition file_modified :: "cfg_fd \<Rightarrow> sys \<Rightarrow> bool option" where
  "file_modified fd s = read_modified fd s"

definition upl_nodeset_addr :: "env \<Rightarrow> uuid \<Rightarrow> u16 \<Rightarrow> sys \<Rightarrow> (error_code_t \<times> sys) option" where
  "upl_nodeset_addr E uuid addr s = do {
     (e, s) \<leftarrow> json_write_nodes E (wrt_node_addr uuid addr) s;
     let n = cfgdb_unprov_dev_get uuid (db s);
     (_, s) \<leftarrow> with_db (cfgdb_unpl_remove n False) s;
     r \<leftarrow> n;
     s \<leftarrow> nassign r (\<lambda>nd. nd\<lparr>n_addr := addr\<rparr>) s;
     (_, s) \<leftarrow> with_db (cfgdb_nodes_add n) s;
     Some (e, s) }"

definition nodes_rm :: "env \<Rightarrow> u16 \<Rightarrow> sys \<Rightarrow> (error_code_t \<times> sys) option" where
  "nodes_rm E addr s = do {
     let n = cfgdb_node_get addr (db s);
     (_, s) \<leftarrow> with_db (cfgdb_nodes_remove n False) s;
     r \<leftarrow> n;
     s \<leftarrow> nassign r (\<lambda>nd. nd\<lparr>n_addr := 0\<rparr>) s;
     (_, s) \<leftarrow> with_db (cfgdb_unpl_add n) s;
     nd \<leftarrow> nderef s r;
     json_write_nodes E (wrt_node_addr (n_uuid nd) (n_addr nd)) s }"

definition nodes_bl :: "env \<Rightarrow> u16 \<Rightarrow> sys \<Rightarrow> (error_code_t \<times> sys) option" where
  "nodes_bl E addr s = do {
     let n = cfgdb_node_get addr (db s);
     (_, s) \<leftarrow> with_db (cfgdb_nodes_remove n False) s;
     r \<leftarrow> n;
     s \<leftarrow> nassign r (\<lambda>nd. nd\<lparr>n_addr := 0, n_done := 0\<rparr>) s;
     (_, s) \<leftarrow> with_db (cfgdb_unpl_add n) s;
     nd \<leftarrow> nderef s r;
     (_, s) \<leftarrow> json_write_nodes E (wrt_done (n_uuid nd) (n_done nd)) s;
     json_write_nodes E (wrt_node_addr (n_uuid nd) (n_addr nd)) s }"

definition nodeset_errbits :: "env \<Rightarrow> u16 \<Rightarrow> u32 \<Rightarrow> sys \<Rightarrow> (error_code_t \<times> sys) option" where
  "nodeset_errbits E addr eb s = do {
     r \<leftarrow> cfgdb_node_get addr (db s);
     s \<leftarrow> nassign r (\<lambda>nd. nd\<lparr>n_err := eb\<rparr>) s;
     nd \<leftarrow> nderef s r;
     json_write_nodes E (wrt_errbits (n_uuid nd) eb) s }"

definition nodeset_done :: "env \<Rightarrow> u16 \<Rightarrow> u8 \<Rightarrow> sys \<Rightarrow> (error_code_t \<times> sys) option" where
  "nodeset_done E addr d s = do {
     r \<leftarrow> cfgdb_node_get addr (db s);
     s \<leftarrow> nassign r (\<lambda>nd. nd\<lparr>n_done := d\<rparr>) s;
     nd \<leftarrow> nderef s r;
     json_write_nodes E (wrt_done (n_uuid nd) d) s }"

definition nodeset_func :: "env \<Rightarrow> u16 \<Rightarrow> u8 \<Rightarrow> sys \<Rightarrow> (error_code_t \<times> sys) option" where
  "nodeset_func E addr func s = do {
     r \<leftarrow> cfgdb_node_get addr (db s);
     s \<leftarrow> nassign r (\<lambda>nd. nd\<lparr>n_func := func\<rparr>) s;
     nd \<leftarrow> nderef s r;
     json_write_nodes E (wrt_node_func (n_uuid nd) func) s }"

text \<open>The text of the node in the file; \<open>v\<close> is NULL when the file has no such node.\<close>

definition nodeget_cfgstr :: "env \<Rightarrow> u16 \<Rightarrow> sys \<Rightarrow> string option option" where
  "nodeget_cfgstr E addr s = do {
     r \<leftarrow> cfgdb_node_get addr (db s);
     nd \<leftarrow> nderef s r;
     v \<leftarrow> read_node_str E (n_uuid nd) s;
     Some (case v of Inl _ \<Rightarrow> None | Inr v \<Rightarrow> Some v) }"

definition nodes_rmall :: "env \<Rightarrow> sys \<Rightarrow> (error_code_t \<times> sys) option" where
  "nodes_rmall E s = json_write_nodes E wrt_node_rmall s"

definition nodes_rmblclr :: "env \<Rightarrow> sys \<Rightarrow> (error_code_t \<times> sys) option" where
  "nodes_rmblclr E s = json_write_nodes E wrt_node_rmblclr s"

subsection \<open>Database and file stay in step\<close>

lemma with_db_Some: "f (db s) = Some (e, d) \<Longrightarrow> with_db f s = Some (e, s\<lparr>db := d\<rparr>)"
  by (simp add: with_db_def)

lemma nassign_Some:
  "heap (db s) r = Some n \<Longrightarrow> nassign r f s = Some (s\<lparr>db := (db s)\<lparr>heap := (heap (db s))(r \<mapsto> f n)\<rparr>\<rparr>)"
  by (simp add: nassign_def)

lemma json_write_nodes_ok:
  assumes "nw_ok E s" and "node_present E s u"
  shows "\<exists>s'. json_write_nodes E (wrt_node_addr u a) s = Some (ec_success, s')
      \<and> store_field E u STR_ADDR (''0x'' @ uint16_tostr a) s = Some s' \<and> nw_ok E s'
      \<and> (\<forall>u'. node_present E s' u' = node_present E s u') \<and> s' = s\<lparr>jcfg := jcfg s', disk := disk s'\<rparr>"
    and "\<exists>s'. json_write_nodes E (wrt_errbits u b) s = Some (ec_success, s')
      \<and> store_field E u STR_ERRBITS (''0x'' @ uint32_tostr b) s = Some s' \<and> nw_ok E s'
      \<and> (\<forall>u'. node_present E s' u' = node_present E s u') \<and> s' = s\<lparr>jcfg := jcfg s', disk := disk s'\<rparr>"
    and "\<exists>s'. json_write_nodes E (wrt_node_func u f) s = Some (ec_success, s')
      \<and> store_field E u STR_FUNC (''0x'' @ uint8_tostr f) s = Some s' \<and> nw_ok E s'
      \<and> (\<forall>u'. node_present E s' u' = node_present E s u') \<and> s' = s\<lparr>jcfg := jcfg s', disk := disk s'\<rparr>"
    and "\<exists>s'. json_write_nodes E (wrt_done u g) s = Some (ec_success, s')
      \<and> store_field E u STR_DONE (''0x'' @ uint8_tostr g) s = Some s' \<and> nw_ok E s'
      \<and> (\<forall>u'. node_present E s' u' = node_present E s u') \<and> s' = s\<lparr>jcfg := jcfg s', disk := disk s'\<rparr>"
  unfolding json_write_nodes_def write_nodes_put_field
  using put_field_store [OF assms] nw_ok_open [OF assms(1)] by simp_all

text \<open>The file part of the state does not depend on the database, and the other way round.\<close>

lemma nw_ok_db [simp]: "nw_ok E (s\<lparr>db := d\<rparr>) = nw_ok E s"
  by (simp add: nw_ok_def nw_at_def)

lemma subnet0_nodes_db [simp]: "subnet0_nodes (s\<lparr>db := d\<rparr>) = subnet0_nodes s"
  by (simp add: subnet0_nodes_def cong: option.case_cong)

lemma find_node_db [simp]: "find_node E u (s\<lparr>db := d\<rparr>) = find_node E u s"
  by (simp add: find_node_def)

lemma node_present_db [simp]: "node_present E (s\<lparr>db := d\<rparr>) u = node_present E s u"
  by (simp add: node_present_def)

lemma node_text_db [simp]: "node_text E (s\<lparr>db := d\<rparr>) u k = node_text E s u k"
  by (simp add: node_text_def node_field_def cong: option.case_cong)

lemma uint16_tostr_0: "''0x'' @ uint16_tostr 0 = ''0x0000''"
  by code_simp

lemma db_move_to_upl_wf:
  assumes wf: "db_wf d" and r: "g_tree_lookup (nodes d) a = Some r" and n: "heap d r = Some n"
    and new: "g_tree_lookup (unprov_devs d) (n_uuid n) = None"
    and n': "n_addr n' = 0" "n_uuid n' = n_uuid n"
  shows "db_wf (d\<lparr>nodes := g_tree_remove (nodes d) a, heap := (heap d)(r \<mapsto> n'),
    unprov_devs := g_tree_insert (unprov_devs d) (n_uuid n) r\<rparr>)"
proof -
  have a: "n_addr n = a" "a \<noteq> 0" using db_wf_nodesD [OF wf r] n by auto
  have notin: "g_tree_lookup (unprov_devs d) u \<noteq> Some r" "g_tree_lookup (backlog d) u \<noteq> Some r" for u
    using wf n a unfolding db_wf_def by force+
  have uniq: "b = a" if "g_tree_lookup (nodes d) b = Some r" for b
    using db_wf_nodesD [OF wf that] n a by auto
  show ?thesis
    using wf n' notin uniq gt.ran_insert [of "unprov_devs d" "n_uuid n" r] unfolding db_wf_def
    by (auto simp: gt.inv_insert gt.inv_remove gt.lookup_insert gt.lookup_remove ran_def)
qed

lemma db_move_to_nodes_wf:
  assumes wf: "db_wf d" and r: "g_tree_lookup (unprov_devs d) u = Some r" and n: "heap d r = Some n"
    and new: "g_tree_lookup (nodes d) a = None" and a: "a \<noteq> 0"
    and n': "n_addr n' = a"
  shows "db_wf (d\<lparr>unprov_devs := g_tree_remove (unprov_devs d) u, heap := (heap d)(r \<mapsto> n'),
    nodes := g_tree_insert (nodes d) a r\<rparr>)"
proof -
  have u: "n_uuid n = u" "n_addr n = 0" using db_wf_uplD [OF wf r] n by auto
  have notin: "g_tree_lookup (nodes d) b \<noteq> Some r" for b
    using wf n u unfolding db_wf_def by force
  have "r \<in> ran (g_tree_lookup (unprov_devs d))" using r by (auto simp: ran_def)
  then have notin2: "g_tree_lookup (backlog d) v \<noteq> Some r" for v
    using wf unfolding db_wf_def by (auto simp: ran_def)
  have uniq: "v = u" if "g_tree_lookup (unprov_devs d) v = Some r" for v
    using db_wf_uplD [OF wf that] n u by auto
  show ?thesis
    using wf a n' notin notin2 uniq unfolding db_wf_def
    by (auto simp: gt.inv_insert gt.inv_remove gt.lookup_insert gt.lookup_remove ran_def split: if_splits)
qed

text \<open>Removing a node from the network: it becomes an unprovisioned device again, in both places.\<close>

lemma nodes_rm_spec:
  assumes wf: "db_wf (db s)" and r: "cfgdb_node_get addr (db s) = Some r"
    and n: "heap (db s) r = Some n" and new: "cfgdb_unprov_dev_get (n_uuid n) (db s) = None"
    and nwf: "nw_ok E s" "node_present E s (n_uuid n)"
  shows "\<exists>s'. nodes_rm E addr s = Some (ec_success, s') \<and> db_wf (db s') \<and> nw_ok E s'
    \<and> cfgdb_node_get addr (db s') = None \<and> cfgdb_unprov_dev_get (n_uuid n) (db s') = Some r
    \<and> heap (db s') r = Some (n\<lparr>n_addr := 0\<rparr>)
    \<and> (\<forall>u k. node_text E s' u k =
          (if u = n_uuid n \<and> k = STR_ADDR then Some ''0x0000'' else node_text E s u k))"
proof -
  have init: "db_initialized (db s)" using wf by (rule db_wf_initialized)
  have r': "g_tree_lookup (nodes (db s)) addr = Some r" using r init by (simp add: cfgdb_node_get_def)
  have new': "g_tree_lookup (unprov_devs (db s)) (n_uuid n) = None"
    using new init by (simp add: cfgdb_unprov_dev_get_def)
  have addr: "n_addr n = addr" "addr \<noteq> 0" using db_wf_nodesD [OF wf r'] n by auto
  let ?d = "(db s)\<lparr>nodes := g_tree_remove (nodes (db s)) addr, heap := (heap (db s))(r \<mapsto> n\<lparr>n_addr := 0\<rparr>),
      unprov_devs := g_tree_insert (unprov_devs (db s)) (n_uuid n) r\<rparr>"
  have wf': "db_wf ?d" by (rule db_move_to_upl_wf [OF wf r' n new']) simp_all
  obtain s' where s': "json_write_nodes E (wrt_node_addr (n_uuid n) 0) (s\<lparr>db := ?d\<rparr>) = Some (ec_success, s')"
    and st: "store_field E (n_uuid n) STR_ADDR (''0x'' @ uint16_tostr 0) (s\<lparr>db := ?d\<rparr>) = Some s'"
    and ok: "nw_ok E s'" and fr: "s' = s\<lparr>db := ?d\<rparr>\<lparr>jcfg := jcfg s', disk := disk s'\<rparr>"
    using json_write_nodes_ok(1) [of E "s\<lparr>db := ?d\<rparr>" "n_uuid n" 0] nwf by auto
  have run: "nodes_rm E addr s = Some (ec_success, s')"
    using s' r r' n addr init new'
    by (simp add: nodes_rm_def with_db_def cfgdb_nodes_remove_spec nassign_def nderef_def cfgdb_unpl_add_new)
  have "db s' = ?d" by (subst fr) simp
  moreover have "node_text E s' u k =
      (if u = n_uuid n \<and> k = STR_ADDR then Some ''0x0000'' else node_text E s u k)" for u k
    using nf.rd_wr [OF _ _ _ st, of u k] nwf by (simp add: uint16_tostr_0 [simplified])
  ultimately show ?thesis
    using run wf' ok init
    by (simp add: cfgdb_node_get_def cfgdb_unprov_dev_get_def gt.lookup_remove gt.lookup_insert)
qed

text \<open>
  Provisioning a device: with a template, it moves from the unprovisioned devices to the nodes.
\<close>

lemma upl_nodeset_addr_spec:
  assumes wf: "db_wf (db s)" and r: "cfgdb_unprov_dev_get u (db s) = Some r"
    and n: "heap (db s) r = Some n" and tmpl: "n_tmpl n = Some t" "t \<noteq> 0"
    and new: "cfgdb_node_get addr (db s) = None" and addr: "addr \<noteq> 0"
    and nwf: "nw_ok E s" "node_present E s u"
  shows "\<exists>s'. upl_nodeset_addr E u addr s = Some (ec_success, s') \<and> db_wf (db s') \<and> nw_ok E s'
    \<and> cfgdb_unprov_dev_get u (db s') = None \<and> cfgdb_node_get addr (db s') = Some r
    \<and> heap (db s') r = Some (n\<lparr>n_addr := addr\<rparr>)
    \<and> (\<forall>u' k. node_text E s' u' k =
          (if u' = u \<and> k = STR_ADDR then Some (''0x'' @ uint16_tostr addr) else node_text E s u' k))"
proof -
  have init: "db_initialized (db s)" using wf by (rule db_wf_initialized)
  have r': "g_tree_lookup (unprov_devs (db s)) u = Some r"
    using r init by (simp add: cfgdb_unprov_dev_get_def)
  have new': "g_tree_lookup (nodes (db s)) addr = None" using new init by (simp add: cfgdb_node_get_def)
  have nd: "n_uuid n = u" "n_addr n = 0" using db_wf_uplD [OF wf r'] n by auto
  obtain s1 where s1: "json_write_nodes E (wrt_node_addr u addr) s = Some (ec_success, s1)"
    and st: "store_field E u STR_ADDR (''0x'' @ uint16_tostr addr) s = Some s1"
    and ok: "nw_ok E s1" and fr: "s1 = s\<lparr>jcfg := jcfg s1, disk := disk s1\<rparr>"
    using json_write_nodes_ok(1) [OF nwf] by blast
  have db1: "db s1 = db s" by (subst fr) simp
  let ?d = "(db s)\<lparr>unprov_devs := g_tree_remove (unprov_devs (db s)) u,
      heap := (heap (db s))(r \<mapsto> n\<lparr>n_addr := addr\<rparr>), nodes := g_tree_insert (nodes (db s)) addr r\<rparr>"
  have wf': "db_wf ?d" by (rule db_move_to_nodes_wf [OF wf r' n new' addr]) simp
  have "upl_nodeset_addr E u addr s = Some (ec_success, s1\<lparr>db := ?d\<rparr>)"
    using s1 db1 r r' n nd tmpl addr init new'
    by (simp add: upl_nodeset_addr_def with_db_def nassign_def db_ops)
  moreover have "node_text E s1 u' k =
      (if u' = u \<and> k = STR_ADDR then Some (''0x'' @ uint16_tostr addr) else node_text E s u' k)" for u' k
    using nf.rd_wr [OF nwf _ st, of u' k] by simp
  ultimately show ?thesis
    using wf' ok init
    by (simp add: cfgdb_node_get_def cfgdb_unprov_dev_get_def gt.lookup_remove gt.lookup_insert)
qed

text \<open>
  Without a template, the removal looks for the device in the backlog, and the device stays filed
  as unprovisioned next to its entry as a node.
\<close>

lemma upl_nodeset_addr_untemplated:
  assumes wf: "db_wf (db s)" and r: "cfgdb_unprov_dev_get u (db s) = Some r"
    and n: "heap (db s) r = Some n" and tmpl: "n_tmpl n = None"
    and new: "cfgdb_node_get addr (db s) = None" and addr: "addr \<noteq> 0"
    and nwf: "nw_ok E s" "node_present E s u"
  shows "\<exists>s'. upl_nodeset_addr E u addr s = Some (ec_success, s')
    \<and> cfgdb_unprov_dev_get u (db s') = Some r \<and> cfgdb_node_get addr (db s') = Some r
    \<and> \<not> db_wf (db s')"
proof -
  have init: "db_initialized (db s)" using wf by (rule db_wf_initialized)
  have r': "g_tree_lookup (unprov_devs (db s)) u = Some r"
    using r init by (simp add: cfgdb_unprov_dev_get_def)
  have new': "g_tree_lookup (nodes (db s)) addr = None" using new init by (simp add: cfgdb_node_get_def)
  have nd: "n_uuid n = u" "n_addr n = 0" using db_wf_uplD [OF wf r'] n by auto
  obtain s1 where s1: "json_write_nodes E (wrt_node_addr u addr) s = Some (ec_success, s1)"
    and fr: "s1 = s\<lparr>jcfg := jcfg s1, disk := disk s1\<rparr>"
    using json_write_nodes_ok(1) [OF nwf] by blast
  have db1: "db s1 = db s" by (subst fr) simp
  let ?d = "(db s)\<lparr>backlog := g_tree_remove (backlog (db s)) u,
      heap := (heap (db s))(r \<mapsto> n\<lparr>n_addr := addr\<rparr>), nodes := g_tree_insert (nodes (db s)) addr r\<rparr>"
  have "upl_nodeset_addr E u addr s = Some (ec_success, s1\<lparr>db := ?d\<rparr>)"
    using s1 db1 r r' n nd tmpl addr init new'
    by (simp add: upl_nodeset_addr_def with_db_def nassign_def db_ops)
  moreover have "\<not> db_wf ?d" using r' addr unfolding db_wf_def by auto
  ultimately show ?thesis
    using init r' by (simp add: cfgdb_node_get_def cfgdb_unprov_dev_get_def gt.lookup_insert)
qed

end
