(* ===== verification/Stat.thy ===== *)
theory Stat
  imports GenericParser
begin

text \<open>
  \<open>mng/stat.c\<close>: the statistics of a synchronisation, kept for the report at its end. The counters
  are 32-bit and wrap.
\<close>

definition upd_stat :: "(stat_t \<Rightarrow> stat_t) \<Rightarrow> sys \<Rightarrow> sys" where
  "upd_stat f s = s\<lparr>stat := f (stat s)\<rparr>"

definition mt_started :: "env \<Rightarrow> measure_time_t" where
  "mt_started E = \<lparr>mt_state = rc_start, mt_start = now E, mt_end = 0\<rparr>"

definition mt_finish :: "env \<Rightarrow> measure_time_t \<Rightarrow> measure_time_t" where
  "mt_finish E m = (if mt_state m = rc_idle then m else m\<lparr>mt_state := rc_end, mt_end := now E\<rparr>)"

definition stat_reset :: "sys \<Rightarrow> sys" where
  "stat_reset s = upd_stat (\<lambda>_. zero_stat) s"

definition stat_add_start :: "env \<Rightarrow> sys \<Rightarrow> sys" where
  "stat_add_start E s =
    upd_stat (\<lambda>st. if mt_state (sa_time (st_add st)) \<noteq> rc_idle then st
                    else st\<lparr>st_add := zero_stat_add\<lparr>sa_time := mt_started E\<rparr>\<rparr>) s"

definition stat_add_end :: "env \<Rightarrow> sys \<Rightarrow> sys" where
  "stat_add_end E s = upd_stat (\<lambda>st. st\<lparr>st_add := (st_add st)\<lparr>sa_time := mt_finish E (sa_time (st_add st))\<rparr>\<rparr>) s"

definition stat_add_one_dev :: "sys \<Rightarrow> sys" where
  "stat_add_one_dev s = upd_stat (\<lambda>st. st\<lparr>st_add := (st_add st)\<lparr>sa_dev_cnt := sa_dev_cnt (st_add st) + 1\<rparr>\<rparr>) s"

definition stat_add_failed :: "sys \<Rightarrow> sys" where
  "stat_add_failed s =
    upd_stat (\<lambda>st. st\<lparr>st_add := (st_add st)\<lparr>sa_fail_times := sa_fail_times (st_add st) + 1\<rparr>\<rparr>) s"

definition stat_config_start :: "env \<Rightarrow> sys \<Rightarrow> sys" where
  "stat_config_start E s =
    upd_stat (\<lambda>st. if mt_state (sc_time (st_config st)) \<noteq> rc_idle then st
                    else st\<lparr>st_config := zero_stat_config\<lparr>sc_time := mt_started E\<rparr>\<rparr>) s"

definition stat_config_end :: "env \<Rightarrow> sys \<Rightarrow> sys" where
  "stat_config_end E s =
    upd_stat (\<lambda>st. st\<lparr>st_config := (st_config st)\<lparr>sc_time := mt_finish E (sc_time (st_config st))\<rparr>\<rparr>) s"

definition stat_config_one_dev :: "sys \<Rightarrow> sys" where
  "stat_config_one_dev s =
    upd_stat (\<lambda>st. st\<lparr>st_config := (st_config st)\<lparr>sc_dev_cnt := sc_dev_cnt (st_config st) + 1\<rparr>\<rparr>) s"

definition stat_config_retry :: "sys \<Rightarrow> sys" where
  "stat_config_retry s =
    upd_stat (\<lambda>st. st\<lparr>st_config := (st_config st)\<lparr>sc_retry_times := sc_retry_times (st_config st) + 1\<rparr>\<rparr>) s"

definition stat_config_loading_record :: "env \<Rightarrow> sys \<Rightarrow> sys" where
  "stat_config_loading_record E s =
    (if \<not> (m_state (mng s) = adding_devices_em \<or> m_state (mng s) = configuring_devices_em) then s
     else upd_stat (\<lambda>st.
       let c = st_config st; meas = sc_full_meas c
       in if int MAX_CONCURRENT_CONFIG_NODES = utils_popcount (used (mng s))
          then (if mt_state meas = rc_start then st
                else st\<lparr>st_config := c\<lparr>sc_full_meas := meas\<lparr>mt_state := rc_start, mt_start := now E\<rparr>\<rparr>\<rparr>)
          else if mt_state meas = rc_start
          then st\<lparr>st_config := c\<lparr>sc_full_time := sc_full_time c + (now E - mt_start meas),
                 sc_full_meas := meas\<lparr>mt_state := rc_end\<rparr>\<rparr>\<rparr>
          else st) s)"

text \<open>
  \<open>stat_bl_start\<close> clears \<open>sizeof(struct __bl)\<close> bytes from the start of \<open>stat\<close>, not of \<open>stat.bl\<close>: with
  eight-byte \<open>time_t\<close> these are the first 24 of the 32 bytes of \<open>stat.add\<close>, all but \<open>time.end\<close>.
\<close>

definition stat_bl_start :: "env \<Rightarrow> sys \<Rightarrow> sys" where
  "stat_bl_start E s =
    upd_stat (\<lambda>st. if mt_state (st_bl st) \<noteq> rc_idle then st
                    else st\<lparr>st_add := zero_stat_add\<lparr>sa_time := zero_measure\<lparr>mt_end := mt_end (sa_time (st_add st))\<rparr>\<rparr>,
                            st_bl := (st_bl st)\<lparr>mt_state := rc_start, mt_start := now E\<rparr>\<rparr>) s"

definition stat_bl_end :: "env \<Rightarrow> sys \<Rightarrow> sys" where
  "stat_bl_end E s = upd_stat (\<lambda>st. st\<lparr>st_bl := mt_finish E (st_bl st)\<rparr>) s"

definition stat_rm_start :: "env \<Rightarrow> sys \<Rightarrow> sys" where
  "stat_rm_start E s =
    upd_stat (\<lambda>st. if mt_state (sr_time (st_rm st)) \<noteq> rc_idle then st
                    else st\<lparr>st_rm := zero_stat_rm\<lparr>sr_time := mt_started E\<rparr>\<rparr>) s"

definition stat_rm_end :: "env \<Rightarrow> sys \<Rightarrow> sys" where
  "stat_rm_end E s = upd_stat (\<lambda>st. st\<lparr>st_rm := (st_rm st)\<lparr>sr_time := mt_finish E (sr_time (st_rm st))\<rparr>\<rparr>) s"

definition stat_rm_one_dev :: "sys \<Rightarrow> sys" where
  "stat_rm_one_dev s = upd_stat (\<lambda>st. st\<lparr>st_rm := (st_rm st)\<lparr>sr_dev_cnt := sr_dev_cnt (st_rm st) + 1\<rparr>\<rparr>) s"

definition stat_rm_retry :: "sys \<Rightarrow> sys" where
  "stat_rm_retry s =
    upd_stat (\<lambda>st. st\<lparr>st_rm := (st_rm st)\<lparr>sr_retry_times := sr_retry_times (st_rm st) + 1\<rparr>\<rparr>) s"

lemmas stat_defs = stat_reset_def stat_add_start_def stat_add_end_def stat_add_one_dev_def
  stat_add_failed_def stat_config_start_def stat_config_end_def stat_config_one_dev_def
  stat_config_retry_def stat_config_loading_record_def stat_bl_start_def stat_bl_end_def
  stat_rm_start_def stat_rm_end_def stat_rm_one_dev_def stat_rm_retry_def

text \<open>The statistics touch nothing else.\<close>

lemma upd_stat_frame [simp]:
  "db (upd_stat f s) = db s" "jcfg (upd_stat f s) = jcfg s" "disk (upd_stat f s) = disk s"
  "mng (upd_stat f s) = mng s" "acc (upd_stat f s) = acc s" "sent (upd_stat f s) = sent s"
  "scan_need_recover (upd_stat f s) = scan_need_recover s" "tid (upd_stat f s) = tid s"
  "stat (upd_stat f s) = f (stat s)"
  by (simp_all add: upd_stat_def)

lemma stat_ops_mng [simp]:
  "mng (stat_reset s) = mng s" "mng (stat_add_start E s) = mng s" "mng (stat_add_end E s) = mng s"
  "mng (stat_add_one_dev s) = mng s" "mng (stat_add_failed s) = mng s"
  "mng (stat_config_start E s) = mng s" "mng (stat_config_end E s) = mng s"
  "mng (stat_config_one_dev s) = mng s" "mng (stat_config_retry s) = mng s"
  "mng (stat_config_loading_record E s) = mng s" "mng (stat_bl_start E s) = mng s"
  "mng (stat_bl_end E s) = mng s" "mng (stat_rm_start E s) = mng s" "mng (stat_rm_end E s) = mng s"
  "mng (stat_rm_one_dev s) = mng s" "mng (stat_rm_retry s) = mng s"
  by (simp_all add: stat_defs)

lemma stat_ops_db [simp]:
  "db (stat_reset s) = db s" "db (stat_add_start E s) = db s" "db (stat_add_end E s) = db s"
  "db (stat_add_one_dev s) = db s" "db (stat_add_failed s) = db s"
  "db (stat_config_start E s) = db s" "db (stat_config_end E s) = db s"
  "db (stat_config_one_dev s) = db s" "db (stat_config_retry s) = db s"
  "db (stat_config_loading_record E s) = db s" "db (stat_bl_start E s) = db s"
  "db (stat_bl_end E s) = db s" "db (stat_rm_start E s) = db s" "db (stat_rm_end E s) = db s"
  "db (stat_rm_one_dev s) = db s" "db (stat_rm_retry s) = db s"
  by (simp_all add: stat_defs)

lemma stat_ops_acc [simp]:
  "acc (stat_reset s) = acc s" "acc (stat_add_start E s) = acc s" "acc (stat_add_end E s) = acc s"
  "acc (stat_config_start E s) = acc s" "acc (stat_config_end E s) = acc s"
  "acc (stat_config_one_dev s) = acc s" "acc (stat_config_retry s) = acc s"
  "acc (stat_config_loading_record E s) = acc s" "acc (stat_rm_start E s) = acc s"
  "acc (stat_rm_one_dev s) = acc s" "acc (stat_rm_retry s) = acc s"
  by (simp_all add: stat_defs)

end
