(* ===== verification/AccBase.thy ===== *)
theory AccBase
  imports Stat
begin

unbundle bit_operations_syntax

text \<open>
  What the states of the configuration engine share: the flag macros of \<open>mng.h\<close>, the inline helpers
  of \<open>dev_config.h\<close>, \<open>timer_set\<close>, \<open>appkey_by_refid\<close>, the model an iterator points to, and the three
  code patterns every state repeats: the reaction to the response of a BGAPI call, the reaction to a
  timeout status, and the retry callback. A callback takes the cache it works on and the rest of the
  state and returns both with its result; the engine stores the cache back.
\<close>

subsection \<open>Flags\<close>

abbreviation (input) EVER_RETRIED_BIT_OFFSET :: nat where "EVER_RETRIED_BIT_OFFSET \<equiv> 7"
abbreviation (input) WAITING_RESPONSE_BIT_OFFSET :: nat where "WAITING_RESPONSE_BIT_OFFSET \<equiv> 6"
abbreviation (input) OOM_BIT_OFFSET :: nat where "OOM_BIT_OFFSET \<equiv> 5"

definition WAIT_RESPONSE :: "config_cache_t \<Rightarrow> bool" where
  "WAIT_RESPONSE x = IS_BIT_SET (flags x) WAITING_RESPONSE_BIT_OFFSET"

definition WAIT_RESPONSE_CLEAR :: "config_cache_t \<Rightarrow> config_cache_t" where
  "WAIT_RESPONSE_CLEAR x = x\<lparr>flags := BIT_CLR (flags x) WAITING_RESPONSE_BIT_OFFSET\<rparr>"

definition WAIT_RESPONSE_SET :: "config_cache_t \<Rightarrow> config_cache_t" where
  "WAIT_RESPONSE_SET x = x\<lparr>flags := BIT_SET (flags x) WAITING_RESPONSE_BIT_OFFSET\<rparr>"

definition EVER_RETRIED :: "config_cache_t \<Rightarrow> bool" where
  "EVER_RETRIED x = IS_BIT_SET (flags x) EVER_RETRIED_BIT_OFFSET"

definition EVER_RETRIED_SET :: "config_cache_t \<Rightarrow> config_cache_t" where
  "EVER_RETRIED_SET x = x\<lparr>flags := BIT_SET (flags x) EVER_RETRIED_BIT_OFFSET\<rparr>"

definition OOM :: "config_cache_t \<Rightarrow> bool" where
  "OOM x = IS_BIT_SET (flags x) OOM_BIT_OFFSET"

definition OOM_CLEAR :: "config_cache_t \<Rightarrow> config_cache_t" where
  "OOM_CLEAR x = x\<lparr>flags := BIT_CLR (flags x) OOM_BIT_OFFSET\<rparr>"

definition RETRY_CLEAR :: "config_cache_t \<Rightarrow> config_cache_t" where
  "RETRY_CLEAR x = x\<lparr>flags := BIT_CLR (flags x) EVER_RETRIED_BIT_OFFSET, remaining_retry := 0\<rparr>"

definition oom_set :: "config_cache_t \<Rightarrow> config_cache_t" where
  "oom_set x = x\<lparr>flags := BIT_SET (flags x) OOM_BIT_OFFSET\<rparr>"

subsection \<open>Errors\<close>

definition ERROR_BIT :: "acc_state_emt \<Rightarrow> u32" where
  "ERROR_BIT st = BITOF (acc_num st)"

definition err_set :: "config_cache_t \<Rightarrow> u16 \<Rightarrow> bgerr_type_t \<Rightarrow> config_cache_t" where
  "err_set c errcode err_type =
    (case err_type of
       bgapi_em \<Rightarrow> c\<lparr>err_bgcall := BIT_SET (err_bgcall c) (acc_num (cc_state c)), err_general := errcode\<rparr>
     | bgevent_em \<Rightarrow> c\<lparr>err_bgevt := BIT_SET (err_bgevt c) (acc_num (cc_state c)), err_general := errcode\<rparr>)"

definition clr_cache_ctl :: "config_cache_t \<Rightarrow> config_cache_t" where
  "clr_cache_ctl c = c\<lparr>expired := 0, flags := 0\<rparr>"

definition err_set_to_end :: "config_cache_t \<Rightarrow> u16 \<Rightarrow> bgerr_type_t \<Rightarrow> config_cache_t" where
  "err_set_to_end c errcode err_type = (clr_cache_ctl (err_set c errcode err_type))\<lparr>next_state := Some end_em\<rparr>"

definition err_set_to_rm_end :: "config_cache_t \<Rightarrow> u16 \<Rightarrow> bgerr_type_t \<Rightarrow> config_cache_t" where
  "err_set_to_rm_end c errcode err_type = (clr_cache_ctl (err_set c errcode err_type))\<lparr>next_state := Some rmend_em\<rparr>"

subsection \<open>The guard timer\<close>

abbreviation (input) CONFIG_NO_RSP_TIMEOUT :: int where "CONFIG_NO_RSP_TIMEOUT \<equiv> 3"

text \<open>\<open>LPN_BITOFS\<close> is used as a mask here: 3 tests the relay and the proxy bit of the features.\<close>

definition timer_set :: "env \<Rightarrow> sys \<Rightarrow> config_cache_t \<Rightarrow> bool \<Rightarrow> config_cache_t" where
  "timer_set E s c enable =
    (if \<not> enable then c\<lparr>expired := 0\<rparr>
     else
       let base = now E + CONFIG_NO_RSP_TIMEOUT; t = p_timeout (self (db s))
       in if elems (cc_dcd c) = None \<or> dcd_feature (cc_dcd c) AND of_nat LPN_BITOFS \<noteq> 0
          then c\<lparr>expired := base + (case t of Some t \<Rightarrow> uint ((to_lpn t + 999) div 1000) | None \<Rightarrow> 120)\<rparr>
          else c\<lparr>expired := base + (case t of Some t \<Rightarrow> uint ((to_normal t + 999) div 1000) | None \<Rightarrow> 5)\<rparr>)"

subsection \<open>Application keys and models\<close>

fun find_appkey :: "u16 \<Rightarrow> nat \<Rightarrow> meshkey_t list \<Rightarrow> u16 option option" where
  "find_appkey refid 0 ks = Some None"
| "find_appkey refid (Suc n) [] = undef"
| "find_appkey refid (Suc n) (k # ks) =
    (if refid \<noteq> k_refid k then find_appkey refid n ks else Some (Some (k_id k)))"

text \<open>\<open>appkey_by_refid\<close>: \<open>asr_notfnd\<close> is the inner \<^const>\<open>None\<close>, otherwise the id it stores.\<close>

definition appkey_by_refid :: "sys \<Rightarrow> u16 \<Rightarrow> u16 option option" where
  "appkey_by_refid s refid = do {
     sn \<leftarrow> subnet0 s;
     find_appkey refid (unat (active_appkey_num sn)) (appkey sn) }"

definition cache_node :: "config_cache_t \<Rightarrow> sys \<Rightarrow> node_t option" where
  "cache_node c s = do { r \<leftarrow> cc_node c; nderef s r }"

text \<open>\<open>cache->dcd.elems[cache->iterators[ELEMENT_ITERATOR_INDEX]]\<close>\<close>

definition cur_elem :: "config_cache_t \<Rightarrow> elem_t option" where
  "cur_elem c = do { es \<leftarrow> elems (cc_dcd c); idx es (iter0 c) }"

text \<open>The number of models of an element that the iterators visit.\<close>

definition model_cnt :: "elem_t \<Rightarrow> nat" where
  "model_cnt el = unat (sigm_cnt el) + unat (vm_cnt el)"

text \<open>The vendor and model id the model iterator points to; a SIG model has vendor 0xFFFF.\<close>

definition model_at :: "elem_t \<Rightarrow> nat \<Rightarrow> (u16 \<times> u16) option" where
  "model_at el md =
    (if md \<ge> unat (sigm_cnt el)
     then do { m \<leftarrow> idx (vm el) (md - unat (sigm_cnt el)); Some (vid m, mid m) }
     else do { m \<leftarrow> idx (sig_models el) md; Some (0xFFFF, m) })"

definition cur_model :: "config_cache_t \<Rightarrow> (u16 \<times> u16) option" where
  "cur_model c = do { el \<leftarrow> cur_elem c; model_at el (iter1 c) }"

subsection \<open>The patterns the states repeat\<close>

type_synonym acc_ret = "(asr \<times> config_cache_t \<times> sys) option"

text \<open>
  After the response: out of memory sets the flag, another error ends the node (\<open>set_end\<close> is
  \<open>err_set_to_end\<close> or \<open>err_set_to_rm_end\<close>), success waits for the status with the guard timer on.
\<close>

definition on_rsp ::
  "(config_cache_t \<Rightarrow> u16 \<Rightarrow> bgerr_type_t \<Rightarrow> config_cache_t) \<Rightarrow> env \<Rightarrow> bgrsp \<Rightarrow> config_cache_t \<Rightarrow> sys
    \<Rightarrow> asr \<times> config_cache_t \<times> sys" where
  "on_rsp set_end E rsp c s =
    (if rsp_result rsp \<noteq> bg_err_success
     then if rsp_result rsp = bg_err_out_of_memory then (asr_oom, oom_set c, s)
          else (asr_bgapi, set_end c (rsp_result rsp) bgapi_em, s)
     else (asr_suc, timer_set E s ((WAIT_RESPONSE_SET c)\<lparr>cc_handle := rsp_handle rsp\<rparr>) True, s))"

definition send_cmd ::
  "(config_cache_t \<Rightarrow> u16 \<Rightarrow> bgerr_type_t \<Rightarrow> config_cache_t) \<Rightarrow> env \<Rightarrow> bgcmd \<Rightarrow> config_cache_t \<Rightarrow> sys
    \<Rightarrow> asr \<times> config_cache_t \<times> sys" where
  "send_cmd set_end E cmd c s =
    (let (rsp, s) = bgcall E cmd s in on_rsp set_end E rsp c s)"

text \<open>A timeout status: the first one grants \<open>n\<close> retries, one without any left gives up.\<close>

definition on_timeout_status ::
  "u8 \<Rightarrow> (config_cache_t \<Rightarrow> config_cache_t) \<Rightarrow> config_cache_t \<Rightarrow> config_cache_t" where
  "on_timeout_status n give_up c =
    (if \<not> EVER_RETRIED c then EVER_RETRIED_SET (c\<lparr>remaining_retry := n\<rparr>)
     else if remaining_retry c = 0 then give_up (RETRY_CLEAR c)
     else c)"

definition give_up_end :: "config_cache_t \<Rightarrow> config_cache_t" where
  "give_up_end c = err_set_to_end c bg_err_timeout bgevent_em"

text \<open>The retry callback of every state around its send function.\<close>

definition acc_retry ::
  "(env \<Rightarrow> config_cache_t \<Rightarrow> sys \<Rightarrow> acc_ret) \<Rightarrow> env \<Rightarrow> retry_reason_t \<Rightarrow> config_cache_t \<Rightarrow> sys \<Rightarrow> acc_ret"
where
  "acc_retry send E reason c s = do {
     (ret, c, s) \<leftarrow> send E c s;
     if ret \<noteq> asr_suc then Some (ret, c, s)
     else case reason of
       on_timeout_em \<Rightarrow> do {
         ASSERT (EVER_RETRIED c \<and> remaining_retry c > 0);
         Some (ret, c\<lparr>remaining_retry := remaining_retry c - 1\<rparr>, s) }
     | on_oom_em \<Rightarrow> do { ASSERT (OOM c); Some (ret, OOM_CLEAR c, s) }
     | on_guard_timer_expired_em \<Rightarrow> do { ASSERT (expired c \<noteq> 0); Some (ret, c\<lparr>expired := 0\<rparr>, s) } }"

lemma appkey_by_refid_sent [simp]: "appkey_by_refid (s\<lparr>sent := h\<rparr>) = appkey_by_refid s"
  by (simp add: appkey_by_refid_def fun_eq_iff)

lemmas flag_defs = WAIT_RESPONSE_def WAIT_RESPONSE_CLEAR_def WAIT_RESPONSE_SET_def EVER_RETRIED_def
  EVER_RETRIED_SET_def OOM_def OOM_CLEAR_def RETRY_CLEAR_def oom_set_def

subsection \<open>Facts on flags\<close>

lemma flag_simps [simp]:
  "WAIT_RESPONSE (WAIT_RESPONSE_SET c)" "\<not> WAIT_RESPONSE (WAIT_RESPONSE_CLEAR c)"
  "EVER_RETRIED (WAIT_RESPONSE_SET c) = EVER_RETRIED c"
  "EVER_RETRIED (WAIT_RESPONSE_CLEAR c) = EVER_RETRIED c"
  "OOM (WAIT_RESPONSE_SET c) = OOM c" "OOM (WAIT_RESPONSE_CLEAR c) = OOM c"
  "EVER_RETRIED (EVER_RETRIED_SET c)" "WAIT_RESPONSE (EVER_RETRIED_SET c) = WAIT_RESPONSE c"
  "OOM (EVER_RETRIED_SET c) = OOM c"
  "\<not> EVER_RETRIED (RETRY_CLEAR c)" "WAIT_RESPONSE (RETRY_CLEAR c) = WAIT_RESPONSE c"
  "OOM (RETRY_CLEAR c) = OOM c" "OOM (oom_set c)" "WAIT_RESPONSE (oom_set c) = WAIT_RESPONSE c"
  "EVER_RETRIED (oom_set c) = EVER_RETRIED c" "\<not> OOM (OOM_CLEAR c)"
  "WAIT_RESPONSE (OOM_CLEAR c) = WAIT_RESPONSE c" "EVER_RETRIED (OOM_CLEAR c) = EVER_RETRIED c"
  by (simp_all add: flag_defs)

lemma flag_upd_simps [simp]:
  "WAIT_RESPONSE (c\<lparr>remaining_retry := n\<rparr>) = WAIT_RESPONSE c"
  "EVER_RETRIED (c\<lparr>remaining_retry := n\<rparr>) = EVER_RETRIED c" "OOM (c\<lparr>remaining_retry := n\<rparr>) = OOM c"
  "WAIT_RESPONSE (c\<lparr>expired := t\<rparr>) = WAIT_RESPONSE c" "EVER_RETRIED (c\<lparr>expired := t\<rparr>) = EVER_RETRIED c"
  "OOM (c\<lparr>expired := t\<rparr>) = OOM c"
  "WAIT_RESPONSE (c\<lparr>cc_handle := h\<rparr>) = WAIT_RESPONSE c" "EVER_RETRIED (c\<lparr>cc_handle := h\<rparr>) = EVER_RETRIED c"
  "OOM (c\<lparr>cc_handle := h\<rparr>) = OOM c"
  "WAIT_RESPONSE (c\<lparr>vnm_vd := v, vnm_md := m\<rparr>) = WAIT_RESPONSE c"
  "EVER_RETRIED (c\<lparr>vnm_vd := v, vnm_md := m\<rparr>) = EVER_RETRIED c"
  "OOM (c\<lparr>vnm_vd := v, vnm_md := m\<rparr>) = OOM c"
  "WAIT_RESPONSE (c\<lparr>next_state := x\<rparr>) = WAIT_RESPONSE c"
  by (simp_all add: flag_defs)

lemma timer_set_flags [simp]:
  "flags (timer_set E s c b) = flags c" "remaining_retry (timer_set E s c b) = remaining_retry c"
  "WAIT_RESPONSE (timer_set E s c b) = WAIT_RESPONSE c"
  "EVER_RETRIED (timer_set E s c b) = EVER_RETRIED c" "OOM (timer_set E s c b) = OOM c"
  "next_state (timer_set E s c b) = next_state c" "cc_state (timer_set E s c b) = cc_state c"
  by (simp_all add: timer_set_def Let_def flag_defs split: option.splits)

subsection \<open>The contract of a send function\<close>

text \<open>
  The part of a cache that says what is configured: sending, timeouts and retries leave it alone.
\<close>

definition same_work :: "config_cache_t \<Rightarrow> config_cache_t \<Rightarrow> bool" where
  "same_work c c' \<longleftrightarrow> cc_state c' = cc_state c \<and> cc_node c' = cc_node c \<and> cc_dcd c' = cc_dcd c
    \<and> iter0 c' = iter0 c \<and> iter1 c' = iter1 c \<and> iter2 c' = iter2 c"

lemma same_work_refl [simp]: "same_work c c"
  by (simp add: same_work_def)

lemma same_work_trans: "same_work a b \<Longrightarrow> same_work b c \<Longrightarrow> same_work a c"
  by (simp add: same_work_def)

lemma same_work_upd [simp]:
  "same_work c (WAIT_RESPONSE_SET d) = same_work c d" "same_work c (WAIT_RESPONSE_CLEAR d) = same_work c d"
  "same_work c (oom_set d) = same_work c d" "same_work c (d\<lparr>remaining_retry := n\<rparr>) = same_work c d"
  "same_work c (d\<lparr>expired := t\<rparr>) = same_work c d" "same_work c (OOM_CLEAR d) = same_work c d"
  "same_work c (RETRY_CLEAR d) = same_work c d" "same_work c (EVER_RETRIED_SET d) = same_work c d"
  "same_work c (timer_set E s d b) = same_work c d" "same_work c (d\<lparr>cc_handle := h\<rparr>) = same_work c d"
  "same_work c (d\<lparr>vnm_vd := v, vnm_md := m\<rparr>) = same_work c d"
  "same_work c (d\<lparr>next_state := x\<rparr>) = same_work c d"
  by (auto simp: same_work_def flag_defs timer_set_def Let_def split: option.splits)

lemma same_work_err [simp]:
  "same_work c (clr_cache_ctl d) = same_work c d" "same_work c (err_set d e t) = same_work c d"
  by (auto simp: same_work_def clr_cache_ctl_def err_set_def split: bgerr_type_t.splits)

lemma cache_node_same: "same_work c c1 \<Longrightarrow> cache_node c1 (s\<lparr>sent := h\<rparr>) = cache_node c s"
  by (simp add: cache_node_def same_work_def)

lemma cur_elem_same: "same_work c c1 \<Longrightarrow> cur_elem c1 = cur_elem c"
  by (simp add: cur_elem_def same_work_def)

lemma cur_model_same: "same_work c c1 \<Longrightarrow> cur_model c1 = cur_model c"
  using cur_elem_same [of c c1] by (simp add: cur_model_def same_work_def)

text \<open>What is read of the state is the database.\<close>

lemma reads_db:
  assumes "db s1 = db s"
  shows "nderef s1 = nderef s" "subnet0 s1 = subnet0 s" "netkey_id s1 = netkey_id s"
    "appkey_by_refid s1 = appkey_by_refid s" "cache_node c s1 = cache_node c s"
  using assms by (simp_all add: nderef_def subnet0_def netkey_id_def appkey_by_refid_def cache_node_def fun_eq_iff)

lemmas work_same = cache_node_same cur_elem_same cur_model_same

locale acc_send =
  fixes send :: "env \<Rightarrow> config_cache_t \<Rightarrow> sys \<Rightarrow> acc_ret"
    and set_end :: "config_cache_t \<Rightarrow> u16 \<Rightarrow> bgerr_type_t \<Rightarrow> config_cache_t"
    and endst :: acc_state_emt
  assumes send_tail: "send E c s = Some (r, c', s') \<Longrightarrow>
        (r = asr_notfnd \<and> c' = c \<and> s' = s)
        \<or> (\<exists>cmd vd md. (r, c', s') = send_cmd set_end E cmd (c\<lparr>vnm_vd := vd, vnm_md := md\<rparr>) s)"
    and send_again: "send E c s = Some (r, c', s') \<Longrightarrow> r \<noteq> asr_notfnd \<Longrightarrow>
        \<exists>cmd. s' = s\<lparr>sent := sent s @ [cmd]\<rparr> \<and> (\<forall>c1 s1. same_work c c1 \<longrightarrow> db s1 = db s \<longrightarrow>
          (\<exists>vd md. send E c1 s1 = Some (send_cmd set_end E cmd (c1\<lparr>vnm_vd := vd, vnm_md := md\<rparr>) s1)))"
    and set_end_eq: "set_end c e t = (clr_cache_ctl (err_set c e t))\<lparr>next_state := Some endst\<rparr>"
begin

lemma set_end_work [simp]: "same_work c (set_end d e t) = same_work c d"
  by (simp add: set_end_eq)

lemma send_work: "send E c s = Some (r, c', s') \<Longrightarrow> same_work c c'"
  using send_tail [of E c s r c' s']
  by (auto simp: send_cmd_def bgcall_def on_rsp_def split: if_splits)

text \<open>At most one command is issued, and nothing else of the state changes.\<close>

lemma send_frame: "send E c s = Some (r, c', s') \<Longrightarrow> \<exists>cmds. length cmds \<le> 1 \<and> s' = s\<lparr>sent := sent s @ cmds\<rparr>"
  using send_tail [of E c s r c' s']
  by (auto simp: send_cmd_def bgcall_def on_rsp_def split: if_splits
      intro: exI [of _ "[]"] exI [of _ "[x]" for x])

lemma send_suc:
  assumes "send E c s = Some (asr_suc, c', s')"
  shows "WAIT_RESPONSE c' \<and> EVER_RETRIED c' = EVER_RETRIED c \<and> OOM c' = OOM c
    \<and> remaining_retry c' = remaining_retry c \<and> next_state c' = next_state c
    \<and> (\<exists>cmd. s' = s\<lparr>sent := sent s @ [cmd]\<rparr>)"
  using send_tail [OF assms]
  by (auto simp: send_cmd_def bgcall_def on_rsp_def flag_defs split: if_splits)

lemma send_oom:
  assumes "send E c s = Some (asr_oom, c', s')"
  shows "OOM c' \<and> WAIT_RESPONSE c' = WAIT_RESPONSE c \<and> next_state c' = next_state c"
  using send_tail [OF assms]
  by (auto simp: send_cmd_def bgcall_def on_rsp_def flag_defs split: if_splits)

lemma send_bgapi:
  assumes "send E c s = Some (asr_bgapi, c', s')"
  shows "next_state c' = Some endst \<and> \<not> WAIT_RESPONSE c' \<and> \<not> OOM c' \<and> expired c' = 0
    \<and> IS_BIT_SET (err_bgcall c') (acc_num (cc_state c))"
proof -
  have "acc_num st < 32" for st by (cases st) simp_all
  then show ?thesis using send_tail [OF assms]
    by (auto simp: send_cmd_def bgcall_def on_rsp_def set_end_eq flag_defs clr_cache_ctl_def err_set_def
        split: if_splits)
qed

lemma send_accepted:
  assumes "\<forall>h cmd. rsp_result (ncp E h cmd) = bg_err_success" and "send E c s = Some (r, c', s')"
    and "r \<noteq> asr_notfnd"
  shows "r = asr_suc"
  using send_tail [OF assms(2)] assms(1,3) by (auto simp: send_cmd_def bgcall_def on_rsp_def)

text \<open>A retry that is out of memory again keeps the retry budget.\<close>

lemma retry_oom_keeps:
  assumes "acc_retry send E reason c s = Some (asr_oom, c', s')"
  shows "OOM c' \<and> WAIT_RESPONSE c' = WAIT_RESPONSE c \<and> next_state c' = next_state c"
proof -
  have "send E c s = Some (asr_oom, c', s')"
    using assms by (auto simp: acc_retry_def bind_Some_conv split: if_splits retry_reason_t.splits)
  then show ?thesis by (rule send_oom)
qed

lemma retry_timeout:
  assumes "send E c s = Some (asr_suc, c', s')" and "EVER_RETRIED c" and "remaining_retry c > 0"
  shows "acc_retry send E on_timeout_em c s =
    Some (asr_suc, c'\<lparr>remaining_retry := remaining_retry c - 1\<rparr>, s')"
  using assms send_suc [OF assms(1)] by (simp add: acc_retry_def)

text \<open>
  A retry issues the command of the first try again, whatever else has changed than the work and the
  database, and waits for the status under the handle of the new response.
\<close>

lemma send_same_cmd:
  assumes acc: "\<forall>h cmd. rsp_result (ncp E h cmd) = bg_err_success"
    and run: "send E c s = Some (asr_suc, c0, s\<lparr>sent := sent s @ [cmd]\<rparr>)"
    and same: "same_work c c1" "db s1 = db s"
  shows "\<exists>c2. send E c1 s1 = Some (asr_suc, c2, s1\<lparr>sent := sent s1 @ [cmd]\<rparr>)
    \<and> cc_handle c2 = rsp_handle (ncp E (sent s1) cmd)"
proof -
  obtain cmd' where c': "s\<lparr>sent := sent s @ [cmd]\<rparr> = s\<lparr>sent := sent s @ [cmd']\<rparr>"
    "\<forall>c1 s1. same_work c c1 \<longrightarrow> db s1 = db s \<longrightarrow>
      (\<exists>vd md. send E c1 s1 = Some (send_cmd set_end E cmd' (c1\<lparr>vnm_vd := vd, vnm_md := md\<rparr>) s1))"
    using send_again [OF run] by auto
  have "cmd' = cmd" using arg_cong [OF c'(1), of sent] by simp
  then obtain vd md where "send E c1 s1 = Some (send_cmd set_end E cmd (c1\<lparr>vnm_vd := vd, vnm_md := md\<rparr>) s1)"
    using c'(2) same by blast
  then show ?thesis
    using acc by (auto simp: send_cmd_def bgcall_def on_rsp_def timer_set_def Let_def split: option.splits)
qed

lemma timeout_retry:
  assumes acc: "\<forall>h cmd. rsp_result (ncp E h cmd) = bg_err_success"
    and run: "send E c s = Some (asr_suc, c0, s\<lparr>sent := sent s @ [cmd]\<rparr>)"
    and same: "same_work c c1" "db s1 = db s" and budget: "EVER_RETRIED c1" "remaining_retry c1 > 0"
  shows "\<exists>c2. acc_retry send E on_timeout_em c1 s1 = Some (asr_suc, c2, s1\<lparr>sent := sent s1 @ [cmd]\<rparr>)
    \<and> same_work c c2 \<and> WAIT_RESPONSE c2 \<and> EVER_RETRIED c2 \<and> remaining_retry c2 = remaining_retry c1 - 1
    \<and> next_state c2 = next_state c1 \<and> cc_handle c2 = rsp_handle (ncp E (sent s1) cmd)"
proof -
  obtain c2 where send: "send E c1 s1 = Some (asr_suc, c2, s1\<lparr>sent := sent s1 @ [cmd]\<rparr>)"
    and h: "cc_handle c2 = rsp_handle (ncp E (sent s1) cmd)"
    using send_same_cmd [OF acc run same] by blast
  show ?thesis
    using retry_timeout [OF send budget] send_suc [OF send] send_work [OF send] same(1) same_work_trans h budget(1)
    by (intro exI [of _ "c2\<lparr>remaining_retry := remaining_retry c1 - 1\<rparr>"]) auto
qed

end

text \<open>
  Every send function computes its command (and the model it is about) from the parts of the state
  that retries leave alone; that is enough for the contract.
\<close>

definition set_model :: "(u16 \<times> u16) option \<Rightarrow> config_cache_t \<Rightarrow> config_cache_t" where
  "set_model m c = (case m of None \<Rightarrow> c | Some (vd, md) \<Rightarrow> c\<lparr>vnm_vd := vd, vnm_md := md\<rparr>)"

lemma set_model_vnm: "\<exists>vd md. set_model m c = c\<lparr>vnm_vd := vd, vnm_md := md\<rparr>"
proof (cases m)
  case None
  then have "set_model m c = c\<lparr>vnm_vd := vnm_vd c, vnm_md := vnm_md c\<rparr>" by (simp add: set_model_def)
  then show ?thesis by blast
next
  case (Some p)
  then show ?thesis by (cases p) (auto simp: set_model_def)
qed

lemma acc_sendI:
  assumes eq: "\<And>E c s. send E c s = do {
        x \<leftarrow> plan c s;
        case x of None \<Rightarrow> Some (asr_notfnd, c, s)
        | Some (cmd, m) \<Rightarrow> Some (send_cmd set_end E cmd (set_model m c) s) }"
    and same: "\<And>c c1 s h. same_work c c1 \<Longrightarrow> plan c1 (s\<lparr>sent := h\<rparr>) = plan c s"
    and only_db: "\<And>c s s1. db s1 = db s \<Longrightarrow> plan c s1 = plan c s"
    and set_end: "\<And>c e t. set_end c e t = (clr_cache_ctl (err_set c e t))\<lparr>next_state := Some endst\<rparr>"
  shows "acc_send send set_end endst"
proof
  fix E c s r c' s'
  assume run: "send E c s = Some (r, c', s')"
  then obtain x where x: "plan c s = Some x" by (auto simp: eq bind_Some_conv)
  show "(r = asr_notfnd \<and> c' = c \<and> s' = s)
      \<or> (\<exists>cmd vd md. (r, c', s') = send_cmd set_end E cmd (c\<lparr>vnm_vd := vd, vnm_md := md\<rparr>) s)"
  proof (cases x)
    case None
    then show ?thesis using run x by (simp add: eq)
  next
    case (Some p)
    then obtain cmd m where "(r, c', s') = send_cmd set_end E cmd (set_model m c) s"
      using run x by (cases p) (auto simp: eq intro: sym)
    moreover obtain vd md where "set_model m c = c\<lparr>vnm_vd := vd, vnm_md := md\<rparr>"
      using set_model_vnm by blast
    ultimately show ?thesis by auto
  qed
  assume "r \<noteq> asr_notfnd"
  then obtain cmd m where p: "plan c s = Some (Some (cmd, m))" using run x by (cases x) (auto simp: eq)
  have "send E c1 s1 = Some (send_cmd set_end E cmd (set_model m c1) s1)" if "same_work c c1" "db s1 = db s" for c1 s1
    using same [OF that(1), where s = s and h = "sent s"] only_db [OF that(2)] p by (simp add: eq)
  moreover have "s' = s\<lparr>sent := sent s @ [cmd]\<rparr>"
    using run p by (auto simp: eq send_cmd_def bgcall_def on_rsp_def split: if_splits)
  ultimately show "\<exists>cmd. s' = s\<lparr>sent := sent s @ [cmd]\<rparr> \<and> (\<forall>c1 s1. same_work c c1 \<longrightarrow> db s1 = db s \<longrightarrow>
      (\<exists>vd md. send E c1 s1 = Some (send_cmd set_end E cmd (c1\<lparr>vnm_vd := vd, vnm_md := md\<rparr>) s1)))"
    using set_model_vnm by metis
qed (rule set_end)

lemma acc_sendI_cmd:
  assumes eq: "\<And>E c s. send E c s = (case plan c s of None \<Rightarrow> None
      | Some (cmd, m) \<Rightarrow> Some (send_cmd set_end E cmd (set_model m c) s))"
    and same: "\<And>c c1 s h. same_work c c1 \<Longrightarrow> plan c1 (s\<lparr>sent := h\<rparr>) = plan c s"
    and only_db: "\<And>c s s1. db s1 = db s \<Longrightarrow> plan c s1 = plan c s"
    and set_end: "\<And>c e t. set_end c e t = (clr_cache_ctl (err_set c e t))\<lparr>next_state := Some endst\<rparr>"
  shows "acc_send send set_end endst"
proof (rule acc_sendI [where plan = "\<lambda>c s. map_option Some (plan c s)"])
  show "send E c s = Option.bind (map_option Some (plan c s))
      (\<lambda>x. case x of None \<Rightarrow> Some (asr_notfnd, c, s)
        | Some (cmd, m) \<Rightarrow> Some (send_cmd set_end E cmd (set_model m c) s))" for E c s
    by (cases "plan c s") (auto simp: eq)
qed (simp add: same, erule arg_cong [OF only_db], rule set_end)

end
