(* ===== verification/GetDcd.thy ===== *)
theory GetDcd
  imports AccBase
begin

unbundle bit_operations_syntax

text \<open>
  The first configuration state, \<open>mng/states/as_getdcd.c\<close>: read the device composition data of a
  node, parse it into the cache, and decide where the configuration continues.
\<close>

definition BGLIB_MSG_ID :: "u32 \<Rightarrow> u32" where
  "BGLIB_MSG_ID h = h AND 0xffff00f8"

definition dcd_get :: "env \<Rightarrow> config_cache_t \<Rightarrow> sys \<Rightarrow> acc_ret" where
  "dcd_get E c s = do {
     nk \<leftarrow> netkey_id s;
     n \<leftarrow> cache_node c s;
     Some (send_cmd err_set_to_end E (cmd_get_dcd nk (n_addr n) 0) c s) }"

definition getdcd_guard :: "config_cache_t \<Rightarrow> sys \<Rightarrow> bool option" where
  "getdcd_guard c s =
    (case cc_node c of
       None \<Rightarrow> Some False
     | Some r \<Rightarrow> do { n \<leftarrow> nderef s r; Some (n_addr n \<noteq> 0) })"

definition getdcd_entry :: "env \<Rightarrow> config_cache_t \<Rightarrow> sys \<Rightarrow> acc_ret" where
  "getdcd_entry E c s = do {
     ok \<leftarrow> getdcd_guard c s;
     if \<not> ok then Some (asr_tonext, c, s) else dcd_get E c s }"

subsection \<open>Parsing the composition data\<close>

text \<open>
  The loop that counts the elements. \<open>i\<close> and \<open>eles\<close> are \<open>uint8_t\<close>; the loop may not end, for
  instance when the first element has no models, which is \<^const>\<open>None\<close>.
\<close>

partial_function (option) count_elems :: "u8 \<Rightarrow> u8 \<Rightarrow> u8 \<Rightarrow> u8 \<Rightarrow> u8 \<Rightarrow> u8 option" where
  "count_elems sigm vmc len i eles =
    (let i = i + 2 * sigm + 4 * vmc; eles = eles + 1
     in if i < len then count_elems sigm vmc len i eles else Some eles)"

declare count_elems.simps [code]

abbreviation (input) GENERIC_ONOFF_SERVER_MDID :: u16 where "GENERIC_ONOFF_SERVER_MDID \<equiv> 0x1000"
abbreviation (input) LIGHT_LIGHTNESS_SERVER_MDID :: u16 where "LIGHT_LIGHTNESS_SERVER_MDID \<equiv> 0x1300"
abbreviation (input) LIGHT_CTL_SERVER_MDID :: u16 where "LIGHT_CTL_SERVER_MDID \<equiv> 0x1303"
abbreviation (input) SENSOR_SERVER_MDID :: u16 where "SENSOR_SERVER_MDID \<equiv> 0x1100"
abbreviation (input) CONFIGURATION_SERVER_MDID :: u16 where "CONFIGURATION_SERVER_MDID \<equiv> 0"
abbreviation (input) CONFIGURATION_CLIENT_MDID :: u16 where "CONFIGURATION_CLIENT_MDID \<equiv> 1"

definition func_of_model :: "u16 \<Rightarrow> u8 \<Rightarrow> u8" where
  "func_of_model mdid func =
    (if mdid = GENERIC_ONOFF_SERVER_MDID then func OR ONOFF_SV_BIT
     else if mdid = LIGHT_LIGHTNESS_SERVER_MDID then func OR LIGHTNESS_SV_BIT
     else if mdid = LIGHT_CTL_SERVER_MDID then func OR CTL_SV_BIT
     else if mdid = SENSOR_SERVER_MDID then func OR SENSOR_SV_BIT
     else func)"

definition read_u16 :: "u8 list \<Rightarrow> u8 \<Rightarrow> u16 option" where
  "read_u16 data i = do {
     l \<leftarrow> idx data (unat i); h \<leftarrow> idx data (unat i + 1); Some (BUILD_UINT16 l h) }"

text \<open>The loop over the SIG models: the two configuration models are not recorded.\<close>

fun parse_sig :: "u8 list \<Rightarrow> nat \<Rightarrow> u8 \<Rightarrow> u8 \<Rightarrow> u16 list \<Rightarrow> (u8 \<times> u8 \<times> u16 list) option" where
  "parse_sig data 0 i func kept = Some (i, func, kept)"
| "parse_sig data (Suc n) i func kept = do {
     mdid \<leftarrow> read_u16 data i;
     let func = func_of_model mdid func;
     if mdid = CONFIGURATION_CLIENT_MDID \<or> mdid = CONFIGURATION_SERVER_MDID
     then parse_sig data n (i + 2) func kept
     else parse_sig data n (i + 2) func (kept @ [mdid]) }"

fun parse_vm :: "u8 list \<Rightarrow> nat \<Rightarrow> u8 \<Rightarrow> vendor_model_t list \<Rightarrow> (u8 \<times> vendor_model_t list) option" where
  "parse_vm data 0 i ms = Some (i, ms)"
| "parse_vm data (Suc n) i ms = do {
     v \<leftarrow> read_u16 data i;
     m \<leftarrow> read_u16 data (i + 2);
     parse_vm data n (i + 4) (ms @ [\<lparr>vid = v, mid = m\<rparr>]) }"

text \<open>
  One element: its two counts, its models; \<open>sig_models\<close> keeps its allocated length, the tail stays
  zero, and \<open>sigm_cnt\<close> drops by the number of configuration models.
\<close>

definition parse_elem :: "u8 list \<Rightarrow> u8 \<Rightarrow> u8 \<Rightarrow> (u8 \<times> u8 \<times> elem_t) option" where
  "parse_elem data i func = do {
     sc \<leftarrow> idx data (unat i);
     vc \<leftarrow> idx data (unat (i + 1));
     (i, func, kept) \<leftarrow> parse_sig data (unat sc) (i + 2) func [];
     (i', ms) \<leftarrow> parse_vm data (unat vc) i [];
     Some (i', func, \<lparr>sigm_cnt = sc - of_nat (unat sc - length kept), vm_cnt = vc,
            sig_models = kept @ replicate (unat sc - length kept) 0, vm = ms\<rparr>) }"

fun parse_elems :: "env \<Rightarrow> u8 list \<Rightarrow> nref \<Rightarrow> nat \<Rightarrow> bool \<Rightarrow> u8 \<Rightarrow> elem_t list \<Rightarrow> sys \<Rightarrow> (elem_t list \<times> sys) option"
where
  "parse_elems E data r 0 first i es s = Some (es, s)"
| "parse_elems E data r (Suc k) first i es s = do {
     n \<leftarrow> nderef s r;
     let i = (if first then i else i + 2);
     (i, func, el) \<leftarrow> parse_elem data i (n_func n);
     s \<leftarrow> nassign r (\<lambda>n. n\<lparr>n_func := func\<rparr>) s;
     (e, s) \<leftarrow> nodeset_func E (n_addr n) func s;
     parse_elems E data r k False i (es @ [el]) s }"

definition dcd_store :: "env \<Rightarrow> u8 list \<Rightarrow> config_cache_t \<Rightarrow> sys \<Rightarrow> (config_cache_t \<times> sys) option" where
  "dcd_store E data c s = do {
     let len = (of_nat (length data) :: u8);
     sigm \<leftarrow> idx data 12;
     vmc \<leftarrow> idx data 13;
     eles \<leftarrow> count_elems sigm vmc len 14 0;
     feature \<leftarrow> read_u16 data 8;
     r \<leftarrow> cc_node c;
     (es, s) \<leftarrow> parse_elems E data r (unat eles) True 12 [] s;
     Some (c\<lparr>cc_dcd := \<lparr>dcd_feature = feature, element_cnt = eles, elems = Some es\<rparr>\<rparr>, s) }"

subsection \<open>Events\<close>

definition GET_DCD_RETRY_TIMES :: u8 where "GET_DCD_RETRY_TIMES = 5"

text \<open>
  Where to continue: a node that failed before resumes at a failed state. The loop has no break, so
  the last state with an error bit wins; with no such bit in range \<open>next_state\<close> keeps its value.
\<close>

definition resume_states :: "acc_state_emt list" where
  "resume_states = [addappkey_em, bindappkey_em, setpub_em, addsub_em, setconfig_em]"

definition getdcd_next :: "u32 \<Rightarrow> acc_state_emt option \<Rightarrow> acc_state_emt option" where
  "getdcd_next eb next =
    (if eb > ERROR_BIT get_dcd_em \<and> eb < ERROR_BIT end_em
     then fold (\<lambda>a nx. if eb AND ERROR_BIT a \<noteq> 0 then Some a else nx) resume_states next
     else None)"

definition getdcd_inprg :: "env \<Rightarrow> bgevt \<Rightarrow> config_cache_t \<Rightarrow> sys \<Rightarrow> acc_ret" where
  "getdcd_inprg E evt c s =
    (let c = timer_set E s c False
     in case evt of
       evt_dcd_data _ page data \<Rightarrow>
         if page = 0 then do { (c, s) \<leftarrow> dcd_store E data c s; Some (asr_suc, c, s) }
         else Some (asr_suc, c, s)
     | evt_dcd_data_end _ result \<Rightarrow>
         (let c = WAIT_RESPONSE_CLEAR c
          in if result = bg_err_success then do {
               let c = RETRY_CLEAR c;
               n \<leftarrow> cache_node c s;
               Some (asr_suc, c\<lparr>next_state := getdcd_next (n_err n) (next_state c)\<rparr>, s) }
             else if result = bg_err_timeout
             then Some (asr_suc, on_timeout_status GET_DCD_RETRY_TIMES give_up_end c, s)
             else Some (asr_suc, give_up_end c, s))
     | _ \<Rightarrow> Some (asr_unspec, c, s))"

definition getdcd_retry :: "env \<Rightarrow> retry_reason_t \<Rightarrow> config_cache_t \<Rightarrow> sys \<Rightarrow> acc_ret" where
  "getdcd_retry E reason c s = acc_retry dcd_get E reason c s"

definition getdcd_exit :: asr where "getdcd_exit = asr_suc"

definition is_getdcd_pkts :: "u32 \<Rightarrow> bool" where
  "is_getdcd_pkts evtid = (BGLIB_MSG_ID evtid \<in> {0x192700a0, 0x1a2700a0})"

subsection \<open>The send function keeps the contract\<close>

definition get_dcd_cmd :: "config_cache_t \<Rightarrow> sys \<Rightarrow> bgcmd option" where
  "get_dcd_cmd c s = do {
     nk \<leftarrow> netkey_id s; n \<leftarrow> cache_node c s; Some (cmd_get_dcd nk (n_addr n) 0) }"

lemma get_dcd_cmd_db: "db s1 = db s \<Longrightarrow> get_dcd_cmd c s1 = get_dcd_cmd c s"
  using reads_db [of s1 s] by (simp add: get_dcd_cmd_def)

interpretation dcd_send: acc_send dcd_get err_set_to_end end_em
proof (rule acc_sendI_cmd [where plan = "\<lambda>c s. map_option (\<lambda>cmd. (cmd, None)) (get_dcd_cmd c s)"])
  show "dcd_get E c s = (case map_option (\<lambda>cmd. (cmd, None)) (get_dcd_cmd c s) of None \<Rightarrow> None
      | Some (cmd, m) \<Rightarrow> Some (send_cmd err_set_to_end E cmd (set_model m c) s))" for E c s
    by (cases "netkey_id s"; cases "cache_node c s") (simp_all add: dcd_get_def get_dcd_cmd_def set_model_def)
qed (erule arg_cong [OF get_dcd_cmd_db] | simp add: get_dcd_cmd_def work_same err_set_to_end_def)+

end
