(* ===== verification/AppkeyStates.thy ===== *)
theory AppkeyStates
  imports GetDcd
begin

text \<open>
  The two states about application keys: adding the keys a node is to have
  (\<open>mng/states/as_addappkey.c\<close>) and binding them to each of its models
  (\<open>mng/states/as_bindappkey.c\<close>).
\<close>

definition ADD_APP_KEY_RETRY_TIMES :: u8 where "ADD_APP_KEY_RETRY_TIMES = 5"
definition BIND_APP_KEY_RETRY_TIMES :: u8 where "BIND_APP_KEY_RETRY_TIMES = 5"

text \<open>\<open>cache->node->config.bindings\<close>, which the states dereference without a test.\<close>

definition node_bindings :: "config_cache_t \<Rightarrow> sys \<Rightarrow> uint16list_t option" where
  "node_bindings c s = do { n \<leftarrow> cache_node c s; bindings (n_config n) }"

lemma node_bindings_same: "same_work c c1 \<Longrightarrow> node_bindings c1 (s\<lparr>sent := h\<rparr>) = node_bindings c s"
  by (simp add: node_bindings_def cache_node_same)

text \<open>
  \<open>while (++i != len) if (known data[i]) break;\<close> with reads outside the allocated data undefined.
\<close>

function next_key :: "(u16 \<Rightarrow> bool option) \<Rightarrow> uint16list_t \<Rightarrow> nat \<Rightarrow> nat option" where
  "next_key known l i =
    (if Suc i = unat (l_len l) then Some (Suc i)
     else if Suc i < length (l_data l)
     then do {
       b \<leftarrow> known (l_data l ! Suc i);
       if b then Some (Suc i) else next_key known l (Suc i) }
     else undef)"
  by pat_completeness auto
termination by (relation "measure (\<lambda>(known, l, i). length (l_data l) - i)") auto

declare next_key.simps [simp del]

definition known_key :: "sys \<Rightarrow> u16 \<Rightarrow> bool option" where
  "known_key s refid = do { r \<leftarrow> appkey_by_refid s refid; Some (r \<noteq> None) }"

subsection \<open>Adding the application keys\<close>

definition add_appkey_cmd :: "config_cache_t \<Rightarrow> sys \<Rightarrow> bgcmd option" where
  "add_appkey_cmd c s = do {
     n \<leftarrow> cache_node c s;
     l \<leftarrow> node_bindings c s;
     refid \<leftarrow> idx (l_data l) (iter0 c);
     ret \<leftarrow> appkey_by_refid s refid;
     key_id \<leftarrow> (case ret of Some k \<Rightarrow> Some k | None \<Rightarrow> aborts);
     nk \<leftarrow> netkey_id s;
     Some (cmd_add_appkey nk (n_addr n) key_id nk) }"

definition add_appkey :: "env \<Rightarrow> config_cache_t \<Rightarrow> sys \<Rightarrow> acc_ret" where
  "add_appkey E c s = do {
     cmd \<leftarrow> add_appkey_cmd c s;
     Some (send_cmd err_set_to_end E cmd c s) }"

definition addappkey_guard :: "config_cache_t \<Rightarrow> sys \<Rightarrow> bool option" where
  "addappkey_guard c s = do {
     n \<leftarrow> cache_node c s;
     Some (case bindings (n_config n) of Some l \<Rightarrow> l_len l \<noteq> 0 | None \<Rightarrow> False) }"

definition addappkey_entry :: "env \<Rightarrow> config_cache_t \<Rightarrow> sys \<Rightarrow> acc_ret" where
  "addappkey_entry E c s = do {
     ok \<leftarrow> addappkey_guard c s;
     if \<not> ok then Some (asr_tonext, c, s) else add_appkey E c s }"

definition iter_appkey :: "config_cache_t \<Rightarrow> sys \<Rightarrow> (bool \<times> config_cache_t) option" where
  "iter_appkey c s = do {
     l \<leftarrow> node_bindings c s;
     i \<leftarrow> next_key (known_key s) l (iter0 c);
     if i = unat (l_len l) then Some (True, c\<lparr>iter0 := 0\<rparr>) else Some (False, c\<lparr>iter0 := i\<rparr>) }"

definition addappkey_inprg :: "env \<Rightarrow> bgevt \<Rightarrow> config_cache_t \<Rightarrow> sys \<Rightarrow> acc_ret" where
  "addappkey_inprg E evt c s =
    (let c = timer_set E s c False
     in case evt of
       evt_appkey_status _ result \<Rightarrow>
         (let c = WAIT_RESPONSE_CLEAR c
          in if result = bg_err_success then do {
               let c = RETRY_CLEAR c;
               (fin, c) \<leftarrow> iter_appkey c s;
               if fin then Some (asr_suc, c\<lparr>next_state := None\<rparr>, s) else add_appkey E c s }
             else if result = bg_err_timeout
             then Some (asr_suc, on_timeout_status ADD_APP_KEY_RETRY_TIMES give_up_end c, s)
             else Some (asr_suc, give_up_end c, s))
     | _ \<Rightarrow> Some (asr_unspec, c, s))"

definition addappkey_retry :: "env \<Rightarrow> retry_reason_t \<Rightarrow> config_cache_t \<Rightarrow> sys \<Rightarrow> acc_ret" where
  "addappkey_retry E reason c s = acc_retry add_appkey E reason c s"

definition addappkey_exit :: asr where "addappkey_exit = asr_suc"

definition is_addappkey_pkts :: "u32 \<Rightarrow> bool" where
  "is_addappkey_pkts evtid = (BGLIB_MSG_ID evtid = 0x042700a0)"

subsection \<open>Binding the keys to the models\<close>

text \<open>\<open>vnm\<close> is set before the key is looked up; a missing key aborts.\<close>

definition bind_appkey_cmd :: "config_cache_t \<Rightarrow> sys \<Rightarrow> (bgcmd \<times> (u16 \<times> u16)) option" where
  "bind_appkey_cmd c s = do {
     m \<leftarrow> cur_model c;
     n \<leftarrow> cache_node c s;
     l \<leftarrow> node_bindings c s;
     refid \<leftarrow> idx (l_data l) (iter2 c);
     ret \<leftarrow> appkey_by_refid s refid;
     key_id \<leftarrow> (case ret of Some k \<Rightarrow> Some k | None \<Rightarrow> aborts);
     nk \<leftarrow> netkey_id s;
     Some (cmd_bind_model nk (n_addr n) (iter0 c) key_id (fst m) (snd m), m) }"

definition bind_appkey :: "env \<Rightarrow> config_cache_t \<Rightarrow> sys \<Rightarrow> acc_ret" where
  "bind_appkey E c s = do {
     (cmd, m) \<leftarrow> bind_appkey_cmd c s;
     Some (send_cmd err_set_to_end E cmd (c\<lparr>vnm_vd := fst m, vnm_md := snd m\<rparr>) s) }"

definition bindappkey_guard :: "config_cache_t \<Rightarrow> sys \<Rightarrow> bool option" where
  "bindappkey_guard c s = do {
     n \<leftarrow> cache_node c s;
     Some (case bindings (n_config n) of Some l \<Rightarrow> l_len l \<noteq> 0 | None \<Rightarrow> False) }"

definition bindappkey_entry :: "env \<Rightarrow> config_cache_t \<Rightarrow> sys \<Rightarrow> acc_ret" where
  "bindappkey_entry E c s = do {
     ok \<leftarrow> bindappkey_guard c s;
     if \<not> ok then Some (asr_tonext, c, s) else bind_appkey E c s }"

text \<open>Past the last model the iterators step to the next element; past the last element they restart.\<close>

definition next_elem :: "config_cache_t \<Rightarrow> bool \<times> config_cache_t" where
  "next_elem c =
    (let c = c\<lparr>iter1 := 0, iter0 := Suc (iter0 c)\<rparr>
     in if iter0 c = unat (element_cnt (cc_dcd c)) then (True, c\<lparr>iter0 := 0\<rparr>) else (False, c))"

text \<open>Keys vary fastest, then the models of an element, then the elements.\<close>

definition iter_bindings :: "config_cache_t \<Rightarrow> sys \<Rightarrow> (bool \<times> config_cache_t) option" where
  "iter_bindings c s = do {
     l \<leftarrow> node_bindings c s;
     i \<leftarrow> next_key (known_key s) l (iter2 c);
     if i = unat (l_len l) then do {
       let c = c\<lparr>iter2 := 0, iter1 := Suc (iter1 c)\<rparr>;
       el \<leftarrow> cur_elem c;
       Some (if iter1 c = model_cnt el then next_elem c else (False, c)) }
     else Some (False, c\<lparr>iter2 := i\<rparr>) }"

definition bindappkey_inprg :: "env \<Rightarrow> bgevt \<Rightarrow> config_cache_t \<Rightarrow> sys \<Rightarrow> acc_ret" where
  "bindappkey_inprg E evt c s =
    (let c = timer_set E s c False
     in case evt of
       evt_binding_status _ result \<Rightarrow>
         (let c = WAIT_RESPONSE_CLEAR c
          in if result = bg_err_success then do {
               let c = RETRY_CLEAR c;
               (fin, c) \<leftarrow> iter_bindings c s;
               if fin then Some (asr_suc, c\<lparr>next_state := None\<rparr>, s) else bind_appkey E c s }
             else if result = bg_err_timeout
             then Some (asr_suc, on_timeout_status BIND_APP_KEY_RETRY_TIMES give_up_end c, s)
             else Some (asr_suc, give_up_end c, s))
     | _ \<Rightarrow> Some (asr_unspec, c, s))"

definition bindappkey_retry :: "env \<Rightarrow> retry_reason_t \<Rightarrow> config_cache_t \<Rightarrow> sys \<Rightarrow> acc_ret" where
  "bindappkey_retry E reason c s = acc_retry bind_appkey E reason c s"

definition bindappkey_exit :: asr where "bindappkey_exit = asr_suc"

definition is_bindappkey_pkts :: "u32 \<Rightarrow> bool" where
  "is_bindappkey_pkts evtid = (BGLIB_MSG_ID evtid = 0x072700a0)"

subsection \<open>The send functions keep the contract\<close>

lemma same_work_iters:
  "same_work c c1 \<Longrightarrow> iter0 c1 = iter0 c" "same_work c c1 \<Longrightarrow> iter1 c1 = iter1 c"
  "same_work c c1 \<Longrightarrow> iter2 c1 = iter2 c"
  by (simp_all add: same_work_def)

lemma add_appkey_cmd_same:
  assumes w: "same_work c c1"
  shows "add_appkey_cmd c1 (s\<lparr>sent := h\<rparr>) = add_appkey_cmd c s"
  by (simp add: add_appkey_cmd_def work_same [OF w] node_bindings_same [OF w] same_work_iters [OF w])

lemma bind_appkey_cmd_same:
  assumes w: "same_work c c1"
  shows "bind_appkey_cmd c1 (s\<lparr>sent := h\<rparr>) = bind_appkey_cmd c s"
  by (simp add: bind_appkey_cmd_def work_same [OF w] node_bindings_same [OF w] same_work_iters [OF w])

lemma add_appkey_cmd_db: "db s1 = db s \<Longrightarrow> add_appkey_cmd c s1 = add_appkey_cmd c s"
  using reads_db [of s1 s] by (simp add: add_appkey_cmd_def node_bindings_def)

lemma bind_appkey_cmd_db: "db s1 = db s \<Longrightarrow> bind_appkey_cmd c s1 = bind_appkey_cmd c s"
  using reads_db [of s1 s] by (simp add: bind_appkey_cmd_def node_bindings_def)

interpretation appkey_send: acc_send add_appkey err_set_to_end end_em
proof (rule acc_sendI_cmd [where plan = "\<lambda>c s. map_option (\<lambda>cmd. (cmd, None)) (add_appkey_cmd c s)"])
  show "add_appkey E c s = (case map_option (\<lambda>cmd. (cmd, None)) (add_appkey_cmd c s) of None \<Rightarrow> None
      | Some (cmd, m) \<Rightarrow> Some (send_cmd err_set_to_end E cmd (set_model m c) s))" for E c s
    by (cases "add_appkey_cmd c s") (simp_all add: add_appkey_def set_model_def)
qed (erule arg_cong [OF add_appkey_cmd_db] | simp add: add_appkey_cmd_same err_set_to_end_def)+

interpretation bind_send: acc_send bind_appkey err_set_to_end end_em
proof (rule acc_sendI_cmd [where plan = "\<lambda>c s. map_option (\<lambda>(cmd, m). (cmd, Some m)) (bind_appkey_cmd c s)"])
  show "bind_appkey E c s = (case map_option (\<lambda>(cmd, m). (cmd, Some m)) (bind_appkey_cmd c s) of None \<Rightarrow> None
      | Some (cmd, m) \<Rightarrow> Some (send_cmd err_set_to_end E cmd (set_model m c) s))" for E c s
    by (cases "bind_appkey_cmd c s") (auto simp: bind_appkey_def set_model_def)
qed (erule arg_cong [OF bind_appkey_cmd_db] | simp add: bind_appkey_cmd_same err_set_to_end_def)+

end
