(* ===== verification/PubSub.thy ===== *)
theory PubSub
  imports AppkeyStates
begin

text \<open>
  The states about the models' addresses: the publication of each model
  (\<open>mng/states/as_setpub.c\<close>) and its subscriptions (\<open>mng/states/as_addsub.c\<close>).
\<close>

definition SET_PUB_RETRY_TIMES :: u8 where "SET_PUB_RETRY_TIMES = 5"
definition ADD_SUB_RETRY_TIMES :: u8 where "ADD_SUB_RETRY_TIMES = 5"

text \<open>
  The loop both iterators share: the next model of the element that supports the procedure, or
  none when the models are exhausted. A step past the models the element has is undefined.
\<close>

lemma model_at_bound: "model_at el i = Some m \<Longrightarrow> i < unat (sigm_cnt el) + length (vm el)"
  by (auto simp: model_at_def bind_Some_conv split: if_splits)

function next_model :: "(u16 \<Rightarrow> bool) \<Rightarrow> elem_t \<Rightarrow> nat \<Rightarrow> nat option option" where
  "next_model supported el i =
    (if Suc i = model_cnt el then Some None
     else case model_at el (Suc i) of
       None \<Rightarrow> undef
     | Some (_, md) \<Rightarrow> if supported md then Some (Some (Suc i)) else next_model supported el (Suc i))"
  by pat_completeness auto
termination
  by (relation "measure (\<lambda>(sup, el, i). unat (sigm_cnt el) + length (vm el) - i)")
    (auto dest!: model_at_bound)

declare next_model.simps [simp del]

text \<open>Having gone through the models, both iterators step to the next element.\<close>

definition step_model :: "(u16 \<Rightarrow> bool) \<Rightarrow> config_cache_t \<Rightarrow> (bool \<times> config_cache_t) option" where
  "step_model supported c = do {
     el \<leftarrow> cur_elem c;
     i \<leftarrow> next_model supported el (iter1 c);
     Some (case i of Some i \<Rightarrow> (False, c\<lparr>iter1 := i\<rparr>) | None \<Rightarrow> next_elem c) }"

subsection \<open>Publication\<close>

definition not_pub_models :: "u16 list" where
  "not_pub_models = [0x1007, 0x100A, 0x100F, 0x1201, 0x1204, 0x1207, 0x1301, 0x1304, 0x1308, 0x130D]"

definition pub_supported :: "u16 \<Rightarrow> bool" where
  "pub_supported md = (md \<notin> set not_pub_models)"

definition setpub_cmd :: "config_cache_t \<Rightarrow> sys \<Rightarrow> (bgcmd \<times> (u16 \<times> u16)) option" where
  "setpub_cmd c s = do {
     m \<leftarrow> cur_model c;
     n \<leftarrow> cache_node c s;
     p \<leftarrow> pub (n_config n);
     ret \<leftarrow> appkey_by_refid s (pub_aki p);
     key_id \<leftarrow> (case ret of Some k \<Rightarrow> Some k | None \<Rightarrow> aborts);
     nk \<leftarrow> netkey_id s;
     Some (cmd_set_model_pub nk (n_addr n) (iter0 c) (fst m) (snd m) (pub_addr p) key_id (pub_ttl p)
             (pub_period p) (tx_cnt (pub_txp p))
             (if tx_intv (pub_txp p) \<noteq> 0 then tx_intv (pub_txp p) else 50), m) }"

definition setpub :: "env \<Rightarrow> config_cache_t \<Rightarrow> sys \<Rightarrow> acc_ret" where
  "setpub E c s = do {
     (cmd, m) \<leftarrow> setpub_cmd c s;
     Some (send_cmd err_set_to_end E cmd (c\<lparr>vnm_vd := fst m, vnm_md := snd m\<rparr>) s) }"

text \<open>The key of the publication must be among the keys bound to the node.\<close>

fun has_aki :: "u16 \<Rightarrow> nat \<Rightarrow> u16 list \<Rightarrow> bool option" where
  "has_aki aki 0 ks = Some False"
| "has_aki aki (Suc n) [] = undef"
| "has_aki aki (Suc n) (k # ks) = (if k = aki then Some True else has_aki aki n ks)"

definition setpub_guard :: "config_cache_t \<Rightarrow> sys \<Rightarrow> bool option" where
  "setpub_guard c s = do {
     n \<leftarrow> cache_node c s;
     case (pub (n_config n), bindings (n_config n)) of
       (Some p, Some l) \<Rightarrow>
         if l_len l = 0 then Some False else has_aki (pub_aki p) (unat (l_len l)) (l_data l)
     | _ \<Rightarrow> Some False }"

definition setpub_entry :: "env \<Rightarrow> config_cache_t \<Rightarrow> sys \<Rightarrow> acc_ret" where
  "setpub_entry E c s = do {
     ok \<leftarrow> setpub_guard c s;
     if \<not> ok then Some (asr_tonext, c, s) else setpub E c s }"

definition iter_setpub :: "config_cache_t \<Rightarrow> (bool \<times> config_cache_t) option" where
  "iter_setpub c = step_model pub_supported c"

definition setpub_inprg :: "env \<Rightarrow> bgevt \<Rightarrow> config_cache_t \<Rightarrow> sys \<Rightarrow> acc_ret" where
  "setpub_inprg E evt c s =
    (let c = timer_set E s c False
     in case evt of
       evt_model_pub_status _ result \<Rightarrow>
         (let c = WAIT_RESPONSE_CLEAR c
          in if result = bg_err_success \<or> result = bg_err_mesh_not_initialized then do {
               let c = RETRY_CLEAR c;
               (fin, c) \<leftarrow> iter_setpub c;
               if fin then Some (asr_suc, c\<lparr>next_state := None\<rparr>, s) else setpub E c s }
             else if result = bg_err_timeout
             then Some (asr_suc, on_timeout_status SET_PUB_RETRY_TIMES give_up_end c, s)
             else Some (asr_suc, err_set_to_end c result bgevent_em, s))
     | _ \<Rightarrow> Some (asr_unspec, c, s))"

definition setpub_retry :: "env \<Rightarrow> retry_reason_t \<Rightarrow> config_cache_t \<Rightarrow> sys \<Rightarrow> acc_ret" where
  "setpub_retry E reason c s = acc_retry setpub E reason c s"

definition setpub_exit :: asr where "setpub_exit = asr_suc"

definition is_setpub_pkts :: "u32 \<Rightarrow> bool" where
  "is_setpub_pkts evtid = (BGLIB_MSG_ID evtid = 0x0a2700a0)"

subsection \<open>Subscription\<close>

definition not_sub_models :: "u16 list" where
  "not_sub_models = [0x1201]"

definition sub_supported :: "u16 \<Rightarrow> bool" where
  "sub_supported md = (md \<notin> set not_sub_models)"

definition node_sublist :: "config_cache_t \<Rightarrow> sys \<Rightarrow> uint16list_t option" where
  "node_sublist c s = do { n \<leftarrow> cache_node c s; sublist (n_config n) }"

lemma node_sublist_same: "same_work c c1 \<Longrightarrow> node_sublist c1 (s\<lparr>sent := h\<rparr>) = node_sublist c s"
  by (simp add: node_sublist_def cache_node_same)

text \<open>The first address of a model overwrites its subscription list, the others are added.\<close>

definition addsub_cmd :: "config_cache_t \<Rightarrow> sys \<Rightarrow> (bgcmd \<times> (u16 \<times> u16)) option" where
  "addsub_cmd c s = do {
     m \<leftarrow> cur_model c;
     nk \<leftarrow> netkey_id s;
     n \<leftarrow> cache_node c s;
     l \<leftarrow> node_sublist c s;
     a \<leftarrow> idx (l_data l) (iter2 c);
     Some ((if iter2 c = 0 then cmd_set_model_sub else cmd_add_model_sub)
             nk (n_addr n) (iter0 c) (fst m) (snd m) a, m) }"

definition addsub :: "env \<Rightarrow> config_cache_t \<Rightarrow> sys \<Rightarrow> acc_ret" where
  "addsub E c s = do {
     (cmd, m) \<leftarrow> addsub_cmd c s;
     Some (send_cmd err_set_to_end E cmd (c\<lparr>vnm_vd := fst m, vnm_md := snd m\<rparr>) s) }"

definition addsub_guard :: "config_cache_t \<Rightarrow> sys \<Rightarrow> bool option" where
  "addsub_guard c s = do {
     n \<leftarrow> cache_node c s;
     Some (case sublist (n_config n) of Some l \<Rightarrow> l_len l \<noteq> 0 | None \<Rightarrow> False) }"

definition addsub_entry :: "env \<Rightarrow> config_cache_t \<Rightarrow> sys \<Rightarrow> acc_ret" where
  "addsub_entry E c s = do {
     ok \<leftarrow> addsub_guard c s;
     if \<not> ok then Some (asr_tonext, c, s) else addsub E c s }"

definition iter_addsub :: "config_cache_t \<Rightarrow> sys \<Rightarrow> (bool \<times> config_cache_t) option" where
  "iter_addsub c s = do {
     l \<leftarrow> node_sublist c s;
     let c = c\<lparr>iter2 := Suc (iter2 c)\<rparr>;
     if iter2 c = unat (l_len l) then step_model sub_supported (c\<lparr>iter2 := 0\<rparr>)
     else Some (False, c) }"

text \<open>
  A model that cannot take more addresses is passed: the address iterator jumps to its last value.
  This branch does not clear the retry state.
\<close>

definition addsub_inprg :: "env \<Rightarrow> bgevt \<Rightarrow> config_cache_t \<Rightarrow> sys \<Rightarrow> acc_ret" where
  "addsub_inprg E evt c s =
    (let c = timer_set E s c False
     in case evt of
       evt_model_sub_status _ result \<Rightarrow>
         (let c = WAIT_RESPONSE_CLEAR c;
              continue = (\<lambda>c. do {
                (fin, c) \<leftarrow> iter_addsub c s;
                if fin then Some (asr_suc, c\<lparr>next_state := None\<rparr>, s) else addsub E c s })
          in if result = bg_err_success then continue (RETRY_CLEAR c)
             else if result = bg_err_timeout
             then Some (asr_suc, on_timeout_status ADD_SUB_RETRY_TIMES give_up_end c, s)
             else if result = bg_err_mesh_foundation_insufficient_resources then do {
               l \<leftarrow> node_sublist c s;
               continue (c\<lparr>iter2 := unat (l_len l) - 1\<rparr>) }
             else Some (asr_suc, give_up_end c, s))
     | _ \<Rightarrow> Some (asr_unspec, c, s))"

definition addsub_retry :: "env \<Rightarrow> retry_reason_t \<Rightarrow> config_cache_t \<Rightarrow> sys \<Rightarrow> acc_ret" where
  "addsub_retry E reason c s = acc_retry addsub E reason c s"

definition addsub_exit :: asr where "addsub_exit = asr_suc"

definition is_addsub_pkts :: "u32 \<Rightarrow> bool" where
  "is_addsub_pkts evtid = (BGLIB_MSG_ID evtid = 0x0b2700a0)"

subsection \<open>The send functions keep the contract\<close>

lemma setpub_cmd_same:
  assumes w: "same_work c c1"
  shows "setpub_cmd c1 (s\<lparr>sent := h\<rparr>) = setpub_cmd c s"
  by (simp add: setpub_cmd_def work_same [OF w] same_work_iters [OF w])

lemma addsub_cmd_same:
  assumes w: "same_work c c1"
  shows "addsub_cmd c1 (s\<lparr>sent := h\<rparr>) = addsub_cmd c s"
  by (simp add: addsub_cmd_def work_same [OF w] node_sublist_same [OF w] same_work_iters [OF w])

lemma setpub_cmd_db: "db s1 = db s \<Longrightarrow> setpub_cmd c s1 = setpub_cmd c s"
  using reads_db [of s1 s] by (simp add: setpub_cmd_def)

lemma addsub_cmd_db: "db s1 = db s \<Longrightarrow> addsub_cmd c s1 = addsub_cmd c s"
  using reads_db [of s1 s] by (simp add: addsub_cmd_def node_sublist_def)

interpretation pub_send: acc_send setpub err_set_to_end end_em
proof (rule acc_sendI_cmd [where plan = "\<lambda>c s. map_option (\<lambda>(cmd, m). (cmd, Some m)) (setpub_cmd c s)"])
  show "setpub E c s = (case map_option (\<lambda>(cmd, m). (cmd, Some m)) (setpub_cmd c s) of None \<Rightarrow> None
      | Some (cmd, m) \<Rightarrow> Some (send_cmd err_set_to_end E cmd (set_model m c) s))" for E c s
    by (cases "setpub_cmd c s") (auto simp: setpub_def set_model_def)
qed (erule arg_cong [OF setpub_cmd_db] | simp add: setpub_cmd_same err_set_to_end_def)+

interpretation sub_send: acc_send addsub err_set_to_end end_em
proof (rule acc_sendI_cmd [where plan = "\<lambda>c s. map_option (\<lambda>(cmd, m). (cmd, Some m)) (addsub_cmd c s)"])
  show "addsub E c s = (case map_option (\<lambda>(cmd, m). (cmd, Some m)) (addsub_cmd c s) of None \<Rightarrow> None
      | Some (cmd, m) \<Rightarrow> Some (send_cmd err_set_to_end E cmd (set_model m c) s))" for E c s
    by (cases "addsub_cmd c s") (auto simp: addsub_def set_model_def)
qed (erule arg_cong [OF addsub_cmd_db] | simp add: addsub_cmd_same err_set_to_end_def)+

end
