(* ===== verification/SetConfig.thy ===== *)
theory SetConfig
  imports PubSub
begin

unbundle bit_operations_syntax

text \<open>
  The last configuration state, \<open>mng/states/as_setconfig.c\<close>: for each feature whose target bit
  differs from its current bit, lowest first, the setting is sent; a success status copies the bit.
\<close>

definition SET_CONFIGS_RETRY_TIMES :: u8 where "SET_CONFIGS_RETRY_TIMES = 5"

definition node_features :: "config_cache_t \<Rightarrow> sys \<Rightarrow> features_t option" where
  "node_features c s = do { n \<leftarrow> cache_node c s; Some (features (n_config n)) }"

definition feature_done :: "nat \<Rightarrow> features_t \<Rightarrow> features_t" where
  "feature_done w f =
    (if IS_BIT_SET (target f) w then f\<lparr>current := BIT_SET (current f) w\<rparr>
     else f\<lparr>current := BIT_CLR (current f) w\<rparr>)"

definition on_feature_configured :: "config_cache_t \<Rightarrow> nat \<Rightarrow> sys \<Rightarrow> sys option" where
  "on_feature_configured c w s = do {
     r \<leftarrow> cc_node c;
     nassign r (\<lambda>n. n\<lparr>n_config := (n_config n)\<lparr>features := feature_done w (features (n_config n))\<rparr>\<rparr>) s }"

text \<open>\<open>__next_config_item\<close>: -1 is \<^const>\<open>None\<close>.\<close>

definition next_item :: "features_t \<Rightarrow> nat option" where
  "next_item f =
    (let bits = ucast (target f XOR current f) :: u32
     in if bits = 0 then None else Some (nat (utils_ctz bits)))"

definition next_config_item :: "config_cache_t \<Rightarrow> sys \<Rightarrow> nat option option" where
  "next_config_item c s = do { f \<leftarrow> node_features c s; Some (next_item f) }"

text \<open>The items that have a command; the LPN bit and the bits past the known ones have none.\<close>

definition configurable :: "nat option \<Rightarrow> bool" where
  "configurable which \<longleftrightarrow>
    which \<in> Some ` {RELAY_BITOFS, PROXY_BITOFS, FRIEND_BITOFS, NETTX_BITOFS, TTL_BITOFS, SNB_BITOFS}"

definition config_cmd :: "u16 \<Rightarrow> node_t \<Rightarrow> nat option \<Rightarrow> bgcmd option" where
  "config_cmd nk n which =
    (let f = features (n_config n); on = (\<lambda>w. IS_BIT_SET (target f) w)
     in if which = Some RELAY_BITOFS then do {
          t \<leftarrow> relay_txp f;
          Some (cmd_set_relay nk (n_addr n) (on RELAY_BITOFS) (tx_cnt t)
                  (if tx_intv t \<noteq> 0 then tx_intv t else 50)) }
        else if which = Some PROXY_BITOFS then Some (cmd_set_gatt_proxy nk (n_addr n) (on PROXY_BITOFS))
        else if which = Some FRIEND_BITOFS then Some (cmd_set_friend nk (n_addr n) (on FRIEND_BITOFS))
        else if which = Some TTL_BITOFS then do {
          t \<leftarrow> ttl (n_config n); Some (cmd_set_default_ttl nk (n_addr n) t) }
        else if which = Some NETTX_BITOFS then do {
          t \<leftarrow> net_txp (n_config n);
          Some (cmd_set_network_transmit nk (n_addr n) (tx_cnt t) (tx_intv t)) }
        else Some (cmd_set_beacon nk (n_addr n) (on SNB_BITOFS)))"

definition setconfig_plan :: "config_cache_t \<Rightarrow> sys \<Rightarrow> bgcmd option option" where
  "setconfig_plan c s = do {
     which \<leftarrow> next_config_item c s;
     n \<leftarrow> cache_node c s;
     if configurable which then do {
       nk \<leftarrow> netkey_id s; cmd \<leftarrow> config_cmd nk n which; Some (Some cmd) }
     else Some None }"

definition setconfig :: "env \<Rightarrow> config_cache_t \<Rightarrow> sys \<Rightarrow> acc_ret" where
  "setconfig E c s = do {
     x \<leftarrow> setconfig_plan c s;
     case x of
       None \<Rightarrow> Some (asr_notfnd, c, s)
     | Some cmd \<Rightarrow> Some (send_cmd err_set_to_end E cmd c s) }"

definition setconfig_guard :: "config_cache_t \<Rightarrow> sys \<Rightarrow> bool option" where
  "setconfig_guard c s = do { f \<leftarrow> node_features c s; Some (current f XOR target f \<noteq> 0) }"

text \<open>\<open>asr_notfnd\<close> from the send function becomes a step to the next state.\<close>

definition notfnd_to_next :: "asr \<times> config_cache_t \<times> sys \<Rightarrow> asr \<times> config_cache_t \<times> sys" where
  "notfnd_to_next r =
    (case r of (ret, c, s) \<Rightarrow> if ret = asr_notfnd then (asr_suc, c\<lparr>next_state := None\<rparr>, s) else r)"

definition setconfig_entry :: "env \<Rightarrow> config_cache_t \<Rightarrow> sys \<Rightarrow> acc_ret" where
  "setconfig_entry E c s = do {
     ok \<leftarrow> setconfig_guard c s;
     if \<not> ok then Some (asr_tonext, c, s)
     else do { r \<leftarrow> setconfig E c s; Some (notfnd_to_next r) } }"

text \<open>The setting a status is about, with its result.\<close>

fun config_status :: "bgevt \<Rightarrow> (nat \<times> u16) option" where
  "config_status (evt_relay_status _ r) = Some (RELAY_BITOFS, r)"
| "config_status (evt_friend_status _ r) = Some (FRIEND_BITOFS, r)"
| "config_status (evt_gatt_proxy_status _ r) = Some (PROXY_BITOFS, r)"
| "config_status (evt_default_ttl_status _ r) = Some (TTL_BITOFS, r)"
| "config_status (evt_network_transmit_status _ r) = Some (NETTX_BITOFS, r)"
| "config_status (evt_beacon_status _ r) = Some (SNB_BITOFS, r)"
| "config_status _ = None"

text \<open>The log message of a success or a failure dereferences the setting it prints.\<close>

definition print_defined :: "nat \<Rightarrow> node_t \<Rightarrow> bool" where
  "print_defined which n =
    ((which = TTL_BITOFS \<longrightarrow> ttl (n_config n) \<noteq> None) \<and> (which = NETTX_BITOFS \<longrightarrow> net_txp (n_config n) \<noteq> None))"

definition setconfig_inprg :: "env \<Rightarrow> bgevt \<Rightarrow> config_cache_t \<Rightarrow> sys \<Rightarrow> acc_ret" where
  "setconfig_inprg E evt c s =
    (let c = timer_set E s c False
     in case config_status evt of
       None \<Rightarrow> Some (asr_unspec, c, s)
     | Some (which, retval) \<Rightarrow>
         (let c = WAIT_RESPONSE_CLEAR c
          in if retval = bg_err_success then do {
               let c = RETRY_CLEAR c;
               n \<leftarrow> cache_node c s;
               if \<not> print_defined which n then undef
               else do {
                 s \<leftarrow> on_feature_configured c which s;
                 item \<leftarrow> next_config_item c s;
                 if item = None then Some (asr_suc, c\<lparr>next_state := None\<rparr>, s)
                 else do { r \<leftarrow> setconfig E c s; Some (notfnd_to_next r) } } }
             else if retval = bg_err_timeout
             then Some (asr_suc, on_timeout_status SET_CONFIGS_RETRY_TIMES give_up_end c, s)
             else do {
               n \<leftarrow> cache_node c s;
               if \<not> print_defined which n then undef else Some (asr_suc, give_up_end c, s) }))"

definition setconfig_retry :: "env \<Rightarrow> retry_reason_t \<Rightarrow> config_cache_t \<Rightarrow> sys \<Rightarrow> acc_ret" where
  "setconfig_retry E reason c s = acc_retry setconfig E reason c s"

definition setconfig_exit :: asr where "setconfig_exit = asr_suc"

definition is_setconfig_pkts :: "u32 \<Rightarrow> bool" where
  "is_setconfig_pkts evtid =
    (BGLIB_MSG_ID evtid \<in> {0x112700a0, 0x122700a0, 0x162700a0, 0x132700a0, 0x102700a0, 0x142700a0})"

subsection \<open>The send function keeps the contract\<close>

lemma setconfig_plan_same:
  assumes w: "same_work c c1"
  shows "setconfig_plan c1 (s\<lparr>sent := h\<rparr>) = setconfig_plan c s"
  by (simp add: setconfig_plan_def next_config_item_def node_features_def work_same [OF w] cong: if_cong)

lemma setconfig_plan_db: "db s1 = db s \<Longrightarrow> setconfig_plan c s1 = setconfig_plan c s"
  using reads_db [of s1 s] by (simp add: setconfig_plan_def next_config_item_def node_features_def cong: if_cong)

interpretation config_send: acc_send setconfig err_set_to_end end_em
proof (rule acc_sendI [where plan = "\<lambda>c s. map_option (map_option (\<lambda>cmd. (cmd, None))) (setconfig_plan c s)"])
  show "setconfig E c s = Option.bind (map_option (map_option (\<lambda>cmd. (cmd, None))) (setconfig_plan c s))
      (\<lambda>x. case x of None \<Rightarrow> Some (asr_notfnd, c, s)
        | Some (cmd, m) \<Rightarrow> Some (send_cmd err_set_to_end E cmd (set_model m c) s))" for E c s
    by (cases "setconfig_plan c s") (auto simp: setconfig_def set_model_def split: option.splits)
qed (erule arg_cong [OF setconfig_plan_db] | simp add: setconfig_plan_same err_set_to_end_def)+

end
