(* ===== verification/Models.thy ===== *)
theory Models
  imports Stat
begin

text \<open>
  The control of lights from the command line, \<open>mng/models.c\<close>, and the demonstration that drives it,
  \<open>mng/demo.c\<close>. A command fills the list \<open>mng.cache.model_set\<close>, the main loop sends one message per
  turn. In \<open>check_demo\<close> the flag \<open>demo.on\<close> is never set by the compiled code, so it returns at once
  and is left out.
\<close>

subsection \<open>Sending\<close>

abbreviation (input) REQUEST_ON_OFF :: u8 where "REQUEST_ON_OFF \<equiv> 0x0"
abbreviation (input) REQUEST_LIGHTNESS_ACTUAL :: u8 where "REQUEST_LIGHTNESS_ACTUAL \<equiv> 0x80"
abbreviation (input) REQUEST_CTL_TEMPERATURE :: u8 where "REQUEST_CTL_TEMPERATURE \<equiv> 0x85"

definition le_bytes :: "u16 \<Rightarrow> u8 list" where
  "le_bytes v = [ucast v, ucast (drop_bit 8 v)]"

definition client_set :: "env \<Rightarrow> u16 \<Rightarrow> u16 \<Rightarrow> u8 \<Rightarrow> u8 list \<Rightarrow> sys \<Rightarrow> u16 \<times> sys" where
  "client_set E model addr typ params s =
    (let (rsp, s') = bgcall E (cmd_generic_client_set model addr (tid s) typ params) s
     in (rsp_result rsp, s'\<lparr>tid := tid s + 1\<rparr>))"

definition send_onoff :: "env \<Rightarrow> u16 \<Rightarrow> u8 \<Rightarrow> sys \<Rightarrow> u16 \<times> sys" where
  "send_onoff E addr onoff s = client_set E 0x1001 addr REQUEST_ON_OFF [onoff] s"

definition lightness_level :: "u8 \<Rightarrow> u16" where
  "lightness_level lightness = word_of_int (uint lightness * 0xffff div 100)"

definition send_lightness :: "env \<Rightarrow> u16 \<Rightarrow> u8 \<Rightarrow> sys \<Rightarrow> u16 \<times> sys" where
  "send_lightness E addr lightness s =
    client_set E 0x1302 addr REQUEST_LIGHTNESS_ACTUAL (le_bytes (lightness_level lightness)) s"

definition ctl_level :: "u8 \<Rightarrow> u16" where
  "ctl_level ctl = word_of_int (0x0320 + (uint ctl * uint ctl div 100) * (0x4e20 - 0x0320) div 100)"

definition send_ctl :: "env \<Rightarrow> u16 \<Rightarrow> u8 \<Rightarrow> sys \<Rightarrow> u16 \<times> sys" where
  "send_ctl E addr ctl s =
    client_set E 0x1305 addr REQUEST_CTL_TEMPERATURE (le_bytes (ctl_level ctl) @ [0, 0]) s"

subsection \<open>The commands\<close>

text \<open>The addresses on the command line; an argument that is not a number is skipped.\<close>

fun parse_addrs :: "string list \<Rightarrow> u16 list option" where
  "parse_addrs [] = Some []"
| "parse_addrs (a # as) = do {
     r \<leftarrow> str2uint a 2;
     rest \<leftarrow> parse_addrs as;
     Some (case r of Inl _ \<Rightarrow> rest | Inr v \<Rightarrow> of_nat v # rest) }"

text \<open>The tail of both commands: the nodes to send to, and the type when there are any.\<close>

definition model_set_nodes :: "u8 \<Rightarrow> u8 \<Rightarrow> string list \<Rightarrow> sys \<Rightarrow> (error_code_t \<times> sys) option" where
  "model_set_nodes func typ argv s = do {
     targets \<leftarrow> (if length argv = 2 then do {
          l \<leftarrow> get_lights_addrs func (db s);
          Some (map_option (\<lambda>l. take (unat (l_len l)) (l_data l)) l) }
        else do { as \<leftarrow> parse_addrs (drop 2 argv); Some (Some as) });
     case targets of
       None \<Rightarrow> Some (ec_success, s)
     | Some as \<Rightarrow>
         (let m = mng s; m = m\<lparr>ms_nodes := ms_nodes m @ as\<rparr>
          in Some (ec_success, s\<lparr>mng := (if ms_nodes m \<noteq> [] then m\<lparr>ms_type := typ\<rparr> else m)\<rparr>)) }"

definition clicb_onoff :: "string list \<Rightarrow> sys \<Rightarrow> (error_code_t \<times> sys) option" where
  "clicb_onoff argv s =
    (if ms_type (mng s) \<noteq> 0 then Some (ec_state, s)
     else if length argv < 2 then Some (ec_param_invalid, s)
     else if argv ! 1 = ''on''
     then model_set_nodes ONOFF_SV_BIT ONOFF_SV_BIT argv (s\<lparr>mng := (mng s)\<lparr>ms_value := 1\<rparr>\<rparr>)
     else if argv ! 1 = ''off''
     then model_set_nodes ONOFF_SV_BIT ONOFF_SV_BIT argv (s\<lparr>mng := (mng s)\<lparr>ms_value := 0\<rparr>\<rparr>)
     else Some (ec_param_invalid, s))"

definition clicb_perc_set :: "u8 \<Rightarrow> string list \<Rightarrow> sys \<Rightarrow> (error_code_t \<times> sys) option" where
  "clicb_perc_set typ argv s =
    (if ms_type (mng s) \<noteq> 0 then Some (ec_state, s)
     else if length argv < 2 then Some (ec_param_invalid, s)
     else do {
       r \<leftarrow> str2uint (argv ! 1) 1;
       case r of
         Inl _ \<Rightarrow> Some (ec_param_invalid, s)
       | Inr v \<Rightarrow>
           (let s = s\<lparr>mng := (mng s)\<lparr>ms_value := of_nat v\<rparr>\<rparr>
            in if ms_value (mng s) > 100 then Some (ec_param_invalid, s)
               else model_set_nodes LIGHTNESS_SV_BIT typ argv s) })"

definition clicb_lightness :: "string list \<Rightarrow> sys \<Rightarrow> (error_code_t \<times> sys) option" where
  "clicb_lightness argv s = clicb_perc_set LIGHTNESS_SV_BIT argv s"

definition clicb_ct :: "string list \<Rightarrow> sys \<Rightarrow> (error_code_t \<times> sys) option" where
  "clicb_ct argv s = clicb_perc_set CTL_SV_BIT argv s"

subsection \<open>The loop\<close>

definition send_model :: "env \<Rightarrow> u8 \<Rightarrow> u16 \<Rightarrow> u8 \<Rightarrow> sys \<Rightarrow> u16 \<times> sys" where
  "send_model E typ addr v s =
    (if typ = ONOFF_SV_BIT then send_onoff E addr v s
     else if typ = LIGHTNESS_SV_BIT then send_lightness E addr v s
     else send_ctl E addr v s)"

definition models_loop :: "env \<Rightarrow> sys \<Rightarrow> bool \<times> sys" where
  "models_loop E s =
    (case ms_nodes (mng s) of
       [] \<Rightarrow> (False, s)
     | addr # rest \<Rightarrow>
         (let (ret, s) = send_model E (ms_type (mng s)) addr (ms_value (mng s)) s
          in if ret = bg_err_out_of_memory then (True, s)
             else (let m = (mng s)\<lparr>ms_nodes := rest\<rparr>
                   in (False, s\<lparr>mng := (if rest = [] then m\<lparr>ms_type := 0\<rparr> else m)\<rparr>))))"

subsection \<open>The demonstration\<close>

definition addrst :: "string list" where
  "addrst = [''0xc021'', ''0xc022'', ''0xc023'', ''0xc024'', ''0xc025'', ''0xc026'', ''0xc027'',
     ''0xc028'', ''0xc029'', ''0xc02a'']"

definition lnst :: "string list" where
  "lnst = [''10'', ''20'', ''30'', ''40'', ''50'', ''60'', ''70'', ''80'', ''90'', ''100'']"

definition roll1 :: "u8 \<Rightarrow> u8" where
  "roll1 l = (l + 10) mod 100"

definition roll :: "sys \<Rightarrow> sys" where
  "roll s = s\<lparr>demo_ls := map roll1 (take (demo_pos s) (demo_ls s)) @ drop (demo_pos s) (demo_ls s),
     demo_pos := (if demo_pos s < 10 then Suc (demo_pos s) else demo_pos s)\<rparr>"

definition demo_start :: "env \<Rightarrow> bool \<Rightarrow> sys \<Rightarrow> sys" where
  "demo_start E en s =
    (if en then s\<lparr>demo_expired := now E + 1\<rparr> else s\<lparr>demo_expired := 0, demo_pos := 0\<rparr>)"

fun demo_steps :: "env \<Rightarrow> nat list \<Rightarrow> sys \<Rightarrow> sys option" where
  "demo_steps E [] s = Some s"
| "demo_steps E (i # is) s = do {
     l \<leftarrow> idx (demo_ls s) i;
     p2 \<leftarrow> idx lnst (unat l div 10);
     p3 \<leftarrow> idx addrst i;
     (e, s) \<leftarrow> clicb_lightness [''lightness'', p2, p3] s;
     demo_steps E is (snd (models_loop E s)) }"

definition demo_run :: "env \<Rightarrow> sys \<Rightarrow> sys option" where
  "demo_run E s =
    (if demo_expired s = 0 \<or> now E < demo_expired s then Some s
     else do {
       let s = roll s;
       s \<leftarrow> demo_steps E [0..<demo_pos s] s;
       Some (s\<lparr>demo_expired := demo_expired s + 1\<rparr>) })"

definition clicb_demo :: "env \<Rightarrow> string list \<Rightarrow> sys \<Rightarrow> error_code_t \<times> sys" where
  "clicb_demo E argv s =
    (if length argv > 1
     then if argv ! 1 = ''on'' then (ec_success, demo_start E True s)
          else if argv ! 1 = ''off'' then (ec_success, demo_start E False s)
          else (ec_param_invalid, s)
     else (ec_success, s))"

end
