(* ===== verification/EndStates.thy ===== *)
theory EndStates
  imports SetConfig Models
begin

unbundle bit_operations_syntax

text \<open>
  The states that end a configuration (\<open>mng/states/as_end.c\<close>), reset a node that is removed
  (\<open>mng/states/as_rm.c\<close>) and end a removal (\<open>mng/states/as_rmend.c\<close>). The end states record the
  outcome in the database and the node file.
\<close>

definition has_error :: "config_cache_t \<Rightarrow> bool" where
  "has_error c \<longleftrightarrow> err_bgcall c \<noteq> 0 \<or> err_bgevt c \<noteq> 0"

definition error_bits :: "config_cache_t \<Rightarrow> u32" where
  "error_bits c = (err_bgevt c OR err_bgcall c) AND 0x7FFFFFFF"

text \<open>\<open>__on_failed\<close>, the same in both files.\<close>

definition on_failed :: "env \<Rightarrow> config_cache_t \<Rightarrow> sys \<Rightarrow> sys option" where
  "on_failed E c s = do {
     n \<leftarrow> cache_node c s;
     (e, s) \<leftarrow> nodeset_errbits E (n_addr n) (error_bits c) s;
     Some s }"

subsection \<open>The end of a configuration\<close>

text \<open>\<open>ON_END_DEBUG\<close> is defined: a configured node switches the group 0xc030 on.\<close>

definition end_on_success :: "env \<Rightarrow> config_cache_t \<Rightarrow> sys \<Rightarrow> sys option" where
  "end_on_success E c s = do {
     n \<leftarrow> cache_node c s;
     (e, s) \<leftarrow> nodeset_errbits E (n_addr n) 0 s;
     n \<leftarrow> cache_node c s;
     (e, s) \<leftarrow> nodeset_done E (n_addr n) 1 s;
     Some (snd (send_onoff E 0xc030 1 s)) }"

definition end_entry :: "env \<Rightarrow> config_cache_t \<Rightarrow> sys \<Rightarrow> acc_ret" where
  "end_entry E c s = do {
     let s = stat_config_one_dev s;
     s \<leftarrow> (if has_error c then on_failed E c s else end_on_success E c s);
     Some (asr_suc, c, s) }"

subsection \<open>Removing a node\<close>

definition REMOVE_NODE_RETRY_TIMES :: u8 where "REMOVE_NODE_RETRY_TIMES = 3"

definition rm_cmd :: "config_cache_t \<Rightarrow> sys \<Rightarrow> bgcmd option" where
  "rm_cmd c s = do {
     nk \<leftarrow> netkey_id s; n \<leftarrow> cache_node c s; Some (cmd_reset_node nk (n_addr n)) }"

definition rm_send :: "env \<Rightarrow> config_cache_t \<Rightarrow> sys \<Rightarrow> acc_ret" where
  "rm_send E c s = do { cmd \<leftarrow> rm_cmd c s; Some (send_cmd err_set_to_rm_end E cmd c s) }"

definition rm_guard :: "config_cache_t \<Rightarrow> sys \<Rightarrow> bool option" where
  "rm_guard c s = do { n \<leftarrow> cache_node c s; Some (n_addr n \<noteq> 0) }"

definition rm_entry :: "env \<Rightarrow> config_cache_t \<Rightarrow> sys \<Rightarrow> acc_ret" where
  "rm_entry E c s = do {
     ok \<leftarrow> rm_guard c s;
     if \<not> ok then Some (asr_tonext, c, s) else rm_send E c s }"

text \<open>
  \<open>BETTER_SOLUTION\<close> is not defined: when the retries are used up, the node counts as removed.
\<close>

definition rm_give_up :: "config_cache_t \<Rightarrow> config_cache_t" where
  "rm_give_up c = c\<lparr>next_state := None\<rparr>"

definition rm_inprg :: "env \<Rightarrow> bgevt \<Rightarrow> config_cache_t \<Rightarrow> sys \<Rightarrow> acc_ret" where
  "rm_inprg E evt c s =
    (let c = timer_set E s c False
     in case evt of
       evt_reset_status _ result \<Rightarrow>
         (let c = WAIT_RESPONSE_CLEAR c
          in if result = bg_err_success
             then Some (asr_suc, (RETRY_CLEAR c)\<lparr>next_state := None\<rparr>, s)
             else if result = bg_err_timeout
             then Some (asr_suc, on_timeout_status REMOVE_NODE_RETRY_TIMES rm_give_up c, s)
             else Some (asr_suc, err_set_to_rm_end c bg_err_timeout bgevent_em, s))
     | _ \<Rightarrow> Some (asr_unspec, c, s))"

definition rm_retry :: "env \<Rightarrow> retry_reason_t \<Rightarrow> config_cache_t \<Rightarrow> sys \<Rightarrow> acc_ret" where
  "rm_retry E reason c s = acc_retry rm_send E reason c s"

definition rm_exit :: asr where "rm_exit = asr_suc"

definition is_rm_pkts :: "u32 \<Rightarrow> bool" where
  "is_rm_pkts evtid = (BGLIB_MSG_ID evtid = 0x1b2700a0)"

subsection \<open>The end of a removal\<close>

text \<open>
  The node is read again before each call, because \<open>nodes_rm\<close> clears its address; a failed deletion
  from the target's database is only logged.
\<close>

definition rmend_on_success :: "env \<Rightarrow> config_cache_t \<Rightarrow> sys \<Rightarrow> sys option" where
  "rmend_on_success E c s = do {
     n \<leftarrow> cache_node c s;
     (e, s) \<leftarrow> nodeset_errbits E (n_addr n) 0 s;
     n \<leftarrow> cache_node c s;
     (e, s) \<leftarrow> nodeset_done E (n_addr n) 0 s;
     n \<leftarrow> cache_node c s;
     (e, s) \<leftarrow> nodeset_func E (n_addr n) 0 s;
     n \<leftarrow> cache_node c s;
     (e, s) \<leftarrow> nodes_rm E (n_addr n) s;
     n \<leftarrow> cache_node c s;
     Some (snd (bgcall E (cmd_prov_ddb_delete (n_uuid n)) s)) }"

definition rmend_entry :: "env \<Rightarrow> config_cache_t \<Rightarrow> sys \<Rightarrow> acc_ret" where
  "rmend_entry E c s = do {
     let s = stat_rm_one_dev s;
     s \<leftarrow> (if has_error c then on_failed E c s else rmend_on_success E c s);
     Some (asr_suc, c, s) }"

subsection \<open>The send function keeps the contract\<close>

lemma rm_cmd_db: "db s1 = db s \<Longrightarrow> rm_cmd c s1 = rm_cmd c s"
  using reads_db [of s1 s] by (simp add: rm_cmd_def)

interpretation rm_ctr: acc_send rm_send err_set_to_rm_end rmend_em
proof (rule acc_sendI_cmd [where plan = "\<lambda>c s. map_option (\<lambda>cmd. (cmd, None)) (rm_cmd c s)"])
  show "rm_send E c s = (case map_option (\<lambda>cmd. (cmd, None)) (rm_cmd c s) of None \<Rightarrow> None
      | Some (cmd, m) \<Rightarrow> Some (send_cmd err_set_to_rm_end E cmd (set_model m c) s))" for E c s
    by (cases "rm_cmd c s") (simp_all add: rm_send_def set_model_def)
qed (erule arg_cong [OF rm_cmd_db] | simp add: rm_cmd_def work_same err_set_to_rm_end_def)+

text \<open>An end state always returns \<open>asr_suc\<close> and leaves the cache as it is.\<close>

lemma end_entry_suc: "end_entry E c s = Some (r, c', s') \<Longrightarrow> r = asr_suc \<and> c' = c"
  by (auto simp: end_entry_def bind_Some_conv Let_def)

lemma rmend_entry_suc: "rmend_entry E c s = Some (r, c', s') \<Longrightarrow> r = asr_suc \<and> c' = c"
  by (auto simp: rmend_entry_def bind_Some_conv Let_def)

end
