(* ===== verification/AccEngine.thy ===== *)
theory AccEngine
  imports EndStates
begin

unbundle bit_operations_syntax

text \<open>
  The configuration engine, \<open>mng/dev_config.c\<close>: the list of states, the slots (caches) that hold the
  nodes being configured or removed, the step of every used slot (\<open>config_engine\<close>), the search for
  the next state (\<open>to_next_state\<close>) and the dispatch of config client events (\<open>dev_config_hdr\<close>).
\<close>

subsection \<open>The table of states\<close>

text \<open>
  The callbacks of a state. Every state in the list has an entry; the two end states have no guard,
  no handler and no retry. \<open>provisioning_em\<close> and \<open>provisioned_em\<close> are never in the list.
\<close>

fun state_entry :: "env \<Rightarrow> acc_state_emt \<Rightarrow> config_cache_t \<Rightarrow> sys \<Rightarrow> acc_ret" where
  "state_entry E get_dcd_em c s = getdcd_entry E c s"
| "state_entry E addappkey_em c s = addappkey_entry E c s"
| "state_entry E bindappkey_em c s = bindappkey_entry E c s"
| "state_entry E setpub_em c s = setpub_entry E c s"
| "state_entry E addsub_em c s = addsub_entry E c s"
| "state_entry E setconfig_em c s = setconfig_entry E c s"
| "state_entry E end_em c s = end_entry E c s"
| "state_entry E rm_em c s = rm_entry E c s"
| "state_entry E rmend_em c s = rmend_entry E c s"
| "state_entry E provisioning_em c s = undef"
| "state_entry E provisioned_em c s = undef"

definition has_retry :: "acc_state_emt \<Rightarrow> bool" where
  "has_retry st = (st \<in> {get_dcd_em, addappkey_em, bindappkey_em, setpub_em, addsub_em, setconfig_em, rm_em})"

fun state_inprg :: "env \<Rightarrow> acc_state_emt \<Rightarrow> bgevt \<Rightarrow> config_cache_t \<Rightarrow> sys \<Rightarrow> acc_ret" where
  "state_inprg E get_dcd_em evt c s = getdcd_inprg E evt c s"
| "state_inprg E addappkey_em evt c s = addappkey_inprg E evt c s"
| "state_inprg E bindappkey_em evt c s = bindappkey_inprg E evt c s"
| "state_inprg E setpub_em evt c s = setpub_inprg E evt c s"
| "state_inprg E addsub_em evt c s = addsub_inprg E evt c s"
| "state_inprg E setconfig_em evt c s = setconfig_inprg E evt c s"
| "state_inprg E rm_em evt c s = rm_inprg E evt c s"
| "state_inprg E _ evt c s = undef"

fun state_send :: "acc_state_emt \<Rightarrow> env \<Rightarrow> config_cache_t \<Rightarrow> sys \<Rightarrow> acc_ret" where
  "state_send get_dcd_em = dcd_get"
| "state_send addappkey_em = add_appkey"
| "state_send bindappkey_em = bind_appkey"
| "state_send setpub_em = setpub"
| "state_send addsub_em = addsub"
| "state_send setconfig_em = setconfig"
| "state_send rm_em = rm_send"
| "state_send _ = (\<lambda>_ _ _. undef)"

fun state_retry :: "env \<Rightarrow> acc_state_emt \<Rightarrow> retry_reason_t \<Rightarrow> config_cache_t \<Rightarrow> sys \<Rightarrow> acc_ret" where
  "state_retry E get_dcd_em r c s = getdcd_retry E r c s"
| "state_retry E addappkey_em r c s = addappkey_retry E r c s"
| "state_retry E bindappkey_em r c s = bindappkey_retry E r c s"
| "state_retry E setpub_em r c s = setpub_retry E r c s"
| "state_retry E addsub_em r c s = addsub_retry E r c s"
| "state_retry E setconfig_em r c s = setconfig_retry E r c s"
| "state_retry E rm_em r c s = rm_retry E r c s"
| "state_retry E _ r c s = undef"

lemma state_retry_eq: "has_retry st \<Longrightarrow> state_retry E st r c s = acc_retry (state_send st) E r c s"
  by (cases st) (simp_all add: has_retry_def getdcd_retry_def addappkey_retry_def bindappkey_retry_def
      setpub_retry_def addsub_retry_def setconfig_retry_def rm_retry_def)

text \<open>\<open>as_get\<close>: the rest of the list from the state on; the empty list is NULL.\<close>

definition as_get :: "acc_state_emt \<Rightarrow> sys \<Rightarrow> acc_state_emt list" where
  "as_get st s = dropWhile (\<lambda>p. p \<noteq> st) (acc_states (acc s))"

lemma as_get_hd: "as_get st s = [] \<or> hd (as_get st s) = st"
  using hd_dropWhile [of "\<lambda>p. p \<noteq> st" "acc_states (acc s)"] by (auto simp: as_get_def)

text \<open>\<open>add_state_after(ps, state)\<close>; \<open>-1\<close> is \<^const>\<open>None\<close>.\<close>

fun insert_after :: "acc_state_emt \<Rightarrow> acc_state_emt \<Rightarrow> acc_state_emt list \<Rightarrow> acc_state_emt list option" where
  "insert_after ps st [] = None"
| "insert_after ps st (p # l) =
    (if p = st then Some (p # ps # l) else map_option (Cons p) (insert_after ps st l))"

definition add_state_after :: "acc_state_emt \<Rightarrow> acc_state_emt option \<Rightarrow> acc_t \<Rightarrow> error_code_t \<times> acc_t" where
  "add_state_after ps st a =
    (case st of
       None \<Rightarrow> (ec_success, a\<lparr>acc_states := ps # acc_states a\<rparr>)
     | Some st \<Rightarrow> (case insert_after ps st (acc_states a) of
         None \<Rightarrow> (ec_not_exist, a)
       | Some l \<Rightarrow> (ec_success, a\<lparr>acc_states := l\<rparr>)))"

definition add_default_states :: "acc_t \<Rightarrow> acc_t" where
  "add_default_states a =
    fold (\<lambda>(ps, st) a. snd (add_state_after ps (Some st) a))
      [(addappkey_em, get_dcd_em), (bindappkey_em, addappkey_em), (setpub_em, bindappkey_em),
       (addsub_em, setpub_em), (setconfig_em, addsub_em), (rm_em, end_em)] a"

subsection \<open>Slots\<close>

definition cache_reset :: config_cache_t where
  "cache_reset = zero_config_cache\<lparr>cc_state := provisioned_em, next_state := Some get_dcd_em\<rparr>"

definition set_cache :: "nat \<Rightarrow> config_cache_t \<Rightarrow> sys \<Rightarrow> sys" where
  "set_cache i c s = s\<lparr>mng := (mng s)\<lparr>c_config := (c_config (mng s))[i := c]\<rparr>\<rparr>"

definition cache_reset_idx :: "nat \<Rightarrow> sys \<Rightarrow> sys" where
  "cache_reset_idx i s =
    set_cache i cache_reset (s\<lparr>mng := (mng s)\<lparr>used := BIT_CLR (used (mng s)) i\<rparr>\<rparr>)"

text \<open>\<open>__acc_reset\<close>: failed nodes go back to the nodes to configure.\<close>

definition acc_reset :: "bool \<Rightarrow> sys \<Rightarrow> sys" where
  "acc_reset use_default s =
    (let m = mng s;
         m = m\<lparr>l_config := l_config m @ l_fail m, l_fail := [],
               c_config := replicate MAX_CONCURRENT_CONFIG_NODES cache_reset, used := 0\<rparr>;
         a = \<lparr>acc_started = False, acc_states = []\<rparr>;
         a = snd (add_state_after get_dcd_em None a);
         a = snd (add_state_after end_em (Some get_dcd_em) a);
         a = snd (add_state_after rmend_em (Some end_em) a);
         a = (if use_default then add_default_states a else a)
     in s\<lparr>mng := m, acc := a\<rparr>)"

definition acc_init :: "bool \<Rightarrow> sys \<Rightarrow> sys option" where
  "acc_init use_default s =
    (if acc_started (acc s) then Some s
     else if \<not> use_default then aborts
     else (let s = acc_reset use_default s in Some (s\<lparr>acc := (acc s)\<lparr>acc_started := True\<rparr>\<rparr>)))"

datatype load_type = type_config | type_rm

definition cache_item_load :: "nat \<Rightarrow> nref \<Rightarrow> load_type \<Rightarrow> sys \<Rightarrow> sys" where
  "cache_item_load ofs node typ s =
    (let c = (c_config (mng s) ! ofs)\<lparr>cc_node := Some node\<rparr>;
         c = (case typ of
                type_config \<Rightarrow> c\<lparr>cc_state := provisioned_em, next_state := Some get_dcd_em\<rparr>
              | type_rm \<Rightarrow> c\<lparr>cc_state := end_em, next_state := Some rm_em\<rparr>);
         s = set_cache ofs c s
     in s\<lparr>mng := (mng s)\<lparr>used := BIT_SET (used (mng s)) ofs\<rparr>\<rparr>)"

definition pending :: "load_type \<Rightarrow> sys \<Rightarrow> nref list" where
  "pending typ s = (case typ of type_config \<Rightarrow> l_config (mng s) | type_rm \<Rightarrow> l_rm (mng s))"

definition set_pending :: "load_type \<Rightarrow> nref list \<Rightarrow> sys \<Rightarrow> sys" where
  "set_pending typ l s =
    (case typ of type_config \<Rightarrow> s\<lparr>mng := (mng s)\<lparr>l_config := l\<rparr>\<rparr> | type_rm \<Rightarrow> s\<lparr>mng := (mng s)\<lparr>l_rm := l\<rparr>\<rparr>)"

text \<open>The while loop of \<open>__caches_load\<close>, on the list it takes the nodes from.\<close>

fun load_items :: "load_type \<Rightarrow> nref list \<Rightarrow> sys \<Rightarrow> nat \<times> sys" where
  "load_items typ [] s = (0, s)"
| "load_items typ (n # ns) s =
    (let ofs = utils_frz (used (mng s))
     in if ofs < int MAX_CONCURRENT_CONFIG_NODES
        then (let s = set_pending typ ns (cache_item_load (nat ofs) n typ s);
                  (k, s) = load_items typ ns s
              in (Suc k, s))
        else (0, s))"

definition caches_load :: "load_type \<Rightarrow> sys \<Rightarrow> nat \<times> sys" where
  "caches_load typ s =
    (if int MAX_CONCURRENT_CONFIG_NODES = utils_popcount (used (mng s)) \<or> length (pending typ s) = 0
     then (0, s)
     else load_items typ (pending typ s) s)"

subsection \<open>Entering the next state\<close>

function (sequential) enter_states ::
  "env \<Rightarrow> acc_state_emt list \<Rightarrow> config_cache_t \<Rightarrow> sys \<Rightarrow> (bool \<times> config_cache_t \<times> sys) option" where
  "enter_states E [] c s = Some (False, c, s)"
| "enter_states E (st # nas) c s =
    (case state_entry E st c s of
       None \<Rightarrow> None
     | Some (r, c', s') \<Rightarrow>
         if r = asr_suc \<or> r = asr_oom
         then Some (True, c'\<lparr>cc_state := st, next_state := Some st\<rparr>, s')
         else if r = asr_tonext then enter_states E nas c' s'
         else enter_states E (as_get end_em s') c' s')"
  by pat_completeness auto
termination
proof (relation "measure (\<lambda>(E, nas, c, s). if nas \<noteq> [] \<and> hd nas = end_em then 0 else Suc (length nas))",
    goal_cases)
  case 1
  show ?case by simp
next
  case (2 E st nas c s p r q c' s')
  then have "st \<noteq> end_em" using end_entry_suc by fastforce
  then show ?case by simp
next
  case (3 E st nas c s p r q c' s')
  then have "st \<noteq> end_em" using end_entry_suc by fastforce
  then show ?case using as_get_hd [of end_em s'] by auto
qed

definition to_next_state :: "env \<Rightarrow> config_cache_t \<Rightarrow> sys \<Rightarrow> (bool \<times> config_cache_t \<times> sys) option" where
  "to_next_state E c s = do {
     let as = as_get (cc_state c) s;
     nas \<leftarrow> (case next_state c of
               None \<Rightarrow> (if as = [] then undef else Some (tl as))
             | Some st \<Rightarrow> Some (as_get st s));
     nas \<leftarrow> (if nas = [] then (if as = [] then undef else Some (tl as)) else Some nas);
     n \<leftarrow> cache_node c s;
     enter_states E nas c s }"

subsection \<open>The engine\<close>

definition stat_retry :: "sys \<Rightarrow> sys" where
  "stat_retry s = (if m_state (mng s) = removing_devices_em then stat_rm_retry s else stat_config_retry s)"

text \<open>The two exceptions: the guard timer expired, or the target was out of memory.\<close>

definition engine_exception :: "env \<Rightarrow> config_cache_t \<Rightarrow> sys \<Rightarrow> (config_cache_t \<times> sys) option" where
  "engine_exception E c s =
    (let as = as_get (cc_state c) s;
         retry = (if as = [] then undef else Some (has_retry (cc_state c)))
     in do {
       e1 \<leftarrow> (if expired c \<noteq> 0 \<and> now E > expired c then retry else Some False);
       if e1 then do {
         (ret, c, s) \<leftarrow> state_retry E (cc_state c) on_guard_timer_expired_em c s;
         Some (c, stat_retry s) }
       else do {
         e2 \<leftarrow> (if OOM c then retry else Some False);
         if e2 then do {
           ASSERT (\<not> WAIT_RESPONSE c);
           (ret, c, s) \<leftarrow> state_retry E (cc_state c) on_oom_em c s;
           Some (c, stat_retry s) }
         else Some (c, s) } })"

definition engine_slot :: "env \<Rightarrow> nat \<Rightarrow> bool \<times> sys \<Rightarrow> (bool \<times> sys) option" where
  "engine_slot E i bs = do {
     let (busy, s) = bs;
     c \<leftarrow> idx (c_config (mng s)) i;
     (c, s) \<leftarrow> engine_exception E c s;
     if WAIT_RESPONSE c \<or> next_state c = Some (cc_state c) then Some (busy, set_cache i c s)
     else do {
       (b, c, s) \<leftarrow> to_next_state E c s;
       if cc_state c = end_em \<or> cc_state c = rmend_em
       then do {
         n \<leftarrow> cc_node c;
         let s = (if has_error c then s\<lparr>mng := (mng s)\<lparr>l_fail := l_fail (mng s) @ [n]\<rparr>\<rparr> else s);
         Some (busy \<or> b, cache_reset_idx i s) }
       else Some (busy \<or> b, set_cache i c s) } }"

lemma BIT_CLR_less: "v \<noteq> 0 \<Longrightarrow> unat (BIT_CLR (v :: u32) (nat (utils_ctz v))) < unat v"
proof -
  assume "v \<noteq> 0"
  then have "bit v (nat (utils_ctz v))" using utils_ctz_spec by blast
  then have "BIT_CLR v (nat (utils_ctz v)) \<noteq> v" by (metis bit_BIT_CLR)
  moreover have "unat (BIT_CLR v (nat (utils_ctz v))) \<le> unat v"
    unfolding BIT_CLR_def word_le_nat_alt [symmetric] by (simp add: word_and_le2)
  ultimately show ?thesis by (metis le_neq_implies_less unsigned_word_eqI)
qed

function engine_loop :: "env \<Rightarrow> u32 \<Rightarrow> bool \<times> sys \<Rightarrow> (bool \<times> sys) option" where
  "engine_loop E usedmap bs =
    (if usedmap = 0 then Some bs
     else let i = utils_ctz usedmap
          in if i \<ge> int MAX_CONCURRENT_CONFIG_NODES then aborts
             else case engine_slot E (nat i) bs of
               None \<Rightarrow> None
             | Some bs \<Rightarrow> engine_loop E (BIT_CLR usedmap (nat i)) bs)"
  by pat_completeness auto
termination by (relation "measure (\<lambda>(E, u, bs). unat u)") (auto simp: BIT_CLR_less)

declare engine_loop.simps [simp del]

definition config_engine :: "env \<Rightarrow> sys \<Rightarrow> (bool \<times> sys) option" where
  "config_engine E s = engine_loop E (used (mng s)) (False, s)"

definition acc_loop :: "env \<Rightarrow> sys \<Rightarrow> (bool \<times> sys) option" where
  "acc_loop E s =
    (if \<not> acc_started (acc s) then Some (False, s)
     else if m_state (mng s) = removing_devices_em then
       (let (cnt, s) = caches_load type_rm s in config_engine E (stat_rm_start E s))
     else if m_state (mng s) = adding_devices_em \<or> m_state (mng s) = configuring_devices_em then
       (let (cnt, s) = caches_load type_config s
        in config_engine E (stat_config_loading_record E (stat_config_start E s)))
     else Some (False, s))"

subsection \<open>Events\<close>

definition is_config_device_events :: "bgevt \<Rightarrow> bool" where
  "is_config_device_events e \<longleftrightarrow>
    msg_id e AND 0x000000ff = 0x000000a0 \<and> msg_id e AND 0x00ff0000 = 0x00270000"

text \<open>The handle of the event; an event of the class without a case aborts.\<close>

fun evt_handle :: "bgevt \<Rightarrow> u32 option" where
  "evt_handle (evt_dcd_data h _ _) = Some h"
| "evt_handle (evt_dcd_data_end h _) = Some h"
| "evt_handle (evt_appkey_status h _) = Some h"
| "evt_handle (evt_binding_status h _) = Some h"
| "evt_handle (evt_model_pub_status h _) = Some h"
| "evt_handle (evt_model_sub_status h _) = Some h"
| "evt_handle (evt_relay_status h _) = Some h"
| "evt_handle (evt_friend_status h _) = Some h"
| "evt_handle (evt_gatt_proxy_status h _) = Some h"
| "evt_handle (evt_default_ttl_status h _) = Some h"
| "evt_handle (evt_network_transmit_status h _) = Some h"
| "evt_handle (evt_reset_status h _) = Some h"
| "evt_handle (evt_beacon_status h _) = Some h"
| "evt_handle _ = aborts"

text \<open>The first used slot, lowest first, that waits on the handle; none aborts.\<close>

fun find_slot :: "u32 \<Rightarrow> nat list \<Rightarrow> config_cache_t list \<Rightarrow> nat option" where
  "find_slot h [] cs = aborts"
| "find_slot h (i # is) cs =
    (if i \<ge> MAX_CONCURRENT_CONFIG_NODES then aborts
     else if cc_node (cs ! i) \<noteq> None \<and> cc_handle (cs ! i) = h then Some i else find_slot h is cs)"

definition cache_from_cchandle :: "bgevt \<Rightarrow> sys \<Rightarrow> nat option" where
  "cache_from_cchandle e s = do {
     h \<leftarrow> evt_handle e;
     find_slot h (ones32 (used (mng s))) (c_config (mng s)) }"

definition dev_config_hdr :: "env \<Rightarrow> bgevt \<Rightarrow> sys \<Rightarrow> (bool \<times> sys) option" where
  "dev_config_hdr E e s =
    (if \<not> is_config_device_events e then Some (False, s)
     else do {
       i \<leftarrow> cache_from_cchandle e s;
       c \<leftarrow> idx (c_config (mng s)) i;
       let st = cc_state c;
       ASSERT (as_get st s \<noteq> []);
       (ret, c, s) \<leftarrow> (if WAIT_RESPONSE c \<and> has_retry st then state_inprg E st e c s
                       else Some (asr_suc, c, s));
       if ret = asr_suc \<and> \<not> WAIT_RESPONSE c \<and> EVER_RETRIED c \<and> has_retry st then do {
         (r, c, s) \<leftarrow> state_retry E st on_timeout_em c s;
         Some (True, stat_retry (set_cache i c s)) }
       else Some (ret \<noteq> asr_unspec, set_cache i c s) })"

end
