(* ===== verification/Frame.thy ===== *)
theory Frame
  imports AccEngine
begin

text \<open>
  What the operations leave alone. The configuration store works on the database, the open files
  and the disk; the callbacks of the configuration engine leave the manager's lists and slots to
  the engine. These facts carry the invariants of the manager over the calls.
\<close>

definition keeps_mng :: "sys \<Rightarrow> sys \<Rightarrow> bool" where
  "keeps_mng s s' \<longleftrightarrow> mng s' = mng s \<and> acc s' = acc s"

lemma keeps_mng_refl [simp]: "keeps_mng s s"
  by (simp add: keeps_mng_def)

lemma keeps_mng_trans: "keeps_mng a b \<Longrightarrow> keeps_mng b c \<Longrightarrow> keeps_mng a c"
  by (simp add: keeps_mng_def)

lemma keeps_mng_upd [simp]:
  "keeps_mng s (x\<lparr>sent := h\<rparr>) = keeps_mng s x" "keeps_mng s (x\<lparr>db := d\<rparr>) = keeps_mng s x"
  "keeps_mng s (x\<lparr>jcfg := j\<rparr>) = keeps_mng s x" "keeps_mng s (x\<lparr>disk := k\<rparr>) = keeps_mng s x"
  "keeps_mng s (x\<lparr>tid := t\<rparr>) = keeps_mng s x" "keeps_mng s (set_gen fd g x) = keeps_mng s x"
  "keeps_mng s (x\<lparr>jcfg := j, disk := k\<rparr>) = keeps_mng s x"
  "keeps_mng s (upd_stat f x) = keeps_mng s x" "keeps_mng s (upd_self u x) = keeps_mng s x"
  by (simp_all add: keeps_mng_def set_gen_def upd_self_def split: cfg_fd.splits)

subsection \<open>The configuration store\<close>

lemma file_replace_keeps: "file_replace fd p k v s = Some s' \<Longrightarrow> keeps_mng s s'"
  by (auto simp: file_replace_def bind_Some_conv)

lemma json_cfg_flush_keeps: "json_cfg_flush E fd s = Some (e, s') \<Longrightarrow> keeps_mng s s'"
  by (auto simp: json_cfg_flush_def bind_Some_conv Let_def split: option.splits if_splits)

lemma modify_node_field_keeps: "modify_node_field E u k v s = Some (e, s') \<Longrightarrow> keeps_mng s s'"
  by (auto simp: modify_node_field_def bind_Some_conv split: option.splits dest: file_replace_keeps)

lemma nodes_foreach_keeps: "nodes_foreach f s = Some s' \<Longrightarrow> keeps_mng s s'"
  by (auto simp: nodes_foreach_def bind_Some_conv split: option.splits)

lemma backlog_node_add_keeps: "backlog_node_add E u s = Some (e, s') \<Longrightarrow> keeps_mng s s'"
  by (auto simp: backlog_node_add_def bind_Some_conv Let_def split: if_splits prod.splits)

lemma write_nodes_keeps: "write_nodes E w s = Some (e, s') \<Longrightarrow> keeps_mng s s'"
proof -
  assume "write_nodes E w s = Some (e, s')"
  then obtain e1 s1 where 1: "(case w of
         wrt_add_node uuid \<Rightarrow> backlog_node_add E uuid s
       | wrt_errbits key data \<Rightarrow> set_node_errbits E key data s
       | wrt_node_addr key data \<Rightarrow> set_node_addr E key data s
       | wrt_node_func key data \<Rightarrow> set_node_func E key data s
       | wrt_node_rmall \<Rightarrow> rmall_nodes E s
       | wrt_node_rmblclr \<Rightarrow> rmbl_clr E s
       | wrt_done key data \<Rightarrow> set_node_done E key data s) = Some (e1, s1)"
    and 2: "keeps_mng s1 s'"
    by (auto simp: write_nodes_def bind_Some_conv dest: json_cfg_flush_keeps split: if_splits)
  have "keeps_mng s s1"
    using 1 by (cases w) (auto simp: set_node_errbits_def set_node_addr_def set_node_func_def
        set_node_done_def rmall_nodes_def rmbl_clr_def bind_Some_conv
        dest: modify_node_field_keeps backlog_node_add_keeps nodes_foreach_keeps)
  then show ?thesis using 2 keeps_mng_trans by blast
qed

lemma json_write_nodes_keeps: "json_write_nodes E w s = Some (e, s') \<Longrightarrow> keeps_mng s s'"
  by (auto simp: json_write_nodes_def dest: write_nodes_keeps split: if_splits)

lemma nassign_keeps: "nassign r f s = Some s' \<Longrightarrow> keeps_mng s s'"
  by (auto simp: nassign_def split: option.splits)

lemma with_db_keeps: "with_db f s = Some (e, s') \<Longrightarrow> keeps_mng s s'"
  by (auto simp: with_db_def bind_Some_conv)

lemmas store_keeps = file_replace_keeps json_cfg_flush_keeps json_write_nodes_keeps nassign_keeps with_db_keeps

lemma nodeset_keeps:
  "nodeset_errbits E a b s = Some (e, s') \<Longrightarrow> keeps_mng s s'"
  "nodeset_done E a g s = Some (e, s') \<Longrightarrow> keeps_mng s s'"
  "nodeset_func E a g s = Some (e, s') \<Longrightarrow> keeps_mng s s'"
  by (auto simp: nodeset_errbits_def nodeset_done_def nodeset_func_def bind_Some_conv
      dest!: store_keeps intro: keeps_mng_trans)

lemma nodes_rm_keeps: "nodes_rm E a s = Some (e, s') \<Longrightarrow> keeps_mng s s'"
  by (auto simp: nodes_rm_def bind_Some_conv Let_def dest!: store_keeps intro: keeps_mng_trans)

lemma nodes_bl_keeps: "nodes_bl E a s = Some (e, s') \<Longrightarrow> keeps_mng s s'"
  by (auto simp: nodes_bl_def bind_Some_conv Let_def dest!: store_keeps) (meson keeps_mng_trans)

lemma upl_nodeset_addr_keeps: "upl_nodeset_addr E u a s = Some (e, s') \<Longrightarrow> keeps_mng s s'"
  by (auto simp: upl_nodeset_addr_def bind_Some_conv Let_def dest!: store_keeps) (meson keeps_mng_trans)

subsection \<open>The callbacks of the configuration engine\<close>

text \<open>A callback keeps the manager's lists and slots and the node of the slot it works on.\<close>

definition cb_keeps :: "config_cache_t \<Rightarrow> sys \<Rightarrow> config_cache_t \<Rightarrow> sys \<Rightarrow> bool" where
  "cb_keeps c s c' s' \<longleftrightarrow> keeps_mng s s' \<and> cc_node c' = cc_node c"

lemma cb_keeps_refl [simp]: "cb_keeps c s c s"
  by (simp add: cb_keeps_def)

lemma cb_keeps_trans: "cb_keeps a s b t \<Longrightarrow> cb_keeps b t c u \<Longrightarrow> cb_keeps a s c u"
  by (auto simp: cb_keeps_def intro: keeps_mng_trans)

lemma cc_node_upd [simp]:
  "cc_node (WAIT_RESPONSE_SET c) = cc_node c" "cc_node (WAIT_RESPONSE_CLEAR c) = cc_node c"
  "cc_node (RETRY_CLEAR c) = cc_node c" "cc_node (EVER_RETRIED_SET c) = cc_node c"
  "cc_node (OOM_CLEAR c) = cc_node c" "cc_node (oom_set c) = cc_node c"
  "cc_node (timer_set E s c b) = cc_node c" "cc_node (err_set_to_end c x t) = cc_node c"
  "cc_node (err_set_to_rm_end c x t) = cc_node c" "cc_node (give_up_end c) = cc_node c"
  "cc_node (rm_give_up c) = cc_node c"
  by (auto simp: flag_defs timer_set_def err_set_to_end_def err_set_to_rm_end_def give_up_end_def
      rm_give_up_def clr_cache_ctl_def err_set_def Let_def split: bgerr_type_t.splits option.splits)

lemma on_timeout_status_node [simp]:
  "(\<And>c. cc_node (g c) = cc_node c) \<Longrightarrow> cc_node (on_timeout_status n g c) = cc_node c"
  by (simp add: on_timeout_status_def)

context acc_send
begin

lemma send_cb: "send E c s = Some (r, c', s') \<Longrightarrow> cb_keeps c s c' s'"
  using send_work [of E c s r c' s'] send_frame [of E c s r c' s']
  by (auto simp: cb_keeps_def same_work_def)

lemma retry_cb: "acc_retry send E reason c s = Some (r, c', s') \<Longrightarrow> cb_keeps c s c' s'"
proof -
  assume "acc_retry send E reason c s = Some (r, c', s')"
  then obtain r1 c1 where 1: "send E c s = Some (r1, c1, s')" and 2: "cc_node c' = cc_node c1"
    by (auto simp: acc_retry_def bind_Some_conv split: if_splits retry_reason_t.splits)
  show ?thesis using send_cb [OF 1] 2 by (simp add: cb_keeps_def)
qed

end

lemmas send_cbs = dcd_send.send_cb appkey_send.send_cb bind_send.send_cb pub_send.send_cb
  sub_send.send_cb config_send.send_cb rm_ctr.send_cb

lemmas retry_cbs = dcd_send.retry_cb appkey_send.retry_cb bind_send.retry_cb pub_send.retry_cb
  sub_send.retry_cb config_send.retry_cb rm_ctr.retry_cb

lemma state_retry_cb: "state_retry E st reason c s = Some (r, c', s') \<Longrightarrow> cb_keeps c s c' s'"
  by (cases st) (auto simp: getdcd_retry_def addappkey_retry_def bindappkey_retry_def setpub_retry_def
      addsub_retry_def setconfig_retry_def rm_retry_def dest: retry_cbs)

lemma client_set_keeps [simp]: "keeps_mng s (snd (client_set E m a t p x)) = keeps_mng s x"
  by (simp add: client_set_def bgcall_def)

lemma send_onoff_keeps [simp]: "keeps_mng s (snd (send_onoff E a v x)) = keeps_mng s x"
  by (simp add: send_onoff_def)

lemma stat_keeps [simp]:
  "keeps_mng s (stat_config_one_dev x) = keeps_mng s x" "keeps_mng s (stat_rm_one_dev x) = keeps_mng s x"
  "keeps_mng s (stat_retry x) = keeps_mng s x" "keeps_mng (stat_config_one_dev x) s = keeps_mng x s"
  "keeps_mng (stat_rm_one_dev x) s = keeps_mng x s"
  by (auto simp: keeps_mng_def stat_retry_def)

lemma on_failed_keeps: "on_failed E c s = Some s' \<Longrightarrow> keeps_mng s s'"
  by (auto simp: on_failed_def bind_Some_conv dest: nodeset_keeps)

lemma end_on_success_keeps: "end_on_success E c s = Some s' \<Longrightarrow> keeps_mng s s'"
  by (auto simp: end_on_success_def bind_Some_conv dest!: nodeset_keeps intro: keeps_mng_trans)

lemma rmend_on_success_keeps: "rmend_on_success E c s = Some s' \<Longrightarrow> keeps_mng s s'"
  by (auto simp: rmend_on_success_def bind_Some_conv bgcall_def dest!: nodeset_keeps nodes_rm_keeps)
    (meson keeps_mng_trans)

lemma notfnd_to_next_cb: "notfnd_to_next (r, c, s) = (r', c', s') \<Longrightarrow> cb_keeps c s c' s'"
  by (auto simp: notfnd_to_next_def cb_keeps_def split: if_splits)

lemma state_entry_cb: "state_entry E st c s = Some (r, c', s') \<Longrightarrow> cb_keeps c s c' s'"
proof (cases st)
  case setconfig_em
  then show "state_entry E st c s = Some (r, c', s') \<Longrightarrow> ?thesis"
    by (auto simp: setconfig_entry_def bind_Some_conv split: if_splits dest!: notfnd_to_next_cb send_cbs
        intro: cb_keeps_trans)
qed (auto simp: getdcd_entry_def addappkey_entry_def bindappkey_entry_def setpub_entry_def addsub_entry_def
    rm_entry_def end_entry_def rmend_entry_def bind_Some_conv Let_def cb_keeps_def split: if_splits
    dest: send_cbs [unfolded cb_keeps_def] on_failed_keeps end_on_success_keeps rmend_on_success_keeps)

lemma parse_elems_keeps: "parse_elems E data r k first i es s = Some (x, s') \<Longrightarrow> keeps_mng s s'"
proof (induction k arbitrary: first i es s)
  case (Suc k)
  obtain n :: node_t and i' func el s1 e s2 where 1: "nassign r (\<lambda>n. n\<lparr>n_func := func\<rparr>) s = Some s1"
    and 2: "nodeset_func E (n_addr n) func s1 = Some (e, s2)"
    and 3: "parse_elems E data r k False i' (es @ [el]) s2 = Some (x, s')"
    using Suc.prems by (auto simp: bind_Some_conv Let_def)
  show ?case
    using nassign_keeps [OF 1] nodeset_keeps(3) [OF 2] Suc.IH [OF 3] keeps_mng_trans by blast
qed simp

lemma dcd_store_cb: "dcd_store E data c s = Some (c', s') \<Longrightarrow> cb_keeps c s c' s'"
  by (auto simp: dcd_store_def bind_Some_conv cb_keeps_def dest: parse_elems_keeps)

lemma next_elem_node: "next_elem c = (b, c') \<Longrightarrow> cc_node c' = cc_node c"
  by (auto simp: next_elem_def Let_def split: if_splits)

lemma step_model_node: "step_model p c = Some (b, c') \<Longrightarrow> cc_node c' = cc_node c"
  unfolding step_model_def by (auto simp: bind_Some_conv split: option.splits dest: next_elem_node)

lemma iter_appkey_node: "iter_appkey c s = Some (b, c') \<Longrightarrow> cc_node c' = cc_node c"
  unfolding iter_appkey_def by (auto simp: bind_Some_conv split: if_splits)

lemma iter_bindings_node: "iter_bindings c s = Some (b, c') \<Longrightarrow> cc_node c' = cc_node c"
proof -
  assume it: "iter_bindings c s = Some (b, c')"
  then obtain l :: uint16list_t and i where l: "node_bindings c s = Some l"
    and i: "next_key (known_key s) l (iter2 c) = Some i"
    by (auto simp: iter_bindings_def bind_Some_conv)
  let ?c = "c\<lparr>iter2 := 0, iter1 := Suc (iter1 c)\<rparr>"
  show ?thesis
  proof (cases "i = unat (l_len l)")
    case True
    then obtain el :: elem_t where "(if iter1 ?c = model_cnt el then next_elem ?c else (False, ?c)) = (b, c')"
      using it l i by (auto simp: iter_bindings_def bind_Some_conv Let_def)
    then show ?thesis using next_elem_node [of ?c b c'] by (cases "iter1 ?c = model_cnt el") auto
  qed (use it l i in \<open>auto simp: iter_bindings_def\<close>)
qed

lemma iter_setpub_node: "iter_setpub c = Some (b, c') \<Longrightarrow> cc_node c' = cc_node c"
  unfolding iter_setpub_def by (rule step_model_node)

lemma iter_addsub_node: "iter_addsub c s = Some (b, c') \<Longrightarrow> cc_node c' = cc_node c"
  unfolding iter_addsub_def
  by (auto simp: bind_Some_conv Let_def split: if_splits dest!: step_model_node)

lemmas iter_node = iter_appkey_node iter_bindings_node iter_setpub_node iter_addsub_node

lemma on_feature_configured_keeps: "on_feature_configured c w s = Some s' \<Longrightarrow> keeps_mng s s'"
  by (auto simp: on_feature_configured_def bind_Some_conv dest: nassign_keeps)

lemma getdcd_inprg_cb: "getdcd_inprg E e c s = Some (r, c', s') \<Longrightarrow> cb_keeps c s c' s'"
  by (auto simp: getdcd_inprg_def Let_def bind_Some_conv cb_keeps_def split: bgevt.splits if_splits
      dest!: dcd_store_cb [unfolded cb_keeps_def])

lemma addappkey_inprg_cb: "addappkey_inprg E e c s = Some (r, c', s') \<Longrightarrow> cb_keeps c s c' s'"
  by (auto simp: addappkey_inprg_def Let_def bind_Some_conv cb_keeps_def split: bgevt.splits if_splits
      dest!: iter_node send_cbs [unfolded cb_keeps_def])

lemma bindappkey_inprg_cb: "bindappkey_inprg E e c s = Some (r, c', s') \<Longrightarrow> cb_keeps c s c' s'"
  by (auto simp: bindappkey_inprg_def Let_def bind_Some_conv cb_keeps_def split: bgevt.splits if_splits
      dest!: iter_node send_cbs [unfolded cb_keeps_def])

lemma setpub_inprg_cb: "setpub_inprg E e c s = Some (r, c', s') \<Longrightarrow> cb_keeps c s c' s'"
  by (auto simp: setpub_inprg_def Let_def bind_Some_conv cb_keeps_def split: bgevt.splits if_splits
      dest!: iter_node send_cbs [unfolded cb_keeps_def])

lemma addsub_inprg_cb: "addsub_inprg E e c s = Some (r, c', s') \<Longrightarrow> cb_keeps c s c' s'"
  by (auto simp: addsub_inprg_def Let_def bind_Some_conv cb_keeps_def split: bgevt.splits if_splits
      dest!: iter_node send_cbs [unfolded cb_keeps_def])

lemma setconfig_inprg_cb: "setconfig_inprg E e c s = Some (r, c', s') \<Longrightarrow> cb_keeps c s c' s'"
proof -
  have *: "setconfig E x t = Some y \<Longrightarrow> notfnd_to_next y = (r, c', s') \<Longrightarrow> cb_keeps x t c' s'" for x t y
    using send_cbs(6) notfnd_to_next_cb cb_keeps_trans by (metis prod_cases3)
  show "setconfig_inprg E e c s = Some (r, c', s') \<Longrightarrow> cb_keeps c s c' s'"
    by (auto simp: setconfig_inprg_def Let_def bind_Some_conv split: option.splits if_splits
        dest!: * [unfolded cb_keeps_def] on_feature_configured_keeps)
      (auto simp: cb_keeps_def intro: keeps_mng_trans)
qed

lemma rm_inprg_cb: "rm_inprg E e c s = Some (r, c', s') \<Longrightarrow> cb_keeps c s c' s'"
  by (auto simp: rm_inprg_def Let_def cb_keeps_def split: bgevt.splits if_splits)

lemma state_inprg_cb: "state_inprg E st e c s = Some (r, c', s') \<Longrightarrow> cb_keeps c s c' s'"
  by (cases st) (auto dest: getdcd_inprg_cb addappkey_inprg_cb bindappkey_inprg_cb setpub_inprg_cb
      addsub_inprg_cb setconfig_inprg_cb rm_inprg_cb)

subsection \<open>The search for the next state\<close>

lemma enter_states_cb: "enter_states E nas c s = Some (b, c', s') \<Longrightarrow> cb_keeps c s c' s'"
proof (induction E nas c s rule: enter_states.induct)
  case (2 E st nas c s)
  obtain r c1 s1 where e: "state_entry E st c s = Some (r, c1, s1)"
    using "2.prems" by (auto split: option.splits)
  have cb: "cb_keeps c s c1 s1" using state_entry_cb [OF e] .
  show ?case
  proof (cases "r = asr_suc \<or> r = asr_oom")
    case True
    then have "c' = c1\<lparr>cc_state := st, next_state := Some st\<rparr>" "s' = s1" using "2.prems" e by auto
    then show ?thesis using cb by (simp add: cb_keeps_def)
  next
    case False
    then have "cb_keeps c1 s1 c' s'" using "2.prems" "2.IH" e by (auto split: if_splits)
    then show ?thesis using cb cb_keeps_trans by blast
  qed
qed simp

lemma to_next_state_cb: "to_next_state E c s = Some (b, c', s') \<Longrightarrow> cb_keeps c s c' s'"
  by (auto simp: to_next_state_def Let_def bind_Some_conv dest: enter_states_cb)

lemma engine_exception_cb: "engine_exception E c s = Some (c', s') \<Longrightarrow> cb_keeps c s c' s'"
  by (auto simp: engine_exception_def Let_def bind_Some_conv cb_keeps_def split: if_splits
      dest!: state_retry_cb [unfolded cb_keeps_def])

end
