(* ===== verification/Slots.thy ===== *)
theory Slots
  imports Frame
begin

text \<open>
  The slots of the configuration engine. The invariant \<open>acc_wf\<close> ties the map of used slots to the
  nodes the slots hold, and \<open>acc_work\<close> is the multiset of all nodes the engine is responsible for:
  those that wait to be configured or removed, those in a slot and those that failed.
\<close>

subsection \<open>The invariant\<close>

definition slot_node :: "config_cache_t \<Rightarrow> nref multiset" where
  "slot_node c = (case cc_node c of None \<Rightarrow> {#} | Some r \<Rightarrow> {#r#})"

definition slot_nodes :: "config_cache_t list \<Rightarrow> nref multiset" where
  "slot_nodes cs = sum_list (map slot_node cs)"

definition acc_wf :: "mng_t \<Rightarrow> bool" where
  "acc_wf m \<longleftrightarrow> length (c_config m) = MAX_CONCURRENT_CONFIG_NODES
    \<and> (\<forall>i. bit (used m) i \<longleftrightarrow> i < MAX_CONCURRENT_CONFIG_NODES \<and> cc_node (c_config m ! i) \<noteq> None)"

definition acc_work :: "mng_t \<Rightarrow> nref multiset" where
  "acc_work m = mset (l_config m) + mset (l_rm m) + slot_nodes (c_config m) + mset (l_fail m)"

lemma slot_nodes_upd:
  "i < length cs \<Longrightarrow> slot_nodes (cs[i := c]) + slot_node (cs ! i) = slot_nodes cs + slot_node c"
proof (induction cs arbitrary: i)
  case (Cons d cs)
  then show ?case by (cases i) (auto simp: slot_nodes_def ac_simps)
qed simp

lemma slot_node_cong: "cc_node c' = cc_node c \<Longrightarrow> slot_node c' = slot_node c"
  by (simp add: slot_node_def)

lemma slot_nodes_same:
  "i < length cs \<Longrightarrow> cc_node c = cc_node (cs ! i) \<Longrightarrow> slot_nodes (cs[i := c]) = slot_nodes cs"
  using slot_nodes_upd [of i cs c] slot_node_cong [of c "cs ! i"] by simp

text \<open>The fields the engine's facts are about.\<close>

definition slots_eq :: "mng_t \<Rightarrow> mng_t \<Rightarrow> bool" where
  "slots_eq m m' \<longleftrightarrow> used m' = used m \<and> length (c_config m') = length (c_config m)
    \<and> map cc_node (c_config m') = map cc_node (c_config m)"

lemma slots_eq_wf: "slots_eq m m' \<Longrightarrow> acc_wf m' = acc_wf m"
proof -
  assume eq: "slots_eq m m'"
  have "cc_node (c_config m' ! i) = cc_node (c_config m ! i)" if "i < length (c_config m)" for i
    using eq that unfolding slots_eq_def by (metis nth_map)
  then show ?thesis using eq by (auto simp: acc_wf_def slots_eq_def)
qed

lemma slots_eq_nodes: "slots_eq m m' \<Longrightarrow> slot_nodes (c_config m') = slot_nodes (c_config m)"
proof -
  assume "slots_eq m m'"
  moreover have nodes: "slot_nodes cs = sum_list (map (\<lambda>n. case n of None \<Rightarrow> {#} | Some r \<Rightarrow> {#r#}) (map cc_node cs))"
    for cs by (induction cs) (simp_all add: slot_nodes_def slot_node_def)
  ultimately show ?thesis unfolding nodes slots_eq_def by metis
qed

lemma slots_eq_refl [simp]: "slots_eq m m"
  by (simp add: slots_eq_def)

lemma slots_eq_set:
  "i < length (c_config m) \<Longrightarrow> cc_node c = cc_node (c_config m ! i) \<Longrightarrow>
    slots_eq m (m\<lparr>c_config := (c_config m)[i := c]\<rparr>)"
  by (auto simp: slots_eq_def map_update intro: nth_equalityI)
    (metis (no_types) length_map list_update_id map_update nth_map)

lemma set_cache_mng [simp]:
  "mng (set_cache i c s) = (mng s)\<lparr>c_config := (c_config (mng s))[i := c]\<rparr>" "acc (set_cache i c s) = acc s"
  by (simp_all add: set_cache_def)

lemma cache_reset_node [simp]: "cc_node cache_reset = None" "slot_node cache_reset = {#}"
  by (simp_all add: cache_reset_def zero_config_cache_def slot_node_def)

lemma cache_reset_idx_wf:
  assumes "acc_wf (mng s)" and "i < MAX_CONCURRENT_CONFIG_NODES"
  shows "acc_wf (mng (cache_reset_idx i s))"
  using assms by (auto simp: acc_wf_def cache_reset_idx_def bit_BIT_CLR nth_list_update)

lemma cache_reset_idx_work:
  assumes "i < length (c_config (mng s))"
  shows "acc_work (mng (cache_reset_idx i s)) + slot_node (c_config (mng s) ! i) = acc_work (mng s)"
proof -
  have "slot_nodes ((c_config (mng s))[i := cache_reset]) + slot_node (c_config (mng s) ! i)
      = slot_nodes (c_config (mng s))"
    using slot_nodes_upd [OF assms, of cache_reset] by simp
  then have "acc_work (mng (cache_reset_idx i s)) + slot_node (c_config (mng s) ! i)
      = mset (l_config (mng s)) + mset (l_rm (mng s)) + slot_nodes (c_config (mng s)) + mset (l_fail (mng s))"
    by (simp add: acc_work_def cache_reset_idx_def ac_simps)
  then show ?thesis by (simp add: acc_work_def)
qed

subsection \<open>Loading nodes into slots\<close>

lemma cache_item_load_wf:
  assumes "acc_wf (mng s)" and "i < MAX_CONCURRENT_CONFIG_NODES"
  shows "acc_wf (mng (cache_item_load i r ty s))"
  using assms by (cases ty) (auto simp: acc_wf_def cache_item_load_def Let_def bit_BIT_SET nth_list_update)

lemma cache_item_load_lists [simp]:
  "l_config (mng (cache_item_load i r ty s)) = l_config (mng s)"
  "l_rm (mng (cache_item_load i r ty s)) = l_rm (mng s)"
  "l_fail (mng (cache_item_load i r ty s)) = l_fail (mng s)"
  "acc (cache_item_load i r ty s) = acc s" "db (cache_item_load i r ty s) = db s"
  "sent (cache_item_load i r ty s) = sent s"
  by (simp_all add: cache_item_load_def Let_def set_cache_def)

lemma cache_item_load_nodes:
  assumes "acc_wf (mng s)" and "i < MAX_CONCURRENT_CONFIG_NODES" and "\<not> bit (used (mng s)) i"
  shows "slot_nodes (c_config (mng (cache_item_load i r ty s))) = add_mset r (slot_nodes (c_config (mng s)))"
proof -
  let ?cs = "c_config (mng s)"
  obtain c where c: "c_config (mng (cache_item_load i r ty s)) = ?cs[i := c]" "cc_node c = Some r"
    by (cases ty) (auto simp: cache_item_load_def Let_def)
  have "i < length ?cs" "slot_node (?cs ! i) = {#}"
    using assms by (auto simp: acc_wf_def slot_node_def)
  then show ?thesis using slot_nodes_upd [of i ?cs c] c by (simp add: slot_node_def)
qed

lemma set_pending_simps [simp]:
  "used (mng (set_pending ty l s)) = used (mng s)" "c_config (mng (set_pending ty l s)) = c_config (mng s)"
  "l_fail (mng (set_pending ty l s)) = l_fail (mng s)" "pending ty (set_pending ty l s) = l"
  "acc (set_pending ty l s) = acc s" "db (set_pending ty l s) = db s" "sent (set_pending ty l s) = sent s"
  by (cases ty; simp add: set_pending_def pending_def)+

lemma set_pending_wf [simp]: "acc_wf (mng (set_pending ty l s)) = acc_wf (mng s)"
  by (simp add: acc_wf_def)

lemma set_pending_work:
  assumes "pending ty s = r # l"
  shows "add_mset r (acc_work (mng (set_pending ty l s))) = acc_work (mng s)"
  using assms by (cases ty) (simp_all add: pending_def set_pending_def acc_work_def)

text \<open>One turn of the loop: the head of the list moves to a free slot.\<close>

lemma load_one:
  assumes "acc_wf (mng s)" and "utils_frz (used (mng s)) < int MAX_CONCURRENT_CONFIG_NODES"
    and "pending ty s = r # l"
  defines "s' \<equiv> set_pending ty l (cache_item_load (nat (utils_frz (used (mng s)))) r ty s)"
  shows "acc_wf (mng s')" and "acc_work (mng s') = acc_work (mng s)" and "pending ty s' = l"
    and "acc s' = acc s"
proof -
  let ?i = "nat (utils_frz (used (mng s)))"
  let ?t = "cache_item_load ?i r ty s"
  have i: "?i < MAX_CONCURRENT_CONFIG_NODES" "\<not> bit (used (mng s)) ?i"
    using assms(2) utils_frz_zero by auto
  have "pending ty ?t = r # l" using assms(3) by (cases ty) (simp_all add: pending_def)
  then have "add_mset r (acc_work (mng s')) = acc_work (mng ?t)"
    unfolding s'_def by (rule set_pending_work)
  moreover have "acc_work (mng ?t) = add_mset r (acc_work (mng s))"
    using cache_item_load_nodes [OF assms(1) i] by (simp add: acc_work_def)
  ultimately show "acc_work (mng s') = acc_work (mng s)" by simp
  show "acc_wf (mng s')" using cache_item_load_wf [OF assms(1) i(1)] by (simp add: s'_def)
  show "pending ty s' = l" "acc s' = acc s" by (simp_all add: s'_def)
qed

lemma load_items_spec:
  assumes "acc_wf (mng s)" and "pending ty s = l" and "load_items ty l s = (k, s')"
  shows "acc_wf (mng s') \<and> acc_work (mng s') = acc_work (mng s) \<and> pending ty s' = drop k l \<and> k \<le> length l
    \<and> acc s' = acc s \<and> (k < length l \<longrightarrow> utils_frz (used (mng s')) \<ge> int MAX_CONCURRENT_CONFIG_NODES)"
  using assms
proof (induction l arbitrary: s k)
  case (Cons r l)
  show ?case
  proof (cases "utils_frz (used (mng s)) < int MAX_CONCURRENT_CONFIG_NODES")
    case True
    let ?s = "set_pending ty l (cache_item_load (nat (utils_frz (used (mng s)))) r ty s)"
    obtain k' where k: "load_items ty l ?s = (k', s')" "k = Suc k'"
      using Cons.prems(3) True by (auto simp: Let_def split: prod.splits)
    note one = load_one [OF Cons.prems(1) True Cons.prems(2)]
    show ?thesis using Cons.IH [OF one(1,3) k(1)] one(2,4) k(2) by simp
  qed (use Cons.prems in auto)
qed simp

lemma popcount_full:
  assumes "acc_wf m" and "int MAX_CONCURRENT_CONFIG_NODES = utils_popcount (used m)"
  shows "utils_frz (used m) \<ge> int MAX_CONCURRENT_CONFIG_NODES"
proof (rule ccontr)
  assume "\<not> ?thesis"
  then have lt: "nat (utils_frz (used m)) < MAX_CONCURRENT_CONFIG_NODES" by simp
  have "bit (used m) x \<Longrightarrow> x < MAX_CONCURRENT_CONFIG_NODES \<and> x \<noteq> nat (utils_frz (used m))" for x
    using assms(1) utils_frz_zero [of "used m"] unfolding acc_wf_def by blast
  then have "set (ones32 (used m)) \<subseteq> {..<MAX_CONCURRENT_CONFIG_NODES} - {nat (utils_frz (used m))}"
    unfolding set_ones32 by blast
  then have "card (set (ones32 (used m))) \<le> card ({..<MAX_CONCURRENT_CONFIG_NODES} - {nat (utils_frz (used m))})"
    by (intro card_mono) auto
  also have "\<dots> < MAX_CONCURRENT_CONFIG_NODES" using lt by simp
  finally have "card (set (ones32 (used m))) < MAX_CONCURRENT_CONFIG_NODES" .
  moreover have "distinct (ones32 (used m))" unfolding ones32_def by simp
  ultimately show False using assms(2) by (simp add: utils_popcount_def distinct_card)
qed

lemma caches_load_spec:
  assumes "acc_wf (mng s)" and "caches_load ty s = (k, s')"
  shows "acc_wf (mng s') \<and> acc_work (mng s') = acc_work (mng s) \<and> pending ty s' = drop k (pending ty s)
    \<and> k \<le> length (pending ty s) \<and> acc s' = acc s
    \<and> (k < length (pending ty s) \<longrightarrow> utils_frz (used (mng s')) \<ge> int MAX_CONCURRENT_CONFIG_NODES)"
  using assms load_items_spec [OF assms(1) refl, of ty k s'] popcount_full [OF assms(1)]
  by (auto simp: caches_load_def split: if_splits)

subsection \<open>The engine\<close>

text \<open>The part of the manager the engine does not touch.\<close>

definition eng_rest :: "mng_t \<Rightarrow> mng_t" where
  "eng_rest m = m\<lparr>used := 0, c_config := [], l_config := [], l_rm := [], l_fail := []\<rparr>"

text \<open>What a step of the engine keeps: the invariant, the states, and it never invents a node.\<close>

definition eng_step :: "sys \<Rightarrow> sys \<Rightarrow> bool" where
  "eng_step s s' \<longleftrightarrow> (acc_wf (mng s) \<longrightarrow> acc_wf (mng s') \<and> acc_work (mng s') \<subseteq># acc_work (mng s))
    \<and> eng_rest (mng s') = eng_rest (mng s) \<and> acc s' = acc s"

lemma eng_step_refl [simp]: "eng_step s s"
  by (simp add: eng_step_def)

lemma eng_step_trans: "eng_step a b \<Longrightarrow> eng_step b c \<Longrightarrow> eng_step a c"
  by (auto simp: eng_step_def)

lemma keeps_mng_eng_step: "keeps_mng s s' \<Longrightarrow> eng_step s s'"
  by (simp add: keeps_mng_def eng_step_def)

lemma eng_step_keeps: "keeps_mng s t \<Longrightarrow> eng_step a t = eng_step a s" "keeps_mng s t \<Longrightarrow> eng_step t a = eng_step s a"
  by (simp_all add: keeps_mng_def eng_step_def)

lemma set_cache_step:
  assumes "i < length (c_config (mng s))" and "cc_node c = cc_node (c_config (mng s) ! i)"
  shows "eng_step s (set_cache i c s)"
proof -
  have "slots_eq (mng s) (mng (set_cache i c s))" using slots_eq_set [OF assms] by simp
  then show ?thesis using slots_eq_wf slots_eq_nodes
    by (fastforce simp: eng_step_def eng_rest_def acc_work_def)
qed

lemma reset_step:
  assumes "i < MAX_CONCURRENT_CONFIG_NODES" and "cc_node (c_config (mng s) ! i) = Some r"
  shows "eng_step s (cache_reset_idx i (if b then s\<lparr>mng := (mng s)\<lparr>l_fail := l_fail (mng s) @ [r]\<rparr>\<rparr> else s))"
    (is "eng_step s (cache_reset_idx i ?s)")
proof -
  have wf: "acc_wf (mng ?s) = acc_wf (mng s)" by (simp add: acc_wf_def)
  have "acc_work (mng (cache_reset_idx i ?s)) \<subseteq># acc_work (mng s)" if w: "acc_wf (mng s)"
  proof -
    have "i < length (c_config (mng ?s))" using assms(1) w by (simp add: acc_wf_def)
    from cache_reset_idx_work [OF this]
    have "acc_work (mng (cache_reset_idx i ?s)) + {#r#} = acc_work (mng ?s)"
      using assms(2) by (cases b) (simp_all add: slot_node_def)
    then have "acc_work (mng (cache_reset_idx i ?s)) + {#r#} = acc_work (mng s) + (if b then {#r#} else {#})"
      by (simp add: acc_work_def)
    moreover have "X + {#r#} = Y + (if b then {#r#} else {#}) \<Longrightarrow> X \<subseteq># Y" for X Y :: "nref multiset"
      by (cases b) auto
    ultimately show ?thesis by blast
  qed
  then show ?thesis using cache_reset_idx_wf [of ?s i] assms(1) wf
    by (auto simp: eng_step_def cache_reset_idx_def eng_rest_def)
qed

lemma engine_slot_step:
  assumes "engine_slot E i (b, s) = Some (b', s')" and "i < MAX_CONCURRENT_CONFIG_NODES"
  shows "eng_step s s'"
proof -
  let ?c = "c_config (mng s) ! i"
  obtain c1 s1 where i: "i < length (c_config (mng s))" and 1: "engine_exception E ?c s = Some (c1, s1)"
    and 2: "(if WAIT_RESPONSE c1 \<or> next_state c1 = Some (cc_state c1) then Some (b, set_cache i c1 s1)
     else do {
       (b2, c, s) \<leftarrow> to_next_state E c1 s1;
       if cc_state c = end_em \<or> cc_state c = rmend_em
       then do {
         n \<leftarrow> cc_node c;
         let s = (if has_error c then s\<lparr>mng := (mng s)\<lparr>l_fail := l_fail (mng s) @ [n]\<rparr>\<rparr> else s);
         Some (b \<or> b2, cache_reset_idx i s) }
       else Some (b \<or> b2, set_cache i c s) }) = Some (b', s')"
    using assms(1) by (auto simp: engine_slot_def bind_Some_conv)
  note k1 = engine_exception_cb [OF 1, unfolded cb_keeps_def]
  have m1: "mng s1 = mng s" using k1 by (simp add: keeps_mng_def)
  show ?thesis
  proof (cases "WAIT_RESPONSE c1 \<or> next_state c1 = Some (cc_state c1)")
    case True
    then have "s' = set_cache i c1 s1" using 2 by simp
    then show ?thesis using set_cache_step [of i s1 c1] i k1 m1 eng_step_keeps(2) by metis
  next
    case False
    then obtain b2 c2 s2 where 3: "to_next_state E c1 s1 = Some (b2, c2, s2)"
      and 4: "(if cc_state c2 = end_em \<or> cc_state c2 = rmend_em
       then do {
         n \<leftarrow> cc_node c2;
         let s = (if has_error c2 then s2\<lparr>mng := (mng s2)\<lparr>l_fail := l_fail (mng s2) @ [n]\<rparr>\<rparr> else s2);
         Some (b \<or> b2, cache_reset_idx i s) }
       else Some (b \<or> b2, set_cache i c2 s2)) = Some (b', s')"
      using 2 by (auto simp: bind_Some_conv)
    note k2 = to_next_state_cb [OF 3, unfolded cb_keeps_def]
    have m2: "mng s2 = mng s" "keeps_mng s s2" "cc_node c2 = cc_node ?c"
      using k1 k2 m1 keeps_mng_trans by (auto simp: keeps_mng_def)
    have "eng_step s2 s'"
      using 4 m2 i assms(2) set_cache_step [of i s2 c2] reset_step [of i s2 _ "has_error c2"]
      by (auto simp: bind_Some_conv Let_def split: if_splits)
    then show ?thesis using eng_step_keeps(2) [OF m2(2)] by blast
  qed
qed

lemma engine_loop_step: "engine_loop E u (b, s) = Some (b', s') \<Longrightarrow> eng_step s s'"
proof (induction "unat u" arbitrary: u b s rule: less_induct)
  case less
  show ?case
  proof (cases "u = 0")
    case True
    then show ?thesis using less.prems by (simp add: engine_loop.simps)
  next
    case False
    let ?i = "utils_ctz u"
    have i: "nat ?i < MAX_CONCURRENT_CONFIG_NODES"
      using less.prems False by (subst (asm) engine_loop.simps) (auto simp: Let_def split: if_splits)
    obtain b1 s1 where 1: "engine_slot E (nat ?i) (b, s) = Some (b1, s1)"
      and 2: "engine_loop E (BIT_CLR u (nat ?i)) (b1, s1) = Some (b', s')"
      using less.prems False
      by (subst (asm) engine_loop.simps) (auto simp: Let_def split: if_splits option.splits)
    show ?thesis
      using engine_slot_step [OF 1 i] less.hyps [OF BIT_CLR_less [OF False] 2] eng_step_trans by blast
  qed
qed

lemma config_engine_step: "config_engine E s = Some (b, s') \<Longrightarrow> eng_step s s'"
  unfolding config_engine_def by (rule engine_loop_step)

lemma load_items_rest: "load_items ty l s = (k, s') \<Longrightarrow> eng_rest (mng s') = eng_rest (mng s)"
proof (induction l arbitrary: s k)
  case (Cons r l)
  have "eng_rest (mng (set_pending ty l (cache_item_load i r ty s))) = eng_rest (mng s)" for i
    by (cases ty) (simp_all add: set_pending_def cache_item_load_def eng_rest_def Let_def)
  then show ?case using Cons by (auto simp: Let_def split: if_splits prod.splits)
qed simp

lemma caches_load_rest: "caches_load ty s = (k, s') \<Longrightarrow> eng_rest (mng s') = eng_rest (mng s)"
  by (auto simp: caches_load_def load_items_rest split: if_splits)

lemma caches_load_step: "caches_load ty s = (k, s') \<Longrightarrow> acc_wf (mng s) \<Longrightarrow> eng_step s s'"
  using caches_load_spec caches_load_rest by (fastforce simp: eng_step_def)

lemma acc_loop_step:
  assumes "acc_loop E s = Some (b, s')" and "acc_wf (mng s)"
  shows "eng_step s s'"
proof -
  have "eng_step s s'" if "caches_load ty s = (k, s1)" "config_engine E (f s1) = Some (b, s')"
    "\<And>s. mng (f s) = mng s \<and> acc (f s) = acc s" for ty k s1 f
  proof -
    have "eng_step (f s1) s'" using config_engine_step that(2) by blast
    moreover have "keeps_mng (f s1) s1" using that(3) [of s1] by (simp add: keeps_mng_def)
    ultimately have "eng_step s1 s'" using eng_step_keeps(2) by blast
    then show ?thesis using caches_load_step [OF that(1) assms(2)] eng_step_trans by blast
  qed
  note * = this [where f = "stat_rm_start E"]
    this [where f = "\<lambda>s. stat_config_loading_record E (stat_config_start E s)"]
  show ?thesis using assms(1) * by (auto simp: acc_loop_def split: if_splits prod.splits)
qed

lemma dev_config_hdr_step:
  assumes "dev_config_hdr E e s = Some (b, s')"
  shows "eng_step s s'"
proof (cases "is_config_device_events e")
  case True
  obtain i c1 s1 ret where i: "i < length (c_config (mng s))"
    and 1: "(if WAIT_RESPONSE (c_config (mng s) ! i) \<and> has_retry (cc_state (c_config (mng s) ! i))
        then state_inprg E (cc_state (c_config (mng s) ! i)) e (c_config (mng s) ! i) s
        else Some (asr_suc, c_config (mng s) ! i, s)) = Some (ret, c1, s1)"
    and 2: "(if ret = asr_suc \<and> \<not> WAIT_RESPONSE c1 \<and> EVER_RETRIED c1 \<and> has_retry (cc_state (c_config (mng s) ! i)) then do {
         (r, c, s) \<leftarrow> state_retry E (cc_state (c_config (mng s) ! i)) on_timeout_em c1 s1;
         Some (True, stat_retry (set_cache i c s)) }
       else Some (ret \<noteq> asr_unspec, set_cache i c1 s1)) = Some (b, s')"
    using assms True unfolding dev_config_hdr_def
    by (auto simp: bind_Some_conv Let_def simp del: split_paired_Ex split del: if_split)
  let ?c = "c_config (mng s) ! i"
  have k1: "cb_keeps ?c s c1 s1"
    using 1 state_inprg_cb by (auto split: if_splits)
  have set_step: "eng_step s (set_cache i c t)" if "cb_keeps ?c s c t" for c t
  proof -
    have k: "keeps_mng s t" "cc_node c = cc_node ?c" "mng t = mng s"
      using that by (simp_all add: cb_keeps_def keeps_mng_def)
    have "eng_step t (set_cache i c t)" using set_cache_step [of i t c] k i by simp
    then show ?thesis using eng_step_keeps(2) [OF k(1)] by blast
  qed
  show ?thesis
  proof (cases "ret = asr_suc \<and> \<not> WAIT_RESPONSE c1 \<and> EVER_RETRIED c1 \<and> has_retry (cc_state ?c)")
    case True
    then obtain r c2 s2 where 3: "state_retry E (cc_state ?c) on_timeout_em c1 s1 = Some (r, c2, s2)"
      and s': "s' = stat_retry (set_cache i c2 s2)"
      using 2 by (auto simp: bind_Some_conv)
    have "eng_step s (set_cache i c2 s2)"
      using set_step cb_keeps_trans [OF k1 state_retry_cb [OF 3]] by blast
    then show ?thesis using eng_step_keeps(1) [of "set_cache i c2 s2" s'] by (simp add: s')
  qed (use 2 set_step [OF k1] in auto)
qed (use assms in \<open>simp add: dev_config_hdr_def\<close>)

subsection \<open>Initialisation\<close>

definition default_states :: "acc_state_emt list" where
  "default_states = [get_dcd_em, addappkey_em, bindappkey_em, setpub_em, addsub_em, setconfig_em, end_em,
     rm_em, rmend_em]"

lemma acc_reset_states: "acc_states (acc (acc_reset True s)) = default_states"
  by (simp add: acc_reset_def Let_def add_state_after_def add_default_states_def default_states_def)

lemma acc_reset_wf: "acc_wf (mng (acc_reset b s))"
proof -
  have "used (mng (acc_reset b s)) = 0" "c_config (mng (acc_reset b s)) = replicate 2 cache_reset"
    by (simp_all add: acc_reset_def Let_def)
  then show ?thesis unfolding acc_wf_def by simp
qed

end
