(* ===== verification/AccFacts.thy ===== *)
theory AccFacts
  imports Slots
begin

text \<open>
  Facts on the flow of a slot: the states only go forward, a command that met an out-of-memory target
  is sent again, a node that stops answering is given up after its retry budget, and the settings of
  a node converge to their targets.
\<close>

unbundle bit_operations_syntax

subsection \<open>The order of the states\<close>

instantiation acc_state_emt :: linorder
begin

definition less_eq_acc_state_emt :: "acc_state_emt \<Rightarrow> acc_state_emt \<Rightarrow> bool" where
  "less_eq_acc_state_emt a b \<longleftrightarrow> acc_num a \<le> acc_num b"

definition less_acc_state_emt :: "acc_state_emt \<Rightarrow> acc_state_emt \<Rightarrow> bool" where
  "less_acc_state_emt a b \<longleftrightarrow> acc_num a < acc_num b"

instance
proof
  fix a b :: acc_state_emt
  show "a \<le> b \<Longrightarrow> b \<le> a \<Longrightarrow> a = b"
    by (cases a; cases b) (simp_all add: less_eq_acc_state_emt_def)
qed (auto simp: less_eq_acc_state_emt_def less_acc_state_emt_def)

end

lemma less_acc_simps [simp]: "(a :: acc_state_emt) < b \<longleftrightarrow> acc_num a < acc_num b"
  by (simp add: less_acc_state_emt_def)

lemma default_states_sorted: "sorted_wrt (<) default_states"
  by (simp add: default_states_def)

lemma cb_keeps_acc: "cb_keeps c s c' s' \<Longrightarrow> acc s' = acc s"
  by (simp add: cb_keeps_def keeps_mng_def)

text \<open>
  The search goes through a tail of the default states that ends with \<open>rmend_em\<close>; it stops at the
  latest at \<open>end_em\<close>, and a failed entry jumps there.
\<close>

lemma enter_states_forward:
  assumes "enter_states E nas c s = Some (b, c', s')" and "acc_states (acc s) = default_states"
    and "\<exists>p. default_states = p @ nas" and "nas \<noteq> []" and "\<forall>x \<in> set nas. lo < x"
    and "lo < end_em \<or> nas = [rmend_em]"
  shows "b \<and> lo < cc_state c' \<and> next_state c' = Some (cc_state c')"
  using assms
proof (induction E nas c s rule: enter_states.induct)
  case (2 E st nas c s)
  obtain r c1 s1 where e: "state_entry E st c s = Some (r, c1, s1)"
    using "2.prems"(1) by (auto split: option.splits)
  have acc1: "acc s1 = acc s" using state_entry_cb [OF e] cb_keeps_acc by blast
  show ?case
  proof (cases "r = asr_suc \<or> r = asr_oom")
    case True
    then show ?thesis using "2.prems"(1,5) e by auto
  next
    case False
    then have st: "st \<noteq> rmend_em" "st \<noteq> end_em"
      using e end_entry_suc rmend_entry_suc by auto
    then have lo: "lo < end_em" using "2.prems"(6) by auto
    obtain p where p: "default_states = p @ st # nas" using "2.prems"(3) by auto
    have "last default_states = rmend_em" by (simp add: default_states_def)
    then have ne: "nas \<noteq> []" using p st by (metis last_snoc)
    show ?thesis
    proof (cases "r = asr_tonext")
      case True
      have run: "enter_states E nas c1 s1 = Some (b, c', s')" using "2.prems"(1) e True by simp
      have ex: "\<exists>p. default_states = p @ nas" using p by (intro exI [of _ "p @ [st]"]) simp
      show ?thesis
        using "2.IH"(1) [OF e _ _ _ _ run] False True acc1 "2.prems"(2,5) ex ne lo by auto
    next
      case no: False
      have run: "enter_states E (as_get end_em s1) c1 s1 = Some (b, c', s')"
        using "2.prems"(1) e False no by simp
      have g: "as_get end_em s1 = [end_em, rm_em, rmend_em]"
        using acc1 "2.prems"(2) by (simp add: as_get_def default_states_def)
      have ex: "\<exists>p. default_states = p @ as_get end_em s1"
        unfolding g by (intro exI [of _ "take 6 default_states"]) (simp add: default_states_def)
      show ?thesis
        using "2.IH"(2) [OF e _ _ _ _ run] False no acc1 "2.prems"(2) ex lo g by auto
    qed
  qed
qed simp

lemma to_next_state_forward:
  assumes "to_next_state E c s = Some (b, c', s')" and "acc_states (acc s) = default_states"
    and "next_state c = None" and "cc_state c \<in> set default_states - {end_em, rmend_em}"
  shows "b \<and> cc_state c < cc_state c' \<and> next_state c' = Some (cc_state c')"
proof -
  let ?nas = "tl (as_get (cc_state c) s)"
  have g: "as_get (cc_state c) s = dropWhile (\<lambda>p. p \<noteq> cc_state c) default_states"
    using assms(2) by (simp add: as_get_def)
  have nas: "?nas \<noteq> [] \<and> (\<exists>p. default_states = p @ ?nas) \<and> (\<forall>x \<in> set ?nas. cc_state c < x)
      \<and> (cc_state c < end_em \<or> ?nas = [rmend_em])"
    unfolding g by (rule conjI, use assms(4) in \<open>auto simp: default_states_def\<close>)
  then have "enter_states E ?nas c s = Some (b, c', s')"
    using assms(1,3) by (auto simp: to_next_state_def Let_def bind_Some_conv split: if_splits)
  then show ?thesis using enter_states_forward [OF _ assms(2)] nas by blast
qed

subsection \<open>Settings\<close>

text \<open>One confirmed setting after another, as the statuses arrive.\<close>

definition settle :: "features_t \<Rightarrow> features_t" where
  "settle f = (case next_item f of None \<Rightarrow> f | Some w \<Rightarrow> feature_done w f)"

definition todo :: "features_t \<Rightarrow> nat set" where
  "todo f = {w. bit (target f) w \<noteq> bit (current f) w}"

lemma todo_bound: "todo f \<subseteq> {..<16}"
  by (auto simp: todo_def dest: bit_imp_le_length)

lemma todo_empty: "todo f = {} \<longleftrightarrow> current f = target f"
  by (auto simp: todo_def intro: bit_word_eqI)

lemma feature_done_todo: "w < 16 \<Longrightarrow> todo (feature_done w f) = todo f - {w}"
  by (auto simp: todo_def feature_done_def IS_BIT_SET_iff_bit bit_BIT_SET bit_BIT_CLR)

lemma feature_done_target [simp]: "target (feature_done w f) = target f"
  by (simp add: feature_done_def)

lemma bit_ucast_u16: "bit (ucast (v :: u16) :: u32) j = bit v j"
  by (auto simp: bit_ucast_iff dest: bit_imp_le_length)

lemma diff_bit: "bit (ucast (target f XOR current f) :: u32) j \<longleftrightarrow> j \<in> todo f"
  by (simp add: bit_ucast_u16 bit_xor_iff todo_def)

lemma next_item_None: "next_item f = None \<longleftrightarrow> todo f = {}"
proof -
  have "(ucast (target f XOR current f) :: u32) = 0 \<longleftrightarrow> todo f = {}"
    using diff_bit [of f] by (metis bit_0_eq bot_apply bot_bool_def all_not_in_conv bit_eqI)
  then show ?thesis by (simp add: next_item_def Let_def)
qed

text \<open>The next item is the lowest setting that is not as it should be.\<close>

lemma next_item_Some:
  assumes "next_item f = Some w"
  shows "w \<in> todo f" and "\<And>v. v < w \<Longrightarrow> v \<notin> todo f"
proof -
  let ?b = "ucast (target f XOR current f) :: u32"
  have nz: "?b \<noteq> 0" and w: "w = nat (utils_ctz ?b)"
    using assms by (auto simp: next_item_def Let_def split: if_splits)
  show "w \<in> todo f" "\<And>v. v < w \<Longrightarrow> v \<notin> todo f"
    using utils_ctz_spec [OF nz] diff_bit [of f] unfolding w by blast+
qed

lemma settle_todo: "card (todo (settle f)) = card (todo f) - 1" "target (settle f) = target f"
proof -
  show "card (todo (settle f)) = card (todo f) - 1"
  proof (cases "next_item f")
    case None
    then show ?thesis using next_item_None [of f] by (simp add: settle_def)
  next
    case (Some w)
    have "w \<in> todo f" using next_item_Some [OF Some] by blast
    moreover have "w < 16" using calculation todo_bound by blast
    ultimately show ?thesis using Some feature_done_todo finite_subset [OF todo_bound, of f]
      by (simp add: settle_def)
  qed
  show "target (settle f) = target f" by (simp add: settle_def split: option.splits)
qed

lemma settle_rounds: "card (todo ((settle ^^ n) f)) = card (todo f) - n \<and> target ((settle ^^ n) f) = target f"
  by (induction n) (simp_all add: settle_todo)

lemma settle_converges: "current ((settle ^^ 16) f) = target f"
proof -
  have "card (todo f) \<le> 16" using card_mono [OF _ todo_bound, of f] by simp
  then have "card (todo ((settle ^^ 16) f)) = 0" using settle_rounds [of 16 f] by simp
  then have "todo ((settle ^^ 16) f) = {}"
    using finite_subset [OF todo_bound] by (metis card_0_eq finite_lessThan)
  then show ?thesis using todo_empty settle_rounds [of 16 f] by metis
qed

text \<open>A success status of the setting that is due: the handler records it and goes on or ends.\<close>

lemma setting_recorded:
  assumes "cc_node c = Some r" and "heap (db s) r = Some n"
    and "next_item (features (n_config n)) = Some w" and "config_status e = Some (w, bg_err_success)"
    and "setconfig_inprg E e c s = Some (ret, c', s')"
  defines "f \<equiv> feature_done w (features (n_config n))"
  shows "heap (db s') r = Some (n\<lparr>n_config := (n_config n)\<lparr>features := f\<rparr>\<rparr>)
    \<and> (todo f = {} \<longrightarrow> next_state c' = None \<and> sent s' = sent s)"
proof -
  let ?n = "n\<lparr>n_config := (n_config n)\<lparr>features := f\<rparr>\<rparr>"
  let ?s = "s\<lparr>db := (db s)\<lparr>heap := (heap (db s))(r \<mapsto> ?n)\<rparr>\<rparr>"
  let ?c = "RETRY_CLEAR (WAIT_RESPONSE_CLEAR (timer_set E s c False))"
  have on: "on_feature_configured ?c w s = Some ?s"
    using assms(1,2) by (simp add: on_feature_configured_def nassign_def f_def)
  have item: "next_config_item ?c ?s = Some (next_item f)"
    using assms(1) by (simp add: next_config_item_def node_features_def cache_node_def nderef_def)
  have cn: "cache_node ?c s = Some n" using assms(1,2) by (simp add: cache_node_def nderef_def)
  have run: "(if next_item f = None then Some (asr_suc, ?c\<lparr>next_state := None\<rparr>, ?s)
      else do { r \<leftarrow> setconfig E ?c ?s; Some (notfnd_to_next r) }) = Some (ret, c', s')"
    using assms(5) unfolding setconfig_inprg_def Let_def assms(4)
    by (cases "next_item f = None") (auto simp: on item cn split: if_splits)
  show ?thesis
  proof (cases "next_item f = None")
    case True
    then show ?thesis using run by auto
  next
    case False
    then obtain y where y: "setconfig E ?c ?s = Some y" "notfnd_to_next y = (ret, c', s')"
      using run by (auto simp: bind_Some_conv)
    obtain r2 c2 s2 where y2: "y = (r2, c2, s2)" by (cases y)
    have "heap (db s2) = heap (db ?s)" using config_send.send_frame y(1) unfolding y2 by fastforce
    moreover have "s' = s2" using y(2) unfolding y2 by (simp add: notfnd_to_next_def split: if_splits)
    ultimately show ?thesis using False next_item_None by auto
  qed
qed

subsection \<open>Out of memory\<close>

lemma retry_oom_suc:
  assumes "acc_send send set_end endst" and "send E c s = Some (asr_suc, c1, s1)" and "OOM c"
  shows "acc_retry send E on_oom_em c s = Some (asr_suc, OOM_CLEAR c1, s1)"
  using assms acc_send.send_suc [OF assms(1,2)] by (simp add: acc_retry_def)

lemma state_send_ctr:
  assumes "has_retry st"
  shows "\<exists>set_end endst. acc_send (state_send st) set_end endst"
  using assms dcd_send.acc_send_axioms appkey_send.acc_send_axioms bind_send.acc_send_axioms
    pub_send.acc_send_axioms sub_send.acc_send_axioms config_send.acc_send_axioms rm_ctr.acc_send_axioms
  by (cases st) (auto simp: has_retry_def)

lemma oom_resend:
  assumes "has_retry (cc_state c)" and "cc_state c \<in> set (acc_states (acc s))"
    and "OOM c" and "\<not> WAIT_RESPONSE c" and "expired c = 0"
    and "state_send (cc_state c) E c s = Some (asr_suc, c1, s1)"
  shows "engine_exception E c s = Some (OOM_CLEAR c1, stat_retry s1)"
proof -
  have "as_get (cc_state c) s \<noteq> []"
    using assms(2) by (auto simp: as_get_def dropWhile_eq_Nil_conv)
  moreover obtain set_end endst where "acc_send (state_send (cc_state c)) set_end endst"
    using state_send_ctr [OF assms(1)] by blast
  ultimately show ?thesis
    using retry_oom_suc [of "state_send (cc_state c)" set_end endst E c s c1 s1] assms
    by (simp add: engine_exception_def Let_def state_retry_eq)
qed

subsection \<open>The retry budget\<close>

text \<open>How often a state repeats a command that times out, and what it does after that.\<close>

definition budget :: "acc_state_emt \<Rightarrow> u8" where
  "budget st = (if st = rm_em then REMOVE_NODE_RETRY_TIMES else 5)"

definition gives_up :: "acc_state_emt \<Rightarrow> config_cache_t \<Rightarrow> config_cache_t" where
  "gives_up st = (if st = rm_em then rm_give_up else give_up_end)"

text \<open>The status a state waits for, with the result \<open>r\<close>; \<open>w\<close> selects the setting's status.\<close>

fun status_of :: "acc_state_emt \<Rightarrow> nat \<Rightarrow> u32 \<Rightarrow> u16 \<Rightarrow> bgevt" where
  "status_of get_dcd_em w h r = evt_dcd_data_end h r"
| "status_of addappkey_em w h r = evt_appkey_status h r"
| "status_of bindappkey_em w h r = evt_binding_status h r"
| "status_of setpub_em w h r = evt_model_pub_status h r"
| "status_of addsub_em w h r = evt_model_sub_status h r"
| "status_of setconfig_em w h r =
    [evt_relay_status h r, evt_gatt_proxy_status h r, evt_friend_status h r,
     evt_network_transmit_status h r, evt_default_ttl_status h r, evt_beacon_status h r] ! (w mod 6)"
| "status_of rm_em w h r = evt_reset_status h r"
| "status_of _ w h r = evt_adv_timeout"

lemma setconfig_status: "\<exists>which. config_status (status_of setconfig_em w h r) = Some (which, r)"
proof -
  have "w mod 6 < 6" by simp
  then consider "w mod 6 = 0" | "w mod 6 = 1" | "w mod 6 = 2" | "w mod 6 = 3" | "w mod 6 = 4" | "w mod 6 = 5"
    by linarith
  then show ?thesis by cases simp_all
qed

lemma inprg_timeout:
  assumes "has_retry st"
  shows "state_inprg E st (status_of st w h bg_err_timeout) c s =
    Some (asr_suc, on_timeout_status (budget st) (gives_up st) (WAIT_RESPONSE_CLEAR (timer_set E s c False)), s)"
proof (cases st)
  case setconfig_em
  obtain which where "config_status (status_of setconfig_em w h bg_err_timeout) = Some (which, bg_err_timeout)"
    using setconfig_status by blast
  then show ?thesis using setconfig_em
    by (simp add: setconfig_inprg_def budget_def gives_up_def SET_CONFIGS_RETRY_TIMES_def del: status_of.simps)
qed (use assms in \<open>simp_all add: has_retry_def budget_def gives_up_def getdcd_inprg_def addappkey_inprg_def
    bindappkey_inprg_def setpub_inprg_def addsub_inprg_def rm_inprg_def GET_DCD_RETRY_TIMES_def
    ADD_APP_KEY_RETRY_TIMES_def BIND_APP_KEY_RETRY_TIMES_def SET_PUB_RETRY_TIMES_def ADD_SUB_RETRY_TIMES_def\<close>)

lemma gives_up_flags: "\<not> EVER_RETRIED c \<Longrightarrow> \<not> EVER_RETRIED (gives_up st c)"
  "\<not> WAIT_RESPONSE c \<Longrightarrow> \<not> WAIT_RESPONSE (gives_up st c)"
  "next_state (gives_up st c) = (if st = rm_em then None else Some end_em)"
  by (auto simp: gives_up_def rm_give_up_def give_up_end_def err_set_to_end_def flag_defs clr_cache_ctl_def
      err_set_def)

lemma on_timeout_wait: "\<not> WAIT_RESPONSE c \<Longrightarrow> \<not> WAIT_RESPONSE (on_timeout_status n (gives_up st) c)"
  by (auto simp: on_timeout_status_def gives_up_flags)

lemma status_of_handle:
  assumes "has_retry st"
  shows "is_config_device_events (status_of st w h r)" "evt_handle (status_of st w h r) = Some h"
proof -
  have "w mod 6 < 6" by simp
  then have "w mod 6 \<in> {0, 1, 2, 3, 4, 5}" by auto
  then show "is_config_device_events (status_of st w h r)" "evt_handle (status_of st w h r) = Some h"
    using assms by (cases st; auto simp: has_retry_def is_config_device_events_def)+
qed

lemma find_slot_upt:
  assumes "i < MAX_CONCURRENT_CONFIG_NODES" and "P i" and "cc_node (cs ! i) \<noteq> None" and "cc_handle (cs ! i) = h"
    and "\<And>j. j < i \<Longrightarrow> P j \<Longrightarrow> cc_handle (cs ! j) \<noteq> h"
  shows "a \<le> i \<Longrightarrow> i < b \<Longrightarrow> find_slot h (filter P [a..<b]) cs = Some i"
proof (induction "i - a" arbitrary: a)
  case 0
  then show ?case using assms(1-4) by (simp add: upt_conv_Cons)
next
  case (Suc d)
  then have "find_slot h (filter P [Suc a..<b]) cs = Some i" by (intro Suc.hyps(1)) auto
  then show ?case using Suc.hyps(2) Suc.prems assms(1) assms(5) [of a] by (simp add: upt_conv_Cons)
qed

text \<open>
  Slot \<open>i\<close> waits for the answer to the command \<open>cmd\<close>, which its state would send again, and the events with
  its handle reach it: no slot in use before it has the handle the target gave, or may give, to the command.
\<close>

definition slot_asks :: "env \<Rightarrow> nat \<Rightarrow> bgcmd \<Rightarrow> sys \<Rightarrow> bool" where
  "slot_asks E i cmd s \<longleftrightarrow>
    (let c = c_config (mng s) ! i; st = cc_state c
     in i < MAX_CONCURRENT_CONFIG_NODES \<and> i < length (c_config (mng s)) \<and> bit (used (mng s)) i
      \<and> cc_node c \<noteq> None \<and> has_retry st \<and> st \<in> set (acc_states (acc s)) \<and> WAIT_RESPONSE c
      \<and> (\<forall>j < i. bit (used (mng s)) j \<longrightarrow>
          cc_handle (c_config (mng s) ! j) \<notin> insert (cc_handle c) (range (\<lambda>h. rsp_handle (ncp E h cmd))))
      \<and> (\<exists>c0. state_send st E c s = Some (asr_suc, c0, s\<lparr>sent := sent s @ [cmd]\<rparr>)))"

lemma slot_asksD:
  assumes "slot_asks E i cmd s" and "c = c_config (mng s) ! i"
  shows "i < MAX_CONCURRENT_CONFIG_NODES" "i < length (c_config (mng s))" "bit (used (mng s)) i" "cc_node c \<noteq> None"
    "has_retry (cc_state c)" "cc_state c \<in> set (acc_states (acc s))" "WAIT_RESPONSE c"
    "\<And>j. j < i \<Longrightarrow> bit (used (mng s)) j \<Longrightarrow>
      cc_handle (c_config (mng s) ! j) \<notin> insert (cc_handle c) (range (\<lambda>h. rsp_handle (ncp E h cmd)))"
    "\<exists>c0. state_send (cc_state c) E c s = Some (asr_suc, c0, s\<lparr>sent := sent s @ [cmd]\<rparr>)"
  using assms unfolding slot_asks_def Let_def by blast+

text \<open>What \<open>dev_config_hdr\<close> makes of the status that reports a timeout to such a slot.\<close>

lemma hdr_timeout:
  assumes asks: "slot_asks E i cmd s" and c: "c = c_config (mng s) ! i"
    and c': "c' = on_timeout_status (budget (cc_state c)) (gives_up (cc_state c)) (WAIT_RESPONSE_CLEAR (timer_set E s c False))"
  shows "dev_config_hdr E (status_of (cc_state c) w (cc_handle c) bg_err_timeout) s
    = (if EVER_RETRIED c'
       then do { (r, c, s) \<leftarrow> acc_retry (state_send (cc_state c)) E on_timeout_em c' s; Some (True, stat_retry (set_cache i c s)) }
       else Some (True, set_cache i c' s))"
proof -
  let ?st = "cc_state c"
  note f = slot_asksD [OF asks c]
  have "i < 32" using f(3) by (auto dest: bit_imp_le_length)
  then have slot: "find_slot (cc_handle c) (ones32 (used (mng s))) (c_config (mng s)) = Some i"
    unfolding ones32_def using f(1,3,4,8) c by (intro find_slot_upt) auto
  have "\<not> WAIT_RESPONSE c'" unfolding c' by (rule on_timeout_wait) simp
  moreover have "as_get ?st s \<noteq> []" using f(6) by (auto simp: as_get_def dropWhile_eq_Nil_conv)
  ultimately show ?thesis
    using slot status_of_handle [OF f(5)] inprg_timeout [OF f(5)] f(2,5,7) c'
    by (simp add: dev_config_hdr_def cache_from_cchandle_def idx_def Let_def state_retry_eq flip: c)
qed

lemma retry_goes_on:
  assumes asks: "slot_asks E i cmd s" and c: "c = c_config (mng s) ! i"
    and acc: "\<forall>h cmd. rsp_result (ncp E h cmd) = bg_err_success"
    and left: "n = (if EVER_RETRIED c then remaining_retry c else budget (cc_state c))" "n > 0"
  shows "\<exists>s' c'. dev_config_hdr E (status_of (cc_state c) w (cc_handle c) bg_err_timeout) s = Some (True, s')
    \<and> slot_asks E i cmd s' \<and> sent s' = sent s @ [cmd] \<and> c_config (mng s') = (c_config (mng s))[i := c']
    \<and> cc_state c' = cc_state c \<and> EVER_RETRIED c' \<and> remaining_retry c' = n - 1"
proof -
  let ?st = "cc_state c"
  note f = slot_asksD [OF asks c]
  define c1 where "c1 = on_timeout_status (budget ?st) (gives_up ?st) (WAIT_RESPONSE_CLEAR (timer_set E s c False))"
  let ?c0 = "WAIT_RESPONSE_CLEAR (timer_set E s c False)"
  have "EVER_RETRIED ?c0 = EVER_RETRIED c" "remaining_retry ?c0 = remaining_retry c"
    by simp (simp add: WAIT_RESPONSE_CLEAR_def)
  moreover have "remaining_retry (EVER_RETRIED_SET (?c0\<lparr>remaining_retry := n\<rparr>)) = n" by (simp add: EVER_RETRIED_SET_def)
  ultimately have c1: "EVER_RETRIED c1" "remaining_retry c1 = n" "same_work c c1"
    using left unfolding c1_def on_timeout_status_def by (auto split: if_splits)
  obtain c0 where send: "state_send ?st E c s = Some (asr_suc, c0, s\<lparr>sent := sent s @ [cmd]\<rparr>)" using f(9) by blast
  obtain set_end endst where ctr: "acc_send (state_send ?st) set_end endst" using state_send_ctr [OF f(5)] by blast
  let ?s = "s\<lparr>sent := sent s @ [cmd]\<rparr>"
  obtain c2 where c2: "acc_retry (state_send ?st) E on_timeout_em c1 s = Some (asr_suc, c2, ?s)"
    "same_work c c2" "WAIT_RESPONSE c2" "EVER_RETRIED c2" "remaining_retry c2 = n - 1"
    "cc_handle c2 = rsp_handle (ncp E (sent s) cmd)"
    using acc_send.timeout_retry [OF ctr acc send c1(3) refl c1(1)] c1(2) left(2) by auto
  let ?s' = "stat_retry (set_cache i c2 ?s)"
  have run: "dev_config_hdr E (status_of ?st w (cc_handle c) bg_err_timeout) s = Some (True, ?s')"
    using hdr_timeout [OF asks c c1_def, of w] c1(1) c2(1) by simp
  have s': "db ?s' = db s" "acc ?s' = acc s" "used (mng ?s') = used (mng s)" "sent ?s' = sent s @ [cmd]"
    "c_config (mng ?s') = (c_config (mng s))[i := c2]"
    by (simp_all add: stat_retry_def stat_defs upd_stat_def set_cache_def)
  have "\<exists>c3. state_send ?st E c2 ?s' = Some (asr_suc, c3, ?s'\<lparr>sent := sent ?s' @ [cmd]\<rparr>)"
    using acc_send.send_same_cmd [OF ctr acc send c2(2) s'(1)] by blast
  then have "slot_asks E i cmd ?s'"
    using f c2(2,3,6) s' unfolding slot_asks_def Let_def same_work_def by auto
  then show ?thesis using run s' c2 by (intro exI [of _ ?s'] exI [of _ c2]) (simp add: same_work_def)
qed

lemma retry_gives_up:
  assumes asks: "slot_asks E i cmd s" and c: "c = c_config (mng s) ! i"
    and spent: "EVER_RETRIED c" "remaining_retry c = 0"
  shows "\<exists>s' c'. dev_config_hdr E (status_of (cc_state c) w (cc_handle c) bg_err_timeout) s = Some (True, s')
    \<and> sent s' = sent s \<and> c_config (mng s') = (c_config (mng s))[i := c'] \<and> \<not> WAIT_RESPONSE c'
    \<and> next_state c' = (if cc_state c = rm_em then None else Some end_em)"
proof -
  let ?st = "cc_state c"
  let ?c = "RETRY_CLEAR (WAIT_RESPONSE_CLEAR (timer_set E s c False))"
  have e: "gives_up ?st ?c = on_timeout_status (budget ?st) (gives_up ?st) (WAIT_RESPONSE_CLEAR (timer_set E s c False))"
    using spent by (simp add: on_timeout_status_def) (simp add: WAIT_RESPONSE_CLEAR_def timer_set_def)
  have "\<not> EVER_RETRIED (gives_up ?st ?c)" "\<not> WAIT_RESPONSE (gives_up ?st ?c)" by (simp_all add: gives_up_flags)
  then show ?thesis using hdr_timeout [OF asks c e, of w] gives_up_flags(3) [of ?st ?c]
    by (intro exI [of _ "set_cache i (gives_up ?st ?c) s"] exI [of _ "gives_up ?st ?c"]) (simp add: set_cache_def)
qed

text \<open>The timeouts of a slot, one after the other, each with the handle the slot waits on.\<close>

fun timeouts :: "env \<Rightarrow> nat \<Rightarrow> nat list \<Rightarrow> sys \<Rightarrow> (bool list \<times> sys) option" where
  "timeouts E i [] s = Some ([], s)"
| "timeouts E i (w # ws) s = do {
     let c = c_config (mng s) ! i;
     (b, s) \<leftarrow> dev_config_hdr E (status_of (cc_state c) w (cc_handle c) bg_err_timeout) s;
     (bs, s) \<leftarrow> timeouts E i ws s;
     Some (b # bs, s) }"

lemma budget_exhausted:
  assumes "slot_asks E i cmd s" and "c = c_config (mng s) ! i"
    and acc: "\<forall>h cmd. rsp_result (ncp E h cmd) = bg_err_success"
    and "n = (if EVER_RETRIED c then remaining_retry c else budget (cc_state c))"
    and "length ws = Suc (unat n)"
  shows "\<exists>s' c'. timeouts E i ws s = Some (replicate (length ws) True, s')
    \<and> sent s' = sent s @ replicate (unat n) cmd \<and> c_config (mng s') = (c_config (mng s))[i := c'] \<and> \<not> WAIT_RESPONSE c'
    \<and> next_state c' = (if cc_state c = rm_em then None else Some end_em)"
  using assms(1,2,4,5)
proof (induction ws arbitrary: s c n)
  case (Cons w ws)
  note c = Cons.prems(2)
  show ?case
  proof (cases "n = 0")
    case True
    have "budget (cc_state c) \<noteq> 0" by (simp add: budget_def REMOVE_NODE_RETRY_TIMES_def)
    then have "EVER_RETRIED c" "remaining_retry c = 0" using True Cons.prems(3) by (auto split: if_splits)
    from retry_gives_up [OF Cons.prems(1,2) this, of w] show ?thesis
      using True Cons.prems(4) by (auto simp: Let_def simp flip: c)
  next
    case False
    then have "n > 0" by (simp add: word_neq_0_conv)
    from retry_goes_on [OF Cons.prems(1,2) acc Cons.prems(3) this, of w]
    obtain s1 c1 where r: "dev_config_hdr E (status_of (cc_state c) w (cc_handle c) bg_err_timeout) s = Some (True, s1)"
      "slot_asks E i cmd s1" "sent s1 = sent s @ [cmd]" "c_config (mng s1) = (c_config (mng s))[i := c1]"
      "cc_state c1 = cc_state c" "EVER_RETRIED c1" "remaining_retry c1 = n - 1" by blast
    have "c1 = c_config (mng s1) ! i" using r(4) slot_asksD(2) [OF Cons.prems(1) c] by simp
    moreover have u: "unat n = Suc (unat (n - 1))" using False by (simp add: unat_minus_one unat_gt_0)
    ultimately obtain s2 c2 where "timeouts E i ws s1 = Some (replicate (length ws) True, s2)"
      "sent s2 = sent s1 @ replicate (unat (n - 1)) cmd" "c_config (mng s2) = (c_config (mng s1))[i := c2]"
      "\<not> WAIT_RESPONSE c2" "next_state c2 = (if cc_state c = rm_em then None else Some end_em)"
      using Cons.IH [of s1 c1 "n - 1"] r(2,5-7) Cons.prems(4) by auto
    then show ?thesis using r(1,3,4) u by (auto simp: Let_def simp flip: c)
  qed
qed simp

end
