(* ===== verification/Samples.thy ===== *)
theory Samples
  imports Slots
begin

text \<open>
  A small concrete network on which the witnesses run the model: a target that accepts every
  command, one node with address 2 in the database and in the open node file, one device without an
  address, and an idle manager.
\<close>

definition ok_rsp :: bgrsp where
  "ok_rsp = \<lparr>rsp_result = 0, rsp_handle = 7, rsp_id = 1, rsp_count = 0, rsp_key = replicate 16 9\<rparr>"

definition ok_env :: env where
  "ok_env = \<lparr>ncp = (\<lambda>_ _. ok_rsp), now = 100, save_ok = (\<lambda>_. True), json_text = (\<lambda>_. [])\<rparr>"

definition uuid1 :: uuid where "uuid1 = [1, 0, 0, 0, 0, 0, 0, 0, 0, 0, 0, 0, 0, 0, 0, 0]"
definition uuid2 :: uuid where "uuid2 = [2, 0, 0, 0, 0, 0, 0, 0, 0, 0, 0, 0, 0, 0, 0, 0]"

definition node_obj :: "string \<Rightarrow> string \<Rightarrow> json" where
  "node_obj u a = JObj [(STR_UUID, JStr u), (STR_ADDR, JStr a), (STR_ERRBITS, JStr ''0x00000000''),
     (STR_RMORBL, JStr ''0x00''), (STR_FUNC, JStr ''0x00''), (STR_DONE, JStr ''0x00'')]"

definition node_file :: json where
  "node_file = JObj [(STR_SYNC_TIME, JStr ''0x00000000''),
     (STR_SUBNETS, JArr [JObj [(STR_REFID, JStr ''0x0000''),
        (STR_NODES, JArr [node_obj ''01000000000000000000000000000000'' ''0x0002'',
                          node_obj ''02000000000000000000000000000000'' ''0x0000''])]]),
     (STR_BACKLOG, JArr [])]"

definition sample_cfg :: json_cfg_t where
  "sample_cfg = zero_jcfg\<lparr>
     nw_gen := \<lparr>autoflush = True, fp = Some ''nwk.json'', root = Some node_file, synctime = 0\<rparr>,
     nw_subnet_num := 1,
     nw_subnets := Some [\<lparr>sbn_id = 0, sbn_nodes = Some [K STR_SUBNETS, I 0, K STR_NODES]\<rparr>],
     nw_backlog := Some [K STR_BACKLOG]\<rparr>"

definition sample_subnet :: subnet_t where
  "sample_subnet = \<lparr>appkey_num = 1, active_appkey_num = 1,
     netkey = \<lparr>k_refid = 0, k_id = 0, k_done = 1, k_val = replicate 16 3\<rparr>,
     appkey = [\<lparr>k_refid = 0, k_id = 5, k_done = 1, k_val = replicate 16 4\<rparr>]\<rparr>"

definition sample_db :: cfgdb_t where
  "sample_db = zero_db\<lparr>db_initialized := True,
     heap := [0 \<mapsto> zero_node\<lparr>n_uuid := uuid1, n_addr := 2\<rparr>, 1 \<mapsto> zero_node\<lparr>n_uuid := uuid2\<rparr>],
     hnext := 2, nodes := [(2, 0)], unprov_devs := [(uuid2, 1)],
     self := zero_provcfg\<lparr>p_addr := 1, p_subnet_num := 1, p_subnets := Some sample_subnet\<rparr>\<rparr>"

definition sample_mng :: mng_t where
  "sample_mng = zero_mng\<lparr>m_conn := 0xff, prios := ''arb'', m_state := configured\<rparr>"

definition sample_sys :: sys where
  "sample_sys = (acc_reset True (zero_sys Map.empty\<lparr>db := sample_db, jcfg := sample_cfg, mng := sample_mng\<rparr>))
     \<lparr>acc := \<lparr>acc_started = True, acc_states = default_states\<rparr>\<rparr>"

lemmas sample_defs = sample_sys_def sample_mng_def sample_db_def sample_subnet_def sample_cfg_def
  node_file_def node_obj_def uuid1_def uuid2_def ok_env_def ok_rsp_def

lemma ok_env_simps [simp]:
  "ncp ok_env h cmd = ok_rsp" "now ok_env = 100" "save_ok ok_env p" "json_text ok_env j = []"
  "rsp_result ok_rsp = 0" "rsp_handle ok_rsp = 7" "rsp_id ok_rsp = 1" "rsp_count ok_rsp = 0"
  by (simp_all add: ok_env_def ok_rsp_def)

lemma sample_wf: "acc_wf (mng sample_sys)"
  using acc_reset_wf by (simp add: sample_sys_def)

end
