(* ===== verification/AccProps.thy ===== *)
theory AccProps
  imports AccFacts Samples
begin

text \<open>Properties of the configuration engine.\<close>

text \<open>C2: A turn of the configuration engine keeps the slots consistent - a slot is marked used
  exactly while it holds a node - and never invents a node: every node that waits, runs or has failed
  afterwards did so before, with its multiplicity, whatever the target answers.\<close>

theorem engine_keeps_slots:
  assumes "acc_wf (mng s)" and "acc_loop E s = Some (b, s')"
  shows "acc_wf (mng s') \<and> acc_work (mng s') \<subseteq># acc_work (mng s)"
  using acc_loop_step [OF assms(2,1)] assms(1) by (simp add: eng_step_def)

definition config_sys :: sys where
  "config_sys = sample_sys\<lparr>mng := (mng sample_sys)\<lparr>m_state := configuring_devices_em, l_config := [0]\<rparr>\<rparr>"

lemma config_wf: "acc_wf (mng config_sys)"
  using sample_wf by (simp add: config_sys_def acc_wf_def)

theorem engine_keeps_slots_witness:
  "case acc_loop ok_env config_sys of None \<Rightarrow> False | Some (b, s') \<Rightarrow> acc_wf (mng s') \<and> used (mng s') = 1"
proof -
  have "map_option (\<lambda>(b, s'). used (mng s')) (acc_loop ok_env config_sys) = Some 1" by code_simp
  then obtain b s' where run: "acc_loop ok_env config_sys = Some (b, s')" and u: "used (mng s') = 1" by auto
  show ?thesis using engine_keeps_slots [OF config_wf run] run u by simp
qed

text \<open>C3: A configuration client event keeps the slots consistent and moves no node into or out of the
  engine's work.\<close>

theorem event_keeps_slots:
  assumes "acc_wf (mng s)" and "dev_config_hdr E e s = Some (b, s')"
  shows "acc_wf (mng s') \<and> acc_work (mng s') \<subseteq># acc_work (mng s)"
  using dev_config_hdr_step [OF assms(2)] assms(1) by (simp add: eng_step_def)

definition asked_sys :: sys where
  "asked_sys = snd (the (acc_loop ok_env config_sys))"

lemma asked_wf: "acc_wf (mng asked_sys)"
proof -
  have "map_option (\<lambda>(b, s'). used (mng s')) (acc_loop ok_env config_sys) = Some 1" by code_simp
  then obtain b s' where run: "acc_loop ok_env config_sys = Some (b, s')" by auto
  then show ?thesis using acc_loop_step [OF run config_wf] config_wf by (simp add: asked_sys_def eng_step_def)
qed

theorem event_keeps_slots_witness:
  "case dev_config_hdr ok_env (evt_dcd_data_end 7 bg_err_timeout) asked_sys of
     None \<Rightarrow> False | Some (b, s') \<Rightarrow> b \<and> acc_wf (mng s')"
proof -
  have "map_option fst (dev_config_hdr ok_env (evt_dcd_data_end 7 bg_err_timeout) asked_sys) = Some True"
    by code_simp
  then obtain s' where run: "dev_config_hdr ok_env (evt_dcd_data_end 7 bg_err_timeout) asked_sys = Some (True, s')"
    by auto
  show ?thesis using event_keeps_slots [OF asked_wf run] run by simp
qed

text \<open>C4: Loading the slots moves a prefix of the waiting nodes into free slots, in their order, and
  stops early only when every slot is in use.\<close>

theorem slots_are_filled:
  assumes "acc_wf (mng s)" and "caches_load ty s = (k, s')"
  shows "pending ty s' = drop k (pending ty s) \<and> acc_work (mng s') = acc_work (mng s)
    \<and> (pending ty s' = [] \<or> {..<MAX_CONCURRENT_CONFIG_NODES} \<subseteq> {i. bit (used (mng s')) i})"
proof -
  note spec = caches_load_spec [OF assms]
  have "{..<MAX_CONCURRENT_CONFIG_NODES} \<subseteq> {i. bit (used (mng s')) i}" if "pending ty s' \<noteq> []"
    using spec that utils_frz_below [of _ "used (mng s')"] by (auto simp: nat_less_iff)
  then show ?thesis using spec by blast
qed

theorem slots_are_filled_witness: "pending type_config (snd (caches_load type_config config_sys)) = []"
proof -
  have one: "fst (caches_load type_config config_sys) = 1" by code_simp
  obtain s' where run: "caches_load type_config config_sys = (1, s')"
    using one by (cases "caches_load type_config config_sys") simp
  show ?thesis using slots_are_filled [OF config_wf run] run by (simp add: config_sys_def pending_def)
qed

text \<open>C5: A state that is finished is left forwards: the slot enters a later state of the default order,
  so no state is entered twice on the way to the end.\<close>

theorem states_go_forward:
  assumes "acc_states (acc s) = default_states" and "next_state c = None"
    and "cc_state c \<in> set default_states - {end_em, rmend_em}"
    and "to_next_state E c s = Some (b, c', s')"
  shows "b \<and> cc_state c < cc_state c' \<and> next_state c' = Some (cc_state c')"
  by (rule to_next_state_forward [OF assms(4,1-3)])

definition configured_cache :: config_cache_t where
  "configured_cache = cache_reset\<lparr>cc_node := Some 0, cc_state := setconfig_em, next_state := None\<rparr>"

theorem states_go_forward_witness:
  "case to_next_state ok_env configured_cache sample_sys of
     None \<Rightarrow> False | Some (b, c', s') \<Rightarrow> b \<and> setconfig_em < cc_state c'"
proof -
  have "map_option fst (to_next_state ok_env configured_cache sample_sys) = Some True" by code_simp
  then obtain b c' s' where run: "to_next_state ok_env configured_cache sample_sys = Some (b, c', s')"
    by (cases "to_next_state ok_env configured_cache sample_sys") auto
  have "acc_states (acc sample_sys) = default_states" "next_state configured_cache = None"
    "cc_state configured_cache \<in> set default_states - {end_em, rmend_em}"
    by (simp_all add: sample_sys_def configured_cache_def default_states_def)
  from states_go_forward [OF this run] show ?thesis using run by (simp add: configured_cache_def)
qed

text \<open>The engine is initialised with the states in the order of a configuration followed by the
  removal, with empty slots, and with the failed nodes back in the list of nodes to configure.\<close>

theorem engine_starts_clean:
  assumes "\<not> acc_started (acc s)"
  shows "\<exists>s'. acc_init True s = Some s' \<and> acc_started (acc s') \<and> acc_states (acc s') = default_states
    \<and> acc_wf (mng s') \<and> used (mng s') = 0 \<and> l_config (mng s') = l_config (mng s) @ l_fail (mng s)
    \<and> l_fail (mng s') = []"
  using assms acc_reset_wf [of True s] acc_reset_states [of s]
  by (simp add: acc_init_def Let_def) (simp add: acc_reset_def Let_def)

theorem engine_starts_clean_witness:
  "\<exists>s'. acc_init True (zero_sys Map.empty) = Some s' \<and> acc_states (acc s') = default_states"
proof -
  have "\<not> acc_started (acc (zero_sys Map.empty))" by (simp add: zero_sys_def)
  from engine_starts_clean [OF this] show ?thesis by blast
qed

text \<open>C6: A command that found the target out of memory is issued again by the next turn of the engine;
  once the target takes it, the slot waits for the answer and the flag is gone.\<close>

theorem oom_command_is_repeated:
  assumes "has_retry (cc_state c)" and "cc_state c \<in> set (acc_states (acc s))"
    and "OOM c" and "\<not> WAIT_RESPONSE c" and "expired c = 0"
    and "state_send (cc_state c) E c s = Some (asr_suc, c1, s1)"
  shows "\<exists>c' cmd. engine_exception E c s = Some (c', stat_retry s1) \<and> s1 = s\<lparr>sent := sent s @ [cmd]\<rparr>
    \<and> WAIT_RESPONSE c' \<and> \<not> OOM c'"
proof -
  obtain set_end endst where "acc_send (state_send (cc_state c)) set_end endst"
    using state_send_ctr [OF assms(1)] by blast
  then have "WAIT_RESPONSE c1 \<and> (\<exists>cmd. s1 = s\<lparr>sent := sent s @ [cmd]\<rparr>)"
    using acc_send.send_suc assms(6) by blast
  then show ?thesis using oom_resend [OF assms] by auto
qed

definition asking_cache :: config_cache_t where
  "asking_cache = cache_reset\<lparr>cc_node := Some 0, cc_state := get_dcd_em, next_state := Some get_dcd_em\<rparr>"

theorem oom_command_is_repeated_witness:
  "\<exists>c' s'. engine_exception ok_env (oom_set asking_cache) sample_sys = Some (c', s') \<and> WAIT_RESPONSE c'"
proof -
  have hyp: "has_retry (cc_state (oom_set asking_cache))" "OOM (oom_set asking_cache)"
    "\<not> WAIT_RESPONSE (oom_set asking_cache)" "expired (oom_set asking_cache) = 0"
    "cc_state (oom_set asking_cache) \<in> set (acc_states (acc sample_sys))"
    by code_simp+
  have "map_option fst (state_send (cc_state (oom_set asking_cache)) ok_env (oom_set asking_cache) sample_sys)
      = Some asr_suc" by code_simp
  then obtain c1 s1 where
    "state_send (cc_state (oom_set asking_cache)) ok_env (oom_set asking_cache) sample_sys = Some (asr_suc, c1, s1)"
    by auto
  from oom_command_is_repeated [OF hyp(1,5,2,3,4) this] show ?thesis by blast
qed

lemma timer_set_on: "0 \<le> now E \<Longrightarrow> expired (timer_set E s c True) \<noteq> 0"
proof -
  assume "0 \<le> now E"
  moreover have "0 \<le> uint ((t + 999) div 1000)" for t :: u32 by simp
  ultimately have "now E + 3 + uint ((t + 999) div 1000) \<noteq> 0" for t :: u32
    by (smt (verit))
  then show ?thesis using \<open>0 \<le> now E\<close> by (auto simp: timer_set_def Let_def split: option.splits)
qed

lemma guard_timer_resend:
  assumes "has_retry (cc_state c)" and "cc_state c \<in> set (acc_states (acc s))"
    and "expired c \<noteq> 0" and "expired c < now E" and "0 \<le> now E"
    and run: "state_send (cc_state c) E c s = Some (asr_suc, c1, s1)"
  shows "engine_exception E c s = Some (c1\<lparr>expired := 0\<rparr>, stat_retry s1)"
proof -
  obtain set_end endst where ctr: "acc_send (state_send (cc_state c)) set_end endst"
    using state_send_ctr [OF assms(1)] by blast
  have as: "as_get (cc_state c) s \<noteq> []"
    using assms(2) by (auto simp: as_get_def dropWhile_eq_Nil_conv)
  have "expired c1 \<noteq> 0"
    using acc_send.send_tail [OF ctr run] timer_set_on [OF assms(5)]
    by (auto simp: send_cmd_def bgcall_def on_rsp_def split: if_splits)
  then show ?thesis
    using assms as by (simp add: engine_exception_def state_retry_eq acc_retry_def)
qed

text \<open>C7: A node that does not answer is asked once more when its guard timer expires, and that command runs
  without a timer: the slot then waits, and without an event for it no later turn of the engine changes
  anything, whatever the time is.\<close>
theorem silent_node_keeps_its_slot:
  assumes "i < length (c_config (mng s))" and "c = c_config (mng s) ! i"
    and "has_retry (cc_state c)" and "cc_state c \<in> set (acc_states (acc s))"
    and "expired c \<noteq> 0" and "expired c < now E" and "0 \<le> now E" and "\<not> OOM c"
    and "state_send (cc_state c) E c s = Some (asr_suc, c1, s1)"
  shows "\<exists>s' cmd. engine_slot E i (busy, s) = Some (busy, s') \<and> sent s' = sent s @ [cmd]
    \<and> WAIT_RESPONSE (c_config (mng s') ! i) \<and> expired (c_config (mng s') ! i) = 0
    \<and> engine_slot E' i (busy, s') = Some (busy, s')"
proof -
  obtain set_end endst where ctr: "acc_send (state_send (cc_state c)) set_end endst"
    using state_send_ctr [OF assms(3)] by blast
  let ?c = "c1\<lparr>expired := 0\<rparr>" and ?s = "set_cache i (c1\<lparr>expired := 0\<rparr>) (stat_retry s1)"
  obtain cmd where suc: "WAIT_RESPONSE ?c" "\<not> OOM ?c" "s1 = s\<lparr>sent := sent s @ [cmd]\<rparr>"
    using acc_send.send_suc [OF ctr assms(9)] assms(8) by auto
  have m: "mng (stat_retry s1) = mng s" "sent (stat_retry s1) = sent s @ [cmd]"
    using suc(3) by (simp_all add: stat_retry_def stat_defs upd_stat_def)
  have e: "engine_slot E i (busy, s) = Some (busy, ?s)"
    using guard_timer_resend [OF assms(3-7,9)] assms(1,2) suc(1) by (simp add: engine_slot_def idx_def)
  have n: "c_config (mng ?s) ! i = ?c" "i < length (c_config (mng ?s))"
    using assms(1) m by (simp_all add: set_cache_def)
  have "set_cache i (c_config (mng ?s) ! i) ?s = ?s" by (simp add: set_cache_def)
  then have "engine_slot E' i (busy, ?s) = Some (busy, ?s)"
    using n suc(1,2) by (simp add: engine_slot_def idx_def engine_exception_def)
  then show ?thesis using e n suc(1) m by (intro exI [of _ ?s] exI [of _ cmd]) (simp add: set_cache_def)
qed

definition silent_sys :: sys where
  "silent_sys = set_cache 0 (asking_cache\<lparr>flags := BIT_SET 0 6, expired := 50\<rparr>) sample_sys"

theorem silent_node_keeps_its_slot_witness:
  "\<exists>s' cmd. engine_slot ok_env 0 (False, silent_sys) = Some (False, s') \<and> sent s' = sent silent_sys @ [cmd]
    \<and> WAIT_RESPONSE (c_config (mng s') ! 0)
    \<and> engine_slot (ok_env\<lparr>now := 100000\<rparr>) 0 (False, s') = Some (False, s')"
proof -
  let ?c = "c_config (mng silent_sys) ! 0"
  have hyp: "0 < length (c_config (mng silent_sys))" "has_retry (cc_state ?c)"
    "cc_state ?c \<in> set (acc_states (acc silent_sys))" "expired ?c \<noteq> 0" "expired ?c < now ok_env"
    "0 \<le> now ok_env" "\<not> OOM ?c"
    by code_simp+
  have "map_option fst (state_send (cc_state ?c) ok_env ?c silent_sys) = Some asr_suc" by code_simp
  then obtain c1 s1 where "state_send (cc_state ?c) ok_env ?c silent_sys = Some (asr_suc, c1, s1)" by auto
  from silent_node_keeps_its_slot [OF hyp(1) refl hyp(2-7) this] show ?thesis by blast
qed

text \<open>C8: A node that answers every command of a state with a timeout gets that very command again exactly as
  often as the retry budget of the state says, whatever state of the engine it is: the dispatch of events handles each
  timeout and sends the command, the next one ends the node (or counts it as removed) with no further command, and the
  other slots stay as they are. The target accepts the commands, and the events carry the handle of the last response.\<close>

theorem retry_budget:
  assumes "slot_asks E i cmd s" and "st = cc_state (c_config (mng s) ! i)" and "\<not> EVER_RETRIED (c_config (mng s) ! i)"
    and "\<forall>h cmd. rsp_result (ncp E h cmd) = bg_err_success"
    and "length ws = Suc (unat (budget st))"
  shows "\<exists>s' c'. timeouts E i ws s = Some (replicate (length ws) True, s')
    \<and> sent s' = sent s @ replicate (unat (budget st)) cmd
    \<and> c_config (mng s') = (c_config (mng s))[i := c'] \<and> \<not> WAIT_RESPONSE c'
    \<and> next_state c' = (if st = rm_em then None else Some end_em)"
  using budget_exhausted [OF assms(1) refl assms(4), of "budget st" ws] assms(2,3,5) by simp

definition timed_sys :: sys where
  "timed_sys = set_cache 0 (WAIT_RESPONSE_SET (asking_cache\<lparr>cc_handle := 7\<rparr>))
     (sample_sys\<lparr>mng := (mng sample_sys)\<lparr>m_state := configuring_devices_em, used := 1\<rparr>\<rparr>)"

theorem retry_budget_witness:
  "\<exists>s' c'. timeouts ok_env 0 [0, 0, 0, 0, 0, 0] timed_sys = Some (replicate 6 True, s')
    \<and> sent s' = replicate 5 (cmd_get_dcd 0 2 0) \<and> c_config (mng s') ! 0 = c' \<and> next_state c' = Some end_em"
proof -
  let ?c = "c_config (mng timed_sys) ! 0"
  have c: "cc_state ?c = get_dcd_em" "\<not> EVER_RETRIED ?c" "sent timed_sys = []" "length (c_config (mng timed_sys)) = 2"
    "0 < length (c_config (mng timed_sys))" "bit (used (mng timed_sys)) 0" "cc_node ?c \<noteq> None" "has_retry (cc_state ?c)"
    "cc_state ?c \<in> set (acc_states (acc timed_sys))" "WAIT_RESPONSE ?c"
    "unat (budget (cc_state ?c)) = 5" by code_simp+
  have "map_option (\<lambda>(r, c, s). (r, sent s)) (state_send (cc_state ?c) ok_env ?c timed_sys) = Some (asr_suc, [cmd_get_dcd 0 2 0])"
    by code_simp
  then obtain c0 s0 where send: "state_send (cc_state ?c) ok_env ?c timed_sys = Some (asr_suc, c0, s0)" "sent s0 = [cmd_get_dcd 0 2 0]"
    by auto
  obtain set_end endst where "acc_send (state_send (cc_state ?c)) set_end endst" using state_send_ctr [OF c(8)] by blast
  from acc_send.send_suc [OF this send(1)] obtain cmd where "s0 = timed_sys\<lparr>sent := sent timed_sys @ [cmd]\<rparr>" by blast
  then have "s0 = timed_sys\<lparr>sent := sent timed_sys @ [cmd_get_dcd 0 2 0]\<rparr>" using send(2) c(3) by simp
  then have "slot_asks ok_env 0 (cmd_get_dcd 0 2 0) timed_sys"
    using c(4-10) send(1) unfolding slot_asks_def Let_def by simp
  from retry_budget [OF this refl c(2), of "[0, 0, 0, 0, 0, 0]"] show ?thesis
    using c(1,3,4,11) by (auto simp del: timeouts.simps simp: eval_nat_numeral)
qed

text \<open>A success status of the setting that is due records exactly that setting in the node, leaves the
  other settings that still differ to do, and ends the state when none is left.\<close>

theorem setting_is_recorded:
  assumes "cc_node c = Some r" and "heap (db s) r = Some n"
    and "next_item (features (n_config n)) = Some w" and "config_status e = Some (w, bg_err_success)"
    and "setconfig_inprg E e c s = Some (ret, c', s')"
  shows "\<exists>f. heap (db s') r = Some (n\<lparr>n_config := (n_config n)\<lparr>features := f\<rparr>\<rparr>)
    \<and> todo f = todo (features (n_config n)) - {w} \<and> w \<in> todo (features (n_config n))
    \<and> (todo f = {} \<longrightarrow> next_state c' = None)"
proof -
  have "w \<in> todo (features (n_config n))" using next_item_Some(1) [OF assms(3)] .
  moreover have "w < 16" using calculation todo_bound by blast
  ultimately show ?thesis using setting_recorded [OF assms] feature_done_todo by blast
qed

definition proxy_sys :: sys where
  "proxy_sys = sample_sys\<lparr>db := sample_db\<lparr>heap := [0 \<mapsto> zero_node\<lparr>n_uuid := uuid1, n_addr := 2,
     n_config := zero_config\<lparr>features := zero_features\<lparr>target := 2\<rparr>\<rparr>\<rparr>]\<rparr>\<rparr>"

definition config_cache :: config_cache_t where
  "config_cache = cache_reset\<lparr>cc_node := Some 0, cc_state := setconfig_em, next_state := Some setconfig_em\<rparr>"

theorem setting_is_recorded_witness:
  "case setconfig_inprg ok_env (evt_gatt_proxy_status 7 0) config_cache proxy_sys of
     None \<Rightarrow> False | Some (ret, c', s') \<Rightarrow> next_state c' = None"
proof -
  let ?e = "evt_gatt_proxy_status 7 0" let ?n = "the (heap (db proxy_sys) 0)"
  have hyp: "cc_node config_cache = Some 0" "heap (db proxy_sys) 0 = Some ?n"
    "next_item (features (n_config ?n)) = Some 1" "config_status ?e = Some (1, bg_err_success)"
    "todo (features (n_config ?n)) = {1}"
    subgoal by code_simp
    subgoal by (simp add: proxy_sys_def)
    subgoal by code_simp
    subgoal by simp
    subgoal by (auto simp: proxy_sys_def todo_def zero_features_def bit_2_iff possible_bit_def)
    done
  have "map_option fst (setconfig_inprg ok_env ?e config_cache proxy_sys) = Some asr_suc" by code_simp
  then obtain c' s' where run: "setconfig_inprg ok_env ?e config_cache proxy_sys = Some (asr_suc, c', s')"
    by auto
  from setting_is_recorded [OF hyp(1-4) run] show ?thesis using run hyp(5) by auto
qed

text \<open>C9: The settings of a node converge: each round confirms the lowest setting that differs from its
  target, and after at most sixteen rounds the current settings are the target.\<close>

theorem settings_converge: "current ((settle ^^ 16) f) = target f"
  by (rule settle_converges)

end
