(* ===== verification/StoreProps.thy ===== *)
theory StoreProps
  imports Samples
begin

text \<open>Properties of the network database and of the node file.\<close>

subsection \<open>The sample network satisfies the hypotheses\<close>

lemma sample_db_wf: "db_wf (db sample_sys)"
  by (auto simp: db_wf_def sample_sys_def acc_reset_def Let_def sample_db_def zero_db_def gt_inv_def
      g_tree_lookup_def zero_node_def uuid2_def uuid1_def ran_def split: if_splits)

lemma sample_file_at:
  "nw_at ok_env sample_sys node_file STR_SUBNETS [I 0, K STR_NODES]
     [node_obj ''01000000000000000000000000000000'' ''0x0002'',
      node_obj ''02000000000000000000000000000000'' ''0x0000''] ''nwk.json''"
proof -
  have u: "node_uuid ok_env (node_obj ''01000000000000000000000000000000'' ''0x0002'') = Some (Inr uuid1)"
    "node_uuid ok_env (node_obj ''02000000000000000000000000000000'' ''0x0000'') = Some (Inr uuid2)"
    by code_simp+
  have j: "jcfg sample_sys = sample_cfg" by (simp add: sample_sys_def acc_reset_def Let_def)
  show ?thesis unfolding nw_at_def j using u
    by (simp add: sample_cfg_def) (simp add: node_file_def node_obj_def)
qed

lemma sample_nw_ok: "nw_ok ok_env sample_sys"
  using sample_file_at unfolding nw_ok_def by blast

lemma sample_present: "node_present ok_env sample_sys uuid1" "node_present ok_env sample_sys uuid2"
proof -
  have "find_node ok_env uuid1 sample_sys = Some (Some [K STR_SUBNETS, I 0, K STR_NODES, I 0])"
    "find_node ok_env uuid2 sample_sys = Some (Some [K STR_SUBNETS, I 0, K STR_NODES, I 1])"
    by code_simp+
  then show "node_present ok_env sample_sys uuid1" "node_present ok_env sample_sys uuid2"
    unfolding node_present_def by blast+
qed

lemma sample_lookups:
  "cfgdb_node_get 2 (db sample_sys) = Some 0" "cfgdb_unprov_dev_get uuid1 (db sample_sys) = None"
  "cfgdb_unprov_dev_get uuid2 (db sample_sys) = Some 1" "cfgdb_node_get 9 (db sample_sys) = None"
  "heap (db sample_sys) 0 = Some (zero_node\<lparr>n_uuid := uuid1, n_addr := 2\<rparr>)"
  "heap (db sample_sys) 1 = Some (zero_node\<lparr>n_uuid := uuid2\<rparr>)"
proof -
  have "db sample_sys = sample_db" by (simp add: sample_sys_def acc_reset_def Let_def)
  then show "heap (db sample_sys) 0 = Some (zero_node\<lparr>n_uuid := uuid1, n_addr := 2\<rparr>)"
    "heap (db sample_sys) 1 = Some (zero_node\<lparr>n_uuid := uuid2\<rparr>)"
    by (simp_all add: sample_db_def)
qed (code_simp+)

subsection \<open>Moving a device between the trees\<close>

text \<open>C21: Provisioning a device of the configuration that has a template: the device leaves the
  unprovisioned devices and is a node under its new address, the node file says so in the one field
  that changes, and both stay well-formed.\<close>

theorem provisioned_device_moves:
  assumes "db_wf (db s)" and "cfgdb_unprov_dev_get u (db s) = Some r"
    and "heap (db s) r = Some n" and "n_tmpl n = Some t" and "t \<noteq> 0"
    and "cfgdb_node_get addr (db s) = None" and "addr \<noteq> 0"
    and "nw_ok E s" and "node_present E s u"
  shows "\<exists>s'. upl_nodeset_addr E u addr s = Some (ec_success, s') \<and> db_wf (db s') \<and> nw_ok E s'
    \<and> cfgdb_unprov_dev_get u (db s') = None \<and> cfgdb_node_get addr (db s') = Some r
    \<and> heap (db s') r = Some (n\<lparr>n_addr := addr\<rparr>)
    \<and> node_text E s' = (\<lambda>u' k. if u' = u \<and> k = STR_ADDR then Some (''0x'' @ uint16_tostr addr)
          else node_text E s u' k)"
  using upl_nodeset_addr_spec [OF assms] by (simp add: fun_eq_iff)

definition tmpl_sys :: sys where
  "tmpl_sys = sample_sys\<lparr>db := sample_db\<lparr>heap := (heap sample_db)(1 \<mapsto> zero_node\<lparr>n_uuid := uuid2, n_tmpl := Some 1\<rparr>)\<rparr>\<rparr>"

lemma tmpl_sys_ok: "db_wf (db tmpl_sys)" "nw_ok ok_env tmpl_sys" "node_present ok_env tmpl_sys uuid2"
proof -
  show "db_wf (db tmpl_sys)"
    by (auto simp: db_wf_def tmpl_sys_def sample_db_def zero_db_def gt_inv_def
        g_tree_lookup_def zero_node_def uuid2_def uuid1_def ran_def split: if_splits)
qed (simp_all add: tmpl_sys_def sample_nw_ok sample_present)

theorem provisioned_device_moves_witness:
  "\<exists>s'. upl_nodeset_addr ok_env uuid2 9 tmpl_sys = Some (ec_success, s')
    \<and> cfgdb_unprov_dev_get uuid2 (db s') = None \<and> cfgdb_node_get 9 (db s') = Some 1
    \<and> node_text ok_env s' uuid2 STR_ADDR = Some (''0x'' @ uint16_tostr 9)"
proof -
  let ?n = "zero_node\<lparr>n_uuid := uuid2, n_tmpl := Some 1\<rparr>"
  have hyp: "cfgdb_unprov_dev_get uuid2 (db tmpl_sys) = Some 1" "cfgdb_node_get 9 (db tmpl_sys) = None"
    by code_simp+
  have "heap (db tmpl_sys) 1 = Some ?n" by (simp add: tmpl_sys_def)
  from provisioned_device_moves [OF tmpl_sys_ok(1) hyp(1) this _ _ hyp(2) _ tmpl_sys_ok(2,3)]
  show ?thesis by auto
qed

text \<open>Provisioning a device without a template leaves it filed twice: \<open>__cfgdb_remove\<close> takes the tree
  from the template and not from its argument, so the device stays among the unprovisioned ones next to
  its new entry as a node.\<close>

theorem untemplated_device_stays:
  assumes "db_wf (db s)" and "cfgdb_unprov_dev_get u (db s) = Some r"
    and "heap (db s) r = Some n" and "n_tmpl n = None"
    and "cfgdb_node_get addr (db s) = None" and "addr \<noteq> 0"
    and "nw_ok E s" and "node_present E s u"
  shows "\<exists>s'. upl_nodeset_addr E u addr s = Some (ec_success, s')
    \<and> cfgdb_unprov_dev_get u (db s') = Some r \<and> cfgdb_node_get addr (db s') = Some r \<and> \<not> db_wf (db s')"
  by (rule upl_nodeset_addr_untemplated [OF assms])

theorem untemplated_device_stays_witness:
  "\<exists>s'. upl_nodeset_addr ok_env uuid2 9 sample_sys = Some (ec_success, s')
    \<and> cfgdb_unprov_dev_get uuid2 (db s') = Some 1 \<and> cfgdb_node_get 9 (db s') = Some 1"
  using untemplated_device_stays [OF sample_db_wf sample_lookups(3,6) _ sample_lookups(4) _ sample_nw_ok
      sample_present(2)] by (auto simp: zero_node_def)

text \<open>C22: Removing a node from the network makes it an unprovisioned device again, in the database and in
  the node file, and both stay well-formed.\<close>

theorem removed_node_moves_back:
  assumes "db_wf (db s)" and "cfgdb_node_get addr (db s) = Some r"
    and "heap (db s) r = Some n" and "cfgdb_unprov_dev_get (n_uuid n) (db s) = None"
    and "nw_ok E s" and "node_present E s (n_uuid n)"
  shows "\<exists>s'. nodes_rm E addr s = Some (ec_success, s') \<and> db_wf (db s') \<and> nw_ok E s'
    \<and> cfgdb_node_get addr (db s') = None \<and> cfgdb_unprov_dev_get (n_uuid n) (db s') = Some r
    \<and> heap (db s') r = Some (n\<lparr>n_addr := 0\<rparr>)
    \<and> node_text E s' = (\<lambda>u k. if u = n_uuid n \<and> k = STR_ADDR then Some ''0x0000'' else node_text E s u k)"
  using nodes_rm_spec [OF assms] by (simp add: fun_eq_iff)

theorem removed_node_moves_back_witness:
  "\<exists>s'. nodes_rm ok_env 2 sample_sys = Some (ec_success, s') \<and> cfgdb_node_get 2 (db s') = None
    \<and> cfgdb_unprov_dev_get uuid1 (db s') = Some 0"
  using removed_node_moves_back [OF sample_db_wf sample_lookups(1,5) _ sample_nw_ok]
    sample_lookups(2) sample_present(1) by auto

text \<open>C23: Filing a node under its address keeps the database well-formed; the node that had the address
  before, if it is another one, is freed.\<close>

theorem filing_a_node:
  assumes "db_wf d" and "heap d r = Some n" and "n_addr n \<noteq> 0"
  shows "\<exists>d'. cfgdb_nodes_add (Some r) d = Some (ec_success, d') \<and> db_wf d'
    \<and> cfgdb_node_get (n_addr n) d' = Some r
    \<and> heap d' = (case cfgdb_node_get (n_addr n) d of
          Some r' \<Rightarrow> if r' = r then heap d else (heap d)(r' := None) | None \<Rightarrow> heap d)"
proof -
  note spec = cfgdb_nodes_add_spec [OF assms]
  obtain e d' where run: "cfgdb_nodes_add (Some r) d = Some (e, d')"
    using spec by (auto split: option.splits if_splits)
  have "db_wf d'" by (rule cfgdb_nodes_add_wf [OF assms run])
  then show ?thesis using spec run db_wf_initialized [OF assms(1)] db_wf_initialized [of d']
    by (intro exI [of _ d']) (auto simp: cfgdb_node_get_def gt.lookup_insert split: option.splits if_splits)
qed

theorem filing_a_node_witness:
  "\<exists>d'. cfgdb_nodes_add (Some 0) (db sample_sys) = Some (ec_success, d') \<and> cfgdb_node_get 2 d' = Some 0"
  using filing_a_node [OF sample_db_wf sample_lookups(5)] by auto

subsection \<open>The file\<close>

text \<open>C24: The outcome of a configuration is durable: after \<open>nodeset_errbits\<close> the node file on disk is the
  one in memory, its text for the node's error bits parses back to the bits, and the file does not
  count as modified.\<close>

theorem error_bits_are_durable:
  assumes "cfgdb_node_get addr (db s) = Some r" and "heap (db s) r = Some n"
    and "nw_ok E s" and "node_present E s (n_uuid n)" and "0 \<le> now E" and "now E < 2 ^ 32"
  shows "\<exists>s' tx path. nodeset_errbits E addr eb s = Some (ec_success, s')
    \<and> heap (db s') r = Some (n\<lparr>n_err := eb\<rparr>)
    \<and> node_text E s' (n_uuid n) STR_ERRBITS = Some tx \<and> str2uint tx 4 = Some (Inr (unat eb))
    \<and> fp (nw_gen (jcfg s')) = Some path \<and> disk s' path = Some (root (nw_gen (jcfg s')), now E)
    \<and> read_modified NW_NODES_CFG_FILE s' = Some False"
proof -
  let ?s = "s\<lparr>db := (db s)\<lparr>heap := (heap (db s))(r \<mapsto> n\<lparr>n_err := eb\<rparr>)\<rparr>\<rparr>"
  have nwf: "nw_ok E ?s" "node_present E ?s (n_uuid n)" using assms(3,4) by simp_all
  obtain s' where s': "json_write_nodes E (wrt_errbits (n_uuid n) eb) ?s = Some (ec_success, s')"
    "store_field E (n_uuid n) STR_ERRBITS (''0x'' @ uint32_tostr eb) ?s = Some s'"
    "s' = ?s\<lparr>jcfg := jcfg s', disk := disk s'\<rparr>"
    using json_write_nodes_ok(2) [OF nwf] by blast
  have run: "nodeset_errbits E addr eb s = Some (ec_success, s')"
    using assms(1,2) s'(1) by (simp add: nodeset_errbits_def nassign_def nderef_def)
  have heap: "heap (db s') r = Some (n\<lparr>n_err := eb\<rparr>)" by (subst s'(3)) simp
  have tx: "node_text E s' (n_uuid n) STR_ERRBITS = Some (''0x'' @ uint32_tostr eb)"
    using nf.rd_wr [OF nwf _ s'(2)] by simp
  have "uint (word_of_int (now E) :: u32) = now E"
    using assms(5,6) by (simp add: unsigned_of_int take_bit_int_eq_self)
  then obtain path where saved: "fp (nw_gen (jcfg s')) = Some path" "disk s' path = Some (root (nw_gen (jcfg s')), now E)"
    "synctime (nw_gen (jcfg s')) = now E"
    using store_field_file [OF nwf _ s'(2)] by auto
  show ?thesis
    using run heap tx str2uint_uint32 [of eb] saved
    by (intro exI [of _ s'] exI [of _ "''0x'' @ uint32_tostr eb"] exI [of _ path])
      (simp add: read_modified_def gen_from_fd_def)
qed

theorem error_bits_are_durable_witness:
  "\<exists>s' tx. nodeset_errbits ok_env 2 0x88 sample_sys = Some (ec_success, s')
    \<and> node_text ok_env s' uuid1 STR_ERRBITS = Some tx \<and> str2uint tx 4 = Some (Inr 0x88)
    \<and> read_modified NW_NODES_CFG_FILE s' = Some False"
proof -
  have "node_present ok_env sample_sys (n_uuid (zero_node\<lparr>n_uuid := uuid1, n_addr := 2\<rparr>))"
    using sample_present(1) by simp
  from error_bits_are_durable [OF sample_lookups(1,5) sample_nw_ok this, of "0x88"] show ?thesis by auto
qed

end
