(* ===== verification/DevAdd.thy ===== *)
theory DevAdd
  imports GenericParser Stat
begin

unbundle bit_operations_syntax

text \<open>
  Provisioning, \<open>mng/dev_add.c\<close>: at most \<open>MAX_PROV_SESSIONS\<close> sessions run at a time. An
  unprovisioned beacon of a device of the configuration opens one, the result event of the target
  closes it, and \<open>add_loop\<close> closes the sessions that expired. Scanning stops while every session is
  in use or the target is out of memory (\<open>scan_need_recover\<close>).
\<close>

abbreviation (input) OOM_DELAY_TIMEOUT :: int where "OOM_DELAY_TIMEOUT \<equiv> 5"
abbreviation (input) ADD_NO_RSP_TIMEOUT :: int where "ADD_NO_RSP_TIMEOUT \<equiv> 90"

definition is_cache_full :: "mng_t \<Rightarrow> bool" where
  "is_cache_full m = (\<forall>c \<in> set (c_add m). ac_busy c)"

text \<open>\<open>iscached\<close>: the session of the UUID, and the first free one before it; -1 is \<^const>\<open>None\<close>.\<close>

fun iscached_from :: "uuid \<Rightarrow> nat \<Rightarrow> nat option \<Rightarrow> add_cache_t list \<Rightarrow> nat option \<times> nat option" where
  "iscached_from uuid i free [] = (None, free)"
| "iscached_from uuid i free (c # cs) =
    (if ac_busy c
     then if ac_uuid c = uuid then (Some i, free) else iscached_from uuid (Suc i) free cs
     else iscached_from uuid (Suc i) (if free = None then Some i else free) cs)"

definition iscached :: "mng_t \<Rightarrow> uuid \<Rightarrow> nat option \<times> nat option" where
  "iscached m uuid = iscached_from uuid 0 None (c_add m)"

definition rmcached :: "uuid \<Rightarrow> sys \<Rightarrow> sys" where
  "rmcached uuid s = s\<lparr>mng := (mng s)\<lparr>c_add :=
     map (\<lambda>c. if \<not> ac_busy c \<or> ac_uuid c \<noteq> uuid then c else zero_add_cache) (c_add (mng s))\<rparr>\<rparr>"

definition is_add_events :: "bgevt \<Rightarrow> bool" where
  "is_add_events e \<longleftrightarrow> msg_id e AND 0x000000ff = 0x000000a0 \<and> msg_id e AND 0x00ff0000 = 0x00150000"

text \<open>A failure of either scanning command is only logged.\<close>

definition stop_scan :: "env \<Rightarrow> sys \<Rightarrow> sys" where
  "stop_scan E s = snd (bgcall E cmd_prov_stop_scan_unprov_beacons s)"

definition scan_recover :: "env \<Rightarrow> sys \<Rightarrow> sys" where
  "scan_recover E s =
    (if scan_need_recover s
     then snd (bgcall E cmd_prov_scan_unprov_beacons (s\<lparr>scan_need_recover := False\<rparr>)) else s)"

definition on_beacon_recv :: "env \<Rightarrow> u8 \<Rightarrow> uuid \<Rightarrow> sys \<Rightarrow> sys option" where
  "on_beacon_recv E bearer uuid s =
    (if bearer = 1 then Some s
     else case iscached (mng s) uuid of
       (Some _, _) \<Rightarrow> Some s
     | (None, None) \<Rightarrow> Some s
     | (None, Some freeid) \<Rightarrow>
         (case cfgdb_unprov_dev_get uuid (db s) of
            None \<Rightarrow>
              if cfgdb_backlog_get uuid (db s) = None \<and> free_mode (mng s) = 2
              then do { (e, s) \<leftarrow> backlog_dev E uuid s; Some s }
              else Some s
          | Some r \<Rightarrow> do {
              n \<leftarrow> nderef s r;
              if n_rmorbl n \<noteq> 0 then Some s
              else do {
                kid \<leftarrow> netkey_id s;
                let (rsp, s) = bgcall E (cmd_prov_provision_device kid uuid) s;
                if rsp_result rsp = bg_err_out_of_memory then (
                  let s = s\<lparr>mng := (mng s)\<lparr>m_oom := True, oom_expired := now E + OOM_DELAY_TIMEOUT\<rparr>\<rparr>
                  in Some (if \<not> scan_need_recover s then stop_scan E (s\<lparr>scan_need_recover := True\<rparr>) else s))
                else if rsp_result rsp \<noteq> bg_err_success then Some s
                else do {
                  cs \<leftarrow> upd (c_add (mng s)) freeid
                    \<lparr>ac_busy = True, ac_expired = now E + ADD_NO_RSP_TIMEOUT, ac_uuid = uuid\<rparr>;
                  let s = s\<lparr>mng := (mng s)\<lparr>c_add := cs\<rparr>\<rparr>;
                  Some (if is_cache_full (mng s) then stop_scan E (s\<lparr>scan_need_recover := True\<rparr>) else s) } } }))"

definition on_prov_success :: "env \<Rightarrow> u16 \<Rightarrow> uuid \<Rightarrow> sys \<Rightarrow> sys option" where
  "on_prov_success E addr uuid s = do {
     (e, s) \<leftarrow> upl_nodeset_addr E uuid addr s;
     let n = cfgdb_node_get addr (db s);
     ASSERT (n \<noteq> None);
     r \<leftarrow> n;
     let s = s\<lparr>mng := (mng s)\<lparr>l_add := remove1 r (l_add (mng s)), l_config := l_config (mng s) @ [r]\<rparr>\<rparr>;
     let s = rmcached uuid (stat_add_one_dev s);
     Some (scan_recover E s) }"

text \<open>The work-around for reason 7 removes the device from the target's database. It always succeeds.\<close>

definition prov_failed_wa :: "env \<Rightarrow> uuid \<Rightarrow> sys \<Rightarrow> sys" where
  "prov_failed_wa E uuid s =
    (let s = (case cfgdb_unprov_dev_get uuid (db s) of
                None \<Rightarrow> s
              | Some r \<Rightarrow> s\<lparr>mng := (mng s)\<lparr>l_add := remove1 r (l_add (mng s))\<rparr>\<rparr>)
     in snd (bgcall E (cmd_prov_ddb_delete uuid) s))"

definition on_prov_failed :: "env \<Rightarrow> u8 \<Rightarrow> uuid \<Rightarrow> sys \<Rightarrow> sys" where
  "on_prov_failed E reason uuid s =
    (if reason = 7 then prov_failed_wa E uuid s
     else scan_recover E (rmcached uuid (stat_add_failed s)))"

definition dev_add_hdr :: "env \<Rightarrow> bgevt \<Rightarrow> sys \<Rightarrow> (bool \<times> sys) option" where
  "dev_add_hdr E evt s =
    (if \<not> is_add_events evt then Some (False, s)
     else if m_state (mng s) \<noteq> adding_devices_em \<and> free_mode (mng s) \<noteq> 2 then Some (False, s)
     else case evt of
       evt_unprov_beacon bearer uuid \<Rightarrow>
         if m_oom (mng s) then Some (True, s)
         else do { s \<leftarrow> on_beacon_recv E bearer uuid s; Some (True, s) }
     | evt_device_provisioned addr uuid \<Rightarrow> do { s \<leftarrow> on_prov_success E addr uuid s; Some (True, s) }
     | evt_provisioning_failed reason uuid \<Rightarrow> Some (True, on_prov_failed E reason uuid s)
     | _ \<Rightarrow> Some (False, s))"

definition add_expire :: "int \<Rightarrow> add_cache_t \<Rightarrow> add_cache_t" where
  "add_expire t c = (if \<not> ac_busy c \<or> t < ac_expired c then c else zero_add_cache)"

definition add_loop :: "env \<Rightarrow> sys \<Rightarrow> bool \<times> sys" where
  "add_loop E s =
    (let s = (if m_oom (mng s) \<and> now E > oom_expired (mng s)
              then scan_recover E (s\<lparr>mng := (mng s)\<lparr>m_oom := False\<rparr>\<rparr>) else s)
     in (False, s\<lparr>mng := (mng s)\<lparr>c_add := map (add_expire (now E)) (c_add (mng s))\<rparr>\<rparr>))"

subsection \<open>Sessions\<close>

text \<open>
  The invariant of the sessions: as many slots as allowed, and no device in two of them.
\<close>

definition sessions :: "add_cache_t list \<Rightarrow> uuid list" where
  "sessions cs = map ac_uuid (filter ac_busy cs)"

definition add_wf :: "sys \<Rightarrow> bool" where
  "add_wf s \<longleftrightarrow> length (c_add (mng s)) = MAX_PROV_SESSIONS \<and> distinct (sessions (c_add (mng s)))"

lemma iscached_from_None:
  "iscached_from u i f cs = (None, fr) \<Longrightarrow> u \<notin> set (sessions cs)"
  by (induction u i f cs rule: iscached_from.induct) (auto simp: sessions_def split: if_splits)

lemma iscached_from_free:
  "iscached_from u i f cs = (None, Some k) \<Longrightarrow>
    f = Some k \<or> (i \<le> k \<and> k < i + length cs \<and> \<not> ac_busy (cs ! (k - i)))"
proof (induction u i f cs rule: iscached_from.induct)
  case (2 u i f c cs)
  show ?case
  proof (cases "ac_busy c")
    case True
    then have "ac_uuid c \<noteq> u" "iscached_from u (Suc i) f cs = (None, Some k)"
      using "2.prems" by (auto split: if_splits)
    then have "f = Some k \<or> (Suc i \<le> k \<and> k < Suc i + length cs \<and> \<not> ac_busy (cs ! (k - Suc i)))"
      using "2.IH"(1) True by blast
    then show ?thesis by (auto simp: nth_Cons' Suc_diff_le)
  next
    case False
    then have "(if f = None then Some i else f) = Some k
        \<or> (Suc i \<le> k \<and> k < Suc i + length cs \<and> \<not> ac_busy (cs ! (k - Suc i)))"
      using "2.IH"(2) "2.prems" by simp
    then show ?thesis using False by (auto simp: nth_Cons' Suc_diff_le split: if_splits)
  qed
qed simp

lemma sessions_upd:
  "k < length cs \<Longrightarrow> \<not> ac_busy (cs ! k) \<Longrightarrow> ac_busy c \<Longrightarrow>
    mset (sessions (cs[k := c])) = add_mset (ac_uuid c) (mset (sessions cs))"
proof (induction cs arbitrary: k)
  case (Cons d cs)
  then show ?case by (cases k) (auto simp: sessions_def)
qed simp

lemma sessions_map_sub:
  assumes "\<And>c. ac_busy (f c) \<Longrightarrow> ac_busy c \<and> ac_uuid (f c) = ac_uuid c"
  shows "distinct (sessions cs) \<Longrightarrow> distinct (sessions (map f cs)) \<and> set (sessions (map f cs)) \<subseteq> set (sessions cs)"
  by (induction cs) (use assms in \<open>auto simp: sessions_def\<close>)

lemma add_loop_wf: "add_wf s \<Longrightarrow> add_wf (snd (add_loop E s))"
  unfolding add_wf_def add_loop_def Let_def
  by (auto simp: scan_recover_def bgcall_def add_expire_def zero_add_cache_def
      intro!: sessions_map_sub [THEN conjunct1] split: if_splits)

lemma rmcached_wf: "add_wf s \<Longrightarrow> add_wf (rmcached u s)"
  unfolding add_wf_def rmcached_def
  by (auto simp: zero_add_cache_def intro!: sessions_map_sub [THEN conjunct1] split: if_splits)

lemma rmcached_sessions: "u \<notin> set (sessions (c_add (mng (rmcached u s))))"
  by (auto simp: rmcached_def sessions_def zero_add_cache_def)

end
