(* ===== verification/DevBl.thy ===== *)
theory DevBl
  imports GenericParser Stat
begin

unbundle bit_operations_syntax

text \<open>
  Blacklisting, \<open>mng/dev_bl.c\<close>. The nodes of the blacklist are pushed to the target until it
  refuses one, a key refresh runs over the remaining nodes, and at its end the pushed nodes leave
  the network. \<open>bl_offset\<close> counts the pushed nodes, \<open>bl_tail\<close> the ones already blacklisted.
\<close>

definition upd_bl :: "(bl_cache_t \<Rightarrow> bl_cache_t) \<Rightarrow> sys \<Rightarrow> sys" where
  "upd_bl f s = s\<lparr>mng := (mng s)\<lparr>c_bl := f (c_bl (mng s))\<rparr>\<rparr>"

lemma upd_bl_simps [simp]:
  "db (upd_bl f s) = db s" "c_bl (mng (upd_bl f s)) = f (c_bl (mng s))"
  "l_bl (mng (upd_bl f s)) = l_bl (mng s)" "sent (upd_bl f s) = sent s"
  "nderef (upd_bl f s) = nderef s" "netkey_id (upd_bl f s) = netkey_id s"
  "jcfg (upd_bl f s) = jcfg s" "disk (upd_bl f s) = disk s" "m_state (mng (upd_bl f s)) = m_state (mng s)"
  "l_rm (mng (upd_bl f s)) = l_rm (mng s)"
  by (simp_all add: upd_bl_def nderef_def netkey_id_def subnet0_def fun_eq_iff)

definition is_bl_active :: "mng_t \<Rightarrow> bool" where
  "is_bl_active m = (l_bl m \<noteq> [] \<or> bl_state (c_bl m) \<noteq> bl_idle)"

text \<open>The \<open>do ... while\<close> of \<open>bl_till_oom\<close>; past the end of the list it dereferences NULL.\<close>

function bl_push :: "env \<Rightarrow> nat \<Rightarrow> sys \<Rightarrow> (nat \<times> sys) option" where
  "bl_push E cnt s =
    (case do { r \<leftarrow> idx (l_bl (mng s)) (bl_offset (c_bl (mng s)));
               n \<leftarrow> nderef s r; kid \<leftarrow> netkey_id s;
               Some (bgcall E (cmd_prov_set_key_refresh_blacklist kid 1 (n_uuid n)) s) } of
       None \<Rightarrow> undef
     | Some (rsp, s') \<Rightarrow>
         if rsp_result rsp \<noteq> bg_err_success then Some (cnt, s')
         else (let s' = upd_bl (\<lambda>b. b\<lparr>bl_offset := Suc (bl_offset b)\<rparr>) s'
               in if bl_offset (c_bl (mng s')) \<noteq> length (l_bl (mng s')) then bl_push E (Suc cnt) s'
                  else Some (Suc cnt, s')))"
  by pat_completeness auto
termination
  by (relation "measure (\<lambda>(E, cnt, s). length (l_bl (mng s)) - bl_offset (c_bl (mng s)))")
    (auto simp: bgcall_def bind_Some_conv)

declare bl_push.simps [simp del]

definition bl_till_oom :: "env \<Rightarrow> sys \<Rightarrow> (nat \<times> sys) option" where
  "bl_till_oom E s = (if l_bl (mng s) = [] then Some (0, s) else bl_push E 0 s)"

definition kr_start :: "env \<Rightarrow> sys \<Rightarrow> (error_code_t \<times> sys) option" where
  "kr_start E s = do {
     kid \<leftarrow> netkey_id s;
     let (rsp, s) = bgcall E (cmd_prov_key_refresh_start kid) s;
     Some (if rsp_result rsp \<noteq> bg_err_success then ec_bgrsp else ec_success, s) }"

text \<open>
  The nodes that stay in the network. The loop runs over the \<open>uint8_t\<close> length of the address list.
\<close>

fun load_remaining ::
  "cfgdb_t \<Rightarrow> nref list \<Rightarrow> u16 list \<Rightarrow> nat \<Rightarrow> nat \<Rightarrow> remainig_nodes_t list \<Rightarrow> (nat \<times> remainig_nodes_t list) option"
where
  "load_remaining d bl as 0 ofs rem = Some (ofs, rem)"
| "load_remaining d bl [] (Suc k) ofs rem = undef"
| "load_remaining d bl (a # as) (Suc k) ofs rem =
    (let n = cfgdb_node_get a d
     in if (\<exists>r \<in> set bl. n = Some r) then load_remaining d bl as k ofs rem
        else do { rem \<leftarrow> upd rem ofs \<lparr>rn_node = n, rn_phase = 0xff\<rparr>;
                  load_remaining d bl as k (Suc ofs) rem })"

definition load_remaining_nodes :: "sys \<Rightarrow> sys option" where
  "load_remaining_nodes s =
    (case get_node_addrs (db s) of
       None \<Rightarrow> Some s
     | Some l \<Rightarrow> do {
         let b = c_bl (mng s);
         let rem = (case rem_nodes b of None \<Rightarrow> [] | Some rem \<Rightarrow> rem);
         (ofs, rem) \<leftarrow> load_remaining (db s) (l_bl (mng s)) (l_data l) (unat (l_len l)) 0 rem;
         ASSERT (rem_num b = int ofs);
         Some (upd_bl (\<lambda>b. b\<lparr>rem_nodes := map_option (\<lambda>_. rem) (rem_nodes b)\<rparr>) s) })"

text \<open>\<open>bl_result\<close> prints one line per remaining node: UUID, address, phase and whether it succeeded.\<close>

fun result_lines :: "sys \<Rightarrow> remainig_nodes_t list \<Rightarrow> nat \<Rightarrow> (string \<times> u16 \<times> u8 \<times> bool) list option" where
  "result_lines s rem 0 = Some []"
| "result_lines s [] (Suc k) = undef"
| "result_lines s (rn # rem) (Suc k) = do {
     r \<leftarrow> rn_node rn;
     n \<leftarrow> nderef s r;
     ls \<leftarrow> result_lines s rem k;
     Some ((fmt_uuid (n_uuid n), n_addr n, rn_phase rn, rn_phase rn = 0) # ls) }"

definition bl_result :: "sys \<Rightarrow> (string \<times> u16 \<times> u8 \<times> bool) list option" where
  "bl_result s =
    (let b = c_bl (mng s)
     in result_lines s (case rem_nodes b of None \<Rightarrow> [] | Some rem \<Rightarrow> rem) (nat (rem_num b)))"

fun bl_nodes_loop :: "env \<Rightarrow> nat list \<Rightarrow> sys \<Rightarrow> sys option" where
  "bl_nodes_loop E [] s = Some s"
| "bl_nodes_loop E (i # is) s = do {
     r \<leftarrow> idx (l_bl (mng s)) i;
     n \<leftarrow> nderef s r;
     (e, s) \<leftarrow> nodes_bl E (n_addr n) s;
     bl_nodes_loop E is s }"

definition on_bl_done :: "env \<Rightarrow> sys \<Rightarrow> sys option" where
  "on_bl_done E s = do {
     s \<leftarrow> bl_nodes_loop E [bl_tail (c_bl (mng s))..<bl_offset (c_bl (mng s))] s;
     if bl_offset (c_bl (mng s)) \<noteq> length (l_bl (mng s))
     then Some (upd_bl (\<lambda>b. b\<lparr>bl_state := bl_starting, bl_tail := bl_offset b\<rparr>) s)
     else Some (stat_bl_end E (s\<lparr>mng := (mng s)\<lparr>l_bl := [], c_bl := zero_bl_cache\<rparr>\<rparr>)) }"

definition bl_loop :: "env \<Rightarrow> sys \<Rightarrow> (bool \<times> sys) option" where
  "bl_loop E s =
    (if l_bl (mng s) = [] \<and> bl_state (c_bl (mng s)) = bl_idle then Some (False, s)
     else case bl_state (c_bl (mng s)) of
       bl_idle \<Rightarrow> do {
         let s = stat_bl_start E s;
         let num = int (cfgdb_get_devnum nodes_em (db s)) - int (length (l_bl (mng s)));
         s \<leftarrow> (if rem_nodes (c_bl (mng s)) = None \<and> num \<noteq> 0
               then load_remaining_nodes (upd_bl (\<lambda>b. b\<lparr>rem_num := num,
                 rem_nodes := (if num < 0 then None
                               else Some (replicate (nat num) \<lparr>rn_node = None, rn_phase = 0\<rparr>))\<rparr>) s)
               else Some s);
         (cnt, s) \<leftarrow> bl_till_oom E s;
         Some (True, upd_bl (\<lambda>b. b\<lparr>bl_state :=
           (if bl_offset b = length (l_bl (mng s)) then bl_starting else bl_prepare)\<rparr>) s) }
     | bl_prepare \<Rightarrow> do {
         (cnt, s) \<leftarrow> bl_till_oom E s;
         Some (False, if cnt = 0 \<or> bl_offset (c_bl (mng s)) = length (l_bl (mng s))
                      then upd_bl (\<lambda>b. b\<lparr>bl_state := bl_starting\<rparr>) s else s) }
     | bl_starting \<Rightarrow> do {
         ASSERT (bl_offset (c_bl (mng s)) \<noteq> bl_tail (c_bl (mng s)));
         (e, s) \<leftarrow> kr_start E s;
         ASSERT (e = ec_success);
         Some (True, upd_bl (\<lambda>b. b\<lparr>bl_state := bl_busy\<rparr>) s) }
     | bl_busy \<Rightarrow> Some (False, s)
     | bl_done \<Rightarrow> do { ls \<leftarrow> bl_result s; s \<leftarrow> on_bl_done E s; Some (False, s) })"

subsection \<open>Events\<close>

text \<open>\<open>find_bl_node\<close>: the index of the remaining node with the UUID.\<close>

fun find_rem :: "sys \<Rightarrow> uuid \<Rightarrow> nat \<Rightarrow> nat \<Rightarrow> remainig_nodes_t list \<Rightarrow> nat option option" where
  "find_rem s uuid i 0 rem = Some None"
| "find_rem s uuid i (Suc k) [] = undef"
| "find_rem s uuid i (Suc k) (rn # rem) = do {
     r \<leftarrow> rn_node rn;
     n \<leftarrow> nderef s r;
     if n_uuid n \<noteq> uuid then find_rem s uuid (Suc i) k rem else Some (Some i) }"

definition find_bl_node :: "uuid \<Rightarrow> sys \<Rightarrow> nat option option" where
  "find_bl_node uuid s =
    (let b = c_bl (mng s)
     in case rem_nodes b of None \<Rightarrow> Some None | Some rem \<Rightarrow> find_rem s uuid 0 (nat (rem_num b)) rem)"

text \<open>
  An update of an unknown node formats its UUID into \<open>char uuid_str[33]\<close>, which is too short for the
  34 characters of \<open>fmt_uuid\<close>.
\<close>

definition kr_node_update :: "u8 \<Rightarrow> uuid \<Rightarrow> sys \<Rightarrow> sys option" where
  "kr_node_update phase uuid s = do {
     bln \<leftarrow> find_bl_node uuid s;
     case bln of
       None \<Rightarrow> if length (fmt_uuid uuid) < 33 then Some s else undef
     | Some i \<Rightarrow> Some (upd_bl (\<lambda>b. b\<lparr>rem_nodes :=
         map_option (\<lambda>rem. rem[i := (rem ! i)\<lparr>rn_phase := phase\<rparr>]) (rem_nodes b)\<rparr>) s) }"

definition set_netkey :: "(meshkey_t \<Rightarrow> meshkey_t) \<Rightarrow> sys \<Rightarrow> sys option" where
  "set_netkey f s = do {
     sn \<leftarrow> subnet0 s;
     Some (upd_self (\<lambda>pc. pc\<lparr>p_subnets := Some (sn\<lparr>netkey := f (netkey sn)\<rparr>)\<rparr>) s) }"

abbreviation (input) mesh_test_key_type_net :: u8 where "mesh_test_key_type_net \<equiv> 0"

definition kr_finish :: "env \<Rightarrow> u16 \<Rightarrow> u16 \<Rightarrow> sys \<Rightarrow> sys option" where
  "kr_finish E key result s = do {
     let s = upd_bl (\<lambda>b. b\<lparr>bl_state := bl_done\<rparr>) s;
     if result \<noteq> 0 then Some s
     else do {
       s \<leftarrow> set_netkey (\<lambda>k. k\<lparr>k_id := key\<rparr>) s;
       (e, s) \<leftarrow> provset_netkeyid E key s;
       kid \<leftarrow> netkey_id s;
       let (rsp, s) = bgcall E (cmd_test_get_key kid mesh_test_key_type_net) s;
       if rsp_result rsp \<noteq> bg_err_success then Some s
       else do {
         s \<leftarrow> set_netkey (\<lambda>k. k\<lparr>k_val := take 16 (rsp_key rsp)\<rparr>) s;
         sn \<leftarrow> subnet0 s;
         (e, s) \<leftarrow> provset_netkeyval E (k_val (netkey sn)) s;
         Some s } } }"

definition bl_hdr :: "env \<Rightarrow> bgevt \<Rightarrow> sys \<Rightarrow> (bool \<times> sys) option" where
  "bl_hdr E e s =
    (if \<not> is_bl_active (mng s) then Some (False, s)
     else case e of
       evt_kr_node_update key phase uuid \<Rightarrow> do { s \<leftarrow> kr_node_update phase uuid s; Some (True, s) }
     | evt_kr_phase_update key phase \<Rightarrow> Some (True, s)
     | evt_kr_complete key result \<Rightarrow> do { s \<leftarrow> kr_finish E key result s; Some (True, s) }
     | _ \<Rightarrow> Some (False, s))"

end
