(* ===== verification/JsonLoad.thy ===== *)
theory JsonLoad
  imports GenericParser
begin

unbundle bit_operations_syntax

text \<open>
  The loaders of \<open>cfg/parser/json_parser.c\<close>: the fields of a template or of a node object
  (\<open>loaders[]\<close>), the copy of a template into a node, the provisioner's configuration and the node
  arrays. A loader works on the configuration it fills and returns it with its error code; a field
  that is freed becomes \<^const>\<open>None\<close>. A text that is NULL where the code reads it is undefined.
\<close>

abbreviation (input) "STR_TIMEOUT \<equiv> ''Config Timeout''"
abbreviation (input) "STR_TIMEOUT_NORMAL \<equiv> ''Normal''"
abbreviation (input) "STR_TIMEOUT_LPN \<equiv> ''LPN''"
abbreviation (input) "STR_FEATURES \<equiv> ''Features''"
abbreviation (input) "STR_SNB \<equiv> ''Secure Network Beacon''"
abbreviation (input) "STR_LPN \<equiv> ''Low Power''"
abbreviation (input) "STR_PROXY \<equiv> ''Proxy''"
abbreviation (input) "STR_FRIEND \<equiv> ''Friend''"
abbreviation (input) "STR_RELAY \<equiv> ''Relay''"
abbreviation (input) "STR_ENABLE \<equiv> ''Enable''"
abbreviation (input) "STR_PUB \<equiv> ''Publish To''"
abbreviation (input) "STR_BIND \<equiv> ''Bind Appkeys''"
abbreviation (input) "STR_SUB \<equiv> ''Subscribe from''"
abbreviation (input) "STR_PERIOD \<equiv> ''Period''"
abbreviation (input) "STR_TEMPLATES \<equiv> ''Templates''"

subsection \<open>Single values\<close>

text \<open>
  \<open>uint8_loader\<close>, \<open>uint16_loader\<close> and \<open>uint32_loader\<close> on the text of a member: NULL aborts, a text that
  is not a number is \<open>ec_json_format\<close> and leaves the destination alone.
\<close>

definition uint_loader :: "nat \<Rightarrow> string option \<Rightarrow> (error_code_t + nat) option" where
  "uint_loader len v = do {
     v \<leftarrow> (case v of None \<Rightarrow> aborts | Some v \<Rightarrow> Some v);
     r \<leftarrow> str2uint v len;
     Some (case r of Inl _ \<Rightarrow> Inl ec_json_format | Inr n \<Rightarrow> Inr n) }"

definition uint8_loader :: "string option \<Rightarrow> u8 \<Rightarrow> (error_code_t \<times> u8) option" where
  "uint8_loader v dest = do {
     r \<leftarrow> uint_loader 1 v;
     Some (case r of Inl e \<Rightarrow> (e, dest) | Inr n \<Rightarrow> (ec_success, of_nat n)) }"

definition uint16_loader :: "string option \<Rightarrow> u16 \<Rightarrow> (error_code_t \<times> u16) option" where
  "uint16_loader v dest = do {
     r \<leftarrow> uint_loader 2 v;
     Some (case r of Inl e \<Rightarrow> (e, dest) | Inr n \<Rightarrow> (ec_success, of_nat n)) }"

definition uint32_loader :: "string option \<Rightarrow> u32 \<Rightarrow> (error_code_t \<times> u32) option" where
  "uint32_loader v dest = do {
     r \<leftarrow> uint_loader 4 v;
     Some (case r of Inl e \<Rightarrow> (e, dest) | Inr n \<Rightarrow> (ec_success, of_nat n)) }"

text \<open>A member that is loaded only when the object has it.\<close>

definition opt_member ::
  "(string option \<Rightarrow> 'a \<Rightarrow> (error_code_t \<times> 'a) option) \<Rightarrow> env \<Rightarrow> json \<Rightarrow> string \<Rightarrow> 'a
    \<Rightarrow> (error_code_t \<times> 'a) option" where
  "opt_member load E jo k dest =
    (case obj_get jo k of
       None \<Rightarrow> Some (ec_success, dest)
     | Some v \<Rightarrow> load (json_object_get_string E (Some v)) dest)"

definition set_feature_config :: "nat \<Rightarrow> bool \<Rightarrow> features_t \<Rightarrow> features_t" where
  "set_feature_config w on f =
    (if on then f\<lparr>target := BIT_SET (target f) w, current := BIT_CLR (current f) w\<rparr>
     else f\<lparr>current := BIT_SET (current f) w, target := BIT_CLR (target f) w\<rparr>)"

definition upd_features :: "(features_t \<Rightarrow> features_t) \<Rightarrow> mesh_config_t \<Rightarrow> mesh_config_t" where
  "upd_features g c = c\<lparr>features := g (features c)\<rparr>"

subsection \<open>The loaders of a template or node\<close>

text \<open>The count and interval of a \<open>txparam_t\<close> that is already allocated.\<close>

definition load_tx_members :: "env \<Rightarrow> json \<Rightarrow> txparam_t \<Rightarrow> (error_code_t \<times> txparam_t) option" where
  "load_tx_members E jo p = do {
     (e, c) \<leftarrow> opt_member uint8_loader E jo STR_CNT (tx_cnt p);
     let p = p\<lparr>tx_cnt := c\<rparr>;
     if e \<noteq> ec_success then Some (e, p)
     else do {
       (e, i) \<leftarrow> opt_member uint16_loader E jo STR_INTV (tx_intv p);
       Some (e, p\<lparr>tx_intv := i\<rparr>) } }"

definition ttl_field :: "env \<Rightarrow> json \<Rightarrow> u8 option \<Rightarrow> (error_code_t \<times> u8 option) option" where
  "ttl_field E jo p = do {
     (e, v) \<leftarrow> uint8_loader (json_object_get_string E (Some jo)) (case p of None \<Rightarrow> 0 | Some v \<Rightarrow> v);
     Some (e, if e = ec_success then Some v else None) }"

definition load_ttl :: "env \<Rightarrow> json \<Rightarrow> mesh_config_t \<Rightarrow> (error_code_t \<times> mesh_config_t) option" where
  "load_ttl E obj c =
    (case obj_get obj STR_TTL of
       None \<Rightarrow> Some (ec_success, c\<lparr>ttl := None\<rparr>)
     | Some jo \<Rightarrow> do {
         (e, v) \<leftarrow> ttl_field E jo (ttl c);
         let c = c\<lparr>ttl := v\<rparr>;
         Some (e, if e = ec_success then upd_features (set_feature_config TTL_BITOFS True) c else c) })"

text \<open>The interval in milliseconds is put into its range and rounded up to the resolution.\<close>

definition fit_txp :: "u16 \<Rightarrow> u16 \<Rightarrow> u16 \<Rightarrow> txparam_t \<Rightarrow> txparam_t" where
  "fit_txp lo hi res p =
    (if tx_cnt p > 7 then p\<lparr>tx_cnt := 7\<rparr>
     else if tx_cnt p \<noteq> 0
     then (if tx_intv p < lo then p\<lparr>tx_intv := lo\<rparr>
           else if tx_intv p > hi then p\<lparr>tx_intv := hi\<rparr>
           else if tx_intv p mod res \<noteq> 0 then p\<lparr>tx_intv := (tx_intv p + (res - 1)) div res * res\<rparr>
           else p)
     else p\<lparr>tx_intv := 50\<rparr>)"

definition load_pub_member :: "env \<Rightarrow> string \<times> json \<Rightarrow> publication_t \<Rightarrow> (error_code_t \<times> publication_t) option" where
  "load_pub_member E kv p =
    (let (key, val) = kv; v = json_object_get_string E (Some val)
     in if key = STR_ADDR then do { (e, x) \<leftarrow> uint16_loader v (pub_addr p); Some (e, p\<lparr>pub_addr := x\<rparr>) }
        else if key = STR_APPKEY then do { (e, x) \<leftarrow> uint16_loader v (pub_aki p); Some (e, p\<lparr>pub_aki := x\<rparr>) }
        else if key = STR_PERIOD then do { (e, x) \<leftarrow> uint32_loader v (pub_period p); Some (e, p\<lparr>pub_period := x\<rparr>) }
        else if key = STR_TTL then do { (e, x) \<leftarrow> uint8_loader v (pub_ttl p); Some (e, p\<lparr>pub_ttl := x\<rparr>) }
        else if key = STR_TXP then do {
          (e, t) \<leftarrow> load_tx_members E val (pub_txp p);
          Some (e, p\<lparr>pub_txp := (if e = ec_success then fit_txp 50 3200 50 t else t)\<rparr>) }
        else Some (ec_success, p))"

fun load_pub_members ::
  "env \<Rightarrow> (string \<times> json) list \<Rightarrow> publication_t \<Rightarrow> (error_code_t \<times> publication_t) option" where
  "load_pub_members E [] p = Some (ec_success, p)"
| "load_pub_members E (kv # kvs) p = do {
     (e, p) \<leftarrow> load_pub_member E kv p;
     if e \<noteq> ec_success then Some (e, p) else load_pub_members E kvs p }"

text \<open>\<open>json_object_object_foreach\<close>, undefined on what is not an object.\<close>

fun obj_items :: "json \<Rightarrow> (string \<times> json) list option" where
  "obj_items (JObj kvs) = Some kvs"
| "obj_items j = undef"

definition zero_pub :: publication_t where
  "zero_pub = \<lparr>pub_addr = 0, pub_aki = 0, pub_period = 0, pub_ttl = 0, pub_txp = zero_txp\<rparr>"

definition load_pub :: "env \<Rightarrow> json \<Rightarrow> mesh_config_t \<Rightarrow> (error_code_t \<times> mesh_config_t) option" where
  "load_pub E obj c =
    (case obj_get obj STR_PUB of
       None \<Rightarrow> Some (ec_success, c\<lparr>pub := None\<rparr>)
     | Some jo \<Rightarrow> do {
         kvs \<leftarrow> obj_items jo;
         (e, p) \<leftarrow> load_pub_members E kvs (case pub c of None \<Rightarrow> zero_pub | Some p \<Rightarrow> p);
         Some (e, c\<lparr>pub := (if e = ec_success then Some p else None)\<rparr>) })"

definition load_snb :: "env \<Rightarrow> json \<Rightarrow> mesh_config_t \<Rightarrow> (error_code_t \<times> mesh_config_t) option" where
  "load_snb E obj c =
    (case obj_get obj STR_SNB of
       None \<Rightarrow> Some (ec_success, c\<lparr>snb := None\<rparr>)
     | Some jo \<Rightarrow> do {
         (e, v) \<leftarrow> ttl_field E jo (snb c);
         let c = c\<lparr>snb := v\<rparr>;
         Some (e, case v of None \<Rightarrow> c
                  | Some v \<Rightarrow> upd_features (set_feature_config SNB_BITOFS (v \<noteq> 0)) c) })"

definition txp_field :: "env \<Rightarrow> json \<Rightarrow> txparam_t option \<Rightarrow> (error_code_t \<times> txparam_t option) option" where
  "txp_field E jo p = do {
     (e, t) \<leftarrow> load_tx_members E jo (case p of None \<Rightarrow> zero_txp | Some t \<Rightarrow> t);
     Some (e, if e = ec_success then Some t else None) }"

definition load_txp :: "env \<Rightarrow> json \<Rightarrow> mesh_config_t \<Rightarrow> (error_code_t \<times> mesh_config_t) option" where
  "load_txp E obj c =
    (case obj_get obj STR_TXP of
       None \<Rightarrow> Some (ec_success, c\<lparr>net_txp := None\<rparr>)
     | Some jo \<Rightarrow> do {
         (e, t) \<leftarrow> txp_field E jo (net_txp c);
         let c = c\<lparr>net_txp := t\<rparr>;
         Some (e, if e = ec_success then upd_features (set_feature_config NETTX_BITOFS True) c else c) })"

text \<open>\<open>__load_uint16list\<close>: the length field is a \<open>uint8_t\<close>, the data has every element.\<close>

fun load_items16 :: "env \<Rightarrow> nat \<Rightarrow> json list \<Rightarrow> u16 list \<Rightarrow> (error_code_t \<times> u16 list) option" where
  "load_items16 E i [] data = Some (ec_success, data)"
| "load_items16 E i (j # js) data = do {
     d \<leftarrow> idx data i;
     (e, x) \<leftarrow> uint16_loader (json_object_get_string E (Some j)) d;
     if e \<noteq> ec_success then Some (e, data)
     else load_items16 E (Suc i) js (data[i := x]) }"

definition load_uint16list ::
  "env \<Rightarrow> json \<Rightarrow> uint16list_t option \<Rightarrow> (error_code_t \<times> uint16list_t option) option" where
  "load_uint16list E jo p =
    (case jo of
       JArr js \<Rightarrow> do {
         let len = length js;
         let l = (case p of
              None \<Rightarrow> \<lparr>l_len = of_nat len, l_data = replicate len 0\<rparr>
            | Some l \<Rightarrow> if unat (l_len l) \<noteq> len then \<lparr>l_len = of_nat len, l_data = replicate len 0\<rparr> else l);
         (e, data) \<leftarrow> load_items16 E 0 js (l_data l);
         Some (e, if e = ec_success then Some (l\<lparr>l_data := data\<rparr>) else None) }
     | _ \<Rightarrow> Some (ec_format, None))"

definition load_bindings :: "env \<Rightarrow> json \<Rightarrow> mesh_config_t \<Rightarrow> (error_code_t \<times> mesh_config_t) option" where
  "load_bindings E obj c =
    (case obj_get obj STR_BIND of
       None \<Rightarrow> Some (ec_success, c\<lparr>bindings := None\<rparr>)
     | Some jo \<Rightarrow> do { (e, l) \<leftarrow> load_uint16list E jo (bindings c); Some (e, c\<lparr>bindings := l\<rparr>) })"

definition load_sublist :: "env \<Rightarrow> json \<Rightarrow> mesh_config_t \<Rightarrow> (error_code_t \<times> mesh_config_t) option" where
  "load_sublist E obj c =
    (case obj_get obj STR_SUB of
       None \<Rightarrow> Some (ec_success, c\<lparr>sublist := None\<rparr>)
     | Some jo \<Rightarrow> do { (e, l) \<leftarrow> load_uint16list E jo (sublist c); Some (e, c\<lparr>sublist := l\<rparr>) })"

text \<open>\<open>strcmp(v, "0x01")\<close> on the text of a member, undefined for NULL.\<close>

definition is_on :: "env \<Rightarrow> json \<Rightarrow> bool option" where
  "is_on E j = map_option (\<lambda>v. v = ''0x01'') (json_object_get_string E (Some j))"

definition clr_features :: "features_t \<Rightarrow> features_t" where
  "clr_features f = f\<lparr>relay_txp := None, target := target f AND 0xfff0, current := current f AND 0xfff0\<rparr>"

definition opt_feature :: "env \<Rightarrow> json \<Rightarrow> string \<Rightarrow> nat \<Rightarrow> features_t \<Rightarrow> features_t option" where
  "opt_feature E jo k w f =
    (case obj_get jo k of
       None \<Rightarrow> Some f
     | Some j \<Rightarrow> do { b \<leftarrow> is_on E j; Some (set_feature_config w b f) })"

definition load_relay :: "env \<Rightarrow> json \<Rightarrow> features_t \<Rightarrow> (error_code_t \<times> features_t) option" where
  "load_relay E jo f =
    (case obj_get jo STR_RELAY of
       None \<Rightarrow> Some (ec_success, f)
     | Some tmp \<Rightarrow> do {
         f \<leftarrow> opt_feature E tmp STR_ENABLE RELAY_BITOFS f;
         (e, t) \<leftarrow> load_tx_members E tmp zero_txp;
         Some (e, f\<lparr>relay_txp := Some (if e = ec_success then fit_txp 10 320 10 t else t)\<rparr>) })"

definition load_lpn :: "env \<Rightarrow> json \<Rightarrow> features_t \<Rightarrow> features_t option" where
  "load_lpn E jo f =
    (case obj_get jo STR_LPN of
       None \<Rightarrow> Some f
     | Some j \<Rightarrow> do {
         b \<leftarrow> is_on E j;
         let w = LPN_BITOFS;
         Some (if b then f\<lparr>current := BIT_SET (current f) w, target := BIT_SET (target f) w\<rparr>
               else f\<lparr>current := BIT_CLR (current f) w, target := BIT_CLR (target f) w\<rparr>) })"

definition load_features :: "env \<Rightarrow> json \<Rightarrow> mesh_config_t \<Rightarrow> (error_code_t \<times> mesh_config_t) option" where
  "load_features E obj c =
    (case obj_get obj STR_FEATURES of
       None \<Rightarrow> Some (ec_success, upd_features clr_features c)
     | Some jo \<Rightarrow> do {
         (e, f) \<leftarrow> load_relay E jo (clr_features (features c));
         if e \<noteq> ec_success then Some (e, c\<lparr>features := clr_features f\<rparr>)
         else do {
           f \<leftarrow> opt_feature E jo STR_FRIEND FRIEND_BITOFS f;
           f \<leftarrow> opt_feature E jo STR_PROXY PROXY_BITOFS f;
           f \<leftarrow> load_lpn E jo f;
           Some (ec_success, c\<lparr>features := f\<rparr>) } })"


subsection \<open>Templates\<close>

definition alloc_copy_u16list :: "uint16list_t option \<Rightarrow> uint16list_t \<Rightarrow> uint16list_t option" where
  "alloc_copy_u16list p src =
    (if l_len src = 0 then p
     else Some \<lparr>l_len = l_len src, l_data = take (unat (l_len src)) (l_data src)\<rparr>)"

text \<open>\<open>__copy_tmpl_to_node\<close>: a field of the template is copied only where the node has none.\<close>

definition copy_tmpl_to_node :: "mesh_config_t \<Rightarrow> mesh_config_t \<Rightarrow> mesh_config_t option" where
  "copy_tmpl_to_node t n = do {
     let n = (if ttl t \<noteq> None \<and> ttl n = None
              then (upd_features (set_feature_config TTL_BITOFS True) n)\<lparr>ttl := ttl t\<rparr> else n);
     let n = (case sublist t of
                Some l \<Rightarrow> if sublist n = None then n\<lparr>sublist := alloc_copy_u16list None l\<rparr> else n
              | None \<Rightarrow> n);
     let n = (if snb t \<noteq> None \<and> snb n = None
              then (upd_features (set_feature_config SNB_BITOFS True) n)\<lparr>snb := snb t\<rparr> else n);
     n \<leftarrow> (if target (features n) AND 0xf = 0 \<and> current (features n) AND 0xf = 0
           then do {
             let f = features n;
             let f = f\<lparr>target := target f OR (target (features t) AND 0xf),
                       current := current f OR (current (features t) AND 0xf)\<rparr>;
             ASSERT (relay_txp f = None);
             Some (n\<lparr>features := f\<lparr>relay_txp := relay_txp (features t)\<rparr>\<rparr>) }
           else Some n);
     let n = (if pub t \<noteq> None \<and> pub n = None then n\<lparr>pub := pub t\<rparr> else n);
     let n = (if net_txp t \<noteq> None \<and> net_txp n = None
              then (upd_features (set_feature_config NETTX_BITOFS True) n)\<lparr>net_txp := net_txp t\<rparr> else n);
     Some (case bindings t of
             Some l \<Rightarrow> if bindings n = None then n\<lparr>bindings := alloc_copy_u16list None l\<rparr> else n
           | None \<Rightarrow> n) }"

text \<open>\<open>_load_tmpl\<close>: a JSON null counts as missing. The id is read as one byte.\<close>

definition load_tmpl :: "env \<Rightarrow> cfgdb_t \<Rightarrow> json \<Rightarrow> node_t \<Rightarrow> (error_code_t \<times> node_t) option" where
  "load_tmpl E d obj n =
    (case json_object_get_string E (obj_get obj STR_TMPL) of
       None \<Rightarrow> Some (ec_success, n\<lparr>n_tmpl := None\<rparr>)
     | Some v \<Rightarrow> do {
         r \<leftarrow> str2uint v 1;
         case r of
           Inl _ \<Rightarrow> Some (ec_json_format, n)
         | Inr x \<Rightarrow>
             (let n = n\<lparr>n_tmpl := Some (of_nat x)\<rparr>
              in case cfgdb_tmpl_get (of_nat x) d of
                   None \<Rightarrow> Some (ec_success, n)
                 | Some tr \<Rightarrow> do {
                     t \<leftarrow> theap d tr;
                     c \<leftarrow> copy_tmpl_to_node (t_config t) (n_config n);
                     Some (ec_success, n\<lparr>n_config := c\<rparr>) }) })"

text \<open>The loop over \<open>loaders[]\<close>: an error of one loader is logged, the next one runs.\<close>

definition load_to_tmpl_item :: "env \<Rightarrow> json \<Rightarrow> mesh_config_t \<Rightarrow> mesh_config_t option" where
  "load_to_tmpl_item E obj c = do {
     (_, c) \<leftarrow> load_ttl E obj c;
     (_, c) \<leftarrow> load_pub E obj c;
     (_, c) \<leftarrow> load_snb E obj c;
     (_, c) \<leftarrow> load_txp E obj c;
     (_, c) \<leftarrow> load_bindings E obj c;
     (_, c) \<leftarrow> load_sublist E obj c;
     (_, c) \<leftarrow> load_features E obj c;
     Some c }"

definition load_to_node_item :: "env \<Rightarrow> cfgdb_t \<Rightarrow> json \<Rightarrow> node_t \<Rightarrow> node_t option" where
  "load_to_node_item E d obj n = do {
     c \<leftarrow> load_to_tmpl_item E obj (n_config n);
     (_, n) \<leftarrow> load_tmpl E d obj (n\<lparr>n_config := c\<rparr>);
     Some n }"

text \<open>
  The loop of \<open>load_template\<close>. \<open>add\<close> stays set once a template was new, and adding a template that
  is filed already changes nothing.
\<close>

fun load_templates :: "env \<Rightarrow> bool \<Rightarrow> json list \<Rightarrow> sys \<Rightarrow> (error_code_t \<times> sys) option" where
  "load_templates E add [] s = Some (ec_success, s)"
| "load_templates E add (n # ns) s =
    (case obj_get n STR_REFID of
       None \<Rightarrow> load_templates E add ns s
     | Some tmp \<Rightarrow> do {
         v \<leftarrow> json_object_get_string E (Some tmp);
         x \<leftarrow> str2uint v 2;
         case x of
           Inl _ \<Rightarrow> load_templates E add ns s
         | Inr x \<Rightarrow> do {
             let d = db s;
             let refid = of_nat x;
             let (r, add, d) = (case cfgdb_tmpl_get refid d of
                  Some r \<Rightarrow> (r, add, d)
                | None \<Rightarrow> (hnext d, True, d\<lparr>hnext := Suc (hnext d),
                    theap := (theap d)(hnext d \<mapsto> \<lparr>t_refid = 0, t_config = zero_config\<rparr>)\<rparr>));
             t \<leftarrow> theap d r;
             c \<leftarrow> load_to_tmpl_item E n (t_config t);
             let d = d\<lparr>theap := (theap d)(r \<mapsto> \<lparr>t_refid = refid, t_config = c\<rparr>)\<rparr>;
             (e, d) \<leftarrow> (if add then cfgdb_tmpl_add (Some r) d else Some (ec_success, d));
             if e \<noteq> ec_success then Some (e, s\<lparr>db := d\<rparr>)
             else load_templates E add ns (s\<lparr>db := d\<rparr>) } })"

definition load_template :: "env \<Rightarrow> sys \<Rightarrow> (error_code_t \<times> sys) option" where
  "load_template E s =
    (case root (tmpl_gen (jcfg s)) of
       None \<Rightarrow> Some (ec_json_open, s)
     | Some r \<Rightarrow> (case obj_get r STR_TEMPLATES of
         None \<Rightarrow> Some (ec_json_format, s)
       | Some ts \<Rightarrow> do { ns \<leftarrow> arr_items ts; load_templates E False ns s }))"

subsection \<open>The provisioner's configuration\<close>

text \<open>A number the code reads with \<open>str2uint(v, strlen(v), ...)\<close>; a text that is NULL is undefined.\<close>

definition num_member :: "env \<Rightarrow> json \<Rightarrow> string \<Rightarrow> nat \<Rightarrow> (error_code_t + nat) option" where
  "num_member E obj k len = do {
     v \<leftarrow> json_object_get_string E (obj_get obj k); str2uint v len }"

definition with_num :: "(error_code_t + nat) option \<Rightarrow> 'a \<Rightarrow> (nat \<Rightarrow> 'a option) \<Rightarrow> 'a option" where
  "with_num r bad f = do { r \<leftarrow> r; case r of Inl _ \<Rightarrow> Some bad | Inr n \<Rightarrow> f n }"

definition load_key :: "env \<Rightarrow> json \<Rightarrow> meshkey_t \<Rightarrow> (error_code_t \<times> meshkey_t) option" where
  "load_key E obj k =
    with_num (num_member E obj STR_REFID 2) (ec_json_format, k) (\<lambda>x.
    let k = k\<lparr>k_refid := of_nat x\<rparr> in
    with_num (num_member E obj STR_ID 2) (ec_json_format, k) (\<lambda>x.
    let k = k\<lparr>k_id := of_nat x\<rparr> in do {
      (e, val) \<leftarrow> (case json_object_get_string E (obj_get obj STR_VALUE) of
           None \<Rightarrow> Some (ec_param_invalid, k_val k)
         | Some v \<Rightarrow> str2cbuf v False (k_val k) 16);
      let k = k\<lparr>k_val := val\<rparr>;
      if e \<noteq> ec_success then Some (ec_json_format, k)
      else with_num (num_member E obj STR_DONE 1) (ec_json_format, k) (\<lambda>x.
        Some (ec_success, k\<lparr>k_done := of_nat x\<rparr>)) }))"

fun load_appkeys :: "env \<Rightarrow> nat \<Rightarrow> json list \<Rightarrow> meshkey_t list \<Rightarrow> (error_code_t \<times> meshkey_t list) option" where
  "load_appkeys E i [] ks = Some (ec_success, ks)"
| "load_appkeys E i (j # js) ks = do {
     k \<leftarrow> idx ks i;
     (e, k) \<leftarrow> load_key E j k;
     if e \<noteq> ec_success then Some (e, ks[i := k]) else load_appkeys E (Suc i) js (ks[i := k]) }"

definition load_timeout :: "env \<Rightarrow> json \<Rightarrow> timeout_t \<Rightarrow> (error_code_t \<times> timeout_t) option" where
  "load_timeout E jo t = do {
     (e, x) \<leftarrow> opt_member uint32_loader E jo STR_TIMEOUT_NORMAL (to_normal t);
     let t = t\<lparr>to_normal := x\<rparr>;
     if e \<noteq> ec_success then Some (e, t)
     else do {
       (e, x) \<leftarrow> opt_member uint32_loader E jo STR_TIMEOUT_LPN (to_lpn t);
       Some (e, t\<lparr>to_lpn := x\<rparr>) } }"

text \<open>\<open>_load_ttl\<close>, \<open>_load_txp\<close> and \<open>_load_timeout\<close> on the provisioner, whose results are ignored.\<close>

definition load_self_options :: "env \<Rightarrow> json \<Rightarrow> provcfg_t \<Rightarrow> provcfg_t option" where
  "load_self_options E r pc = do {
     t \<leftarrow> (case obj_get r STR_TTL of None \<Rightarrow> Some None
           | Some jo \<Rightarrow> map_option snd (ttl_field E jo (p_ttl pc)));
     x \<leftarrow> (case obj_get r STR_TXP of None \<Rightarrow> Some None
           | Some jo \<Rightarrow> map_option snd (txp_field E jo (p_net_txp pc)));
     w \<leftarrow> (case obj_get r STR_TIMEOUT of None \<Rightarrow> Some None
           | Some jo \<Rightarrow> do {
               (e, w) \<leftarrow> load_timeout E jo
                 (case p_timeout pc of None \<Rightarrow> \<lparr>to_normal = 0, to_lpn = 0\<rparr> | Some w \<Rightarrow> w);
               Some (if e = ec_success then Some w else None) });
     Some (pc\<lparr>p_ttl := t, p_net_txp := x, p_timeout := w\<rparr>) }"

definition zero_key :: meshkey_t where
  "zero_key = \<lparr>k_refid = 0, k_id = 0, k_done = 0, k_val = replicate 16 0\<rparr>"

definition zero_subnet :: "nat \<Rightarrow> subnet_t" where
  "zero_subnet num = \<lparr>appkey_num = 0, active_appkey_num = 0, netkey = zero_key, appkey = replicate num zero_key\<rparr>"

text \<open>
  The primary subnet. When a key does not load, the subnets are freed and the pointer is kept.
\<close>

definition load_primary_subnet :: "env \<Rightarrow> json \<Rightarrow> sys \<Rightarrow> (error_code_t \<times> sys) option" where
  "load_primary_subnet E r s =
    (case obj_get r STR_SUBNETS of
       None \<Rightarrow> Some (ec_json_format, s)
     | Some n \<Rightarrow> do {
         xs \<leftarrow> arr_items n;
         prim \<leftarrow> idx xs 0;
         aks \<leftarrow> obj_get prim STR_APPKEY;
         aks \<leftarrow> arr_items aks;
         let num = length aks;
         let s = s\<lparr>jcfg := (jcfg s)\<lparr>prov_subnet_num := 1, j_netkey := Some [K STR_SUBNETS, I 0],
           j_appkey_num := num, j_appkey_arr := Some [K STR_SUBNETS, I 0, K STR_APPKEY]\<rparr>\<rparr>;
         sn \<leftarrow> (if p_subnets_freed (self (db s)) then undef
               else Some (case p_subnets (self (db s)) of
                      None \<Rightarrow> zero_subnet num
                    | Some sn \<Rightarrow> if unat (appkey_num sn) < num then zero_subnet num else sn));
         (e, nk) \<leftarrow> load_key E prim (netkey sn);
         let sn = sn\<lparr>appkey_num := of_nat num, netkey := nk\<rparr>;
         (e, ks) \<leftarrow> (if e \<noteq> ec_success then Some (e, appkey sn) else load_appkeys E 0 aks (appkey sn));
         Some (e, upd_self (\<lambda>pc.
           if e = ec_success then pc\<lparr>p_subnet_num := 1, p_subnets := Some (sn\<lparr>appkey := ks\<rparr>)\<rparr>
           else pc\<lparr>p_subnet_num := 0, p_subnets := None, p_subnets_freed := True\<rparr>) s) })"

definition load_provself :: "env \<Rightarrow> sys \<Rightarrow> (error_code_t \<times> sys) option" where
  "load_provself E s =
    (case root (prov_gen (jcfg s)) of
       None \<Rightarrow> Some (ec_json_open, s)
     | Some r \<Rightarrow>
         with_num (num_member E r STR_ADDR 2) (ec_json_format, s) (\<lambda>x.
         let s = upd_self (\<lambda>pc. pc\<lparr>p_addr := of_nat x\<rparr>) s in
         with_num (num_member E r STR_SYNC_TIME 4) (ec_json_format, s) (\<lambda>x.
         let s = upd_self (\<lambda>pc. pc\<lparr>p_sync_time := int x\<rparr>) s in
         with_num (num_member E r STR_IVI 4) (ec_json_format, s) (\<lambda>x.
         let s = upd_self (\<lambda>pc. pc\<lparr>p_ivi := of_nat x\<rparr>) s in do {
           pc \<leftarrow> load_self_options E r (self (db s));
           load_primary_subnet E r (upd_self (\<lambda>_. pc) s) }))))"

subsection \<open>The nodes\<close>

definition mandatory_fields :: "string list" where
  "mandatory_fields = map (\<lambda>k. CHR 0x22 # k @ [CHR 0x22])
     [STR_UUID, STR_ADDR, STR_RMORBL, STR_DONE, STR_ERRBITS, STR_FUNC]"

definition node_valid_check :: "env \<Rightarrow> json \<Rightarrow> bool option" where
  "node_valid_check E obj = do {
     ASSERT (obj \<noteq> JNull);
     v \<leftarrow> json_object_get_string E (Some obj);
     Some (\<forall>c \<in> set mandatory_fields. strstr v c) }"

text \<open>
  The scalar fields of a node object, in the order they are read; the inner \<^const>\<open>None\<close> is the
  \<open>continue\<close> of a field that does not parse. A short UUID is padded with zero bytes.
\<close>

definition node_scalars :: "env \<Rightarrow> json \<Rightarrow> (u16 \<times> uuid \<times> u8 \<times> u8 \<times> u32 \<times> u8) option option" where
  "node_scalars E n =
    with_num (num_member E n STR_ADDR 2) None (\<lambda>addr. do {
      (e, uuid) \<leftarrow> (case json_object_get_string E (obj_get n STR_UUID) of
           None \<Rightarrow> Some (ec_param_invalid, replicate 16 0)
         | Some v \<Rightarrow> str2cbuf v False (replicate 16 0) 16);
      if e \<noteq> ec_success then Some None
      else
        with_num (num_member E n STR_RMORBL 1) None (\<lambda>rmbl.
        with_num (num_member E n STR_DONE 1) None (\<lambda>don.
        with_num (num_member E n STR_ERRBITS 4) None (\<lambda>errbits.
        with_num (num_member E n STR_FUNC 1) None (\<lambda>func.
          Some (Some (of_nat addr, uuid, of_nat rmbl, of_nat don, of_nat errbits, of_nat func)))))) })"

definition load_node :: "env \<Rightarrow> bool \<Rightarrow> json \<Rightarrow> sys \<Rightarrow> sys option" where
  "load_node E bl n s = do {
     valid \<leftarrow> node_valid_check E n;
     if \<not> valid then Some s
     else do {
       sc \<leftarrow> node_scalars E n;
       case sc of
         None \<Rightarrow> Some s
       | Some (addr, uuid, rmbl, don, errbits, func) \<Rightarrow> do {
           let d = db s;
           let (r, add, d) = (case (if bl then cfgdb_backlog_get uuid d
                                    else if addr \<noteq> 0 then cfgdb_node_get addr d
                                    else cfgdb_unprov_dev_get uuid d) of
                Some r \<Rightarrow> (r, False, d)
              | None \<Rightarrow> (hnext d, True, d\<lparr>hnext := Suc (hnext d), heap := (heap d)(hnext d \<mapsto> zero_node)\<rparr>));
           t \<leftarrow> heap d r;
           t \<leftarrow> load_to_node_item E d n t;
           let t = t\<lparr>n_addr := addr, n_uuid := uuid, n_done := don, n_rmorbl := rmbl, n_err := errbits,
             n_func := func\<rparr>;
           let d = d\<lparr>heap := (heap d)(r \<mapsto> t)\<rparr>;
           (_, d) \<leftarrow> (if \<not> add then Some (ec_success, d)
                     else if bl then cfgdb_backlog_add (Some r) d
                     else if addr \<noteq> 0 then cfgdb_nodes_add (Some r) d
                     else cfgdb_unpl_add (Some r) d);
           Some (s\<lparr>db := d\<rparr>) } } }"

fun load_node_arr :: "env \<Rightarrow> bool \<Rightarrow> json list \<Rightarrow> sys \<Rightarrow> sys option" where
  "load_node_arr E bl [] s = Some s"
| "load_node_arr E bl (n # ns) s = do { s \<leftarrow> load_node E bl n s; load_node_arr E bl ns s }"

definition load_nodes :: "env \<Rightarrow> sys \<Rightarrow> (error_code_t \<times> sys) option" where
  "load_nodes E s =
    (case (nw_subnets (jcfg s), root (nw_gen (jcfg s))) of
       (Some sns, rt) \<Rightarrow> do {
         sn \<leftarrow> idx sns 0;
         case (sbn_nodes sn, rt) of
           (Some p, Some r) \<Rightarrow> do {
             ns \<leftarrow> Option.bind (jget r p) arr_items;
             s \<leftarrow> load_node_arr E False ns s;
             s \<leftarrow> (case nw_backlog (jcfg s) of
                    None \<Rightarrow> Some s
                  | Some q \<Rightarrow> do {
                      bs \<leftarrow> Option.bind (jget r q) arr_items;
                      load_node_arr E True bs s });
             Some (ec_success, s) }
         | _ \<Rightarrow> Some (ec_json_open, s) }
     | _ \<Rightarrow> Some (ec_json_open, s))"

end
