(* ===== verification/MngLists.thy ===== *)
theory MngLists
  imports Stat
begin

unbundle bit_operations_syntax

text \<open>
  The work lists of the manager: \<open>load_lists\<close> and its callers in \<open>mng/mng.c\<close>, over the traversal
  \<open>cfg_load_mnglists\<close> of \<open>cfg/cfgdb.c\<close>. A list holds references to nodes of the database.
\<close>

abbreviation (input) BL_BITMASK :: u8 where "BL_BITMASK \<equiv> 0x01"
abbreviation (input) RM_BITMASK :: u8 where "RM_BITMASK \<equiv> 0x10"

text \<open>
  \<open>list_nodes\<close> waits for as many events as the target announced, dropping the others. When the
  target sends too few, it waits forever, which is \<^const>\<open>None\<close> here.
\<close>

fun wait_ddb_list :: "nat \<Rightarrow> bgevt list \<Rightarrow> bgevt list option" where
  "wait_ddb_list 0 es = Some es"
| "wait_ddb_list (Suc k) [] = None"
| "wait_ddb_list (Suc k) (e # es) =
    (case e of evt_ddb_list _ _ \<Rightarrow> wait_ddb_list k es | _ \<Rightarrow> wait_ddb_list (Suc k) es)"

definition list_nodes :: "env \<Rightarrow> sys \<Rightarrow> sys option" where
  "list_nodes E s =
    (let (rsp, s) = bgcall E cmd_prov_ddb_list_devices s
     in if rsp_result rsp \<noteq> bg_err_success then Some s
        else do { es \<leftarrow> wait_ddb_list (unat (rsp_count rsp)) (evq s); Some (s\<lparr>evq := es\<rparr>) })"

definition clicb_list :: "env \<Rightarrow> sys \<Rightarrow> (error_code_t \<times> sys) option" where
  "clicb_list E s = do { s \<leftarrow> list_nodes E s; Some (ec_success, s) }"

definition lists_clr :: "sys \<Rightarrow> sys" where
  "lists_clr s = s\<lparr>mng := (mng s)\<lparr>l_add := [], l_bl := [], l_config := [], l_rm := [], l_fail := []\<rparr>\<rparr>"

text \<open>
  \<open>load_lists\<close> files one node; the result says whether the traversal stops. As in the engine, the
  offset \<open>LPN_BITOFS\<close> serves as a mask.
\<close>

definition file_node :: "nref \<Rightarrow> node_t \<Rightarrow> mng_t \<Rightarrow> mng_t" where
  "file_node r n m =
    (if n_addr n = 0
     then (if n_rmorbl n = 0 then m\<lparr>l_add := l_add m @ [r]\<rparr> else m)
     else if n_rmorbl n AND BL_BITMASK \<noteq> 0 then m\<lparr>l_bl := l_bl m @ [r]\<rparr>
     else if n_rmorbl n AND RM_BITMASK \<noteq> 0
     then (if target (features (n_config n)) AND of_nat LPN_BITOFS \<noteq> 0
           then m\<lparr>l_rm := r # l_rm m\<rparr> else m\<lparr>l_rm := l_rm m @ [r]\<rparr>)
     else if n_done n = 0 then m\<lparr>l_config := l_config m @ [r]\<rparr>
     else m)"

definition load_lists :: "env \<Rightarrow> nref \<Rightarrow> sys \<Rightarrow> (bool \<times> sys) option" where
  "load_lists E r s = do {
     n \<leftarrow> nderef s r;
     let (rsp, s) = bgcall E (cmd_prov_ddb_get (n_uuid n)) s;
     let in_ddb = (rsp_result rsp = bg_err_success);
     ASSERT (mng_num (m_state (mng s)) \<ge> mng_num initialized);
     if n_addr n = 0 then (
       let s = (if in_ddb then snd (bgcall E (cmd_prov_ddb_delete (n_uuid n)) s) else s)
       in Some (False, s\<lparr>mng := file_node r n (mng s)\<rparr>))
     else if \<not> in_ddb then do { s \<leftarrow> list_nodes E s; Some (True, s) }
     else Some (False, s\<lparr>mng := file_node r n (mng s)\<rparr>) }"

text \<open>\<open>g_tree_foreach\<close> stops at the first node for which the callback returns TRUE.\<close>

fun foreach_lists :: "env \<Rightarrow> nref list \<Rightarrow> sys \<Rightarrow> sys option" where
  "foreach_lists E [] s = Some s"
| "foreach_lists E (r # rs) s = do {
     (stop, s) \<leftarrow> load_lists E r s;
     if stop then Some s else foreach_lists E rs s }"

definition cfg_load_mnglists :: "env \<Rightarrow> sys \<Rightarrow> sys option" where
  "cfg_load_mnglists E s = do {
     s \<leftarrow> foreach_lists E (map snd (unprov_devs (db s))) s;
     foreach_lists E (map snd (nodes (db s))) s }"

definition mng_load_lists :: "env \<Rightarrow> sys \<Rightarrow> sys option" where
  "mng_load_lists E s =
    (if mng_num (m_state (mng s)) < mng_num configured then Some s
     else cfg_load_mnglists E (lists_clr s))"

subsection \<open>What the lists hold\<close>

text \<open>The kinds of work, as predicates on a node.\<close>

definition to_add :: "node_t \<Rightarrow> bool" where
  "to_add n \<longleftrightarrow> n_addr n = 0 \<and> n_rmorbl n = 0"

definition to_bl :: "node_t \<Rightarrow> bool" where
  "to_bl n \<longleftrightarrow> n_addr n \<noteq> 0 \<and> n_rmorbl n AND BL_BITMASK \<noteq> 0"

definition to_rm :: "node_t \<Rightarrow> bool" where
  "to_rm n \<longleftrightarrow> n_addr n \<noteq> 0 \<and> n_rmorbl n AND BL_BITMASK = 0 \<and> n_rmorbl n AND RM_BITMASK \<noteq> 0"

definition to_config :: "node_t \<Rightarrow> bool" where
  "to_config n \<longleftrightarrow> n_addr n \<noteq> 0 \<and> n_rmorbl n AND BL_BITMASK = 0 \<and> n_rmorbl n AND RM_BITMASK = 0
    \<and> n_done n = 0"

lemmas kind_defs = to_add_def to_bl_def to_rm_def to_config_def

lemma file_node_lists:
  "mset (l_add (file_node r n m)) = mset (l_add m) + (if to_add n then {#r#} else {#})"
  "mset (l_bl (file_node r n m)) = mset (l_bl m) + (if to_bl n then {#r#} else {#})"
  "mset (l_rm (file_node r n m)) = mset (l_rm m) + (if to_rm n then {#r#} else {#})"
  "mset (l_config (file_node r n m)) = mset (l_config m) + (if to_config n then {#r#} else {#})"
  "l_fail (file_node r n m) = l_fail m" "m_state (file_node r n m) = m_state m"
  by (simp_all add: file_node_def kind_defs)

text \<open>The target's database has every node the configuration has.\<close>

definition ddb_in_sync :: "env \<Rightarrow> cfgdb_t \<Rightarrow> bool" where
  "ddb_in_sync E d \<longleftrightarrow> (\<forall>r n h. heap d r = Some n \<and> n_addr n \<noteq> 0
    \<longrightarrow> rsp_result (ncp E h (cmd_prov_ddb_get (n_uuid n))) = bg_err_success)"

definition live :: "cfgdb_t \<Rightarrow> nref list \<Rightarrow> bool" where
  "live d rs \<longleftrightarrow> (\<forall>r \<in> set rs. heap d r \<noteq> None)"

definition of_kind :: "cfgdb_t \<Rightarrow> (node_t \<Rightarrow> bool) \<Rightarrow> nref \<Rightarrow> bool" where
  "of_kind d k r = (case heap d r of None \<Rightarrow> False | Some n \<Rightarrow> k n)"

lemma load_lists_step:
  assumes "ddb_in_sync E (db s)" and "heap (db s) r = Some n" and "mng_num (m_state (mng s)) \<ge> 1"
  shows "\<exists>h. load_lists E r s = Some (False, s\<lparr>sent := h, mng := file_node r n (mng s)\<rparr>)"
proof -
  have "rsp_result (ncp E (sent s) (cmd_prov_ddb_get (n_uuid n))) = 0" if "n_addr n \<noteq> 0"
    using assms(1,2) that unfolding ddb_in_sync_def by blast
  then show ?thesis
    using assms(2,3) by (auto simp: load_lists_def nderef_def bgcall_def Let_def)
qed

lemma foreach_lists_spec:
  assumes "ddb_in_sync E (db s)" and "live (db s) rs" and "mng_num (m_state (mng s)) \<ge> 1"
  shows "\<exists>h m. foreach_lists E rs s = Some (s\<lparr>sent := h, mng := m\<rparr>) \<and> m_state m = m_state (mng s)
    \<and> l_fail m = l_fail (mng s)
    \<and> mset (l_add m) = mset (l_add (mng s)) + mset (filter (of_kind (db s) to_add) rs)
    \<and> mset (l_bl m) = mset (l_bl (mng s)) + mset (filter (of_kind (db s) to_bl) rs)
    \<and> mset (l_rm m) = mset (l_rm (mng s)) + mset (filter (of_kind (db s) to_rm) rs)
    \<and> mset (l_config m) = mset (l_config (mng s)) + mset (filter (of_kind (db s) to_config) rs)"
  using assms
proof (induction rs arbitrary: s)
  case Nil
  then show ?case by (auto intro!: exI [of _ "sent s"] exI [of _ "mng s"])
next
  case (Cons r rs)
  then obtain n where n: "heap (db s) r = Some n" by (auto simp: live_def)
  obtain h where step: "load_lists E r s = Some (False, s\<lparr>sent := h, mng := file_node r n (mng s)\<rparr>)"
    using load_lists_step Cons.prems n by blast
  let ?s = "s\<lparr>sent := h, mng := file_node r n (mng s)\<rparr>"
  have "live (db ?s) rs" using Cons.prems(2) by (simp add: live_def)
  then obtain h' m where IH: "foreach_lists E rs ?s = Some (?s\<lparr>sent := h', mng := m\<rparr>)"
    "m_state m = m_state (mng s)" "l_fail m = l_fail (mng s)"
    "mset (l_add m) = mset (l_add (mng ?s)) + mset (filter (of_kind (db s) to_add) rs)"
    "mset (l_bl m) = mset (l_bl (mng ?s)) + mset (filter (of_kind (db s) to_bl) rs)"
    "mset (l_rm m) = mset (l_rm (mng ?s)) + mset (filter (of_kind (db s) to_rm) rs)"
    "mset (l_config m) = mset (l_config (mng ?s)) + mset (filter (of_kind (db s) to_config) rs)"
    using Cons.IH [of ?s] Cons.prems by (auto simp: file_node_lists)
  have k: "of_kind (db s) k r = k n" for k using n by (simp add: of_kind_def)
  show ?case
    using IH step by (intro exI [of _ h'] exI [of _ m]) (simp add: file_node_lists k)
qed

text \<open>Loading the lists files every node of the two trees by its kind, and nothing else.\<close>

lemma mng_load_lists_spec:
  assumes "ddb_in_sync E (db s)" and "mng_num (m_state (mng s)) \<ge> 2"
    and "live (db s) (map snd (unprov_devs (db s)) @ map snd (nodes (db s)))"
  defines "rs \<equiv> map snd (unprov_devs (db s)) @ map snd (nodes (db s))"
  shows "\<exists>s'. mng_load_lists E s = Some s' \<and> db s' = db s \<and> m_state (mng s') = m_state (mng s)
    \<and> mset (l_add (mng s')) = mset (filter (of_kind (db s) to_add) rs)
    \<and> mset (l_bl (mng s')) = mset (filter (of_kind (db s) to_bl) rs)
    \<and> mset (l_rm (mng s')) = mset (filter (of_kind (db s) to_rm) rs)
    \<and> mset (l_config (mng s')) = mset (filter (of_kind (db s) to_config) rs)
    \<and> l_fail (mng s') = []"
proof -
  let ?s = "lists_clr s"
  have c: "db ?s = db s" "m_state (mng ?s) = m_state (mng s)" "l_add (mng ?s) = []" "l_bl (mng ?s) = []"
    "l_rm (mng ?s) = []" "l_config (mng ?s) = []" "l_fail (mng ?s) = []"
    by (simp_all add: lists_clr_def)
  have lv: "live (db s) (map snd (unprov_devs (db s)))" "live (db s) (map snd (nodes (db s)))"
    using assms(3) by (simp_all add: live_def)
  obtain h m where 1: "foreach_lists E (map snd (unprov_devs (db s))) ?s = Some (?s\<lparr>sent := h, mng := m\<rparr>)"
    "m_state m = m_state (mng s)" "l_fail m = []"
    "mset (l_add m) = mset (filter (of_kind (db s) to_add) (map snd (unprov_devs (db s))))"
    "mset (l_bl m) = mset (filter (of_kind (db s) to_bl) (map snd (unprov_devs (db s))))"
    "mset (l_rm m) = mset (filter (of_kind (db s) to_rm) (map snd (unprov_devs (db s))))"
    "mset (l_config m) = mset (filter (of_kind (db s) to_config) (map snd (unprov_devs (db s))))"
    using foreach_lists_spec [of E ?s "map snd (unprov_devs (db s))"] assms(1,2) lv(1) by (auto simp: c)
  let ?t = "?s\<lparr>sent := h, mng := m\<rparr>"
  obtain h' m' where 2: "foreach_lists E (map snd (nodes (db s))) ?t = Some (?t\<lparr>sent := h', mng := m'\<rparr>)"
    "m_state m' = m_state m" "l_fail m' = []"
    "mset (l_add m') = mset (l_add m) + mset (filter (of_kind (db s) to_add) (map snd (nodes (db s))))"
    "mset (l_bl m') = mset (l_bl m) + mset (filter (of_kind (db s) to_bl) (map snd (nodes (db s))))"
    "mset (l_rm m') = mset (l_rm m) + mset (filter (of_kind (db s) to_rm) (map snd (nodes (db s))))"
    "mset (l_config m') = mset (l_config m) + mset (filter (of_kind (db s) to_config) (map snd (nodes (db s))))"
    using foreach_lists_spec [of E ?t "map snd (nodes (db s))"] assms(1,2) lv(2) 1(2,3) by (auto simp: c)
  have "mng_load_lists E s = Some (?t\<lparr>sent := h', mng := m'\<rparr>)"
    using assms(2) 1(1) 2(1) by (simp add: mng_load_lists_def cfg_load_mnglists_def c)
  then show ?thesis using 1 2 by (simp add: rs_def c)
qed

end
