(* ===== verification/JsonOpen.thy ===== *)
theory JsonOpen
  imports JsonLoad MngLists
begin

unbundle bit_operations_syntax

text \<open>
  Opening the configuration files: \<open>open_json_file\<close>, the new files, \<open>json_cfg_open\<close> and
  \<open>nodes_clrctl\<close> of \<open>cfg/parser/json_parser.c\<close>, \<open>load_cfg_file\<close> and \<open>cfg_clrctl\<close> of
  \<open>cfg/parser/generic_parser.c\<close> and \<open>cfg_init\<close> of \<open>cfg/cfg.c\<close>. The paths of the files are fixed at
  build time.
\<close>

subsection \<open>Reading a file\<close>

text \<open>\<open>jcfg.nw.subnets\<close>: the reference id (0 when it does not parse) and the nodes of each subnet.\<close>

fun open_subnets :: "env \<Rightarrow> nat \<Rightarrow> json list \<Rightarrow> (error_code_t + sbn_t list) option" where
  "open_subnets E i [] = Some (Inr [])"
| "open_subnets E i (n # ns) = do {
     x \<leftarrow> (case obj_get n STR_REFID of
            None \<Rightarrow> Some 0
          | Some tmp \<Rightarrow> do {
              v \<leftarrow> json_object_get_string E (Some tmp);
              r \<leftarrow> str2uint v 2;
              Some (case r of Inl _ \<Rightarrow> 0 | Inr x \<Rightarrow> x) });
     case obj_get n STR_NODES of
       None \<Rightarrow> Some (Inl ec_json_format)
     | Some nn \<Rightarrow> do {
         rest \<leftarrow> open_subnets E (Suc i) ns;
         Some (map_sum (\<lambda>e. e)
           (Cons \<lparr>sbn_id = of_nat x, sbn_nodes = (if nn = JNull then None
                    else Some [K STR_SUBNETS, I i, K STR_NODES])\<rparr>) rest) } }"

fun open_members :: "env \<Rightarrow> (string \<times> json) list \<Rightarrow> sys \<Rightarrow> (error_code_t \<times> sys) option" where
  "open_members E [] s = Some (ec_success, s)"
| "open_members E ((key, val) # kvs) s =
    (if key = STR_SUBNETS then do {
       ns \<leftarrow> arr_items val;
       let s = s\<lparr>jcfg := (jcfg s)\<lparr>nw_subnet_num := length ns\<rparr>\<rparr>;
       sns \<leftarrow> open_subnets E 0 ns;
       case sns of
         Inl e \<Rightarrow> Some (e, s)
       | Inr sns \<Rightarrow> open_members E kvs (s\<lparr>jcfg := (jcfg s)\<lparr>nw_subnets := Some sns\<rparr>\<rparr>) }
     else if key = STR_BACKLOG
     then open_members E kvs (s\<lparr>jcfg := (jcfg s)\<lparr>nw_backlog :=
            (if val = JNull then None else Some [K STR_BACKLOG])\<rparr>\<rparr>)
     else open_members E kvs s)"

text \<open>\<open>json_object_from_file\<close>: NULL for a missing file or one that is not JSON.\<close>

definition json_object_from_file :: "string \<Rightarrow> sys \<Rightarrow> json option" where
  "json_object_from_file path s = (case disk s path of None \<Rightarrow> None | Some (j, _) \<Rightarrow> j)"

definition open_json_file :: "env \<Rightarrow> cfg_fd \<Rightarrow> bool \<Rightarrow> sys \<Rightarrow> (error_code_t \<times> sys) option" where
  "open_json_file E fd af s = do {
     let s = json_cfg_close fd s;
     path \<leftarrow> fp (gen_from_fd fd s);
     let rt = json_object_from_file path s;
     let gen = (gen_from_fd fd s)\<lparr>root := rt, autoflush := af\<rparr>;
     gen \<leftarrow> (case Option.bind rt (\<lambda>r. obj_get r STR_SYNC_TIME) of
              None \<Rightarrow> Some gen
            | Some sy \<Rightarrow> do {
                syt \<leftarrow> json_object_get_string E (Some sy);
                r \<leftarrow> str2uint syt 4;
                Some (case r of Inl _ \<Rightarrow> gen | Inr t \<Rightarrow> gen\<lparr>synctime := int t\<rparr>) });
     let s = set_gen fd gen s;
     if fd \<noteq> NW_NODES_CFG_FILE then Some (ec_success, s)
     else do {
       r \<leftarrow> rt;
       kvs \<leftarrow> obj_items r;
       (e, s) \<leftarrow> open_members E kvs s;
       Some (e, if e \<noteq> ec_success then json_cfg_close fd s else s) } }"

subsection \<open>New files\<close>

definition default_key :: "string \<Rightarrow> (string \<times> json) list" where
  "default_key val = [(STR_REFID, JStr ''0x0000''), (STR_ID, JStr ''0x0000''), (STR_VALUE, JStr val),
     (STR_DONE, JStr ''0x00'')]"

definition new_prov_root :: json where
  "new_prov_root = JObj
     [(STR_ADDR, JStr ''0x0000''), (STR_IVI, JStr ''0x00000000''), (STR_TTL, JStr ''0x09''),
      (STR_SYNC_TIME, JStr ''0x00000000''),
      (STR_TXP, JObj [(STR_CNT, JStr ''0x03''), (STR_INTV, JStr ''0x001E'')]),
      (STR_TIMEOUT, JObj [(STR_TIMEOUT_NORMAL, JStr ''0x1388''), (STR_TIMEOUT_LPN, JStr ''0x3A98'')]),
      (STR_SUBNETS, JArr [JObj (default_key ''9ddb055fdbe5e0320b56b5c192cc5683''
         @ [(STR_APPKEY, JArr [JObj (default_key ''9ddb055fdbe5e0320b56b5c192cc5683'')])])])]"

definition new_node_cfg_root :: json where
  "new_node_cfg_root = JObj
     [(STR_SYNC_TIME, JStr ''0x00000000''),
      (STR_SUBNETS, JArr [JObj [(STR_REFID, JStr ''0x0000''), (STR_NODES, JArr [])]]),
      (STR_BACKLOG, JArr [])]"

definition new_json_file :: "env \<Rightarrow> cfg_fd \<Rightarrow> sys \<Rightarrow> (error_code_t \<times> sys) option" where
  "new_json_file E fd s =
    (let with_root = (\<lambda>j. let s = json_cfg_close fd s
                          in json_cfg_flush E fd (set_gen fd ((gen_from_fd fd s)\<lparr>root := Some j\<rparr>) s))
     in case fd of
          PROV_CFG_FILE \<Rightarrow> with_root new_prov_root
        | NW_NODES_CFG_FILE \<Rightarrow> with_root new_node_cfg_root
        | TEMPLATE_FILE \<Rightarrow> Some (ec_param_invalid, s))"

subsection \<open>Opening\<close>

record open_flags =
  FL_CREATE :: bool
  FL_TRUNC :: bool
  FL_CLR_CTLFS :: bool
  FL_FORCE_RELOAD :: bool

definition load_json_file :: "env \<Rightarrow> cfg_fd \<Rightarrow> bool \<Rightarrow> sys \<Rightarrow> (error_code_t \<times> sys) option" where
  "load_json_file E fd clrdb s =
    (case fd of
       TEMPLATE_FILE \<Rightarrow> load_template E s
     | NW_NODES_CFG_FILE \<Rightarrow>
         load_nodes E (if clrdb then s\<lparr>db := cfgdb_remove_all_upl (cfgdb_remove_all_nodes (db s))\<rparr> else s)
     | PROV_CFG_FILE \<Rightarrow> load_provself E s)"

text \<open>The file path of the call, \<open>None\<close> on the return \<open>ec_param_invalid\<close>.\<close>

definition open_set_path :: "cfg_fd \<Rightarrow> string option \<Rightarrow> open_flags \<Rightarrow> sys \<Rightarrow> sys option" where
  "open_set_path fd filepath fl s =
    (if \<not> FL_CLR_CTLFS fl \<and> filepath \<noteq> None
     then Some (set_gen fd ((gen_from_fd fd s)\<lparr>fp := filepath\<rparr>) s)
     else if fp (gen_from_fd fd s) = None then None else Some s)"

definition open_create :: "env \<Rightarrow> cfg_fd \<Rightarrow> string \<Rightarrow> open_flags \<Rightarrow> sys \<Rightarrow> (error_code_t \<times> sys) option" where
  "open_create E fd path fl s =
    (if disk s path = None
     then if FL_CREATE fl then new_json_file E fd s else Some (ec_not_exist, s)
     else if FL_TRUNC fl then new_json_file E fd s
     else Some (ec_success, s))"

definition json_cfg_open ::
  "env \<Rightarrow> cfg_fd \<Rightarrow> string option \<Rightarrow> open_flags \<Rightarrow> sys \<Rightarrow> (error_code_t \<times> sys) option" where
  "json_cfg_open E fd filepath fl s =
    (case open_set_path fd filepath fl s of
       None \<Rightarrow> Some (ec_param_invalid, s)
     | Some s \<Rightarrow> do {
         path \<leftarrow> fp (gen_from_fd fd s);
         if fd = TEMPLATE_FILE \<and> disk s path = None then Some (ec_not_exist, s)
         else do {
           (e, s) \<leftarrow> (if fd = TEMPLATE_FILE then Some (ec_success, s) else open_create E fd path fl s);
           if e \<noteq> ec_success then Some (e, json_cfg_close fd s)
           else do {
             let gen = gen_from_fd fd s;
             latest \<leftarrow> (if synctime gen \<noteq> 0 \<and> \<not> FL_FORCE_RELOAD fl
                       then do { (_, mtime) \<leftarrow> disk s path; Some (mtime \<le> synctime gen) }
                       else Some False);
             if latest then Some (ec_success, s)
             else do {
               (e, s) \<leftarrow> open_json_file E fd True s;
               (e, s) \<leftarrow> (if e \<noteq> ec_success then Some (e, s)
                         else load_json_file E fd (FL_FORCE_RELOAD fl) s);
               Some (e, if e \<noteq> ec_success then json_cfg_close fd s else s) } } } })"

subsection \<open>Clearing the control fields\<close>

definition nodes_clrctl :: "env \<Rightarrow> sys \<Rightarrow> (error_code_t \<times> sys) option" where
  "nodes_clrctl E s = do {
     s \<leftarrow> nodes_clrctl_fields s;
     (_, s) \<leftarrow> (if autoflush (nw_gen (jcfg s)) then json_cfg_flush E NW_NODES_CFG_FILE s
               else Some (ec_success, s));
     json_cfg_open E NW_NODES_CFG_FILE None
       \<lparr>FL_CREATE = False, FL_TRUNC = False, FL_CLR_CTLFS = False, FL_FORCE_RELOAD = True\<rparr> s }"

text \<open>\<open>json_cfg_write(NW_NODES_CFG_FILE, wrt_clrctl, ...)\<close>\<close>

definition json_write_clrctl :: "env \<Rightarrow> sys \<Rightarrow> (error_code_t \<times> sys) option" where
  "json_write_clrctl E s =
    (if root (nw_gen (jcfg s)) = None \<or> fp (nw_gen (jcfg s)) = None then Some (ec_json_null, s)
     else do {
       (e, s) \<leftarrow> nodes_clrctl E s;
       if autoflush (nw_gen (jcfg s)) \<and> e = ec_success
       then json_cfg_flush E NW_NODES_CFG_FILE s else Some (e, s) })"

subsection \<open>\<open>generic_parser.c\<close> and \<open>cfg.c\<close>\<close>

abbreviation (input) "TMPLATE_FILE_PATH \<equiv> ''tools/mesh_config/templates.json''"
abbreviation (input) "NWNODES_FILE_PATH \<equiv> ''tools/mesh_config/hcase/nwk.json''"
abbreviation (input) "SELFCFG_FILE_PATH \<equiv> ''tools/mesh_config/hcase/prov.json''"

definition cfg_path :: "cfg_fd \<Rightarrow> string" where
  "cfg_path fd = (case fd of TEMPLATE_FILE \<Rightarrow> TMPLATE_FILE_PATH
     | NW_NODES_CFG_FILE \<Rightarrow> NWNODES_FILE_PATH | PROV_CFG_FILE \<Rightarrow> SELFCFG_FILE_PATH)"

definition load_cfg_file :: "env \<Rightarrow> cfg_fd \<Rightarrow> bool \<Rightarrow> sys \<Rightarrow> (error_code_t \<times> sys) option" where
  "load_cfg_file E fd force_reload s = do {
     (e, s) \<leftarrow> json_cfg_open E fd (Some (cfg_path fd))
       \<lparr>FL_CREATE = True, FL_TRUNC = False, FL_CLR_CTLFS = False, FL_FORCE_RELOAD = force_reload\<rparr> s;
     if e \<noteq> ec_success then Some (e, s)
     else do {
       s \<leftarrow> (if fd = NW_NODES_CFG_FILE then mng_load_lists E s else Some s);
       (_, s) \<leftarrow> json_cfg_flush E fd s;
       Some (ec_success, s) } }"

definition prov_clrctl :: "env \<Rightarrow> sys \<Rightarrow> (error_code_t \<times> sys) option" where
  "prov_clrctl E s = json_write_prov E wrt_prov_clrctl s"

definition cfg_clrctl :: "env \<Rightarrow> sys \<Rightarrow> (error_code_t \<times> sys) option" where
  "cfg_clrctl E s = do {
     (e, s) \<leftarrow> load_cfg_file E PROV_CFG_FILE False s;
     if e \<noteq> ec_success then Some (e, s)
     else do {
       (e, s) \<leftarrow> load_cfg_file E NW_NODES_CFG_FILE False s;
       if e \<noteq> ec_success then Some (e, s)
       else do {
         (e, s) \<leftarrow> prov_clrctl E s;
         if e \<noteq> ec_success then Some (e, s) else json_write_clrctl E s } } }"

definition cfg_init :: "env \<Rightarrow> sys \<Rightarrow> (error_code_t \<times> sys) option" where
  "cfg_init E s = do {
     let (e, d) = cfgdb_init (db s);
     let s = s\<lparr>db := d\<rparr>;
     if e \<noteq> ec_success then Some (e, s)
     else do {
       (_, s) \<leftarrow> load_cfg_file E TEMPLATE_FILE True s;
       (_, s) \<leftarrow> load_cfg_file E NW_NODES_CFG_FILE True s;
       load_cfg_file E PROV_CFG_FILE True s } }"

end
