(* ===== verification/Nwk.thy ===== *)
theory Nwk
  imports MngLists
begin

text \<open>
  Setting up the network at start-up, \<open>mng/nwk.c\<close>: wait for the stack, bring the provisioner's
  configuration and the target's state together, create the network and application keys that are
  missing, load the work lists and initialise the client models.
\<close>

text \<open>The blocking wait drops every other event; without the event it never returns.\<close>

fun wait_initialized :: "bgevt list \<Rightarrow> ((u8 \<times> u16 \<times> u32) \<times> bgevt list) option" where
  "wait_initialized [] = None"
| "wait_initialized (e # es) =
    (case e of evt_prov_initialized networks address ivi \<Rightarrow> Some ((networks, address, ivi), es)
     | _ \<Rightarrow> wait_initialized es)"

definition created :: "bgrsp \<Rightarrow> bool" where
  "created rsp = (rsp_result rsp = bg_err_success \<or> rsp_result rsp = bg_err_mesh_already_exists)"

definition new_netkey :: "env \<Rightarrow> sys \<Rightarrow> (error_code_t \<times> sys) option" where
  "new_netkey E s = do {
     sn \<leftarrow> subnet0 s;
     if k_done (netkey sn) \<noteq> 0 then Some (ec_success, s)
     else do {
       let (rsp, s) = bgcall E (cmd_prov_create_network (k_val (netkey sn))) s;
       if \<not> created rsp then Some (ec_bgrsp, s)
       else do {
         s \<leftarrow> upd_subnet0 (\<lambda>sn. sn\<lparr>netkey := (netkey sn)\<lparr>k_id := rsp_id rsp, k_done := 1\<rparr>\<rparr>) s;
         (e, s) \<leftarrow> provset_netkeyid E (rsp_id rsp) s;
         if e \<noteq> ec_success then Some (e, s)
         else do {
           (e, s) \<leftarrow> provset_netkeydone E 1 s;
           Some (e, s) } } } }"

fun new_appkeys_loop :: "env \<Rightarrow> nat list \<Rightarrow> nat \<Rightarrow> sys \<Rightarrow> ((error_code_t + nat) \<times> sys) option" where
  "new_appkeys_loop E [] tmp s = Some (Inr tmp, s)"
| "new_appkeys_loop E (i # is) tmp s = do {
     sn \<leftarrow> subnet0 s;
     k \<leftarrow> idx (appkey sn) i;
     if k_done k \<noteq> 0 then new_appkeys_loop E is (Suc tmp) s
     else do {
       let (rsp, s) = bgcall E (cmd_prov_create_appkey (k_id (netkey sn)) (k_val k)) s;
       if \<not> created rsp then new_appkeys_loop E is tmp s
       else do {
         s \<leftarrow> upd_subnet0 (\<lambda>sn. sn\<lparr>appkey := (appkey sn)[i := k\<lparr>k_id := rsp_id rsp, k_done := 1\<rparr>]\<rparr>) s;
         (e, s) \<leftarrow> provset_appkeyid E (k_refid k) (rsp_id rsp) s;
         if e \<noteq> ec_success then Some (Inl e, s)
         else do {
           (e, s) \<leftarrow> provset_appkeydone E (k_refid k) 1 s;
           if e \<noteq> ec_success then Some (Inl e, s)
           else new_appkeys_loop E is (Suc tmp) s } } } }"

definition new_appkeys :: "env \<Rightarrow> sys \<Rightarrow> (error_code_t \<times> sys) option" where
  "new_appkeys E s = do {
     sn \<leftarrow> subnet0 s;
     if k_done (netkey sn) = 0 then Some (ec_state, s)
     else do {
       (r, s) \<leftarrow> new_appkeys_loop E [0..<unat (appkey_num sn)] 0 s;
       case r of
         Inl e \<Rightarrow> Some (e, s)
       | Inr tmp \<Rightarrow> do {
           s \<leftarrow> upd_subnet0 (\<lambda>sn. sn\<lparr>active_appkey_num := of_nat tmp\<rparr>) s;
           Some (ec_success, s) } } }"

definition self_config :: "env \<Rightarrow> sys \<Rightarrow> sys" where
  "self_config E s =
    (let pc = self (db s);
         (ok, s) = (case p_net_txp pc of
             None \<Rightarrow> (True, s)
           | Some t \<Rightarrow> (let (rsp, s) = bgcall E (cmd_test_set_nettx (tx_cnt t) (tx_intv t)) s
                        in (rsp_result rsp = bg_err_success, s)))
     in if \<not> ok then s
        else case p_timeout pc of
          None \<Rightarrow> s
        | Some t \<Rightarrow> snd (bgcall E (cmd_set_default_timeout (to_normal t) (to_lpn t)) s))"

text \<open>
  The part of \<open>on_initialized_config\<close> before the keys: the address and IV index of a new network are
  the configured ones, those of a network the target already has replace the configured ones.
\<close>

definition sync_network :: "env \<Rightarrow> u8 \<Rightarrow> u16 \<Rightarrow> u32 \<Rightarrow> sys \<Rightarrow> (error_code_t \<times> sys) option" where
  "sync_network E networks address ivi s =
    (let pc = self (db s)
     in if networks = 0 \<and> (p_addr pc \<noteq> 0 \<or> p_ivi pc \<noteq> 0)
        then (let (rsp, s) = bgcall E (cmd_prov_initialize_network (p_addr pc) (p_ivi pc)) s
              in Some (if rsp_result rsp = bg_err_success
                          \<or> rsp_result rsp = bg_err_mesh_already_initialized
                       then ec_success else ec_bgrsp, s))
        else if networks = 0 then Some (ec_success, s)
        else if p_subnets_freed pc then undef
        else if (case p_subnets pc of None \<Rightarrow> True | Some sn \<Rightarrow> k_done (netkey sn) = 0)
        then Some (ec_state, s)
        else do {
          (e, s) \<leftarrow> (if address \<noteq> p_addr pc
                    then provset_addr E address (upd_self (\<lambda>pc. pc\<lparr>p_addr := address\<rparr>) s)
                    else Some (ec_success, s));
          if e \<noteq> ec_success then Some (e, s)
          else if ivi \<noteq> p_ivi pc
          then provset_ivi E ivi (upd_self (\<lambda>pc. pc\<lparr>p_ivi := ivi\<rparr>) s)
          else Some (ec_success, s) })"

definition on_initialized_config :: "env \<Rightarrow> u8 \<Rightarrow> u16 \<Rightarrow> u32 \<Rightarrow> sys \<Rightarrow> (error_code_t \<times> sys) option" where
  "on_initialized_config E networks address ivi s = do {
     (e, s) \<leftarrow> sync_network E networks address ivi s;
     if e \<noteq> ec_success then Some (e, s)
     else do {
       (e, s) \<leftarrow> new_netkey E s;
       if e \<noteq> ec_success then Some (e, s)
       else do {
         (e, s) \<leftarrow> new_appkeys E s;
         if e \<noteq> ec_success then Some (e, s) else Some (ec_success, self_config E s) } } }"

definition nwk_init :: "env \<Rightarrow> sys \<Rightarrow> (error_code_t \<times> sys) option" where
  "nwk_init E s = do {
     let (rsp, s) = bgcall E cmd_prov_init s;
     if rsp_result rsp \<noteq> bg_err_success then Some (ec_bgrsp, s)
     else do {
       ((networks, address, ivi), es) \<leftarrow> wait_initialized (evq s);
       let s = s\<lparr>evq := es, mng := (mng s)\<lparr>m_state := initialized\<rparr>\<rparr>;
       (e, s) \<leftarrow> on_initialized_config E networks address ivi s;
       if e \<noteq> ec_success then Some (e, s)
       else do {
         s \<leftarrow> mng_load_lists E (s\<lparr>mng := (mng s)\<lparr>m_state := configured\<rparr>\<rparr>);
         let (rsp, s) = bgcall E cmd_generic_client_init s;
         if rsp_result rsp \<noteq> bg_err_success then Some (ec_bgrsp, s)
         else do {
           let (rsp, s) = bgcall E cmd_sensor_client_init s;
           Some (if rsp_result rsp \<noteq> bg_err_success then ec_bgrsp else ec_success, s) } } } }"

definition bgevt_dflt_hdr :: "bgevt \<Rightarrow> bool" where
  "bgevt_dflt_hdr e = (case e of evt_adv_timeout \<Rightarrow> True | _ \<Rightarrow> False)"

end
