(* ===== verification/MngLoop.thy ===== *)
theory MngLoop
  imports AccEngine DevAdd DevBl Models JsonOpen Nwk
begin

unbundle bit_operations_syntax

text \<open>
  The manager, \<open>mng/mng.c\<close>, and the dispatch of events, \<open>mng/bgevt_hdr.c\<close>: the queue of commands, the
  order in which the work lists are taken (\<open>set_mng_state\<close>), the commands of the manager and the
  body of the main loop.
\<close>

subsection \<open>The command queue\<close>

text \<open>
  The items are linked from the head to the tail. Following a pointer to an item that is not allocated is
  undefined. \<open>wordexp\<close> of the C library splits a line into words or fails; it is a parameter.
\<close>

definition new_item :: "qitem_t \<Rightarrow> cmdq_t \<Rightarrow> nat \<times> cmdq_t" where
  "new_item it q = (q_fresh q, q\<lparr>q_mem := (q_mem q)(q_fresh q := Some it), q_fresh := Suc (q_fresh q)\<rparr>)"

definition set_next :: "nat \<Rightarrow> nat option \<Rightarrow> cmdq_t \<Rightarrow> cmdq_t option" where
  "set_next a p q =
    (case q_mem q a of
       None \<Rightarrow> undef
     | Some it \<Rightarrow> Some (q\<lparr>q_mem := (q_mem q)(a := Some (it\<lparr>qi_next := p\<rparr>))\<rparr>))"

definition cmd_enq :: "(string \<Rightarrow> string list option) \<Rightarrow> string \<Rightarrow> nat \<Rightarrow> sys \<Rightarrow> sys option" where
  "cmd_enq wordexp str offs s =
    (case wordexp str of
       None \<Rightarrow> Some s
     | Some w \<Rightarrow>
         (case new_item \<lparr>qi_offs = offs, qi_cmd = w, qi_next = None\<rparr> (cmdq s) of (qi, q) \<Rightarrow>
            (case q_tail q of
               Some tail \<Rightarrow> do {
                 q \<leftarrow> set_next tail (Some qi) q;
                 Some (s\<lparr>cmdq := q\<lparr>q_tail := Some qi\<rparr>\<rparr>) }
             | None \<Rightarrow> Some (s\<lparr>cmdq := q\<lparr>q_head := Some qi, q_tail := Some qi\<rparr>\<rparr>))))"

definition cmd_deq :: "sys \<Rightarrow> ((nat \<times> string list) option \<times> sys) option" where
  "cmd_deq s =
    (case q_head (cmdq s) of
       None \<Rightarrow> Some (None, s)
     | Some qi \<Rightarrow> do {
         it \<leftarrow> q_mem (cmdq s) qi;
         let q = (cmdq s)\<lparr>q_head := qi_next it\<rparr>;
         let q = (if q_head q = None then q\<lparr>q_tail := None\<rparr> else q);
         let q = q\<lparr>q_mem := (q_mem q)(qi := None)\<rparr>;
         Some (Some (qi_offs it, qi_cmd it), s\<lparr>cmdq := q\<rparr>) })"

subsection \<open>Scanning\<close>

definition clm_set_scan :: "env \<Rightarrow> int \<Rightarrow> sys \<Rightarrow> error_code_t \<times> sys" where
  "clm_set_scan E status s =
    (if free_mode (mng s) = status then (ec_success, s)
     else
       let (ok, s) = (if free_mode (mng s) = 0 \<and> status \<noteq> 0
              then (let (rsp, s) = bgcall E cmd_prov_scan_unprov_beacons s in (rsp_result rsp = bg_err_success, s))
              else if free_mode (mng s) \<noteq> 0 \<and> status = 0
              then (let (rsp, s) = bgcall E cmd_prov_stop_scan_unprov_beacons s in (rsp_result rsp = bg_err_success, s))
              else (True, s))
       in if \<not> ok then (ec_bgrsp, s)
          else (ec_success, s\<lparr>mng := (mng s)\<lparr>free_mode := status\<rparr>\<rparr>))"

subsection \<open>The state of the manager\<close>

definition set_state :: "mng_state_t \<Rightarrow> sys \<Rightarrow> sys" where
  "set_state st s = s\<lparr>mng := (mng s)\<lparr>m_state := st\<rparr>\<rparr>"

definition set_seq_offs :: "nat \<Rightarrow> sys \<Rightarrow> sys" where
  "set_seq_offs k s = s\<lparr>mng := (mng s)\<lparr>seq_offs := k\<rparr>\<rparr>"

text \<open>
  The first half of \<open>set_mng_state\<close>: whether the current kind of work is over. The blacklisting
  branch tests the list of nodes to remove.
\<close>

definition work_over :: "env \<Rightarrow> sys \<Rightarrow> bool \<times> sys" where
  "work_over E s =
    (let m = mng s
     in case m_state m of
          adding_devices_em \<Rightarrow>
            if l_add m \<noteq> [] then (False, s)
            else
              let s = (if free_mode m < 2 then snd (clm_set_scan E 0 s) else s);
                  s = stat_add_end E s
              in if l_config m \<noteq> [] \<or> used m \<noteq> 0 then (False, set_state configuring_devices_em s)
                 else (True, s)
        | configuring_devices_em \<Rightarrow>
            if l_config m \<noteq> [] \<or> used m \<noteq> 0 then (False, s) else (True, stat_config_end E s)
        | removing_devices_em \<Rightarrow>
            if l_rm m \<noteq> [] \<or> used m \<noteq> 0 then (False, s) else (True, stat_rm_end E s)
        | blacklisting_devices_em \<Rightarrow>
            if l_rm m \<noteq> [] \<or> bl_state (c_bl m) \<noteq> bl_idle then (False, s) else (True, s)
        | _ \<Rightarrow> (True, s))"

text \<open>
  The loop over the priorities, \<open>k\<close> of which are left: whether a kind of work was found. The offset
  stops after the priority that was taken.
\<close>

fun next_work :: "env \<Rightarrow> nat \<Rightarrow> sys \<Rightarrow> (bool \<times> sys) option" where
  "next_work E 0 s = Some (False, s)"
| "next_work E (Suc k) s = do {
     let m = mng s;
     p \<leftarrow> idx (prios m) (seq_offs m);
     let next = set_seq_offs (Suc (seq_offs m));
     if p = CHR ''a''
     then if l_add m \<noteq> []
          then Some (True, next (set_state adding_devices_em (stat_add_start E
                 (if free_mode m = 0 then snd (clm_set_scan E 1 s) else s))))
          else if l_config m \<noteq> [] then Some (True, next (set_state configuring_devices_em s))
          else next_work E k (next s)
     else if p = CHR ''r''
     then if l_rm m = [] then next_work E k (next s)
          else Some (True, next (set_state removing_devices_em s))
     else if p = CHR ''b''
     then if l_bl m = [] then next_work E k (next s)
          else Some (True, next (set_state blacklisting_devices_em s))
     else if p = CHR ''-'' then Some (False, s)
     else aborts }"

definition set_mng_state :: "env \<Rightarrow> sys \<Rightarrow> sys option" where
  "set_mng_state E s =
    (let st = m_state (mng s)
     in if mng_num st < mng_num starting \<or> mng_num st > mng_num blacklisting_devices_em then Some s
        else let (over, s) = work_over E s
        in if \<not> over then Some s
           else do {
             let s = (if st = starting then set_seq_offs 0 s else s);
             (loaded, s) \<leftarrow> next_work E (3 - seq_offs (mng s)) s;
             Some (if loaded then s else set_state configured (set_seq_offs 0 s)) })"

definition mng_init :: "sys \<Rightarrow> sys option" where
  "mng_init s = acc_init True (s\<lparr>mng := zero_mng\<lparr>m_conn := 0xff, prios := ''arb''\<rparr>\<rparr>)"

abbreviation (input) INVALID_CONN_HANDLE :: u8 where "INVALID_CONN_HANDLE \<equiv> 0xff"

definition clr_all :: "env \<Rightarrow> sys \<Rightarrow> (error_code_t \<times> sys) option" where
  "clr_all E s = do {
     (e, s) \<leftarrow> cfg_clrctl E s;
     if e \<noteq> ec_success then Some (e, s)
     else (
       let (ok, s) = (if m_conn (mng s) \<noteq> INVALID_CONN_HANDLE
              then (let (rsp, s) = bgcall E (cmd_le_connection_close (m_conn (mng s))) s
                    in if rsp_result rsp \<noteq> bg_err_success then (False, s)
                       else (True, s\<lparr>mng := (mng s)\<lparr>m_conn := INVALID_CONN_HANDLE\<rparr>\<rparr>))
              else (True, s))
       in if \<not> ok then Some (ec_bgrsp, s)
          else (let (rsp, s) = bgcall E cmd_flash_ps_erase_all s
                in Some (if rsp_result rsp \<noteq> bg_err_success then ec_bgrsp else ec_success, s))) }"

subsection \<open>The commands\<close>

text \<open>\<open>atoi\<close> on the strings of digits with an optional sign that the commands take.\<close>

definition dec_value :: "string \<Rightarrow> int" where
  "dec_value ds = foldl (\<lambda>n c. 10 * n + (of_char c - 48)) 0
     (takeWhile (\<lambda>c. dec_digit c \<noteq> None) ds)"

definition atoi :: "string \<Rightarrow> int" where
  "atoi v =
    (case dropWhile (\<lambda>c. c = CHR '' '' \<or> (9 \<le> (of_char c :: nat) \<and> of_char c \<le> (13 :: nat))) v of
       [] \<Rightarrow> 0
     | c # cs \<Rightarrow> if c = CHR ''-'' then - dec_value cs
                 else if c = CHR ''+'' then dec_value cs else dec_value (c # cs))"

definition clicb_sync :: "string list \<Rightarrow> sys \<Rightarrow> error_code_t \<times> sys" where
  "clicb_sync argv s =
    (let on = (if length argv > 1 then atoi (argv ! 1) else 1)
     in if on < 0 \<or> on > 1 then (ec_param_invalid, s)
        else if mng_num (m_state (mng s)) < mng_num starting \<and> on \<noteq> 0 then (ec_success, set_state starting s)
        else if mng_num (m_state (mng s)) \<ge> mng_num starting \<and> on = 0
        then (ec_success, set_seq_offs 3 (lists_clr s))
        else (ec_success, s))"

definition info_node :: "env \<Rightarrow> nref \<Rightarrow> sys \<Rightarrow> sys option" where
  "info_node E r s = do {
     n \<leftarrow> nderef s r;
     _ \<leftarrow> nodeget_cfgstr E (n_addr n) s;
     Some (snd (bgcall E (cmd_prov_ddb_get (n_uuid n)) s)) }"

fun info_args :: "env \<Rightarrow> string list \<Rightarrow> sys \<Rightarrow> sys option" where
  "info_args E [] s = Some s"
| "info_args E (a # as) s = do {
     r \<leftarrow> str2uint a 2;
     s \<leftarrow> (case r of
            Inl _ \<Rightarrow> Some s
          | Inr addr \<Rightarrow> (case cfgdb_node_get (of_nat addr) (db s) of
              None \<Rightarrow> Some s
            | Some n \<Rightarrow> info_node E n s));
     info_args E as s }"

definition clicb_info :: "env \<Rightarrow> string list \<Rightarrow> sys \<Rightarrow> (error_code_t \<times> sys) option" where
  "clicb_info E argv s = do {
     s \<leftarrow> (if length argv < 2 then Some s else info_args E (tl argv) s);
     Some (ec_success, s) }"

definition clicb_rmall :: "env \<Rightarrow> sys \<Rightarrow> (error_code_t \<times> sys) option" where
  "clicb_rmall E s =
    (if mng_num (m_state (mng s)) > mng_num configured then Some (ec_success, s)
     else do {
       (e, s) \<leftarrow> nodes_rmall E s;
       if e \<noteq> ec_success then Some (e, s)
       else do {
         (e, s) \<leftarrow> load_cfg_file E NW_NODES_CFG_FILE True s;
         if e \<noteq> ec_success then Some (e, s) else Some (ec_success, set_state starting s) } })"

definition clicb_rmblclr :: "env \<Rightarrow> sys \<Rightarrow> (error_code_t \<times> sys) option" where
  "clicb_rmblclr E s = do {
     (e, s) \<leftarrow> nodes_rmblclr E s;
     if e \<noteq> ec_success then Some (e, s) else load_cfg_file E NW_NODES_CFG_FILE True s }"

definition loglvl :: "string \<Rightarrow> char option" where
  "loglvl v = (case v of [] \<Rightarrow> None | c # _ \<Rightarrow> if c \<in> set ''ewmdv'' then Some c else None)"

text \<open>The threshold itself belongs to the logging, which is not modelled.\<close>

definition clicb_loglvlset :: "string list \<Rightarrow> error_code_t" where
  "clicb_loglvlset argv = (if length argv > 1 \<and> loglvl (argv ! 1) = None then ec_param_invalid else ec_success)"

definition seq_valid :: "string \<Rightarrow> bool" where
  "seq_valid sq = (\<forall>c \<in> set (take 3 sq). c \<in> set ''arb-'')"

definition clicb_seqset :: "string list \<Rightarrow> sys \<Rightarrow> error_code_t \<times> sys" where
  "clicb_seqset argv s =
    (if mng_num (m_state (mng s)) > mng_num configured then (ec_success, s)
     else if length argv \<noteq> 2 then (ec_param_invalid, s)
     else if length (argv ! 1) \<noteq> 3 \<or> \<not> seq_valid (argv ! 1) then (ec_param_invalid, s)
     else (ec_success, s\<lparr>mng := (mng s)\<lparr>prios := argv ! 1\<rparr>\<rparr>))"

definition clicb_freemode :: "env \<Rightarrow> string list \<Rightarrow> sys \<Rightarrow> error_code_t \<times> sys" where
  "clicb_freemode E argv s =
    (if length argv > 1
     then if argv ! 1 = ''on'' then clm_set_scan E 2 s
          else if argv ! 1 = ''off'' then clm_set_scan E 0 s
          else (ec_param_invalid, s)
     else clm_set_scan E 2 s)"

text \<open>\<open>commands[i].fn\<close> for the commands the manager handles; the first three are local to the CLI.\<close>

definition command_fn :: "env \<Rightarrow> nat \<Rightarrow> string list \<Rightarrow> sys \<Rightarrow> (error_code_t \<times> sys) option" where
  "command_fn E i argv s =
    (if i = 3 then Some (clicb_sync argv s)
     else if i = 4 then clicb_list E s
     else if i = 5 then clicb_info E argv s
     else if i = 6 then Some (clicb_freemode E argv s)
     else if i = 7 then clicb_rmall E s
     else if i = 8 then clicb_rmblclr E s
     else if i = 9 then Some (clicb_seqset argv s)
     else if i = 10 then Some (clicb_loglvlset argv, s)
     else if i = 11 then clicb_onoff argv s
     else if i = 12 then clicb_lightness argv s
     else if i = 13 then clicb_ct argv s
     else if i = 14 then Some (ec_success, s)
     else if i = 15 then Some (clicb_demo E argv s)
     else undef)"

definition poll_cmd :: "env \<Rightarrow> sys \<Rightarrow> sys option" where
  "poll_cmd E s = do {
     (qi, s) \<leftarrow> cmd_deq s;
     case qi of
       None \<Rightarrow> Some s
     | Some (i, w) \<Rightarrow> map_option snd (command_fn E i w s) }"

subsection \<open>Events\<close>

text \<open>The handlers in the order of \<open>hdrs[]\<close>; the first that handles the event ends the search.\<close>

definition handle_event :: "env \<Rightarrow> bgevt \<Rightarrow> sys \<Rightarrow> (bool \<times> sys) option" where
  "handle_event E e s = do {
     (h, s) \<leftarrow> dev_add_hdr E e s;
     if h then Some (True, s)
     else do {
       (h, s) \<leftarrow> dev_config_hdr E e s;
       if h then Some (True, s)
       else do {
         (h, s) \<leftarrow> bl_hdr E e s;
         if h then Some (True, s) else Some (bgevt_dflt_hdr e, s) } } }"

text \<open>
  The loop of \<open>bgevt_dispenser\<close> once host and target are in sync. The handlers take no event
  themselves.
\<close>

fun dispense :: "env \<Rightarrow> bgevt list \<Rightarrow> sys \<Rightarrow> sys option" where
  "dispense E [] s = Some s"
| "dispense E (e # es) s = do { (h, s) \<leftarrow> handle_event E e s; dispense E es s }"

definition bgevt_dispenser :: "env \<Rightarrow> sys \<Rightarrow> sys option" where
  "bgevt_dispenser E s = dispense E (evq s) (s\<lparr>evq := []\<rparr>)"

subsection \<open>The main loop\<close>

definition mng_work :: "env \<Rightarrow> sys \<Rightarrow> (bool \<times> sys) option" where
  "mng_work E s =
    (case m_state (mng s) of
       starting \<Rightarrow> do {
         let s = stat_reset s;
         modified \<leftarrow> file_modified NW_NODES_CFG_FILE s;
         s \<leftarrow> (if modified then map_option snd (load_cfg_file E NW_NODES_CFG_FILE False s)
               else mng_load_lists E s);
         Some (False, s) }
     | adding_devices_em \<Rightarrow> do {
         let (b, s) = add_loop E s;
         (b', s) \<leftarrow> acc_loop E s;
         Some (b \<or> b', s) }
     | configuring_devices_em \<Rightarrow> acc_loop E s
     | removing_devices_em \<Rightarrow> acc_loop E s
     | blacklisting_devices_em \<Rightarrow> bl_loop E s
     | _ \<Rightarrow> Some (False, s))"

text \<open>One turn of the loop of \<open>mng_mainloop\<close>.\<close>

definition mng_turn :: "env \<Rightarrow> sys \<Rightarrow> (bool \<times> sys) option" where
  "mng_turn E s = do {
     s \<leftarrow> poll_cmd E s;
     s \<leftarrow> bgevt_dispenser E s;
     (busy, s) \<leftarrow> mng_work E s;
     s \<leftarrow> set_mng_state E s;
     let (b, s) = models_loop E s;
     s \<leftarrow> demo_run E s;
     Some (busy \<or> b, s) }"

end
