(* ===== verification/Ctl.thy ===== *)
theory Ctl
  imports Slots MngLoop
begin

text \<open>
  The control part of the manager: the slots, the provisioning sessions, the priorities with the
  position in them, and the states of the engine. Most operations leave it alone; these facts say
  which. They carry the invariants of the manager over a whole turn of the main loop.
\<close>

definition ctlm :: "mng_t \<Rightarrow> u32 \<times> config_cache_t list \<times> add_cache_t list \<times> string \<times> nat" where
  "ctlm m = (used m, c_config m, c_add m, prios m, seq_offs m)"

abbreviation same_ctl :: "sys \<Rightarrow> sys \<Rightarrow> bool" where
  "same_ctl s s' \<equiv> acc s' = acc s \<and> ctlm (mng s') = ctlm (mng s)"

lemma ctlm_upd [simp]:
  "ctlm (m\<lparr>m_state := x1\<rparr>) = ctlm m" "ctlm (m\<lparr>m_conn := x2\<rparr>) = ctlm m" "ctlm (m\<lparr>free_mode := x3\<rparr>) = ctlm m"
  "ctlm (m\<lparr>m_oom := x4\<rparr>) = ctlm m" "ctlm (m\<lparr>oom_expired := x5\<rparr>) = ctlm m" "ctlm (m\<lparr>c_bl := x6\<rparr>) = ctlm m"
  "ctlm (m\<lparr>ms_type := x7\<rparr>) = ctlm m" "ctlm (m\<lparr>ms_value := x8\<rparr>) = ctlm m" "ctlm (m\<lparr>ms_nodes := x9\<rparr>) = ctlm m"
  "ctlm (m\<lparr>l_add := x10\<rparr>) = ctlm m" "ctlm (m\<lparr>l_config := x11\<rparr>) = ctlm m" "ctlm (m\<lparr>l_bl := x12\<rparr>) = ctlm m"
  "ctlm (m\<lparr>l_rm := x13\<rparr>) = ctlm m" "ctlm (m\<lparr>l_fail := x14\<rparr>) = ctlm m"
  by (simp_all add: ctlm_def)

lemma keeps_ctl: "keeps_mng s s' \<Longrightarrow> same_ctl s s'"
  by (simp add: keeps_mng_def)

subsection \<open>Files and database\<close>

lemma upd_self_mng [simp]: "mng (upd_self f s) = mng s" "acc (upd_self f s) = acc s"
  by (simp_all add: upd_self_def)

lemma set_gen_mng [simp]: "mng (set_gen fd g s) = mng s" "acc (set_gen fd g s) = acc s"
  by (cases fd; simp add: set_gen_def)+

lemma json_cfg_close_mng [simp]: "mng (json_cfg_close fd s) = mng s" "acc (json_cfg_close fd s) = acc s"
  by (auto simp: json_cfg_close_def Let_def)

lemma flush_ctl: "json_cfg_flush E fd s = Some (e, s') \<Longrightarrow> mng s' = mng s \<and> acc s' = acc s"
  using json_cfg_flush_keeps by (simp add: keeps_mng_def)

lemma file_replace_ctl: "file_replace fd p k v s = Some s' \<Longrightarrow> mng s' = mng s \<and> acc s' = acc s"
  using file_replace_keeps by (simp add: keeps_mng_def)

lemma upd_subnet0_ctl: "upd_subnet0 f s = Some s' \<Longrightarrow> mng s' = mng s \<and> acc s' = acc s"
  by (auto simp: upd_subnet0_def bind_Some_conv)

lemma upd_appkey_ctl: "upd_appkey key f k v s = Some s' \<Longrightarrow> mng s' = mng s \<and> acc s' = acc s"
  by (auto simp: upd_appkey_def bind_Some_conv split: option.splits dest!: upd_subnet0_ctl file_replace_ctl)

lemma clrctl_appkeys_ctl: "clrctl_appkeys ks s = Some s' \<Longrightarrow> mng s' = mng s \<and> acc s' = acc s"
proof (induction ks arbitrary: s)
  case (Cons k ks)
  then show ?case
    by (fastforce simp: bind_Some_conv provself_setappkeyid_def provself_setappkeydone_def dest: upd_appkey_ctl)
qed simp

lemmas provself_defs = provself_setaddr_def provself_setivi_def provself_setsynctime_def
  provself_setnetkeyid_def provself_setnetkeydone_def
  provself_setappkeyid_def provself_setappkeydone_def

lemma setnetkeyval_ctl: "provself_setnetkeyval v s = Some s' \<Longrightarrow> mng s' = mng s \<and> acc s' = acc s"
  by (cases "cbuf2str v False 33") (auto simp: provself_setnetkeyval_def bind_Some_conv split: if_splits
      dest!: file_replace_ctl upd_subnet0_ctl)

lemma provself_clrctl_ctl: "provself_clrctl s = Some s' \<Longrightarrow> mng s' = mng s \<and> acc s' = acc s"
  by (auto simp: provself_clrctl_def provself_defs bind_Some_conv
      dest!: file_replace_ctl upd_subnet0_ctl clrctl_appkeys_ctl)

lemma write_provself_ctl: "write_provself E w s = Some (e, s') \<Longrightarrow> mng s' = mng s \<and> acc s' = acc s"
proof -
  assume "write_provself E w s = Some (e, s')"
  then obtain s1 where 1: "(case w of
         wrt_prov_clrctl \<Rightarrow> provself_clrctl s
       | wrt_prov_addr data \<Rightarrow> provself_setaddr data s
       | wrt_prov_ivi data \<Rightarrow> provself_setivi data s
       | wrt_prov_synctime data \<Rightarrow> provself_setsynctime data s
       | wrt_prov_netkey_id data \<Rightarrow> provself_setnetkeyid data s
       | wrt_prov_netkey_val data \<Rightarrow> provself_setnetkeyval data s
       | wrt_prov_netkey_done data \<Rightarrow> provself_setnetkeydone data s
       | wrt_prov_appkey_id key data \<Rightarrow> provself_setappkeyid key data s
       | wrt_prov_appkey_done key data \<Rightarrow> provself_setappkeydone key data s) = Some s1"
    and 2: "mng s' = mng s1 \<and> acc s' = acc s1"
    by (auto simp: write_provself_def bind_Some_conv dest: flush_ctl split: if_splits)
  have "mng s1 = mng s \<and> acc s1 = acc s"
    using 1 by (cases w) (auto simp: provself_defs bind_Some_conv
        dest!: provself_clrctl_ctl setnetkeyval_ctl file_replace_ctl upd_subnet0_ctl upd_appkey_ctl)
  then show ?thesis using 2 by simp
qed

lemma json_write_prov_ctl: "json_write_prov E w s = Some (e, s') \<Longrightarrow> mng s' = mng s \<and> acc s' = acc s"
  by (auto simp: json_write_prov_def dest: write_provself_ctl split: if_splits)

lemma json_write_nodes_ctl: "json_write_nodes E w s = Some (e, s') \<Longrightarrow> mng s' = mng s \<and> acc s' = acc s"
  using json_write_nodes_keeps by (simp add: keeps_mng_def)

subsection \<open>Loading\<close>

lemma load_templates_ctl: "load_templates E add js s = Some (e, s') \<Longrightarrow> mng s' = mng s \<and> acc s' = acc s"
proof (induction js arbitrary: add s)
  case (Cons j js)
  show ?case
  proof (cases "obj_get j STR_REFID")
    case None
    then show ?thesis using Cons by auto
  next
    case (Some tmp)
    then obtain v x where x: "json_object_get_string E (Some tmp) = Some v" "str2uint v 2 = Some x"
      using Cons.prems by (auto simp: bind_Some_conv)
    show ?thesis
    proof (cases x)
      case (Inl e)
      then show ?thesis using Cons Some x by auto
    next
      case (Inr y)
      then obtain add d where "e \<noteq> ec_success \<and> s' = s\<lparr>db := d\<rparr>
          \<or> load_templates E add js (s\<lparr>db := d\<rparr>) = Some (e, s')"
        using Cons.prems Some x
        by (fastforce simp: bind_Some_conv Let_def split: option.splits if_splits prod.splits)
      then show ?thesis using Cons.IH by fastforce
    qed
  qed
qed simp

lemma load_node_db: "load_node E bl n s = Some s' \<Longrightarrow> \<exists>d. s' = s\<lparr>db := d\<rparr>"
proof -
  assume run: "load_node E bl n s = Some s'"
  obtain valid where v: "node_valid_check E n = Some valid"
    using run by (auto simp: load_node_def bind_Some_conv)
  show ?thesis
  proof (cases valid)
    case True
    then obtain sc where sc: "node_scalars E n = Some sc"
      using run v by (auto simp: load_node_def bind_Some_conv)
    show ?thesis
    proof (cases sc)
      case (Some x)
      obtain a u rb dn eb f where x: "x = (a, u, rb, dn, eb, f)" by (cases x) auto
      have last: "\<exists>d. s' = s\<lparr>db := d\<rparr>" if "(case p of (r, add, d) \<Rightarrow> F r add d) = Some s'"
        and "\<And>r add d. F r add d = Some s' \<Longrightarrow> \<exists>d. s' = s\<lparr>db := d\<rparr>" for p :: "nref \<times> bool \<times> cfgdb_t" and F
        using that by (cases p) auto
      show ?thesis
        using run unfolding load_node_def v sc Some x Let_def
        by (simp add: True split del: if_split)
          (erule last, auto simp: bind_Some_conv split: if_splits)
    qed (use run v True sc in \<open>auto simp: load_node_def intro: exI [of _ "db s"]\<close>)
  qed (use run v in \<open>auto simp: load_node_def intro: exI [of _ "db s"]\<close>)
qed

lemma load_node_ctl: "load_node E bl n s = Some s' \<Longrightarrow> mng s' = mng s \<and> acc s' = acc s"
  using load_node_db by fastforce

lemma load_node_arr_ctl: "load_node_arr E bl ns s = Some s' \<Longrightarrow> mng s' = mng s \<and> acc s' = acc s"
  by (induction ns arbitrary: s) (fastforce simp: bind_Some_conv dest: load_node_ctl)+

lemma load_nodes_ctl: "load_nodes E s = Some (e, s') \<Longrightarrow> mng s' = mng s \<and> acc s' = acc s"
  by (auto simp: load_nodes_def bind_Some_conv split: option.splits dest!: load_node_arr_ctl)

lemma load_primary_subnet_ctl: "load_primary_subnet E r s = Some (e, s') \<Longrightarrow> mng s' = mng s \<and> acc s' = acc s"
  by (auto simp: load_primary_subnet_def bind_Some_conv Let_def split: option.splits if_splits)

lemma with_num_cases: "with_num r bad f = Some x \<Longrightarrow> x = bad \<or> (\<exists>n. f n = Some x)"
  by (cases "the r") (auto simp: with_num_def bind_Some_conv)

lemma load_provself_ctl: "load_provself E s = Some (e, s') \<Longrightarrow> mng s' = mng s \<and> acc s' = acc s"
  by (auto simp: load_provself_def bind_Some_conv Let_def split: option.splits
      dest!: with_num_cases load_primary_subnet_ctl)

lemma load_template_ctl: "load_template E s = Some (e, s') \<Longrightarrow> mng s' = mng s \<and> acc s' = acc s"
  by (auto simp: load_template_def bind_Some_conv split: option.splits dest!: load_templates_ctl)

subsection \<open>Opening files\<close>

lemma open_members_ctl: "open_members E kvs s = Some (e, s') \<Longrightarrow> mng s' = mng s \<and> acc s' = acc s"
proof (induction kvs arbitrary: s)
  case (Cons kv kvs)
  obtain key val where kv: "kv = (key, val)" by (cases kv)
  show ?case
  proof (cases "key = STR_SUBNETS")
    case True
    then obtain ns x where x: "arr_items val = Some ns" "open_subnets E 0 ns = Some x"
      using Cons.prems kv by (auto simp: bind_Some_conv Let_def)
    show ?thesis
    proof (cases x)
      case (Inr sns)
      then have "open_members E kvs (s\<lparr>jcfg := (jcfg s)\<lparr>nw_subnet_num := length ns, nw_subnets := Some sns\<rparr>\<rparr>)
          = Some (e, s')" using Cons.prems kv True x by simp
      from Cons.IH [OF this] show ?thesis by simp
    qed (use Cons.prems kv True x in auto)
  qed (use Cons kv in \<open>fastforce split: if_splits\<close>)
qed simp

lemma open_json_file_ctl: "open_json_file E fd af s = Some (e, s') \<Longrightarrow> mng s' = mng s \<and> acc s' = acc s"
  unfolding open_json_file_def Let_def
  by (auto simp: bind_Some_conv split: if_splits dest!: open_members_ctl)

lemma new_json_file_ctl: "new_json_file E fd s = Some (e, s') \<Longrightarrow> mng s' = mng s \<and> acc s' = acc s"
  by (auto simp: new_json_file_def Let_def split: cfg_fd.splits dest!: flush_ctl)

lemma load_json_file_ctl: "load_json_file E fd c s = Some (e, s') \<Longrightarrow> mng s' = mng s \<and> acc s' = acc s"
  by (auto simp: load_json_file_def split: cfg_fd.splits if_splits
      dest!: load_template_ctl load_nodes_ctl load_provself_ctl)

lemma open_set_path_ctl: "open_set_path fd p fl s = Some s' \<Longrightarrow> mng s' = mng s \<and> acc s' = acc s"
  by (auto simp: open_set_path_def split: if_splits)

lemma open_create_ctl: "open_create E fd p fl s = Some (e, s') \<Longrightarrow> mng s' = mng s \<and> acc s' = acc s"
  by (auto simp: open_create_def split: if_splits dest!: new_json_file_ctl)

lemma json_cfg_open_ctl:
  assumes "json_cfg_open E fd p fl s = Some (e, s')"
  shows "mng s' = mng s \<and> acc s' = acc s"
proof (cases "open_set_path fd p fl s")
  case None
  then show ?thesis using assms by (simp add: json_cfg_open_def)
next
  case (Some s1)
  have reopen: "mng s' = mng t \<and> acc s' = acc t"
    if "do { (e, s) \<leftarrow> open_json_file E fd True t;
             (e, s) \<leftarrow> (if e \<noteq> ec_success then Some (e, s) else load_json_file E fd (FL_FORCE_RELOAD fl) s);
             Some (e, if e \<noteq> ec_success then json_cfg_close fd s else s) } = Some (e, s')" for t e
    using that by (auto simp: bind_Some_conv split: if_splits dest!: open_json_file_ctl load_json_file_ctl)
  have create: "mng t = mng s1 \<and> acc t = acc s1"
    if "(if fd = TEMPLATE_FILE then Some (ec_success, s1) else open_create E fd q fl s1) = Some (e, t)" for q e t
    using that by (auto split: if_splits dest!: open_create_ctl)
  obtain path where path: "fp (gen_from_fd fd s1) = Some path"
    using assms Some by (auto simp: json_cfg_open_def bind_Some_conv)
  show ?thesis
  proof (cases "fd = TEMPLATE_FILE \<and> disk s1 path = None")
    case True
    then show ?thesis using assms Some open_set_path_ctl [OF Some] path by (simp add: json_cfg_open_def)
  next
    case False
    then obtain e1 s2 where c: "(if fd = TEMPLATE_FILE then Some (ec_success, s1) else open_create E fd path fl s1)
        = Some (e1, s2)"
      using assms Some path by (auto simp: json_cfg_open_def bind_Some_conv split del: if_split)
    show ?thesis
    proof (cases "e1 = ec_success")
      case True
      then obtain latest where "(if synctime (gen_from_fd fd s2) \<noteq> 0 \<and> \<not> FL_FORCE_RELOAD fl
             then do { (_, mtime) \<leftarrow> disk s2 path; Some (mtime \<le> synctime (gen_from_fd fd s2)) }
             else Some False) = Some latest"
        using assms Some path False c
        by (auto simp: json_cfg_open_def Let_def bind_eq_Some_conv split del: if_split cong: if_cong)
      then have "latest \<and> s' = s2 \<or> (mng s' = mng s2 \<and> acc s' = acc s2)"
        using assms Some path False c True reopen
        by (cases latest) (auto simp: json_cfg_open_def Let_def split del: if_split)
      then show ?thesis using create [OF c] open_set_path_ctl [OF Some] by auto
    next
      case no: False
      then have "s' = json_cfg_close fd s2"
        using assms Some path False c by (simp add: json_cfg_open_def split del: if_split)
      then show ?thesis using create [OF c] open_set_path_ctl [OF Some] by simp
    qed
  qed
qed

lemma nodes_foreach_ctl: "nodes_foreach f s = Some s' \<Longrightarrow> mng s' = mng s \<and> acc s' = acc s"
  using nodes_foreach_keeps by (simp add: keeps_mng_def)

lemma json_write_clrctl_ctl: "json_write_clrctl E s = Some (e, s') \<Longrightarrow> mng s' = mng s \<and> acc s' = acc s"
  by (auto simp: json_write_clrctl_def nodes_clrctl_def nodes_clrctl_fields_def bind_Some_conv
      split: if_splits dest!: nodes_foreach_ctl flush_ctl json_cfg_open_ctl)

subsection \<open>Work lists\<close>

lemma list_nodes_ctl: "list_nodes E s = Some s' \<Longrightarrow> mng s' = mng s \<and> acc s' = acc s"
  by (auto simp: list_nodes_def bgcall_def bind_Some_conv split: if_splits)

lemma file_node_ctl [simp]: "ctlm (file_node r n m) = ctlm m"
  by (simp add: file_node_def)

lemma load_lists_ctl: "load_lists E r s = Some (b, s') \<Longrightarrow> same_ctl s s'"
proof -
  assume run: "load_lists E r s = Some (b, s')"
  then obtain n where "nderef s r = Some n" by (auto simp: load_lists_def bind_Some_conv)
  then show ?thesis using run
    by (cases "n_addr n = 0")
      (auto simp: load_lists_def bgcall_def bind_Some_conv dest: list_nodes_ctl split: if_splits)
qed

lemma foreach_lists_ctl: "foreach_lists E rs s = Some s' \<Longrightarrow> same_ctl s s'"
proof (induction rs arbitrary: s)
  case (Cons r rs)
  then obtain b s1 where 1: "load_lists E r s = Some (b, s1)"
    and 2: "(if b then Some s1 else foreach_lists E rs s1) = Some s'"
    by (auto simp: bind_Some_conv)
  show ?case using load_lists_ctl [OF 1] Cons.IH [of s1] 2 by (cases b) auto
qed simp

lemma lists_clr_ctl [simp]: "ctlm (mng (lists_clr s)) = ctlm (mng s)" "acc (lists_clr s) = acc s"
  by (simp_all add: lists_clr_def)

lemma mng_load_lists_ctl: "mng_load_lists E s = Some s' \<Longrightarrow> same_ctl s s'"
proof -
  have *: "cfg_load_mnglists E t = Some s' \<Longrightarrow> same_ctl t s'" for t
    using foreach_lists_ctl by (fastforce simp: cfg_load_mnglists_def bind_Some_conv)
  show "mng_load_lists E s = Some s' \<Longrightarrow> same_ctl s s'"
    using * [of "lists_clr s"] by (auto simp: mng_load_lists_def split: if_splits)
qed

lemma load_cfg_file_ctl:
  assumes "load_cfg_file E fd fr s = Some (e, s')"
  shows "same_ctl s s'"
proof -
  obtain e1 s1 where 1: "json_cfg_open E fd (Some (cfg_path fd))
      \<lparr>FL_CREATE = True, FL_TRUNC = False, FL_CLR_CTLFS = False, FL_FORCE_RELOAD = fr\<rparr> s = Some (e1, s1)"
    using assms by (auto simp: load_cfg_file_def bind_Some_conv)
  show ?thesis
  proof (cases "e1 = ec_success")
    case True
    then obtain s2 e2 where 2: "(if fd = NW_NODES_CFG_FILE then mng_load_lists E s1 else Some s1) = Some s2"
      and 3: "json_cfg_flush E fd s2 = Some (e2, s')"
      using assms 1 by (auto simp: load_cfg_file_def bind_Some_conv split del: if_split)
    have "same_ctl s1 s2" using 2 mng_load_lists_ctl by (cases "fd = NW_NODES_CFG_FILE") auto
    then show ?thesis using json_cfg_open_ctl [OF 1] flush_ctl [OF 3] by simp
  qed (use assms 1 json_cfg_open_ctl [OF 1] in \<open>simp add: load_cfg_file_def\<close>)
qed

end
