(* ===== verification/MngInv.thy ===== *)
theory MngInv
  imports Ctl
begin

text \<open>
  The invariant of the manager and its preservation by every operation of a turn of the main loop:
  the slots of the engine, the provisioning sessions, the priorities and the engine's states.
\<close>

definition prios_wf :: "mng_t \<Rightarrow> bool" where
  "prios_wf m \<longleftrightarrow> length (prios m) = 3 \<and> seq_valid (prios m) \<and> seq_offs m \<le> 3"

definition mng_inv :: "sys \<Rightarrow> bool" where
  "mng_inv s \<longleftrightarrow> acc_wf (mng s) \<and> add_wf s \<and> prios_wf (mng s)
    \<and> acc_started (acc s) \<and> acc_states (acc s) = default_states"

lemma same_ctl_inv: "same_ctl s s' \<Longrightarrow> mng_inv s' = mng_inv s"
  by (simp add: mng_inv_def ctlm_def acc_wf_def add_wf_def prios_wf_def)

lemma eng_rest_fields:
  assumes "eng_rest m' = eng_rest m"
  shows "c_add m' = c_add m" "prios m' = prios m" "seq_offs m' = seq_offs m"
  using arg_cong [OF assms, of c_add] arg_cong [OF assms, of prios] arg_cong [OF assms, of seq_offs]
  by (simp_all add: eng_rest_def)

lemma eng_step_inv: "eng_step s s' \<Longrightarrow> mng_inv s \<Longrightarrow> mng_inv s'"
  using eng_rest_fields [of "mng s'" "mng s"] by (auto simp: eng_step_def mng_inv_def add_wf_def prios_wf_def)

subsection \<open>Provisioning\<close>

text \<open>What the handlers of provisioning may do to the sessions, everything else of the control part fixed.\<close>

definition add_step :: "sys \<Rightarrow> sys \<Rightarrow> bool" where
  "add_step s s' \<longleftrightarrow> (add_wf s \<longrightarrow> add_wf s') \<and> acc s' = acc s
    \<and> (used (mng s'), c_config (mng s'), prios (mng s'), seq_offs (mng s'))
      = (used (mng s), c_config (mng s), prios (mng s), seq_offs (mng s))"

lemma add_step_inv: "add_step s s' \<Longrightarrow> mng_inv s \<Longrightarrow> mng_inv s'"
  by (simp add: add_step_def mng_inv_def acc_wf_def prios_wf_def)

lemma add_step_ctl: "same_ctl s s' \<Longrightarrow> add_step s s'"
  by (simp add: add_step_def ctlm_def add_wf_def)

lemma add_step_refl [simp]: "add_step s s"
  by (simp add: add_step_def)

lemma add_step_trans: "add_step a b \<Longrightarrow> add_step b c \<Longrightarrow> add_step a c"
  by (simp add: add_step_def)

lemma scan_ctl [simp]:
  "mng (stop_scan E s) = mng s" "acc (stop_scan E s) = acc s"
  "mng (scan_recover E s) = mng s" "acc (scan_recover E s) = acc s"
  by (simp_all add: stop_scan_def scan_recover_def bgcall_def)

lemma scan_recover_step: "add_step s (scan_recover E t) = add_step s t"
  by (simp add: add_step_def add_wf_def)

lemma rmcached_step: "add_step s (rmcached u s)"
  using rmcached_wf by (simp add: add_step_def rmcached_def)

lemma add_loop_step: "add_step s (snd (add_loop E s))"
  using add_loop_wf [of s E] by (simp add: add_step_def add_loop_def Let_def)

lemma open_session_wf:
  assumes "add_wf s" and "iscached (mng s) u = (None, Some k)"
    and "upd (c_add (mng s)) k \<lparr>ac_busy = True, ac_expired = t, ac_uuid = u\<rparr> = Some cs"
    and "c_add (mng s') = cs"
  shows "add_wf s'"
proof -
  have new: "u \<notin> set (sessions (c_add (mng s)))" and free: "\<not> ac_busy (c_add (mng s) ! k)"
    using assms(2) iscached_from_None iscached_from_free unfolding iscached_def by fastforce+
  have k: "k < length (c_add (mng s))" and cs: "cs = (c_add (mng s))[k := \<lparr>ac_busy = True, ac_expired = t, ac_uuid = u\<rparr>]"
    using assms(3) by simp_all
  have m: "mset (sessions cs) = add_mset u (mset (sessions (c_add (mng s))))"
    using sessions_upd [OF k free] unfolding cs by simp
  have "distinct (sessions cs)"
  proof -
    have "distinct (u # sessions (c_add (mng s)))" using new assms(1) by (simp add: add_wf_def)
    then show ?thesis using m by (metis mset.simps(2) mset_eq_imp_distinct_iff)
  qed
  then show ?thesis using assms(1,4) cs by (simp add: add_wf_def)
qed

lemma backlog_dev_ctl: "backlog_dev E u s = Some (e, s') \<Longrightarrow> mng s' = mng s \<and> acc s' = acc s"
  unfolding backlog_dev_def by (rule json_write_nodes_ctl)

lemma on_beacon_recv_step:
  assumes "on_beacon_recv E b u s = Some s'"
  shows "add_step s s'"
proof (cases "\<exists>k r. b \<noteq> 1 \<and> iscached (mng s) u = (None, Some k) \<and> cfgdb_unprov_dev_get u (db s) = Some r")
  case False
  then show ?thesis
    using assms by (auto simp: on_beacon_recv_def bind_Some_conv split: if_splits option.splits prod.splits
        dest!: backlog_dev_ctl intro: add_step_ctl)
next
  case True
  then obtain k r where k: "b \<noteq> 1" "iscached (mng s) u = (None, Some k)" "cfgdb_unprov_dev_get u (db s) = Some r"
    by blast
  then obtain n where n: "nderef s r = Some n" using assms by (auto simp: on_beacon_recv_def bind_Some_conv)
  show ?thesis
  proof (cases "n_rmorbl n = 0")
    case False
    then show ?thesis using assms k n by (simp add: on_beacon_recv_def)
  next
    case True
    then obtain kid where kid: "netkey_id s = Some kid"
      using assms k n by (auto simp: on_beacon_recv_def bind_Some_conv)
    let ?rsp = "ncp E (sent s) (cmd_prov_provision_device kid u)"
    have run: "on_beacon_recv E b u s = (let s = s\<lparr>sent := sent s @ [cmd_prov_provision_device kid u]\<rparr> in
        if rsp_result ?rsp = bg_err_out_of_memory then (
          let s = s\<lparr>mng := (mng s)\<lparr>m_oom := True, oom_expired := now E + OOM_DELAY_TIMEOUT\<rparr>\<rparr>
          in Some (if \<not> scan_need_recover s then stop_scan E (s\<lparr>scan_need_recover := True\<rparr>) else s))
        else if rsp_result ?rsp \<noteq> bg_err_success then Some s
        else do {
          cs \<leftarrow> upd (c_add (mng s)) k \<lparr>ac_busy = True, ac_expired = now E + ADD_NO_RSP_TIMEOUT, ac_uuid = u\<rparr>;
          let s = s\<lparr>mng := (mng s)\<lparr>c_add := cs\<rparr>\<rparr>;
          Some (if is_cache_full (mng s) then stop_scan E (s\<lparr>scan_need_recover := True\<rparr>) else s) })"
      using k n True kid by (simp add: on_beacon_recv_def bgcall_def Let_def)
    show ?thesis
    proof (cases "rsp_result ?rsp = bg_err_success")
      case True
      then obtain cs where cs: "upd (c_add (mng s)) k
          \<lparr>ac_busy = True, ac_expired = now E + ADD_NO_RSP_TIMEOUT, ac_uuid = u\<rparr> = Some cs"
        "c_add (mng s') = cs" "acc s' = acc s" "used (mng s') = used (mng s)" "c_config (mng s') = c_config (mng s)"
        "prios (mng s') = prios (mng s)" "seq_offs (mng s') = seq_offs (mng s)"
        using assms run by (auto simp: Let_def bind_Some_conv split: if_splits)
      then show ?thesis using open_session_wf [OF _ k(2) cs(1,2)] by (simp add: add_step_def)
    next
      case False
      then have "same_ctl s s'" using assms run by (auto simp: Let_def split: if_splits)
      then show ?thesis by (rule add_step_ctl)
    qed
  qed
qed

lemma upl_nodeset_addr_ctl: "upl_nodeset_addr E u a s = Some (e, s') \<Longrightarrow> mng s' = mng s \<and> acc s' = acc s"
  using upl_nodeset_addr_keeps by (simp add: keeps_mng_def)

lemma on_prov_success_step:
  assumes "on_prov_success E a u s = Some s'"
  shows "add_step s s'"
proof -
  obtain e s1 r where 1: "upl_nodeset_addr E u a s = Some (e, s1)"
    and s': "s' = scan_recover E (rmcached u (stat_add_one_dev
        (s1\<lparr>mng := (mng s1)\<lparr>l_add := remove1 r (l_add (mng s1)), l_config := l_config (mng s1) @ [r]\<rparr>\<rparr>)))"
    using assms by (auto simp: on_prov_success_def bind_Some_conv Let_def)
  let ?t = "stat_add_one_dev (s1\<lparr>mng := (mng s1)\<lparr>l_add := remove1 r (l_add (mng s1)), l_config := l_config (mng s1) @ [r]\<rparr>\<rparr>)"
  have "same_ctl s ?t" using upl_nodeset_addr_ctl [OF 1] by (simp add: stat_add_one_dev_def)
  then have "add_step s (rmcached u ?t)" using add_step_ctl rmcached_step add_step_trans by blast
  then show ?thesis unfolding s' by (simp add: scan_recover_step)
qed

lemma on_prov_failed_step: "add_step s (on_prov_failed E reason u s)"
proof (cases "reason = 7")
  case True
  then show ?thesis
    by (auto simp: on_prov_failed_def prov_failed_wa_def bgcall_def Let_def split: option.splits intro!: add_step_ctl)
next
  case False
  have "add_step s (stat_add_failed s)" by (rule add_step_ctl) (simp add: stat_add_failed_def)
  then have "add_step s (rmcached u (stat_add_failed s))" using rmcached_step add_step_trans by blast
  then show ?thesis using False by (simp add: on_prov_failed_def scan_recover_step)
qed

lemma dev_add_hdr_step: "dev_add_hdr E e s = Some (b, s') \<Longrightarrow> add_step s s'"
  by (auto simp: dev_add_hdr_def bind_Some_conv split: if_splits bgevt.splits
      intro: on_beacon_recv_step on_prov_success_step on_prov_failed_step)

subsection \<open>Blacklisting\<close>

lemma upd_bl_ctl [simp]: "ctlm (mng (upd_bl f s)) = ctlm (mng s)" "acc (upd_bl f s) = acc s"
  by (simp_all add: upd_bl_def)

lemma bl_push_ctl: "bl_push E cnt s = Some (k, s') \<Longrightarrow> same_ctl s s'"
proof (induction E cnt s arbitrary: k rule: bl_push.induct)
  case (1 E cnt s)
  note run = "1.prems" [unfolded bl_push.simps [of E cnt s]]
  obtain r n kid where first: "idx (l_bl (mng s)) (bl_offset (c_bl (mng s))) = Some r" "nderef s r = Some n"
    "netkey_id s = Some kid"
    using run by (auto split: option.splits simp: bind_Some_conv)
  let ?cmd = "cmd_prov_set_key_refresh_blacklist kid 1 (n_uuid n)"
  let ?s = "upd_bl (\<lambda>b. b\<lparr>bl_offset := Suc (bl_offset b)\<rparr>) (s\<lparr>sent := sent s @ [?cmd]\<rparr>)"
  have do_eq: "do { r \<leftarrow> idx (l_bl (mng s)) (bl_offset (c_bl (mng s))); n \<leftarrow> nderef s r; kid \<leftarrow> netkey_id s;
      Some (bgcall E (cmd_prov_set_key_refresh_blacklist kid 1 (n_uuid n)) s) } 
    = Some (ncp E (sent s) ?cmd, s\<lparr>sent := sent s @ [?cmd]\<rparr>)"
    using first by (simp add: bgcall_def)
  show ?case
  proof (cases "rsp_result (ncp E (sent s) ?cmd) = bg_err_success \<and> bl_offset (c_bl (mng ?s)) \<noteq> length (l_bl (mng ?s))")
    case True
    then have rec: "bl_push E (Suc cnt) ?s = Some (k, s')" using run unfolding do_eq by (simp add: Let_def)
    have "same_ctl ?s s'"
      using "1.IH" [OF do_eq refl _ refl _ rec] True by simp
    then show ?thesis by simp
  next
    case False
    then have "s' = s\<lparr>sent := sent s @ [?cmd]\<rparr> \<or> s' = ?s"
      using run unfolding do_eq by (auto simp: Let_def split: if_splits)
    then show ?thesis by auto
  qed
qed

lemma bl_till_oom_ctl: "bl_till_oom E s = Some (k, s') \<Longrightarrow> same_ctl s s'"
  by (auto simp: bl_till_oom_def bl_push_ctl split: if_splits)

lemma kr_start_ctl: "kr_start E s = Some (e, s') \<Longrightarrow> same_ctl s s'"
  by (auto simp: kr_start_def bgcall_def bind_Some_conv)

lemma load_remaining_nodes_ctl: "load_remaining_nodes s = Some s' \<Longrightarrow> same_ctl s s'"
  unfolding load_remaining_nodes_def Let_def
  by (cases "get_node_addrs (db s)") (auto simp: bind_Some_conv)

lemma nodes_bl_ctl: "nodes_bl E a s = Some (e, s') \<Longrightarrow> same_ctl s s'"
  using nodes_bl_keeps keeps_ctl by blast

lemma bl_nodes_loop_ctl: "bl_nodes_loop E is s = Some s' \<Longrightarrow> same_ctl s s'"
proof (induction "is" arbitrary: s)
  case (Cons i "is")
  then obtain a e s1 where "nodes_bl E a s = Some (e, s1)" "bl_nodes_loop E is s1 = Some s'"
    by (auto simp: bind_Some_conv)
  then show ?case using Cons.IH nodes_bl_ctl by fastforce
qed simp

lemma stat_bl_ctl [simp]:
  "acc (stat_bl_start E s) = acc s" "acc (stat_bl_end E s) = acc s"
  by (simp_all add: stat_bl_start_def stat_bl_end_def)

lemma on_bl_done_ctl: "on_bl_done E s = Some s' \<Longrightarrow> same_ctl s s'"
  by (auto simp: on_bl_done_def bind_Some_conv split: if_splits dest!: bl_nodes_loop_ctl)

lemma bl_loop_ctl: "bl_loop E s = Some (b, s') \<Longrightarrow> same_ctl s s'"
proof (cases "bl_state (c_bl (mng s))")
  case bl_idle
  assume run: "bl_loop E s = Some (b, s')"
  show ?thesis
  proof (cases "l_bl (mng s) = []")
    case True
    then show ?thesis using run bl_idle by (simp add: bl_loop_def)
  next
    case False
    let ?num = "int (cfgdb_get_devnum nodes_em (db (stat_bl_start E s))) - int (length (l_bl (mng (stat_bl_start E s))))"
    obtain s1 k s2 f where 1: "(if rem_nodes (c_bl (mng (stat_bl_start E s))) = None \<and> ?num \<noteq> 0
               then load_remaining_nodes (upd_bl (\<lambda>b. b\<lparr>rem_num := ?num,
                 rem_nodes := (if ?num < 0 then None
                               else Some (replicate (nat ?num) \<lparr>rn_node = None, rn_phase = 0\<rparr>))\<rparr>) (stat_bl_start E s))
               else Some (stat_bl_start E s)) = Some s1"
      and 2: "bl_till_oom E s1 = Some (k, s2)" and 3: "s' = upd_bl f s2"
      using run bl_idle False unfolding bl_loop_def Let_def
      by (auto simp: bind_Some_conv simp del: stat_ops_mng stat_ops_db split del: if_split)
    have "same_ctl (stat_bl_start E s) s1"
      using 1 load_remaining_nodes_ctl by (auto split: if_splits dest!: load_remaining_nodes_ctl)
    then show ?thesis using bl_till_oom_ctl [OF 2] 3 by simp
  qed
qed (auto simp: bl_loop_def bind_Some_conv split: if_splits
    dest!: bl_till_oom_ctl kr_start_ctl on_bl_done_ctl)

lemma kr_node_update_ctl: "kr_node_update ph u s = Some s' \<Longrightarrow> same_ctl s s'"
  by (auto simp: kr_node_update_def bind_Some_conv split: option.splits if_splits)

lemma set_netkey_ctl: "set_netkey f s = Some s' \<Longrightarrow> same_ctl s s'"
  by (auto simp: set_netkey_def bind_Some_conv)

lemma provset_ctl:
  "provset_netkeyid E k s = Some (e, s') \<Longrightarrow> same_ctl s s'"
  "provset_netkeyval E v s = Some (e, s') \<Longrightarrow> same_ctl s s'"
  "provset_netkeydone E d s = Some (e, s') \<Longrightarrow> same_ctl s s'"
  "provset_appkeyid E r k s = Some (e, s') \<Longrightarrow> same_ctl s s'"
  "provset_appkeydone E r d s = Some (e, s') \<Longrightarrow> same_ctl s s'"
  "provset_addr E a s = Some (e, s') \<Longrightarrow> same_ctl s s'"
  "provset_ivi E i s = Some (e, s') \<Longrightarrow> same_ctl s s'"
  by (auto simp: provset_netkeyid_def provset_netkeyval_def provset_netkeydone_def provset_appkeyid_def
      provset_appkeydone_def provset_addr_def provset_ivi_def dest: json_write_prov_ctl)

lemma kr_finish_ctl:
  assumes "kr_finish E key result s = Some s'"
  shows "same_ctl s s'"
proof (cases "result = 0")
  case True
  then obtain s1 e s2 kid where 1: "set_netkey (\<lambda>k. k\<lparr>k_id := key\<rparr>) (upd_bl (\<lambda>b. b\<lparr>bl_state := bl_done\<rparr>) s) = Some s1"
    and 2: "provset_netkeyid E key s1 = Some (e, s2)"
    and 3: "(let (rsp, s) = bgcall E (cmd_test_get_key kid mesh_test_key_type_net) s2 in
       if rsp_result rsp \<noteq> bg_err_success then Some s
       else do {
         s \<leftarrow> set_netkey (\<lambda>k. k\<lparr>k_val := take 16 (rsp_key rsp)\<rparr>) s;
         sn \<leftarrow> subnet0 s;
         (e, s) \<leftarrow> provset_netkeyval E (k_val (netkey sn)) s;
         Some s }) = Some s'"
    using assms by (auto simp: kr_finish_def bind_Some_conv simp del: split_paired_Ex split del: if_split)
  have "same_ctl s2 s'"
    using 3 by (auto simp: bgcall_def bind_Some_conv Let_def split: if_splits dest!: set_netkey_ctl provset_ctl)
  then show ?thesis using set_netkey_ctl [OF 1] provset_ctl(1) [OF 2] by simp
qed (use assms in \<open>auto simp: kr_finish_def\<close>)

lemma bl_hdr_ctl: "bl_hdr E e s = Some (b, s') \<Longrightarrow> same_ctl s s'"
  by (auto simp: bl_hdr_def bind_Some_conv split: if_splits bgevt.splits dest: kr_node_update_ctl kr_finish_ctl)

end
