(* ===== verification/MngTurn.thy ===== *)
theory MngTurn
  imports MngInv
begin

text \<open>
  The invariant of the manager over a whole turn of the main loop, and over every run: the commands,
  the models, the events, the kind of work and the change of the manager's state.
\<close>

subsection \<open>Commands\<close>

lemma bgcall_ctl: "bgcall E c s = (r, s') \<Longrightarrow> mng s' = mng s \<and> acc s' = acc s"
  by (auto simp: bgcall_def)

lemma clm_set_scan_ctl: "clm_set_scan E st s = (e, s') \<Longrightarrow> same_ctl s s'"
  by (auto simp: clm_set_scan_def Let_def split: if_splits prod.splits dest!: bgcall_ctl)

lemma clm_set_scan_snd [simp]:
  "ctlm (mng (snd (clm_set_scan E st s))) = ctlm (mng s)" "acc (snd (clm_set_scan E st s)) = acc s"
  using clm_set_scan_ctl [of E st s] by (metis surjective_pairing)+

lemma info_args_ctl: "info_args E as s = Some s' \<Longrightarrow> same_ctl s s'"
proof (induction as arbitrary: s)
  case (Cons a as)
  obtain r s1 where r: "str2uint a 2 = Some r"
    and 1: "(case r of Inl _ \<Rightarrow> Some s
        | Inr addr \<Rightarrow> (case cfgdb_node_get (of_nat addr) (db s) of None \<Rightarrow> Some s
            | Some n \<Rightarrow> info_node E n s)) = Some s1"
    and 2: "info_args E as s1 = Some s'"
    using Cons.prems by (auto simp: bind_Some_conv simp del: split_paired_Ex)
  have "same_ctl s s1"
    using 1 by (auto simp: info_node_def bgcall_def bind_Some_conv split: sum.splits option.splits)
  then show ?case using Cons.IH [OF 2] by simp
qed simp

lemma send_model_ctl: "send_model E ty a v s = (r, s') \<Longrightarrow> mng s' = mng s \<and> acc s' = acc s"
  by (auto simp: send_model_def send_onoff_def send_lightness_def send_ctl_def client_set_def
      split: if_splits prod.splits dest!: bgcall_ctl)

lemma models_loop_ctl: "models_loop E s = (b, s') \<Longrightarrow> same_ctl s s'"
  by (auto simp: models_loop_def Let_def split: list.splits if_splits prod.splits dest!: send_model_ctl)

lemma model_set_nodes_ctl: "model_set_nodes f ty argv s = Some (e, s') \<Longrightarrow> same_ctl s s'"
  by (auto simp: model_set_nodes_def bind_Some_conv Let_def split: option.splits if_splits)

lemma clicb_perc_set_ctl:
  assumes "clicb_perc_set ty argv s = Some (e, s')"
  shows "same_ctl s s'"
proof (cases "ms_type (mng s) \<noteq> 0 \<or> length argv < 2")
  case False
  then obtain r where r: "str2uint (argv ! 1) 1 = Some r"
    using assms by (auto simp: clicb_perc_set_def bind_Some_conv split: if_splits)
  then show ?thesis using assms False
    by (cases r) (auto simp: clicb_perc_set_def Let_def split: if_splits dest!: model_set_nodes_ctl)
qed (use assms in \<open>auto simp: clicb_perc_set_def split: if_splits\<close>)

lemma clicb_light_ctl:
  "clicb_onoff argv s = Some (e, s') \<Longrightarrow> same_ctl s s'"
  "clicb_lightness argv s = Some (e, s') \<Longrightarrow> same_ctl s s'"
  "clicb_ct argv s = Some (e, s') \<Longrightarrow> same_ctl s s'"
  by (auto simp: clicb_onoff_def clicb_lightness_def clicb_ct_def split: if_splits
      dest!: model_set_nodes_ctl clicb_perc_set_ctl)

lemma demo_steps_ctl: "demo_steps E is s = Some s' \<Longrightarrow> same_ctl s s'"
proof (induction "is" arbitrary: s)
  case (Cons i "is")
  then obtain w e s1 where 1: "clicb_lightness w s = Some (e, s1)"
    and 2: "demo_steps E is (snd (models_loop E s1)) = Some s'"
    by (auto simp: bind_Some_conv)
  have "same_ctl s1 (snd (models_loop E s1))" using models_loop_ctl by (metis surjective_pairing)
  then show ?case using Cons.IH [OF 2] clicb_light_ctl(2) [OF 1] by simp
qed simp

lemma demo_run_ctl: "demo_run E s = Some s' \<Longrightarrow> same_ctl s s'"
  by (auto simp: demo_run_def roll_def bind_Some_conv split: if_splits dest!: demo_steps_ctl)

lemma nodes_rm_all_ctl:
  "nodes_rmall E s = Some (e, s') \<Longrightarrow> same_ctl s s'" "nodes_rmblclr E s = Some (e, s') \<Longrightarrow> same_ctl s s'"
  by (auto simp: nodes_rmall_def nodes_rmblclr_def dest!: json_write_nodes_ctl)

lemma clicb_rmall_ctl: "clicb_rmall E s = Some (e, s') \<Longrightarrow> same_ctl s s'"
  by (auto simp: clicb_rmall_def bind_Some_conv set_state_def split: if_splits
      dest!: nodes_rm_all_ctl load_cfg_file_ctl)

lemma clicb_rmblclr_ctl: "clicb_rmblclr E s = Some (e, s') \<Longrightarrow> same_ctl s s'"
  by (auto simp: clicb_rmblclr_def bind_Some_conv split: if_splits dest!: nodes_rm_all_ctl load_cfg_file_ctl)

text \<open>What a command may do to the priorities.\<close>

definition prio_step :: "sys \<Rightarrow> sys \<Rightarrow> bool" where
  "prio_step s s' \<longleftrightarrow> (prios_wf (mng s) \<longrightarrow> prios_wf (mng s')) \<and> acc s' = acc s
    \<and> (used (mng s'), c_config (mng s'), c_add (mng s')) = (used (mng s), c_config (mng s), c_add (mng s))"

lemma prio_step_inv: "prio_step s s' \<Longrightarrow> mng_inv s \<Longrightarrow> mng_inv s'"
  by (simp add: prio_step_def mng_inv_def acc_wf_def add_wf_def)

lemma prio_step_ctl: "same_ctl s s' \<Longrightarrow> prio_step s s'"
  by (simp add: prio_step_def ctlm_def prios_wf_def)

lemma prio_step_trans: "prio_step a b \<Longrightarrow> prio_step b c \<Longrightarrow> prio_step a c"
  by (simp add: prio_step_def)

lemma set_seq_offs_step: "k \<le> 3 \<Longrightarrow> prio_step s (set_seq_offs k s)"
  by (simp add: prio_step_def set_seq_offs_def prios_wf_def)

lemma set_state_ctl [simp]: "ctlm (mng (set_state st s)) = ctlm (mng s)" "acc (set_state st s) = acc s"
  by (simp_all add: set_state_def)

lemma clicb_sync_step:
  assumes "clicb_sync argv s = (e, s')"
  shows "prio_step s s'"
proof -
  have "s' = s \<or> s' = set_state starting s \<or> s' = set_seq_offs 3 (lists_clr s)"
    using assms by (auto simp: clicb_sync_def Let_def split: if_splits)
  moreover have "prio_step s (set_seq_offs 3 (lists_clr s))"
    by (rule prio_step_trans [OF prio_step_ctl set_seq_offs_step]) simp_all
  ultimately show ?thesis by (auto intro: prio_step_ctl)
qed

lemma clicb_seqset_step: "clicb_seqset argv s = (e, s') \<Longrightarrow> prio_step s s'"
  by (auto simp: clicb_seqset_def prio_step_def prios_wf_def split: if_splits)

lemma clicb_demo_ctl: "clicb_demo E argv s = (e, s') \<Longrightarrow> same_ctl s s'"
  by (auto simp: clicb_demo_def demo_start_def split: if_splits)

lemma clicb_freemode_ctl: "clicb_freemode E argv s = (e, s') \<Longrightarrow> same_ctl s s'"
  by (auto simp: clicb_freemode_def split: if_splits dest: clm_set_scan_ctl)

lemma clicb_info_ctl: "clicb_info E argv s = Some (e, s') \<Longrightarrow> same_ctl s s'"
  by (auto simp: clicb_info_def bind_Some_conv split: if_splits dest: info_args_ctl)

lemma clicb_list_ctl: "clicb_list E s = Some (e, s') \<Longrightarrow> same_ctl s s'"
  by (auto simp: clicb_list_def bind_Some_conv dest: list_nodes_ctl)

lemma command_fn_step:
  assumes "command_fn E i argv s = Some (e, s')"
  shows "prio_step s s'"
proof -
  have "same_ctl s s' \<or> prio_step s s'"
    using assms unfolding command_fn_def
    by (auto split: if_splits dest: clicb_list_ctl clicb_info_ctl clicb_freemode_ctl clicb_rmall_ctl
        clicb_rmblclr_ctl clicb_light_ctl clicb_demo_ctl clicb_sync_step clicb_seqset_step)
  then show ?thesis using prio_step_ctl by blast
qed

lemma cmd_deq_ctl: "cmd_deq s = Some (q, s') \<Longrightarrow> same_ctl s s'"
  by (auto simp: cmd_deq_def bind_Some_conv Let_def split: option.splits)

lemma poll_cmd_step: "poll_cmd E s = Some s' \<Longrightarrow> prio_step s s'"
proof -
  assume run: "poll_cmd E s = Some s'"
  then obtain q s1 where 1: "cmd_deq s = Some (q, s1)" by (auto simp: poll_cmd_def bind_Some_conv)
  show ?thesis
  proof (cases q)
    case None
    then show ?thesis using run 1 cmd_deq_ctl [OF 1] prio_step_ctl by (simp add: poll_cmd_def)
  next
    case (Some iw)
    then obtain i w e where "command_fn E i w s1 = Some (e, s')"
      using run 1 by (cases iw) (auto simp: poll_cmd_def)
    then show ?thesis using command_fn_step prio_step_ctl [OF cmd_deq_ctl [OF 1]] prio_step_trans by blast
  qed
qed

subsection \<open>Events\<close>

lemma handle_event_inv:
  assumes "handle_event E e s = Some (b, s')" and "mng_inv s"
  shows "mng_inv s'"
proof -
  obtain h1 s1 where 1: "dev_add_hdr E e s = Some (h1, s1)"
    using assms(1) by (auto simp: handle_event_def bind_Some_conv)
  note inv1 = add_step_inv [OF dev_add_hdr_step [OF 1] assms(2)]
  show ?thesis
  proof (cases h1)
    case False
    then obtain h2 s2 where 2: "dev_config_hdr E e s1 = Some (h2, s2)"
      using assms(1) 1 by (auto simp: handle_event_def bind_Some_conv)
    note inv2 = eng_step_inv [OF dev_config_hdr_step [OF 2] inv1]
    show ?thesis
    proof (cases h2)
      case False
      then obtain h3 where 3: "bl_hdr E e s2 = Some (h3, s')"
        using assms(1) 1 2 \<open>\<not> h1\<close> by (auto simp: handle_event_def bind_Some_conv split: if_splits)
      show ?thesis using same_ctl_inv [OF bl_hdr_ctl [OF 3]] inv2 by simp
    qed (use assms(1) 1 2 False inv2 in \<open>simp add: handle_event_def\<close>)
  qed (use assms(1) 1 inv1 in \<open>simp add: handle_event_def\<close>)
qed

lemma dispense_inv: "dispense E es s = Some s' \<Longrightarrow> mng_inv s \<Longrightarrow> mng_inv s'"
  by (induction es arbitrary: s) (auto simp: bind_Some_conv dest: handle_event_inv)

lemma same_ctl_evq: "mng_inv (s\<lparr>evq := q\<rparr>) = mng_inv s"
  by (rule same_ctl_inv) simp

lemma bgevt_dispenser_inv: "bgevt_dispenser E s = Some s' \<Longrightarrow> mng_inv s \<Longrightarrow> mng_inv s'"
  unfolding bgevt_dispenser_def using dispense_inv same_ctl_evq by blast

subsection \<open>The kind of work\<close>

lemma acc_loop_inv: "acc_loop E s = Some (b, s') \<Longrightarrow> mng_inv s \<Longrightarrow> mng_inv s'"
  using acc_loop_step eng_step_inv by (metis mng_inv_def)

lemma add_loop_inv: "mng_inv s \<Longrightarrow> mng_inv (snd (add_loop E s))"
  using add_loop_step add_step_inv by blast

lemma stat_reset_ctl [simp]: "acc (stat_reset s) = acc s"
  by (simp add: stat_reset_def)

lemma mng_work_inv:
  assumes "mng_work E s = Some (b, s')" and "mng_inv s"
  shows "mng_inv s'"
proof (cases "m_state (mng s)")
  case starting
  then obtain modified where "(if modified then map_option snd (load_cfg_file E NW_NODES_CFG_FILE False (stat_reset s))
      else mng_load_lists E (stat_reset s)) = Some s'"
    using assms(1) by (auto simp: mng_work_def bind_Some_conv Let_def split del: if_split)
  then have "same_ctl (stat_reset s) s'"
    by (auto split: if_splits dest!: load_cfg_file_ctl mng_load_lists_ctl)
  then have "same_ctl s s'" by simp
  then show ?thesis using same_ctl_inv assms(2) by blast
next
  case adding_devices_em
  then obtain b1 where "acc_loop E (snd (add_loop E s)) = Some (b1, s')"
    using assms(1) by (auto simp: mng_work_def bind_Some_conv Let_def split: prod.splits)
  then show ?thesis using acc_loop_inv add_loop_inv assms(2) by blast
next
  case blacklisting_devices_em
  then have "same_ctl s s'" using assms(1) bl_loop_ctl by (simp add: mng_work_def)
  then show ?thesis using same_ctl_inv assms(2) by blast
qed (use assms acc_loop_inv in \<open>auto simp: mng_work_def\<close>)

subsection \<open>The state of the manager\<close>

lemma stat_ends_ctl [simp]:
  "acc (stat_add_start E s) = acc s" "acc (stat_add_end E s) = acc s" "acc (stat_config_end E s) = acc s"
  "acc (stat_rm_end E s) = acc s"
  by (simp_all add: stat_add_start_def stat_add_end_def stat_config_end_def stat_rm_end_def)

lemma work_over_ctl: "work_over E s = (b, s') \<Longrightarrow> same_ctl s s'"
  by (auto simp: work_over_def Let_def split: mng_state_t.splits if_splits)

lemma prios_wf_idx:
  assumes "prios_wf m" and "seq_offs m < 3"
  obtains p where "idx (prios m) (seq_offs m) = Some p" "p \<in> set ''arb-''"
proof -
  have "prios m ! seq_offs m \<in> set (take 3 (prios m))" using assms by (simp add: prios_wf_def)
  then have "prios m ! seq_offs m \<in> set ''arb-''" using assms(1) unfolding prios_wf_def seq_valid_def by blast
  then show ?thesis using that assms by (simp add: prios_wf_def)
qed

lemma next_work_step:
  assumes "prios_wf (mng s)" and "k + seq_offs (mng s) \<le> 3"
  shows "\<exists>b s'. next_work E k s = Some (b, s') \<and> prio_step s s'"
  using assms
proof (induction k arbitrary: s)
  case 0
  show ?case by (intro exI [of _ False] exI [of _ s]) (simp add: prio_step_def)
next
  case (Suc k)
  obtain p where p: "idx (prios (mng s)) (seq_offs (mng s)) = Some p" "p \<in> set ''arb-''"
    using prios_wf_idx [OF Suc.prems(1)] Suc.prems(2) by auto
  let ?next = "set_seq_offs (Suc (seq_offs (mng s)))"
  have move: "prio_step s (?next t)" if "same_ctl s t" for t
    using prio_step_trans [OF prio_step_ctl [OF that]] set_seq_offs_step Suc.prems(2) by simp
  have "prio_step s (?next s)" by (rule move) simp
  then have "prios_wf (mng (?next s))" "k + seq_offs (mng (?next s)) \<le> 3"
    using Suc.prems by (simp_all add: prio_step_def) (simp add: set_seq_offs_def)
  from Suc.IH [OF this] obtain b s' where "next_work E k (?next s) = Some (b, s')" "prio_step (?next s) s'" by blast
  then have rec: "\<exists>b s'. next_work E k (?next s) = Some (b, s') \<and> prio_step s s'"
    using prio_step_trans [OF \<open>prio_step s (?next s)\<close>] by blast
  have refl: "prio_step s s" by (simp add: prio_step_def)
  show ?case
  proof (cases "p = CHR ''-''")
    case True
    then show ?thesis using p(1) refl by (intro exI [of _ False] exI [of _ s]) (simp add: Let_def)
  next
    case False
    then show ?thesis using p rec move by (simp add: Let_def) (elim disjE; simp add: ex_bool_eq)
  qed
qed

lemma set_mng_state_runs:
  assumes "mng_inv s"
  shows "\<exists>s'. set_mng_state E s = Some s' \<and> mng_inv s'"
proof -
  let ?st = "m_state (mng s)"
  obtain over t where t: "work_over E s = (over, t)" by (cases "work_over E s")
  have same: "same_ctl s t" by (rule work_over_ctl [OF t])
  then have inv: "mng_inv t" using same_ctl_inv assms by blast
  show ?thesis
  proof (cases "mng_num ?st < mng_num starting \<or> mng_num ?st > mng_num blacklisting_devices_em \<or> \<not> over")
    case True
    then show ?thesis using assms inv t by (auto simp: set_mng_state_def Let_def)
  next
    case False
    let ?u = "if ?st = starting then set_seq_offs 0 t else t"
    have u: "mng_inv ?u" using inv prio_step_inv [OF set_seq_offs_step [of 0 t]] by simp
    then have "prios_wf (mng ?u)" by (simp add: mng_inv_def)
    then have "3 - seq_offs (mng ?u) + seq_offs (mng ?u) \<le> 3" by (simp add: prios_wf_def)
    from next_work_step [OF \<open>prios_wf (mng ?u)\<close> this, of E]
    obtain b v where v: "next_work E (3 - seq_offs (mng ?u)) ?u = Some (b, v)" "prio_step ?u v" by blast
    then have vi: "mng_inv v" using prio_step_inv u by blast
    have "prio_step v (set_state configured (set_seq_offs 0 v))"
      by (rule prio_step_trans [OF set_seq_offs_step prio_step_ctl]) (rule zero_le, simp)
    then have "mng_inv (set_state configured (set_seq_offs 0 v))" using prio_step_inv vi by blast
    then show ?thesis using False v t vi by (auto simp: set_mng_state_def Let_def)
  qed
qed

subsection \<open>A turn\<close>

lemma mng_turn_inv:
  assumes "mng_turn E s = Some (b, s')" and "mng_inv s"
  shows "mng_inv s'"
proof -
  obtain s1 s2 b2 s3 s4 s5 where 1: "poll_cmd E s = Some s1" and 2: "bgevt_dispenser E s1 = Some s2"
    and 3: "mng_work E s2 = Some (b2, s3)" and 4: "set_mng_state E s3 = Some s4"
    and 5: "s5 = snd (models_loop E s4)" and 6: "demo_run E s5 = Some s'"
    using assms(1) unfolding mng_turn_def by (simp add: bind_Some_conv Let_def case_prod_unfold) blast
  have "mng_inv s3"
    using prio_step_inv [OF poll_cmd_step [OF 1] assms(2)] bgevt_dispenser_inv [OF 2] mng_work_inv [OF 3] by blast
  then have "mng_inv s4" using set_mng_state_runs [of s3 E] 4 by auto
  moreover have "same_ctl s4 s5" unfolding 5 using models_loop_ctl by (metis surjective_pairing)
  moreover have "same_ctl s5 s'" by (rule demo_run_ctl [OF 6])
  ultimately show ?thesis using same_ctl_inv by blast
qed

subsection \<open>Start-up\<close>

lemma same_ctl_upd_subnet0: "upd_subnet0 f s = Some s' \<Longrightarrow> same_ctl s s'"
  using upd_subnet0_ctl by fastforce

lemma new_netkey_ctl: "new_netkey E s = Some (e, s') \<Longrightarrow> same_ctl s s'"
  by (auto simp: new_netkey_def bgcall_def bind_Some_conv Let_def split: if_splits
      dest!: same_ctl_upd_subnet0 provset_ctl)

lemma new_appkeys_loop_ctl: "new_appkeys_loop E is k s = Some (r, s') \<Longrightarrow> same_ctl s s'"
proof (induction "is" arbitrary: k s)
  case (Cons i "is")
  obtain sn ak where sn: "subnet0 s = Some sn" "idx (appkey sn) i = Some ak"
    using Cons.prems by (auto simp: bind_Some_conv)
  let ?cmd = "cmd_prov_create_appkey (k_id (netkey sn)) (k_val ak)"
  let ?s = "s\<lparr>sent := sent s @ [?cmd]\<rparr>" and ?rsp = "ncp E (sent s) ?cmd"
  have call: "bgcall E ?cmd s = (?rsp, ?s)" by (simp add: bgcall_def)
  show ?case
  proof (cases "k_done ak = 0 \<and> created ?rsp")
    case False
    then obtain k' t where "new_appkeys_loop E is k' t = Some (r, s')" "same_ctl s t"
      using Cons.prems sn call by (cases "k_done ak = 0") auto
    then show ?thesis using Cons.IH by fastforce
  next
    case True
    then obtain s1 e1 s2 where 1: "upd_subnet0 (\<lambda>sn. sn\<lparr>appkey := (appkey sn)[i := ak\<lparr>k_id := rsp_id ?rsp, k_done := 1\<rparr>]\<rparr>) ?s = Some s1"
      and 2: "provset_appkeyid E (k_refid ak) (rsp_id ?rsp) s1 = Some (e1, s2)"
      and 3: "(if e1 \<noteq> ec_success then Some (Inl e1, s2)
         else do {
           (e, s) \<leftarrow> provset_appkeydone E (k_refid ak) 1 s2;
           if e \<noteq> ec_success then Some (Inl e, s)
           else new_appkeys_loop E is (Suc k) s }) = Some (r, s')"
      using Cons.prems sn call by (auto simp: bind_Some_conv simp del: split_paired_Ex split del: if_split)
    have a: "same_ctl s s2" using same_ctl_upd_subnet0 [OF 1] provset_ctl(4) [OF 2] by simp
    show ?thesis
    proof (cases "e1 = ec_success")
      case True
      then obtain e3 s3 where 4: "provset_appkeydone E (k_refid ak) 1 s2 = Some (e3, s3)"
        "(if e3 \<noteq> ec_success then Some (Inl e3, s3) else new_appkeys_loop E is (Suc k) s3) = Some (r, s')"
        using 3 by (auto simp: bind_Some_conv simp del: split_paired_Ex split del: if_split)
      have "same_ctl s s3" using a provset_ctl(5) [OF 4(1)] by simp
      then show ?thesis using 4(2) Cons.IH [of "Suc k" s3] by (auto split: if_splits)
    qed (use 3 a in simp)
  qed
qed simp

lemma new_appkeys_ctl:
  assumes "new_appkeys E s = Some (e, s')"
  shows "same_ctl s s'"
proof -
  obtain sn where sn: "subnet0 s = Some sn" using assms by (auto simp: new_appkeys_def bind_Some_conv)
  show ?thesis
  proof (cases "k_done (netkey sn) = 0")
    case False
    then obtain r s1 where 1: "new_appkeys_loop E [0..<unat (appkey_num sn)] 0 s = Some (r, s1)"
      and 2: "(case r of Inl e \<Rightarrow> Some (e, s1)
       | Inr tmp \<Rightarrow> do {
           s \<leftarrow> upd_subnet0 (\<lambda>sn. sn\<lparr>active_appkey_num := of_nat tmp\<rparr>) s1;
           Some (ec_success, s) }) = Some (e, s')"
      using assms sn by (auto simp: new_appkeys_def bind_Some_conv simp del: split_paired_Ex)
    then show ?thesis using new_appkeys_loop_ctl [OF 1]
      by (cases r) (auto simp: bind_Some_conv dest!: same_ctl_upd_subnet0)
  qed (use assms sn in \<open>simp add: new_appkeys_def\<close>)
qed

lemma self_config_ctl [simp]: "mng (self_config E s) = mng s" "acc (self_config E s) = acc s"
  by (auto simp: self_config_def Let_def bgcall_def split: option.splits)

lemma sync_network_ctl:
  assumes "sync_network E nw a ivi s = Some (e, s')"
  shows "same_ctl s s'"
proof (cases "nw = 0")
  case True
  then show ?thesis using assms by (auto simp: sync_network_def Let_def bgcall_def split: if_splits)
next
  case False
  let ?pc = "self (db s)"
  have ok: "\<not> p_subnets_freed ?pc" using assms False by (auto simp: sync_network_def Let_def)
  show ?thesis
  proof (cases "case p_subnets ?pc of None \<Rightarrow> True | Some sn \<Rightarrow> k_done (netkey sn) = 0")
    case True
    then show ?thesis using assms False ok by (simp add: sync_network_def Let_def)
  next
    case no: False
    then obtain e1 s1 where 1: "(if a \<noteq> p_addr ?pc then provset_addr E a (upd_self (\<lambda>pc. pc\<lparr>p_addr := a\<rparr>) s)
                    else Some (ec_success, s)) = Some (e1, s1)"
      and 2: "(if e1 \<noteq> ec_success then Some (e1, s1)
          else if ivi \<noteq> p_ivi ?pc
          then provset_ivi E ivi (upd_self (\<lambda>pc. pc\<lparr>p_ivi := ivi\<rparr>) s1)
          else Some (ec_success, s1)) = Some (e, s')"
      using assms False ok
      by (auto simp: sync_network_def Let_def bind_Some_conv simp del: split_paired_Ex split del: if_split)
    have "same_ctl s s1" using 1 by (auto split: if_splits dest!: provset_ctl)
    then show ?thesis using 2 by (auto split: if_splits dest!: provset_ctl)
  qed
qed

lemma on_initialized_config_ctl:
  assumes "on_initialized_config E nw a ivi s = Some (e, s')"
  shows "same_ctl s s'"
proof -
  obtain e1 s1 where 1: "sync_network E nw a ivi s = Some (e1, s1)"
    using assms by (auto simp: on_initialized_config_def bind_Some_conv)
  show ?thesis
  proof (cases "e1 = ec_success")
    case True
    then obtain e2 s2 where 2: "new_netkey E s1 = Some (e2, s2)"
      using assms 1 by (auto simp: on_initialized_config_def bind_Some_conv)
    show ?thesis
    proof (cases "e2 = ec_success")
      case True
      then obtain e3 s3 where 3: "new_appkeys E s2 = Some (e3, s3)"
        using assms 1 2 \<open>e1 = ec_success\<close> by (auto simp: on_initialized_config_def bind_Some_conv)
      then have "s' = s3 \<or> s' = self_config E s3"
        using assms 1 2 True \<open>e1 = ec_success\<close> by (auto simp: on_initialized_config_def split: if_splits)
      then show ?thesis
        using sync_network_ctl [OF 1] new_netkey_ctl [OF 2] new_appkeys_ctl [OF 3] by auto
    qed (use assms 1 2 True sync_network_ctl [OF 1] new_netkey_ctl [OF 2] in \<open>simp add: on_initialized_config_def\<close>)
  qed (use assms 1 sync_network_ctl [OF 1] in \<open>simp add: on_initialized_config_def\<close>)
qed

lemma nwk_init_ctl:
  assumes "nwk_init E s = Some (e, s')"
  shows "same_ctl s s'"
proof (cases "rsp_result (ncp E (sent s) cmd_prov_init) = bg_err_success")
  case True
  let ?s = "s\<lparr>sent := sent s @ [cmd_prov_init]\<rparr>"
  obtain nw a ivi es where w: "wait_initialized (evq s) = Some ((nw, a, ivi), es)"
    using assms True by (auto simp: nwk_init_def bgcall_def bind_Some_conv)
  let ?t = "?s\<lparr>evq := es, mng := (mng s)\<lparr>m_state := initialized\<rparr>\<rparr>"
  obtain e1 s1 where 1: "on_initialized_config E nw a ivi ?t = Some (e1, s1)"
    using assms True w by (auto simp: nwk_init_def bgcall_def bind_Some_conv)
  have c: "same_ctl s s1" using on_initialized_config_ctl [OF 1] by simp
  show ?thesis
  proof (cases "e1 = ec_success")
    case True
    then obtain s2 where 2: "mng_load_lists E (s1\<lparr>mng := (mng s1)\<lparr>m_state := configured\<rparr>\<rparr>) = Some s2"
      and 3: "mng s' = mng s2 \<and> acc s' = acc s2"
      using assms \<open>rsp_result _ = _\<close> w 1
      by (auto simp: nwk_init_def bgcall_def bind_Some_conv Let_def split: if_splits)
    then show ?thesis using mng_load_lists_ctl [OF 2] c by simp
  qed (use assms True w 1 c in \<open>simp add: nwk_init_def bgcall_def\<close>)
qed (use assms in \<open>auto simp: nwk_init_def bgcall_def\<close>)

text \<open>The first initialisation establishes the invariant; a later one keeps it.\<close>

lemma mng_init_inv:
  assumes "mng_init s = Some s'" and "acc_started (acc s) \<longrightarrow> acc_states (acc s) = default_states"
  shows "mng_inv s'"
proof -
  let ?t = "s\<lparr>mng := zero_mng\<lparr>m_conn := 0xff, prios := ''arb''\<rparr>\<rparr>"
  have p: "prios_wf (mng ?t)" and a: "add_wf ?t"
    by (simp_all add: prios_wf_def seq_valid_def zero_mng_def add_wf_def sessions_def zero_add_cache_def)
  show ?thesis
  proof (cases "acc_started (acc s)")
    case True
    then have "s' = ?t" using assms(1) by (simp add: mng_init_def acc_init_def)
    moreover have "acc_wf (mng ?t)" by (simp add: acc_wf_def zero_mng_def zero_config_cache_def)
    ultimately show ?thesis using True assms(2) p a by (simp add: mng_inv_def)
  next
    case False
    then have s': "s' = (acc_reset True ?t)\<lparr>acc := (acc (acc_reset True ?t))\<lparr>acc_started := True\<rparr>\<rparr>"
      using assms(1) by (simp add: mng_init_def acc_init_def Let_def)
    have "acc_wf (mng s')" using acc_reset_wf [of True ?t] by (simp add: s')
    moreover have "prios_wf (mng s')" "add_wf s'"
      using p a by (simp_all add: s' acc_reset_def Let_def prios_wf_def add_wf_def)
    ultimately show ?thesis by (simp add: mng_inv_def s' acc_reset_states)
  qed
qed

end
