(* ===== verification/Queue.thy ===== *)
theory Queue
  imports MngLoop
begin

text \<open>
  The queue of commands of \<open>mng/mng.c\<close> as a linked list: the two threads share it, the command line
  only appends at the tail, the manager only takes from the head. The interface is a locale; its client
  lemma says that any interleaving of the two operations behaves like a list, and the model of
  \<open>cmd_enq\<close> and \<open>cmd_deq\<close> is its interpretation.
\<close>

subsection \<open>The interface\<close>

datatype 'a queue_op = Enq 'a | Deq

text \<open>What a sequence of operations hands out, on an implementation and on a list.\<close>

fun run_ops :: "('a \<Rightarrow> 's \<Rightarrow> 's option) \<Rightarrow> ('s \<Rightarrow> ('b option \<times> 's) option) \<Rightarrow> 'a queue_op list \<Rightarrow> 's
    \<Rightarrow> ('b option list \<times> 's) option" where
  "run_ops enq deq [] s = Some ([], s)"
| "run_ops enq deq (Enq x # ops) s = do { s \<leftarrow> enq x s; run_ops enq deq ops s }"
| "run_ops enq deq (Deq # ops) s = do {
     (y, s) \<leftarrow> deq s;
     (ys, s) \<leftarrow> run_ops enq deq ops s;
     Some (y # ys, s) }"

fun list_ops :: "('a \<Rightarrow> 'b option) \<Rightarrow> 'a queue_op list \<Rightarrow> 'b list \<Rightarrow> 'b option list \<times> 'b list" where
  "list_ops accept [] ys = ([], ys)"
| "list_ops accept (Enq x # ops) ys =
     list_ops accept ops (case accept x of None \<Rightarrow> ys | Some y \<Rightarrow> ys @ [y])"
| "list_ops accept (Deq # ops) [] = map_prod (Cons None) id (list_ops accept ops [])"
| "list_ops accept (Deq # ops) (y # ys) = map_prod (Cons (Some y)) id (list_ops accept ops ys)"

locale fifo_queue =
  fixes enq :: "'a \<Rightarrow> 's \<Rightarrow> 's option" and deq :: "'s \<Rightarrow> ('b option \<times> 's) option"
    and accept :: "'a \<Rightarrow> 'b option" and holds :: "'s \<Rightarrow> 'b list \<Rightarrow> bool"
  assumes enq_accepted: "holds s ys \<Longrightarrow> accept x = Some y \<Longrightarrow> \<exists>s'. enq x s = Some s' \<and> holds s' (ys @ [y])"
    and enq_refused: "accept x = None \<Longrightarrow> enq x s = Some s"
    and deq_empty: "holds s [] \<Longrightarrow> deq s = Some (None, s)"
    and deq_head: "holds s (y # ys) \<Longrightarrow> \<exists>s'. deq s = Some (Some y, s') \<and> holds s' ys"
begin

lemma ops_refine:
  "holds s ys \<Longrightarrow> \<exists>s'. run_ops enq deq ops s = Some (fst (list_ops accept ops ys), s') \<and> holds s' (snd (list_ops accept ops ys))"
proof (induction ops arbitrary: s ys)
  case (Cons op ops)
  note IH = Cons.IH and holds = Cons.prems
  show ?case
  proof (cases op)
    case (Enq x)
    show ?thesis
    proof (cases "accept x")
      case None
      then show ?thesis using Cons Enq enq_refused by simp
    next
      case (Some y)
      then show ?thesis using Cons Enq enq_accepted [OF Cons.prems Some] by auto
    qed
  next
    case Deq
    show ?thesis
    proof (cases ys)
      case Nil
      then show ?thesis using Cons Deq deq_empty by fastforce
    next
      case (Cons y zs)
      then obtain s1 where "deq s = Some (Some y, s1)" "holds s1 zs" using holds deq_head by blast
      then show ?thesis using IH [of s1 zs] Deq Cons by auto
    qed
  qed
qed simp

text \<open>What was put in comes out in the same order.\<close>

lemma first_in_first_out:
  assumes "holds s []"
  shows "\<exists>s'. run_ops enq deq (map Enq xs @ replicate (length (List.map_filter accept xs)) Deq) s =
      Some (map Some (List.map_filter accept xs), s') \<and> holds s' []"
proof -
  have deqs: "list_ops accept (replicate (length ys) Deq) ys = (map Some ys, [])" for ys :: "'b list"
    by (induction ys) simp_all
  have "list_ops accept (map Enq xs @ ops) ys = list_ops accept ops (ys @ List.map_filter accept xs)" for ys ops
    by (induction xs arbitrary: ys) (simp_all add: map_filter_simps split: option.splits)
  then show ?thesis using ops_refine [OF assms] deqs by (metis append_Nil fst_conv snd_conv)
qed

end

subsection \<open>The linked list\<close>

text \<open>
  \<open>segment m p its r\<close>: following \<open>next\<close> from \<open>p\<close> one passes the items \<open>its\<close>, each with its address, and
  arrives at \<open>r\<close>.
\<close>

type_synonym queued_item = "nat \<times> nat \<times> string list"

primrec segment :: "(nat \<Rightarrow> qitem_t option) \<Rightarrow> nat option \<Rightarrow> queued_item list \<Rightarrow> nat option \<Rightarrow> bool" where
  "segment m p [] r \<longleftrightarrow> p = r"
| "segment m p (it # its) r \<longleftrightarrow> p = Some (fst it)
     \<and> (\<exists>n. m (fst it) = Some \<lparr>qi_offs = fst (snd it), qi_cmd = snd (snd it), qi_next = n\<rparr> \<and> segment m n its r)"

lemma segment_append [simp]: "segment m p (xs @ ys) r \<longleftrightarrow> (\<exists>q. segment m p xs q \<and> segment m q ys r)"
  by (induction xs arbitrary: p) auto

lemma segment_upd [simp]: "a \<notin> fst ` set its \<Longrightarrow> segment (m(a := v)) p its r = segment m p its r"
  by (induction its arbitrary: p) auto

text \<open>
  The queue holds a list of commands: they are what the items linked from \<open>head\<close> to the end carry,
  \<open>tail\<close> is the last of them, and exactly these items are allocated.
\<close>

definition cmdq_holds :: "cmdq_t \<Rightarrow> (nat \<times> string list) list \<Rightarrow> bool" where
  "cmdq_holds q xs \<longleftrightarrow> (\<exists>its. segment (q_mem q) (q_head q) its None \<and> map snd its = xs
     \<and> q_tail q = (if its = [] then None else Some (fst (last its)))
     \<and> distinct (map fst its) \<and> dom (q_mem q) = fst ` set its \<and> (\<forall>a \<in> dom (q_mem q). a < q_fresh q))"

lemma zero_cmdq_holds: "cmdq_holds zero_cmdq []"
  by (simp add: cmdq_holds_def zero_cmdq_def)

lemma cmd_enq_holds:
  assumes "cmdq_holds (cmdq s) xs" and w: "wordexp str = Some w"
  shows "\<exists>s'. cmd_enq wordexp str i s = Some s' \<and> cmdq_holds (cmdq s') (xs @ [(i, w)])"
proof -
  let ?q = "cmdq s" let ?n = "q_fresh (cmdq s)"
  let ?new = "\<lparr>qi_offs = i, qi_cmd = w, qi_next = None\<rparr>"
  obtain its where its: "segment (q_mem ?q) (q_head ?q) its None" "map snd its = xs"
      "q_tail ?q = (if its = [] then None else Some (fst (last its)))" "distinct (map fst its)"
      "dom (q_mem ?q) = fst ` set its" "\<forall>a \<in> dom (q_mem ?q). a < ?n"
    using assms(1) unfolding cmdq_holds_def by blast
  have new: "?n \<notin> fst ` set its" using its(5,6) by auto
  show ?thesis
  proof (cases its rule: rev_exhaust)
    case Nil
    then show ?thesis using its w
      by (auto simp: cmd_enq_def new_item_def cmdq_holds_def intro!: exI [of _ "[(?n, i, w)]"])
  next
    case (snoc front it)
    let ?t = "fst it"
    from its(1) snoc have front: "segment (q_mem ?q) (q_head ?q) front (Some ?t)"
      and t: "q_mem ?q ?t = Some \<lparr>qi_offs = fst (snd it), qi_cmd = snd (snd it), qi_next = None\<rparr>" by auto
    have ne: "?t \<noteq> ?n" "?n \<notin> fst ` set front" "?t \<notin> fst ` set front" using new snoc its(4) by auto
    let ?m = "(q_mem ?q)(?n := Some ?new, ?t := Some \<lparr>qi_offs = fst (snd it), qi_cmd = snd (snd it), qi_next = Some ?n\<rparr>)"
    let ?s = "s\<lparr>cmdq := ?q\<lparr>q_tail := Some ?n, q_mem := ?m, q_fresh := Suc ?n\<rparr>\<rparr>"
    have run: "cmd_enq wordexp str i s = Some ?s"
      using w its(3) t ne(1) snoc by (simp add: cmd_enq_def new_item_def set_next_def)
    have "segment ?m (q_head ?q) (its @ [(?n, i, w)]) None" using front ne snoc by simp
    moreover have "dom ?m = fst ` set (its @ [(?n, i, w)])" using its(5) snoc by auto
    moreover have "\<forall>a \<in> dom ?m. a < Suc ?n" using its(5,6) snoc by (auto simp: less_Suc_eq)
    ultimately have "cmdq_holds (cmdq ?s) (xs @ [(i, w)])"
      unfolding cmdq_holds_def using its(2,4) new by (intro exI [of _ "its @ [(?n, i, w)]"]) auto
    then show ?thesis using run by blast
  qed
qed

lemma cmd_deq_holds:
  assumes "cmdq_holds (cmdq s) (x # xs)"
  shows "\<exists>s'. cmd_deq s = Some (Some x, s') \<and> cmdq_holds (cmdq s') xs"
proof -
  let ?q = "cmdq s"
  obtain it its where its: "segment (q_mem ?q) (q_head ?q) (it # its) None" "snd it = x" "map snd its = xs"
      "q_tail ?q = Some (fst (last (it # its)))" "distinct (map fst (it # its))"
      "dom (q_mem ?q) = fst ` set (it # its)" "\<forall>a \<in> dom (q_mem ?q). a < q_fresh ?q"
    using assms unfolding cmdq_holds_def by (auto simp: Cons_eq_map_conv split: if_splits)
  then obtain n where n: "q_mem ?q (fst it) = Some \<lparr>qi_offs = fst x, qi_cmd = snd x, qi_next = n\<rparr>"
      "segment (q_mem ?q) n its None" by auto
  have last_item: "n = None \<longleftrightarrow> its = []" using n(2) by (cases its) auto
  let ?m = "(q_mem ?q)(fst it := None)"
  let ?s = "s\<lparr>cmdq := ?q\<lparr>q_head := n, q_tail := if n = None then None else q_tail ?q, q_mem := ?m\<rparr>\<rparr>"
  have "cmd_deq s = Some (Some x, ?s)" using its(1,2) n(1) by (simp add: cmd_deq_def Let_def)
  moreover have "segment ?m n its None" using n(2) its(5) by simp
  moreover have "dom ?m = fst ` set its" using its(5,6) by auto
  then have "cmdq_holds (cmdq ?s) xs" unfolding cmdq_holds_def
    using \<open>segment ?m n its None\<close> its(3,4,5,7) last_item by (intro exI [of _ its]) auto
  ultimately show ?thesis by blast
qed

lemma cmd_deq_empty: "cmdq_holds (cmdq s) [] \<Longrightarrow> cmd_deq s = Some (None, s)"
  by (simp add: cmdq_holds_def cmd_deq_def)

lemma cmd_enq_refused: "wordexp str = None \<Longrightarrow> cmd_enq wordexp str i s = Some s"
  by (simp add: cmd_enq_def)

lemma cmd_enq_only_queue: "cmd_enq wordexp str i s = Some s' \<Longrightarrow> s' = s\<lparr>cmdq := cmdq s'\<rparr>"
  by (auto simp: cmd_enq_def new_item_def bind_Some_conv split: option.splits)

lemma cmd_enq_last:
  assumes "cmd_enq wordexp str i s = Some s'" and "wordexp str = Some w"
  shows "\<exists>a n. q_tail (cmdq s') = Some a \<and> q_mem (cmdq s') a = Some \<lparr>qi_offs = i, qi_cmd = w, qi_next = n\<rparr>"
  using assms by (auto simp: cmd_enq_def new_item_def set_next_def bind_Some_conv split: option.splits if_splits)

text \<open>
  The queue of the manager. An entry is the index of a command and its line; it enters the queue when the
  words of the line can be expanded.
\<close>

definition enq_line :: "(string \<Rightarrow> string list option) \<Rightarrow> nat \<times> string \<Rightarrow> sys \<Rightarrow> sys option" where
  "enq_line wordexp l s = cmd_enq wordexp (snd l) (fst l) s"

definition expanded :: "(string \<Rightarrow> string list option) \<Rightarrow> nat \<times> string \<Rightarrow> (nat \<times> string list) option" where
  "expanded wordexp l = map_option (Pair (fst l)) (wordexp (snd l))"

interpretation lq: fifo_queue "enq_line wordexp" cmd_deq "expanded wordexp" "\<lambda>s. cmdq_holds (cmdq s)" for wordexp
  by unfold_locales
    (auto simp: enq_line_def expanded_def dest: cmd_enq_holds cmd_enq_refused cmd_deq_empty cmd_deq_holds)

end
