(* ===== verification/MngFacts.thy ===== *)
theory MngFacts
  imports MngTurn Queue
begin

text \<open>Facts on the order of work, on scanning and on the messages to the lights.\<close>

subsection \<open>The order of work\<close>

text \<open>
  The kind of work that is due, read off the priorities: a dash ends the search, provisioning comes with the
  configuration of the nodes that are left over.
\<close>

fun first_work :: "string \<Rightarrow> mng_t \<Rightarrow> mng_state_t option" where
  "first_work [] m = None"
| "first_work (c # cs) m =
    (if c = CHR ''a'' \<and> l_add m \<noteq> [] then Some adding_devices_em
     else if c = CHR ''a'' \<and> l_config m \<noteq> [] then Some configuring_devices_em
     else if c = CHR ''r'' \<and> l_rm m \<noteq> [] then Some removing_devices_em
     else if c = CHR ''b'' \<and> l_bl m \<noteq> [] then Some blacklisting_devices_em
     else if c = CHR ''-'' then None
     else first_work cs m)"

definition work_lists :: "mng_t \<Rightarrow> nref list \<times> nref list \<times> nref list \<times> nref list" where
  "work_lists m = (l_add m, l_config m, l_rm m, l_bl m)"

lemma first_work_cong: "work_lists m = work_lists m' \<Longrightarrow> first_work cs m = first_work cs m'"
  by (induction cs) (simp_all add: work_lists_def)

lemma set_seq_offs_mng [simp]:
  "mng (set_seq_offs k s) = (mng s)\<lparr>seq_offs := k\<rparr>" "mng (set_state st s) = (mng s)\<lparr>m_state := st\<rparr>"
  by (simp_all add: set_seq_offs_def set_state_def)

lemma next_work_first:
  assumes "prios_wf (mng s)" and "k + seq_offs (mng s) = 3"
  shows "\<exists>b s'. next_work E k s = Some (b, s')
    \<and> (case first_work (drop (seq_offs (mng s)) (prios (mng s))) (mng s) of
         None \<Rightarrow> \<not> b | Some st \<Rightarrow> b \<and> m_state (mng s') = st)"
  using assms
proof (induction k arbitrary: s)
  case 0
  then show ?case by (intro exI [of _ False] exI [of _ s]) (simp add: prios_wf_def)
next
  case (Suc k)
  obtain p where p: "idx (prios (mng s)) (seq_offs (mng s)) = Some p" "p \<in> set ''arb-''"
    using prios_wf_idx [OF Suc.prems(1)] Suc.prems(2) by auto
  let ?n = "set_seq_offs (Suc (seq_offs (mng s))) s"
  have d: "drop (seq_offs (mng s)) (prios (mng s)) = p # drop (Suc (seq_offs (mng s))) (prios (mng s))"
    using p(1) by (auto simp: Cons_nth_drop_Suc)
  have "prios_wf (mng ?n)" "k + seq_offs (mng ?n) = 3" using Suc.prems by (simp_all add: prios_wf_def)
  from Suc.IH [OF this] obtain b s' where rec: "next_work E k ?n = Some (b, s')"
    "case first_work (drop (Suc (seq_offs (mng s))) (prios (mng s))) (mng ?n) of
       None \<Rightarrow> \<not> b | Some st \<Rightarrow> b \<and> m_state (mng s') = st" by auto
  have fw: "first_work cs (mng ?n) = first_work cs (mng s)" for cs
    by (rule first_work_cong) (simp add: work_lists_def)
  consider (a) "p = CHR ''a''" | (r) "p = CHR ''r''" | (b) "p = CHR ''b''" | (dash) "p = CHR ''-''"
    using p(2) by auto
  then show ?case
  proof cases
    case dash
    then show ?thesis using p(1) d by (intro exI [of _ False] exI [of _ s]) (simp add: Let_def)
  next
    case a
    then show ?thesis using p(1) d rec fw by (cases "l_add (mng s) = []"; cases "l_config (mng s) = []") (auto simp: Let_def)
  next
    case r
    then show ?thesis using p(1) d rec fw by (cases "l_rm (mng s) = []") (auto simp: Let_def)
  next
    case b
    then show ?thesis using p(1) d rec fw by (cases "l_bl (mng s) = []") (auto simp: Let_def)
  qed
qed

lemma clm_set_scan_lists: "clm_set_scan E st s = (e, s') \<Longrightarrow>
    work_lists (mng s') = work_lists (mng s) \<and> m_state (mng s') = m_state (mng s)"
  by (auto simp: clm_set_scan_def work_lists_def Let_def split: if_splits prod.splits dest!: bgcall_ctl)

lemma clm_set_scan_lists_snd [simp]: "work_lists (mng (snd (clm_set_scan E st s))) = work_lists (mng s)"
  using clm_set_scan_lists [of E st s] by (metis surjective_pairing)

lemma work_over_lists:
  assumes "work_over E s = (True, s')"
  shows "work_lists (mng s') = work_lists (mng s) \<and> prios (mng s') = prios (mng s) \<and> seq_offs (mng s') = seq_offs (mng s)"
proof -
  have "ctlm (mng s') = ctlm (mng s)" using work_over_ctl [OF assms] by simp
  moreover have "work_lists (mng s') = work_lists (mng s)"
    using assms by (auto simp: work_over_def Let_def split: mng_state_t.splits if_splits)
  ultimately show ?thesis by (simp add: ctlm_def)
qed

subsection \<open>Messages to the lights\<close>

text \<open>The message to one light: the model, the type of the request and the value as sent.\<close>

definition light_msg :: "u8 \<Rightarrow> u8 \<Rightarrow> u8 \<Rightarrow> u16 \<Rightarrow> bgcmd" where
  "light_msg ty v t addr =
    (if ty = ONOFF_SV_BIT then cmd_generic_client_set 0x1001 addr t 0x0 [v]
     else if ty = LIGHTNESS_SV_BIT then cmd_generic_client_set 0x1302 addr t 0x80 (le_bytes (lightness_level v))
     else cmd_generic_client_set 0x1305 addr t 0x85 (le_bytes (ctl_level v) @ [0, 0]))"

lemma models_loop_step:
  assumes "ms_nodes (mng s) = a # as"
  shows "models_loop E s =
    (let c = light_msg (ms_type (mng s)) (ms_value (mng s)) (tid s) a;
         t = s\<lparr>sent := sent s @ [c], tid := tid s + 1\<rparr>
     in if rsp_result (ncp E (sent s) c) = bg_err_out_of_memory then (True, t)
        else (False, t\<lparr>mng := (mng s)\<lparr>ms_nodes := as, ms_type := (if as = [] then 0 else ms_type (mng s))\<rparr>\<rparr>))"
  using assms
  by (auto simp: models_loop_def send_model_def send_onoff_def send_lightness_def send_ctl_def client_set_def
      bgcall_def light_msg_def Let_def)

abbreviation models_turns :: "env \<Rightarrow> nat \<Rightarrow> sys \<Rightarrow> sys" where
  "models_turns E n s \<equiv> ((\<lambda>s. snd (models_loop E s)) ^^ n) s"

lemma models_turns_sent:
  assumes "\<And>h c. rsp_result (ncp E h c) \<noteq> bg_err_out_of_memory"
  shows "n \<le> length (ms_nodes (mng s)) \<Longrightarrow>
    ms_nodes (mng (models_turns E n s)) = drop n (ms_nodes (mng s))
    \<and> (0 < n \<and> n = length (ms_nodes (mng s)) \<longrightarrow> ms_type (mng (models_turns E n s)) = 0)
    \<and> sent (models_turns E n s) = sent s @
        map (\<lambda>k. light_msg (ms_type (mng s)) (ms_value (mng s)) (tid s + of_nat k) (ms_nodes (mng s) ! k)) [0..<n]"
proof (induction n arbitrary: s)
  case (Suc n)
  then obtain a as where as: "ms_nodes (mng s) = a # as" by (cases "ms_nodes (mng s)") auto
  define u where "u = snd (models_loop E s)"
  let ?c = "light_msg (ms_type (mng s)) (ms_value (mng s)) (tid s) a"
  have u: "u = s\<lparr>sent := sent s @ [?c], tid := tid s + 1,
      mng := (mng s)\<lparr>ms_nodes := as, ms_type := (if as = [] then 0 else ms_type (mng s))\<rparr>\<rparr>"
    using models_loop_step [OF as] assms by (simp add: Let_def u_def)
  then have f: "ms_nodes (mng u) = as" "sent u = sent s @ [?c]" "tid u = tid s + 1"
    "ms_value (mng u) = ms_value (mng s)" "ms_type (mng u) = (if as = [] then 0 else ms_type (mng s))" by simp_all
  have IH: "ms_nodes (mng (models_turns E n u)) = drop n as"
    "0 < n \<and> n = length as \<longrightarrow> ms_type (mng (models_turns E n u)) = 0"
    "sent (models_turns E n u) = (sent s @ [?c]) @
        map (\<lambda>k. light_msg (ms_type (mng u)) (ms_value (mng s)) (tid s + 1 + of_nat k) (as ! k)) [0..<n]"
    using Suc.IH [of u] Suc.prems as by (auto simp: f)
  have sh: "[0..<Suc n] = 0 # map Suc [0..<n]" by (simp add: map_Suc_upt upt_conv_Cons del: upt_Suc)
  have one: "models_turns E (Suc n) s = models_turns E n u" by (simp only: funpow_Suc_right comp_apply u_def)
  show ?case
  proof (cases "as = []")
    case True
    then have "n = 0" using Suc.prems as by simp
    then show ?thesis unfolding one using True as f by simp
  next
    case False
    then have "n = length as \<Longrightarrow> 0 < n" by simp
    then show ?thesis unfolding one sh using IH as False f
      by (simp add: comp_def algebra_simps del: funpow.simps)
  qed
qed simp

end
