(* ===== verification/MngProps.thy ===== *)
theory MngProps
  imports MngFacts Samples
begin

text \<open>Properties of the manager: its work lists, the order of work, the queue of commands and the lights.\<close>

subsection \<open>Work lists\<close>

text \<open>C28: Loading the work lists files every node of the two trees by what is to be done with it, each exactly once,
  as long as the target knows every provisioned node of the configuration.\<close>

theorem lists_hold_the_work:
  assumes "ddb_in_sync E (db s)" and "mng_num (m_state (mng s)) \<ge> mng_num configured"
    and "live (db s) (map snd (unprov_devs (db s)) @ map snd (nodes (db s)))"
  shows "\<exists>s'. mng_load_lists E s = Some s' \<and> db s' = db s \<and> l_fail (mng s') = []
    \<and> (let rs = map snd (unprov_devs (db s)) @ map snd (nodes (db s)); kind = (\<lambda>k. mset (filter (of_kind (db s) k) rs))
       in mset (l_add (mng s')) = kind to_add \<and> mset (l_bl (mng s')) = kind to_bl
        \<and> mset (l_rm (mng s')) = kind to_rm \<and> mset (l_config (mng s')) = kind to_config)"
  using mng_load_lists_spec [OF assms(1) _ assms(3)] assms(2) by (auto simp: Let_def)

lemma sample_sys_fields: "db sample_sys = sample_db" "m_state (mng sample_sys) = configured"
  "q_head (cmdq sample_sys) = None" "evq sample_sys = []" "demo_expired sample_sys = 0"
  by (simp_all add: sample_sys_def acc_reset_def Let_def sample_mng_def zero_sys_def zero_cmdq_def)

theorem lists_hold_the_work_witness:
  "\<exists>s'. mng_load_lists ok_env sample_sys = Some s' \<and> mset (l_add (mng s')) = {#1#} \<and> mset (l_config (mng s')) = {#0#}"
proof -
  have "ddb_in_sync ok_env (db sample_sys)" by (simp add: ddb_in_sync_def ok_rsp_def)
  moreover have "live (db sample_sys) (map snd (unprov_devs (db sample_sys)) @ map snd (nodes (db sample_sys)))"
    by (simp add: live_def sample_sys_fields sample_db_def)
  ultimately obtain s' where "mng_load_lists ok_env sample_sys = Some s'"
    and "let rs = map snd (unprov_devs (db sample_sys)) @ map snd (nodes (db sample_sys));
           kind = (\<lambda>k. mset (filter (of_kind (db sample_sys) k) rs))
       in mset (l_add (mng s')) = kind to_add \<and> mset (l_bl (mng s')) = kind to_bl
        \<and> mset (l_rm (mng s')) = kind to_rm \<and> mset (l_config (mng s')) = kind to_config"
    using lists_hold_the_work [of ok_env sample_sys] by (auto simp: sample_sys_fields)
  then show ?thesis
    by (simp add: Let_def sample_sys_fields sample_db_def of_kind_def kind_defs zero_node_def)
qed

text \<open>C29: When a kind of work is over, the manager takes the first kind the priorities name that has something
  in its list, and is \<open>configured\<close> when there is none.\<close>

theorem next_kind_of_work:
  assumes "prios_wf (mng s)" and "m_state (mng s) \<in> {starting, adding_devices_em, configuring_devices_em,
      removing_devices_em, blacklisting_devices_em}" and "fst (work_over E s)"
  shows "map_option (\<lambda>s'. m_state (mng s')) (set_mng_state E s)
    = Some (case first_work (drop (if m_state (mng s) = starting then 0 else seq_offs (mng s)) (prios (mng s))) (mng s) of
        None \<Rightarrow> configured | Some k \<Rightarrow> k)"
proof -
  obtain t where t: "work_over E s = (True, t)" using assms(3) by (cases "work_over E s") auto
  note k = work_over_lists [OF t]
  let ?u = "if m_state (mng s) = starting then set_seq_offs 0 t else t"
  have u: "prios_wf (mng ?u)" "3 - seq_offs (mng ?u) + seq_offs (mng ?u) = 3"
    "work_lists (mng ?u) = work_lists (mng s)" "prios (mng ?u) = prios (mng s)"
    "seq_offs (mng ?u) = (if m_state (mng s) = starting then 0 else seq_offs (mng s))"
    using assms(1) k by (auto simp: prios_wf_def work_lists_def)
  from next_work_first [OF u(1,2), of E] obtain b v where v: "next_work E (3 - seq_offs (mng ?u)) ?u = Some (b, v)"
    "case first_work (drop (seq_offs (mng ?u)) (prios (mng ?u))) (mng ?u) of None \<Rightarrow> \<not> b | Some st \<Rightarrow> b \<and> m_state (mng v) = st"
    by blast
  have fw: "first_work cs (mng ?u) = first_work cs (mng s)" for cs by (rule first_work_cong [OF u(3)])
  have "set_mng_state E s = Some (if b then v else set_state configured (set_seq_offs 0 v))"
    using assms(2) t v(1) by (auto simp: set_mng_state_def Let_def)
  then show ?thesis using v(2) [unfolded fw u(4,5)]
    by (cases "first_work (drop (if m_state (mng s) = starting then 0 else seq_offs (mng s)) (prios (mng s))) (mng s)")
      (simp_all del: drop_0 split del: if_split)
qed

theorem next_kind_of_work_witness:
  "map_option (\<lambda>s'. m_state (mng s')) (set_mng_state ok_env
     (sample_sys\<lparr>mng := sample_mng\<lparr>m_state := starting, prios := ''rba'', l_bl := [0], l_config := [1]\<rparr>\<rparr>))
   = Some blacklisting_devices_em"
proof -
  let ?s = "sample_sys\<lparr>mng := sample_mng\<lparr>m_state := starting, prios := ''rba'', l_bl := [0], l_config := [1]\<rparr>\<rparr>"
  have "prios_wf (mng ?s)" "fst (work_over ok_env ?s)"
    by (simp_all add: prios_wf_def seq_valid_def work_over_def sample_mng_def zero_mng_def)
  from next_kind_of_work [OF this(1) _ this(2)] show ?thesis by (simp add: sample_mng_def zero_mng_def)
qed

text \<open>C30: While nodes wait to be removed, the manager does not leave the blacklisting, even when all its nodes are done:
  its branch tests the list of the nodes to remove. A turn of the main loop then changes nothing at all.\<close>

theorem blacklisting_waits_for_removal:
  assumes "m_state (mng s) = blacklisting_devices_em" and "l_bl (mng s) = []"
    and "bl_state (c_bl (mng s)) = bl_idle" and "l_rm (mng s) \<noteq> []"
    and "q_head (cmdq s) = None" and "evq s = []" and "ms_nodes (mng s) = []" and "demo_expired s = 0"
  shows "mng_turn E s = Some (False, s)"
  using assms
  by (simp add: mng_turn_def poll_cmd_def cmd_deq_def bgevt_dispenser_def mng_work_def bl_loop_def set_mng_state_def
      work_over_def models_loop_def demo_run_def Let_def)

theorem blacklisting_waits_for_removal_witness:
  "let s = sample_sys\<lparr>mng := sample_mng\<lparr>m_state := blacklisting_devices_em, l_rm := [0]\<rparr>\<rparr> in mng_turn ok_env s = Some (False, s)"
  unfolding Let_def
  by (rule blacklisting_waits_for_removal)
    (simp_all add: sample_sys_fields sample_mng_def zero_mng_def zero_bl_cache_def)

subsection \<open>Commands\<close>

text \<open>C31: Whatever the order in which the command line appends lines and the manager takes commands, the linked
  list behaves like a list: no operation follows a stale pointer, what is handed out are the commands in the order
  their lines were entered, without those whose words cannot be expanded, and nothing when none is left; afterwards
  \<open>head\<close>, \<open>next\<close> and \<open>tail\<close> link exactly the commands that are still waiting, and only their items are allocated.\<close>

theorem commands_in_order:
  assumes "cmdq_holds (cmdq s) xs"
  shows "\<exists>s'. run_ops (enq_line wordexp) cmd_deq ops s = Some (fst (list_ops (expanded wordexp) ops xs), s')
    \<and> cmdq_holds (cmdq s') (snd (list_ops (expanded wordexp) ops xs))"
  by (rule lq.ops_refine [OF assms])

text \<open>The queue is emptied twice and filled again, and the line with the parenthesis is dropped.\<close>

theorem commands_in_order_witness:
  "\<exists>s'. run_ops (enq_line (\<lambda>x. if x = ''('' then None else Some [x])) cmd_deq
     [Deq, Enq (3, ''sync''), Enq (5, ''(''), Deq, Deq, Enq (4, ''list''), Enq (7, ''rmall''), Deq, Deq, Enq (4, ''x'')] sample_sys
     = Some ([None, Some (3, [''sync'']), None, Some (4, [''list'']), Some (7, [''rmall''])], s')
     \<and> cmdq_holds (cmdq s') [(4, [''x''])]"
proof -
  have "cmdq_holds (cmdq sample_sys) []" by (simp add: sample_sys_def acc_reset_def zero_sys_def zero_cmdq_holds)
  from commands_in_order [OF this, of "\<lambda>x. if x = ''('' then None else Some [x]"
      "[Deq, Enq (3, ''sync''), Enq (5, ''(''), Deq, Deq, Enq (4, ''list''), Enq (7, ''rmall''), Deq, Deq, Enq (4, ''x'')]"]
  show ?thesis by (simp add: expanded_def)
qed

text \<open>Switching the scan: on success the mode is the one asked for, exactly one command is sent when scanning starts
  or stops and none otherwise, and asking again changes nothing.\<close>

theorem scan_follows_the_mode:
  assumes "clm_set_scan E status s = (ec_success, s')"
  shows "free_mode (mng s') = status \<and> clm_set_scan E status s' = (ec_success, s')
    \<and> sent s' = sent s @ (if (free_mode (mng s) = 0) = (status = 0) then []
        else [if status = 0 then cmd_prov_stop_scan_unprov_beacons else cmd_prov_scan_unprov_beacons])"
proof -
  have "free_mode (mng s') = status"
    using assms by (auto simp: clm_set_scan_def bgcall_def Let_def split: if_splits)
  moreover have "sent s' = sent s @ (if (free_mode (mng s) = 0) = (status = 0) then []
        else [if status = 0 then cmd_prov_stop_scan_unprov_beacons else cmd_prov_scan_unprov_beacons])"
    using assms by (auto simp: clm_set_scan_def bgcall_def Let_def split: if_splits)
  ultimately show ?thesis by (simp add: clm_set_scan_def)
qed

theorem scan_follows_the_mode_witness:
  "let s' = snd (clm_set_scan ok_env 1 sample_sys)
   in free_mode (mng s') = 1 \<and> sent s' = [cmd_prov_scan_unprov_beacons]"
proof -
  have s: "free_mode (mng sample_sys) = 0" "sent sample_sys = []"
    by (simp_all add: sample_sys_def acc_reset_def Let_def sample_mng_def zero_mng_def zero_sys_def)
  then have "fst (clm_set_scan ok_env 1 sample_sys) = ec_success"
    by (simp add: clm_set_scan_def bgcall_def Let_def ok_rsp_def)
  then have "clm_set_scan ok_env 1 sample_sys = (ec_success, snd (clm_set_scan ok_env 1 sample_sys))"
    by (metis prod.collapse)
  from scan_follows_the_mode [OF this] show ?thesis using s by simp
qed

subsection \<open>Lights\<close>

text \<open>C36: Every light of a command is served: with a target that takes the messages, as many turns as there are
  lights send one message to each, in order, with consecutive transaction ids, and then the next command is accepted.\<close>

theorem lights_are_served:
  assumes "ms_nodes (mng s) = as" and "as \<noteq> []"
    and "\<And>h c. rsp_result (ncp E h c) \<noteq> bg_err_out_of_memory"
  shows "ms_nodes (mng (models_turns E (length as) s)) = [] \<and> ms_type (mng (models_turns E (length as) s)) = 0
    \<and> sent (models_turns E (length as) s) = sent s @
        map (\<lambda>k. light_msg (ms_type (mng s)) (ms_value (mng s)) (tid s + of_nat k) (as ! k)) [0..<length as]"
  using models_turns_sent [OF assms(3), of "length as" s] assms(1,2) by simp

theorem lights_are_served_witness:
  "let s = sample_sys\<lparr>mng := sample_mng\<lparr>ms_type := ONOFF_SV_BIT, ms_value := 1, ms_nodes := [2, 3]\<rparr>\<rparr>
   in sent (models_turns ok_env (Suc (Suc 0)) s)
      = [cmd_generic_client_set 0x1001 2 0 0 [1], cmd_generic_client_set 0x1001 3 1 0 [1]]"
proof -
  have s: "sent sample_sys = []" "tid sample_sys = 0"
    by (simp_all add: sample_sys_def acc_reset_def Let_def zero_sys_def)
  show ?thesis unfolding Let_def
    using lights_are_served [of "sample_sys\<lparr>mng := sample_mng\<lparr>ms_type := ONOFF_SV_BIT, ms_value := 1, ms_nodes := [2, 3]\<rparr>\<rparr>"
        "[2, 3]" ok_env]
    by (simp add: ok_rsp_def s light_msg_def del: funpow.simps)
qed

text \<open>A light whose message the target had no memory for keeps its place: the turn reports the manager as busy and
  the same light is due in the next one.\<close>

theorem refused_light_stays_due:
  assumes "ms_nodes (mng s) = a # as"
    and "rsp_result (ncp E (sent s) (light_msg (ms_type (mng s)) (ms_value (mng s)) (tid s) a)) = bg_err_out_of_memory"
  shows "\<exists>s'. models_loop E s = (True, s') \<and> mng s' = mng s \<and> tid s' = tid s + 1"
  using models_loop_step [OF assms(1), of E] assms(2) by (simp add: Let_def)

theorem refused_light_stays_due_witness:
  "\<exists>s'. models_loop (ok_env\<lparr>ncp := (\<lambda>_ _. ok_rsp\<lparr>rsp_result := bg_err_out_of_memory\<rparr>)\<rparr>)
     (sample_sys\<lparr>mng := sample_mng\<lparr>ms_nodes := [2]\<rparr>\<rparr>) = (True, s') \<and> ms_nodes (mng s') = [2]"
  using refused_light_stays_due [of "sample_sys\<lparr>mng := sample_mng\<lparr>ms_nodes := [2]\<rparr>\<rparr>" 2 "[]"
      "ok_env\<lparr>ncp := (\<lambda>_ _. ok_rsp\<lparr>rsp_result := bg_err_out_of_memory\<rparr>)\<rparr>"] by auto

end
