(* ===== verification/Cli.thy ===== *)
theory Cli
  imports MngLoop
begin

text \<open>
  The command line, \<open>cli/cli.c\<close>: the table of commands, how a line is taken apart and handed to the
  manager, and the addresses offered as completions. Terminal input and output are left out.
\<close>

text \<open>
  The fields of \<open>command_t\<close> the program reads: \<open>argcmpl\<close> is \<open>seqset_arg_generator\<close> or NULL; \<open>vpget\<close>, where there is
  one, offers the addresses of all nodes or of the lights with a function. Callbacks are dispatched on the index.
\<close>

datatype vpget = vp_addrs | vp_lights u8

record command_t =
  c_name :: string
  c_arg :: "string option"
  c_argcmpl :: bool
  c_vpget :: "vpget option"

definition cmd_entry :: "string \<Rightarrow> string option \<Rightarrow> command_t" where
  "cmd_entry n a = \<lparr>c_name = n, c_arg = a, c_argcmpl = False, c_vpget = None\<rparr>"

definition commands :: "command_t list" where
  "commands = [cmd_entry ''reset'' (Some ''<1/0>''), cmd_entry ''q'' None, cmd_entry ''help'' None, cmd_entry ''sync'' (Some ''[1/0]''),
     cmd_entry ''list'' None, (cmd_entry ''info'' (Some ''[all/addr...]''))\<lparr>c_vpget := Some vp_addrs\<rparr>,
     cmd_entry ''freemode'' (Some ''[on/off]''), cmd_entry ''rmall'' None, cmd_entry ''clrrb'' None,
     (cmd_entry ''seqset'' (Some ''[arb-]''))\<lparr>c_argcmpl := True\<rparr>, cmd_entry ''loglvlset'' (Some ''[e/w/m/d/v] [1/0]''),
     (cmd_entry ''onoff'' (Some ''[on/off] [addr...]''))\<lparr>c_vpget := Some (vp_lights ONOFF_SV_BIT)\<rparr>,
     (cmd_entry ''lightness'' (Some ''[pecentage] [addr...]''))\<lparr>c_vpget := Some (vp_lights LIGHTNESS_SV_BIT)\<rparr>,
     (cmd_entry ''colortemp'' (Some ''[pecentage] [addr...]''))\<lparr>c_vpget := Some (vp_lights CTL_SV_BIT)\<rparr>,
     cmd_entry ''status'' None, cmd_entry ''demo'' (Some ''[on/off]'')]"

definition whitespace :: "char \<Rightarrow> bool" where
  "whitespace c \<longleftrightarrow> c = CHR '' '' \<or> c = CHR 0x09"

text \<open>\<open>stripwhite\<close>: the backward scan stops at the first character of the stripped string.\<close>

definition stripwhite :: "string \<Rightarrow> string" where
  "stripwhite str =
    (case dropWhile whitespace str of
       [] \<Rightarrow> []
     | c # cs \<Rightarrow> c # rev (dropWhile whitespace (rev cs)))"

text \<open>\<open>find_cmd_index\<close>: the first command whose name is a prefix of the line; -1 is \<^const>\<open>None\<close>.\<close>

fun find_cmd_from :: "string \<Rightarrow> nat \<Rightarrow> string list \<Rightarrow> nat option" where
  "find_cmd_from cmd pos [] = None"
| "find_cmd_from cmd pos (n # ns) =
    (if take (length n) cmd = n then Some pos else find_cmd_from cmd (Suc pos) ns)"

definition find_cmd_index :: "string \<Rightarrow> nat option" where
  "find_cmd_index cmd = find_cmd_from cmd 0 (map c_name commands)"

text \<open>What one line makes of the program: the three local commands and the queue of the manager.\<close>

datatype cli_out = cli_ignored | cli_invalid | cli_reset int | cli_quit | cli_help | cli_queued

definition clicb_reset :: "string list \<Rightarrow> int" where
  "clicb_reset argv = (if length argv > 1 then atoi (argv ! 1) else 0) + 1"

definition cli_line :: "(string \<Rightarrow> string list option) \<Rightarrow> string \<Rightarrow> sys \<Rightarrow> (cli_out \<times> sys) option" where
  "cli_line wordexp line s =
    (let str = stripwhite line
     in case wordexp str of
          None \<Rightarrow> Some (cli_ignored, s)
        | Some w \<Rightarrow>
            if str = [] then Some (cli_ignored, s)
            else (case find_cmd_index str of
                    None \<Rightarrow> Some (cli_invalid, s)
                  | Some i \<Rightarrow>
                      if i = 0 then Some (cli_reset (clicb_reset w), s)
                      else if i = 1 then Some (cli_quit, s)
                      else if i = 2 then Some (cli_help, s)
                      else map_option (Pair cli_queued) (cmd_enq wordexp str i s)))"

subsection \<open>Completion of addresses\<close>

abbreviation (input) ADDRULEN :: nat where "ADDRULEN \<equiv> 7"

text \<open>The addresses that fit into a buffer of \<open>inbuflen\<close> bytes, each with its NUL.\<close>

definition addrs_buf :: "nat \<Rightarrow> uint16list_t \<Rightarrow> string list option" where
  "addrs_buf inbuflen l =
    (let len = (if unat (l_len l) * ADDRULEN > inbuflen then inbuflen div ADDRULEN else unat (l_len l))
     in if len \<le> length (l_data l) then Some (map addr_to_buf (take len (l_data l))) else undef)"

definition vaget_lights_addrs :: "nat \<Rightarrow> u8 \<Rightarrow> sys \<Rightarrow> (error_code_t + string list) option" where
  "vaget_lights_addrs inbuflen typ s =
    (if inbuflen = 0 then Some (Inl ec_param_null)
     else do {
       l \<leftarrow> get_lights_addrs typ (db s);
       case l of None \<Rightarrow> Some (Inr []) | Some l \<Rightarrow> map_option Inr (addrs_buf inbuflen l) })"

definition vaget_addrs :: "nat \<Rightarrow> sys \<Rightarrow> (error_code_t + string list) option" where
  "vaget_addrs inbuflen s =
    (if inbuflen = 0 then Some (Inl ec_param_null)
     else case get_node_addrs (db s) of
       None \<Rightarrow> Some (Inr [])
     | Some l \<Rightarrow> map_option Inr (addrs_buf inbuflen l))"

subsection \<open>Facts\<close>

lemma stripwhite_ends:
  "stripwhite str = [] \<or> (\<not> whitespace (hd (stripwhite str)) \<and> \<not> whitespace (last (stripwhite str)))"
proof (cases "dropWhile whitespace str")
  case (Cons c cs)
  then have c: "\<not> whitespace c" by (metis hd_dropWhile list.distinct(1) list.sel(1))
  let ?t = "dropWhile whitespace (rev cs)"
  have "\<not> whitespace (hd ?t)" if "?t \<noteq> []" using hd_dropWhile [OF that] .
  then show ?thesis using Cons c by (auto simp: stripwhite_def last_rev)
qed (simp add: stripwhite_def del: dropWhile_eq_Nil_conv)

lemma find_cmd_from_spec:
  "find_cmd_from cmd pos ns = Some i \<Longrightarrow>
    pos \<le> i \<and> i < pos + length ns \<and> take (length (ns ! (i - pos))) cmd = ns ! (i - pos)"
proof (induction ns arbitrary: pos)
  case (Cons n ns)
  show ?case
  proof (cases "take (length n) cmd = n")
    case True
    then show ?thesis using Cons.prems by simp
  next
    case False
    then show ?thesis using Cons.IH [of "Suc pos"] Cons.prems by (auto simp: nth_Cons' Suc_diff_le)
  qed
qed simp

end
