(* ===== verification/StrUtil.thy ===== *)
theory StrUtil
  imports Strings
begin

text \<open>
  The remaining string helpers of \<open>utils/utils.c\<close>: replacing delimiters, testing a suffix, and writing a
  number into a buffer, with the facts on decimal and hexadecimal digits they need.
\<close>

text \<open>
  \<open>strdelimit\<close>: every character of \<open>del\<close> becomes \<open>c\<close>. When \<open>c\<close> is itself the delimiter the search finds it
  again and again.
\<close>

fun strdelimit :: "string \<Rightarrow> string \<Rightarrow> char \<Rightarrow> string option" where
  "strdelimit str [] c = Some str"
| "strdelimit str (d # ds) c =
    (if d = c \<and> d \<in> set str then undef else strdelimit (map (\<lambda>x. if x = d then c else x) str) ds c)"

text \<open>\<open>strsuffix\<close> compares the end of the string; only whether the result is 0 matters.\<close>

definition strsuffix :: "string \<Rightarrow> string \<Rightarrow> bool" where
  "strsuffix str suf =
    (if str = [] \<and> suf \<noteq> [] then False
     else if suf = [] \<and> str \<noteq> [] then False
     else if length str < length suf then False
     else take (length suf) (drop (length str - length suf) str) = suf)"

text \<open>
  \<open>uint2str\<close> writes the digits from the end of the first \<open>length\<close> bytes of the buffer and moves them to its
  start; no NUL is written. The buffer may be longer than \<open>len\<close>.
\<close>

definition memmove :: "nat \<Rightarrow> nat \<Rightarrow> nat \<Rightarrow> 'a list \<Rightarrow> 'a list option" where
  "memmove dst src n xs =
    (if dst + n \<le> length xs \<and> src + n \<le> length xs
     then Some (take dst xs @ take n (drop src xs) @ drop (dst + n) xs) else undef)"

definition digit_char :: "nat \<Rightarrow> char" where
  "digit_char d = (if d < 10 then char_of (48 + d) else char_of (97 + d - 10))"

text \<open>
  One loop for both bases: \<open>full\<close> is the test that there is no room, \<open>ofs\<close> where the digits start. The
  subtraction \<open>length - 1 - idx\<close> must not wrap.
\<close>

function digits_loop :: "nat \<Rightarrow> (nat \<Rightarrow> bool) \<Rightarrow> nat \<Rightarrow> nat \<Rightarrow> nat \<Rightarrow> nat \<Rightarrow> nat \<Rightarrow> string \<Rightarrow> (error_code_t \<times> string) option"
where
  "digits_loop base full ofs len j rem ret str =
    (if full j then Some (ec_length_leak, str)
     else if len < Suc j then undef
     else do {
       str \<leftarrow> upd str (len - 1 - j) (digit_char rem);
       if ret = 0 \<or> base < 2
       then do { str \<leftarrow> memmove ofs (len - Suc j) (Suc j) str; Some (ec_success, str) }
       else digits_loop base full ofs len (Suc j) (ret mod base) (ret div base) str })"
  by pat_completeness auto
termination
  by (relation "measure (\<lambda>(base, full, ofs, len, j, rem, ret, str). ret)") auto

declare digits_loop.simps [simp del]

datatype base_type = BASE_DEC | BASE_HEX

definition uint2str :: "u64 \<Rightarrow> base_type \<Rightarrow> nat \<Rightarrow> string \<Rightarrow> (error_code_t \<times> string) option" where
  "uint2str input typ len str =
    (if len = 0 then Some (ec_param_invalid, str)
     else case typ of
       BASE_DEC \<Rightarrow> digits_loop 10 (\<lambda>j. j = len) 0 len 0 (unat input mod 10) (unat input div 10) str
     | BASE_HEX \<Rightarrow> do {
         str \<leftarrow> upd str 0 (CHR ''0'');
         str \<leftarrow> upd str 1 (CHR ''x'');
         digits_loop 16 (\<lambda>j. len \<ge> 2 \<and> j > len - 2) 2 len 0 (unat input mod 16) (unat input div 16) str })"

subsection \<open>The digits of a number\<close>

text \<open>The digits, most significant first; \<open>%u\<close> prints \<open>fmt_base 10\<close>.\<close>

function fmt_base :: "nat \<Rightarrow> nat \<Rightarrow> string" where
  "fmt_base b n = (if n < b \<or> b < 2 then [digit_char n] else fmt_base b (n div b) @ [digit_char (n mod b)])"
  by pat_completeness auto
termination
  by (relation "measure snd") auto

declare fmt_base.simps [simp del]

definition fmt_u :: "nat \<Rightarrow> string" where
  "fmt_u n = fmt_base 10 n"

lemma fmt_base_pos [simp]: "0 < length (fmt_base b n)" "fmt_base b n \<noteq> []"
  by (subst fmt_base.simps, simp)+

text \<open>
  The loop leaves the digits, in order, at the end of the buffer and then moves them; \<open>ds\<close> are
  the digits already written.
\<close>

lemma digits_loop_spec:
  assumes "2 \<le> base" and "j + length (fmt_base base (rem + base * ret)) + ofs \<le> len" and "len \<le> length str"
    and "rem < base" and "length ds = j" and "drop (len - j) (take len str) = ds"
    and "\<And>i. i + ofs < len \<Longrightarrow> \<not> full i"
  shows "\<exists>str'. digits_loop base full ofs len j rem ret str = Some (ec_success, str') \<and> length str' = length str
    \<and> take ofs str' = take ofs str
    \<and> take (length (fmt_base base (rem + base * ret) @ ds)) (drop ofs str') = fmt_base base (rem + base * ret) @ ds"
  using assms(2-6)
proof (induction ret arbitrary: j rem str ds rule: less_induct)
  case (less ret)
  let ?n = "rem + base * ret"
  let ?s = "str[len - 1 - j := digit_char rem]"
  have n: "?n mod base = rem" "?n div base = ret" using less.prems(3) assms(1) by auto
  have j: "j + ofs < len" "Suc j \<le> len" using less.prems(1) fmt_base_pos(1) [of base ?n] by linarith+
  have written: "drop (len - Suc j) (take len ?s) = digit_char rem # ds"
  proof -
    have "drop (len - Suc j) (take len ?s) = ?s ! (len - Suc j) # drop (Suc (len - Suc j)) (take len ?s)"
      using j less.prems(2) by (subst Cons_nth_drop_Suc [symmetric]) auto
    moreover have "Suc (len - Suc j) = len - j" using j by simp
    ultimately show ?thesis using j less.prems(2,5) by (simp add: take_update_swap drop_update_cancel)
  qed
  have step: "digits_loop base full ofs len j rem ret str =
      (if ret = 0 then do { str \<leftarrow> memmove ofs (len - Suc j) (Suc j) ?s; Some (ec_success, str) }
       else digits_loop base full ofs len (Suc j) (ret mod base) (ret div base) ?s)"
    using j assms(1) less.prems(2) assms(7) by (subst digits_loop.simps) simp
  show ?case
  proof (cases "ret = 0")
    case True
    have one: "fmt_base base ?n = [digit_char rem]" using True less.prems(3) by (simp add: fmt_base.simps)
    let ?m = "take ofs ?s @ take (Suc j) (drop (len - Suc j) ?s) @ drop (ofs + Suc j) ?s"
    have m: "memmove ofs (len - Suc j) (Suc j) ?s = Some ?m"
      using j less.prems(2) by (simp add: memmove_def)
    have d: "take (Suc j) (drop (len - Suc j) ?s) = digit_char rem # ds"
      using written j by (simp add: drop_take)
    have "take ofs ?s = take ofs str" using j by simp
    then show ?thesis using step True m d one less.prems(2,4) j
      by (intro exI [of _ ?m]) (simp add: one)
  next
    case False
    have ret: "ret mod base + base * (ret div base) = ret" by simp
    have split: "fmt_base base ?n = fmt_base base ret @ [digit_char rem]"
    proof -
      have "base * 1 \<le> base * ret" using False by (intro mult_le_mono2) simp
      then have "\<not> ?n < base" by linarith
      then show ?thesis using assms(1) n by (subst fmt_base.simps) simp
    qed
    have "ret div base < ret" using False assms(1) by simp
    moreover have "Suc j + length (fmt_base base (ret mod base + base * (ret div base))) + ofs \<le> len"
      using less.prems(1) split ret by simp
    ultimately obtain str' where "digits_loop base full ofs len (Suc j) (ret mod base) (ret div base) ?s = Some (ec_success, str')"
      "length str' = length ?s" "take ofs str' = take ofs ?s"
      "take (length (fmt_base base ret @ digit_char rem # ds)) (drop ofs str') = fmt_base base ret @ digit_char rem # ds"
      using less.IH [of "ret div base" "Suc j" "ret mod base" ?s "digit_char rem # ds"] less.prems(2,4) written assms(1) ret
      by auto
    then show ?thesis using step False split j by (intro exI [of _ str']) simp
  qed
qed

lemma uint2str_dec:
  assumes "length (fmt_u (unat v)) \<le> len" and "len \<le> length str"
  shows "\<exists>str'. uint2str v BASE_DEC len str = Some (ec_success, str')
    \<and> take (length (fmt_u (unat v))) str' = fmt_u (unat v)"
proof -
  have "len \<noteq> 0" using assms(1) fmt_base_pos(1) [of 10 "unat v"] unfolding fmt_u_def by linarith
  moreover have "unat v mod 10 + 10 * (unat v div 10) = unat v" by simp
  ultimately show ?thesis
    using digits_loop_spec [of 10 0 "unat v mod 10" "unat v div 10" 0 len str "[]" "\<lambda>j. j = len"] assms
    by (auto simp: uint2str_def fmt_u_def)
qed

lemma uint2str_hex:
  assumes "length (fmt_base 16 (unat v)) + 2 \<le> len" and "len \<le> length str"
  shows "\<exists>str'. uint2str v BASE_HEX len str = Some (ec_success, str')
    \<and> take (length (fmt_base 16 (unat v)) + 2) str' = ''0x'' @ fmt_base 16 (unat v)"
proof -
  have len: "3 \<le> len" using assms(1) fmt_base_pos(1) [of 16 "unat v"] by linarith
  let ?s = "(str[0 := CHR ''0''])[1 := CHR ''x'']"
  have s: "take 2 ?s = ''0x''" using len assms(2) by (cases str; cases "tl str") (auto simp: numeral_2_eq_2)
  have room: "i + 2 < len \<Longrightarrow> \<not> (len \<ge> 2 \<and> i > len - 2)" for i by simp
  have "unat v mod 16 + 16 * (unat v div 16) = unat v" by simp
  then obtain str' where "digits_loop 16 (\<lambda>j. len \<ge> 2 \<and> j > len - 2) 2 len 0 (unat v mod 16) (unat v div 16) ?s
      = Some (ec_success, str')" "take 2 str' = take 2 ?s"
    "take (length (fmt_base 16 (unat v))) (drop 2 str') = fmt_base 16 (unat v)"
    using digits_loop_spec [of 16 0 "unat v mod 16" "unat v div 16" 2 len ?s "[]" "\<lambda>j. len \<ge> 2 \<and> j > len - 2",
        OF _ _ _ _ _ _ room] assms
    by auto
  moreover have "take (length (fmt_base 16 (unat v)) + 2) str' = take 2 str' @ take (length (fmt_base 16 (unat v))) (drop 2 str')"
    by (metis take_add add.commute)
  moreover have "uint2str v BASE_HEX len str
      = digits_loop 16 (\<lambda>j. len \<ge> 2 \<and> j > len - 2) 2 len 0 (unat v mod 16) (unat v div 16) ?s"
  proof -
    have "str \<noteq> []" "Suc 0 < length str" using len assms(2) by auto
    then show ?thesis using len by (simp add: uint2str_def)
  qed
  ultimately show ?thesis using s by (intro exI [of _ str']) simp
qed

subsection \<open>Reading the digits back\<close>

lemma dec_digit_char: "d < 10 \<Longrightarrow> dec_digit (digit_char d) = Some d"
  by (simp add: dec_digit_def digit_char_def Let_def)

lemma hex_digit_char: "d < 16 \<Longrightarrow> hex_digit (digit_char d) = Some d"
  by (auto simp: hex_digit_def digit_char_def Let_def)

lemma str2uint_loop_fmt:
  assumes "2 \<le> b" and "\<And>d. d < b \<Longrightarrow> dig (digit_char d) = Some d"
  shows "r + n * b ^ k < 2 ^ 53 \<Longrightarrow> str2uint_loop dig b (rev (fmt_base b n)) k r = Some (Inr (r + n * b ^ k))"
proof (induction n arbitrary: k r rule: less_induct)
  case (less n)
  show ?case
  proof (cases "n < b")
    case True
    then show ?thesis using assms less.prems by (simp add: fmt_base.simps Let_def not_le)
  next
    case False
    have split: "n * b ^ k = n mod b * b ^ k + n div b * b ^ Suc k"
    proof -
      have "n = n mod b + n div b * b" by simp
      then have "n * b ^ k = (n mod b + n div b * b) * b ^ k" by simp
      also have "\<dots> = n mod b * b ^ k + n div b * b ^ Suc k" by (simp only: add_mult_distrib mult.assoc power_Suc)
      finally show ?thesis .
    qed
    have "n div b < n" using False assms(1) by (auto intro: div_less_dividend)
    then have "str2uint_loop dig b (rev (fmt_base b (n div b))) (Suc k) (r + n mod b * b ^ k)
        = Some (Inr (r + n mod b * b ^ k + n div b * b ^ Suc k))"
      using less.prems split by (intro less.IH) simp_all
    moreover have "r + n mod b * b ^ k < 2 ^ 53" using less.prems split by simp
    ultimately show ?thesis
      using False assms split by (subst fmt_base.simps) (simp add: Let_def not_le)
  qed
qed

lemma fmt_base_dec_digits: "c \<in> set (fmt_base 10 n) \<Longrightarrow> dec_digit c \<noteq> None"
proof (induction n rule: less_induct)
  case (less n)
  show ?case
  proof (cases "n < 10")
    case False
    then have "c \<in> set (fmt_base 10 (n div 10)) \<or> c = digit_char (n mod 10)"
      using less.prems by (subst (asm) fmt_base.simps) auto
    then show ?thesis using less.IH [of "n div 10"] False by (auto simp: dec_digit_char)
  qed (use less.prems in \<open>auto simp: fmt_base.simps dec_digit_char\<close>)
qed

lemma str2uint_dec:
  assumes "n < 2 ^ 53" and "0 < retlen"
  shows "str2uint (fmt_u n) retlen = Some (Inr (n mod 2 ^ store_bits retlen))"
proof -
  have ne: "fmt_u n \<noteq> []" by (simp add: fmt_u_def)
  have "''0x'' \<noteq> take 2 (fmt_u n)"
  proof
    assume "''0x'' = take 2 (fmt_u n)"
    then have "CHR ''x'' \<in> set (take 2 (fmt_u n))" by (metis list.set_intros(1,2))
    then have "CHR ''x'' \<in> set (fmt_u n)" using in_set_takeD by fast
    then show False using fmt_base_dec_digits [of "CHR ''x''" n] by (simp add: fmt_u_def dec_digit_def)
  qed
  then show ?thesis
    using str2uint_loop_fmt [of 10 dec_digit 0 n 0] dec_digit_char ne assms by (simp add: str2uint_def fmt_u_def)
qed

lemma str2uint_hex:
  assumes "n < 2 ^ 53" and "0 < retlen"
  shows "str2uint (''0x'' @ fmt_base 16 n) retlen = Some (Inr (n mod 2 ^ store_bits retlen))"
  using str2uint_loop_fmt [of 16 hex_digit 0 n 0] hex_digit_char assms by (simp add: str2uint_def)

subsection \<open>Delimiters and suffixes\<close>

lemma strdelimit_spec:
  "c \<notin> set del \<Longrightarrow> strdelimit str del c = Some (map (\<lambda>x. if x \<in> set del then c else x) str)"
  by (induction str del c rule: strdelimit.induct) (auto simp: comp_def intro!: arg_cong2 [where f = map])

lemma strsuffix_spec: "str \<noteq> [] \<Longrightarrow> suf \<noteq> [] \<Longrightarrow> strsuffix str suf = suffix suf str"
proof -
  assume ne: "str \<noteq> []" "suf \<noteq> []"
  have "suffix suf str \<longleftrightarrow> length suf \<le> length str \<and> drop (length str - length suf) str = suf"
  proof
    assume "suffix suf str"
    then obtain p where "str = p @ suf" by (auto simp: suffix_def)
    then show "length suf \<le> length str \<and> drop (length str - length suf) str = suf" by simp
  next
    assume "length suf \<le> length str \<and> drop (length str - length suf) str = suf"
    then have "str = take (length str - length suf) str @ suf" by (metis append_take_drop_id)
    then show "suffix suf str" by (metis suffix_def)
  qed
  then show ?thesis using ne by (auto simp: strsuffix_def)
qed

end
