(* ===== verification/Startup.thy ===== *)
theory Startup
  imports Cli StrUtil
begin

unbundle bit_operations_syntax

text \<open>
  Program start, \<open>utils/startup.c\<close>: the arguments of the command line and of the file \<open>.config\<close>, which
  are merged and written back, and the initialisation functions, which run again after a reset. The
  options come from \<open>getopt\<close> as pairs of the letter and its argument. Leaving the program by
  \<open>exit(status)\<close> is \<^term>\<open>Inl status\<close>.
\<close>

type_synonym 'a run = "(nat + 'a) option"

abbreviation (input) exits :: "nat \<Rightarrow> 'a run" where "exits n \<equiv> Some (Inl n)"
abbreviation (input) continues :: "'a \<Rightarrow> 'a run" where "continues x \<equiv> Some (Inr x)"

definition run_bind :: "'a run \<Rightarrow> ('a \<Rightarrow> 'b run) \<Rightarrow> 'b run" where
  "run_bind m f = (case m of None \<Rightarrow> None | Some (Inl n) \<Rightarrow> exits n | Some (Inr x) \<Rightarrow> f x)"

lemma run_bind_simps [simp]:
  "run_bind None f = None" "run_bind (Some (Inl n)) f = Some (Inl n)" "run_bind (Some (Inr x)) f = f x"
  by (simp_all add: run_bind_def)

subsection \<open>The arguments\<close>

text \<open>
  \<open>proj_args_t\<close>: the serial port (\<open>br\<close>, \<open>port\<close>) and the sockets (\<open>enc\<close>, \<open>srv\<close>, \<open>clt\<close>) are the members
  of a union, so they share its 220 bytes.
\<close>

record proj_args_t =
  pa_initialized :: bool
  pa_enc :: bool
  pa_mem :: string

abbreviation (input) NUL :: char where "NUL \<equiv> CHR 0x00"
abbreviation (input) NL :: char where "NL \<equiv> CHR 0x0A"
abbreviation (input) FILE_PATH_MAX :: nat where "FILE_PATH_MAX \<equiv> 108"
abbreviation (input) PORT_OFS :: nat where "PORT_OFS \<equiv> 4"
abbreviation (input) SRV_OFS :: nat where "SRV_OFS \<equiv> 1"
abbreviation (input) CLT_OFS :: nat where "CLT_OFS \<equiv> 109"

definition zero_projargs :: proj_args_t where
  "zero_projargs = \<lparr>pa_initialized = False, pa_enc = False, pa_mem = replicate 220 NUL\<rparr>"

definition cstr_at :: "nat \<Rightarrow> string \<Rightarrow> string" where
  "cstr_at ofs mem = takeWhile (\<lambda>c. c \<noteq> NUL) (drop ofs mem)"

text \<open>\<open>strcpy\<close> into a member of \<open>FILE_PATH_MAX\<close> bytes.\<close>

definition strcpy_at :: "nat \<Rightarrow> string \<Rightarrow> proj_args_t \<Rightarrow> proj_args_t option" where
  "strcpy_at ofs str a =
    (if length str < FILE_PATH_MAX
     then Some (a\<lparr>pa_mem := take ofs (pa_mem a) @ str @ [NUL] @ drop (ofs + length str + 1) (pa_mem a)\<rparr>)
     else undef)"

definition serial_br :: "proj_args_t \<Rightarrow> u32" where
  "serial_br a = of_nat (of_char (pa_mem a ! 0) + 256 * of_char (pa_mem a ! 1)
     + 65536 * of_char (pa_mem a ! 2) + 16777216 * of_char (pa_mem a ! 3))"

definition set_serial_br :: "u32 \<Rightarrow> proj_args_t \<Rightarrow> proj_args_t" where
  "set_serial_br br a = a\<lparr>pa_mem := map (\<lambda>k. char_of (unat br div 256 ^ k mod 256)) [0, 1, 2, 3] @ drop 4 (pa_mem a)\<rparr>"

definition set_sock_enc :: "bool \<Rightarrow> proj_args_t \<Rightarrow> proj_args_t" where
  "set_sock_enc b a = a\<lparr>pa_mem := (if b then CHR 0x01 else NUL) # tl (pa_mem a)\<rparr>"

definition sock_enc :: "proj_args_t \<Rightarrow> bool" where
  "sock_enc a = (pa_mem a ! 0 \<noteq> NUL)"

abbreviation (input) ARG_DIRTY_ENC :: nat where "ARG_DIRTY_ENC \<equiv> 0"
abbreviation (input) ARG_DIRTY_PORT :: nat where "ARG_DIRTY_PORT \<equiv> 1"
abbreviation (input) ARG_DIRTY_BR :: nat where "ARG_DIRTY_BR \<equiv> 2"
abbreviation (input) ARG_DIRTY_SOCK_SRV :: nat where "ARG_DIRTY_SOCK_SRV \<equiv> 3"
abbreviation (input) ARG_DIRTY_SOCK_CLT :: nat where "ARG_DIRTY_SOCK_CLT \<equiv> 4"
abbreviation (input) ARG_DIRTY_SOCK_ENC :: nat where "ARG_DIRTY_SOCK_ENC \<equiv> 5"

definition arg_keys :: "string list" where
  "arg_keys = [''Encryption'', ''Port'', ''Baud Rate'', ''Socket Server'', ''Socket Client'', ''Socket Encription'']"

text \<open>The options; every invalid one prints the usage, which exits.\<close>

fun store_args :: "(char \<times> string) list \<Rightarrow> u32 \<Rightarrow> proj_args_t \<Rightarrow> (u32 \<times> proj_args_t) run" where
  "store_args [] dirty a = continues (dirty, a)"
| "store_args ((c, optarg) # opts) dirty a =
    (if c = CHR ''m''
     then if take 1 optarg = ''s'' then store_args opts (BIT_SET dirty ARG_DIRTY_ENC) (a\<lparr>pa_enc := True\<rparr>)
          else if take 1 optarg = ''i'' then store_args opts (BIT_SET dirty ARG_DIRTY_ENC) (a\<lparr>pa_enc := False\<rparr>)
          else exits 1
     else if c = CHR ''p''
     then do { a \<leftarrow> strcpy_at PORT_OFS optarg a; store_args opts (BIT_SET dirty ARG_DIRTY_PORT) a }
     else if c = CHR ''b''
     then store_args opts (BIT_SET dirty ARG_DIRTY_BR) (set_serial_br (of_int (atoi optarg)) a)
     else if c = CHR ''s''
     then do { a \<leftarrow> strcpy_at SRV_OFS optarg a; store_args opts (BIT_SET dirty ARG_DIRTY_SOCK_SRV) a }
     else if c = CHR ''c''
     then do { a \<leftarrow> strcpy_at CLT_OFS optarg a; store_args opts (BIT_SET dirty ARG_DIRTY_SOCK_CLT) a }
     else if c = CHR ''e''
     then store_args opts (BIT_SET dirty ARG_DIRTY_SOCK_ENC) (set_sock_enc (atoi optarg \<noteq> 0) a)
     else exits 1)"

subsection \<open>The file\<close>

text \<open>\<open>strchr(str, '=')\<close> and the blanks after it: what comes before the value, and the value.\<close>

definition split_value :: "string \<Rightarrow> (string \<times> string) option" where
  "split_value str =
    (case dropWhile (\<lambda>c. c \<noteq> CHR ''='') str of
       [] \<Rightarrow> None
     | e # val \<Rightarrow> Some (takeWhile (\<lambda>c. c \<noteq> CHR ''='') str @ ''='' @ takeWhile (\<lambda>c. c = CHR '' '') val,
                        dropWhile (\<lambda>c. c = CHR '' '') val))"

definition store_cache_config :: "string \<Rightarrow> nat \<Rightarrow> proj_args_t \<Rightarrow> proj_args_t run" where
  "store_cache_config str key a =
    (case split_value str of
       None \<Rightarrow> exits 1
     | Some (_, val) \<Rightarrow>
         if key = ARG_DIRTY_ENC then continues (a\<lparr>pa_enc := (take 1 val \<noteq> ''0'')\<rparr>)
         else if key = ARG_DIRTY_PORT
         then if pa_enc a then continues a else map_option Inr (strcpy_at PORT_OFS val a)
         else if key = ARG_DIRTY_BR
         then continues (if pa_enc a then a else set_serial_br (of_int (atoi val)) a)
         else if key = ARG_DIRTY_SOCK_SRV
         then if \<not> pa_enc a then continues a else map_option Inr (strcpy_at SRV_OFS val a)
         else if key = ARG_DIRTY_SOCK_CLT
         then if \<not> pa_enc a then continues a else map_option Inr (strcpy_at CLT_OFS val a)
         else if key = ARG_DIRTY_SOCK_ENC
         then continues (if \<not> pa_enc a then a else set_sock_enc (atoi val \<noteq> 0) a)
         else continues a)"

text \<open>\<open>fgets(tmp, LINE_MAX_LENGTH, fp)\<close> until the end of the file.\<close>

abbreviation (input) LINE_MAX_LENGTH :: nat where "LINE_MAX_LENGTH \<equiv> 100"

definition fgets :: "string \<Rightarrow> string" where
  "fgets str =
    (let t = take (LINE_MAX_LENGTH - 1) str; l = takeWhile (\<lambda>c. c \<noteq> NL) t
     in if length l < length t then l @ [NL] else t)"

function fgets_all :: "string \<Rightarrow> string list" where
  "fgets_all str = (if str = [] then [] else fgets str # fgets_all (drop (length (fgets str)) str))"
  by pat_completeness auto
termination
  by (relation "measure length") (auto simp: fgets_def Let_def)

declare fgets_all.simps [simp del]

abbreviation (input) ARG_MAX_INVALID :: nat where "ARG_MAX_INVALID \<equiv> 6"

record load_t =
  ld_dirty :: u32
  ld_args :: proj_args_t
  ld_buf :: string
  ld_size :: nat

text \<open>
  \<open>strcat(buf, str)\<close>: \<open>buf\<close> has \<open>ld_size\<close> bytes, the size of the file and \<open>ARG_MAX_INVALID\<close> lines more; a
  text that does not fit with its NUL is written past the end.
\<close>

definition buf_cat :: "string \<Rightarrow> load_t \<Rightarrow> load_t option" where
  "buf_cat str l =
    (if length (ld_buf l) + length str < ld_size l then Some (l\<lparr>ld_buf := ld_buf l @ str\<rparr>) else undef)"

text \<open>
  The loop over the keys for one line. A line with the key of an option that was given is dropped, but for
  the encryption, whose digit is replaced; it ends the loop. Any other matching key adds the line
  to the buffer and stores its value, and the loop goes on. An empty value of the encryption would be
  written over the terminating NUL, in front of whatever the buffer held before.
\<close>

fun load_keys :: "nat list \<Rightarrow> string \<Rightarrow> load_t \<Rightarrow> load_t run" where
  "load_keys [] tmp l = continues l"
| "load_keys (i # is) tmp l =
    (if \<not> strstr tmp (arg_keys ! i) then load_keys is tmp l
     else if bit (ld_dirty l) i
     then if i = ARG_DIRTY_ENC
          then (case split_value tmp of
                  None \<Rightarrow> exits 1
                | Some (pre, []) \<Rightarrow> undef
                | Some (pre, v # vs) \<Rightarrow> do {
                    l \<leftarrow> buf_cat (pre @ (if pa_enc (ld_args l) then CHR ''1'' else CHR ''0'') # vs) l;
                    continues (l\<lparr>ld_dirty := BIT_CLR (ld_dirty l) ARG_DIRTY_ENC\<rparr>) })
          else continues l
     else do {
       l \<leftarrow> buf_cat tmp l;
       run_bind (store_cache_config tmp i (ld_args l)) (\<lambda>a. load_keys is tmp (l\<lparr>ld_args := a\<rparr>)) })"

fun load_pieces :: "string list \<Rightarrow> load_t \<Rightarrow> load_t run" where
  "load_pieces [] l = continues l"
| "load_pieces (tmp # ts) l =
    (if take 1 tmp = ''#'' then load_pieces ts l
     else run_bind (load_keys [0..<6] tmp l) (load_pieces ts))"

subsection \<open>Writing back\<close>

text \<open>\<open>__append_cfg\<close>: the line is formatted into \<open>LINE_MAX_LENGTH\<close> bytes.\<close>

definition append_cfg :: "string \<Rightarrow> string \<Rightarrow> load_t \<Rightarrow> load_t option" where
  "append_cfg key val l =
    (let line = key @ '' = '' @ val @ [NL] in if length line < LINE_MAX_LENGTH then buf_cat line l else undef)"

text \<open>\<open>sprintf(v, "%u", n)\<close> is \<open>fmt_u\<close>.\<close>

definition arg_value :: "nat \<Rightarrow> proj_args_t \<Rightarrow> string" where
  "arg_value i a =
    (if i = ARG_DIRTY_ENC then (if pa_enc a then ''1'' else ''0'')
     else if i = ARG_DIRTY_PORT then cstr_at PORT_OFS (pa_mem a)
     else if i = ARG_DIRTY_BR then fmt_u (unat (serial_br a))
     else if i = ARG_DIRTY_SOCK_SRV then cstr_at SRV_OFS (pa_mem a)
     else if i = ARG_DIRTY_SOCK_CLT then cstr_at CLT_OFS (pa_mem a)
     else fmt_u (if sock_enc a then 1 else 0))"

fun append_dirty :: "nat list \<Rightarrow> load_t \<Rightarrow> load_t option" where
  "append_dirty [] l = Some l"
| "append_dirty (i # is) l =
    (if ld_dirty l = 0 then Some l
     else if \<not> bit (ld_dirty l) i then append_dirty is l
     else do {
       l \<leftarrow> append_cfg (arg_keys ! i) (arg_value i (ld_args l)) l;
       append_dirty is (l\<lparr>ld_dirty := BIT_CLR (ld_dirty l) i\<rparr>) })"

text \<open>\<open>r = strrchr(s, '\n'); if (r) *r = '\0';\<close>\<close>

definition strip_nl :: "nat \<Rightarrow> string \<Rightarrow> string" where
  "strip_nl ofs mem =
    (let str = cstr_at ofs mem; after = takeWhile (\<lambda>c. c \<noteq> NL) (rev str)
     in if NL \<in> set str then mem[ofs + (length str - 1 - length after) := NUL] else mem)"

definition args_sane :: "proj_args_t \<Rightarrow> bool" where
  "args_sane a =
    (if pa_enc a then pa_mem a ! SRV_OFS \<noteq> NUL \<and> pa_mem a ! CLT_OFS \<noteq> NUL
     else pa_mem a ! PORT_OFS \<noteq> NUL \<and> serial_br a \<noteq> 0)"

definition cfg_comment :: string where
  "cfg_comment = replicate 72 (CHR ''#'') @ [NL]
     @ ''# ** Startup Config File **'' @ [NL]
     @ ''#   - DO NOT EDIT IT MANUALLY IF YOU ARE NOT SURE ABOUT THE RULES'' @ [NL]
     @ ''#   - The first config entry should always be if the connection between'' @ [NL]
     @ ''#     NCP host and target is encrypted or not'' @ [NL]
     @ ''#   - For more information, look into the source code'' @ [NL]
     @ replicate 72 (CHR ''#'') @ [NL]"

text \<open>
  \<open>setprojargs\<close>: \<open>argv1\<close> is the first argument of the program, \<open>opts\<close> its options, \<open>cfg\<close> the text of the file
  \<open>.config\<close>, if it exists; the results are the arguments and the new text.
\<close>

definition setprojargs ::
  "string option \<Rightarrow> (char \<times> string) list \<Rightarrow> string option \<Rightarrow> proj_args_t \<Rightarrow> (proj_args_t \<times> string) run" where
  "setprojargs argv1 opts cfg a =
    (if argv1 = Some ''--help'' \<or> argv1 = Some ''-h'' then exits 1
     else run_bind (if argv1 = None then continues (0, a) else store_args opts 0 a) (\<lambda>(dirty, a).
       let f = (case cfg of None \<Rightarrow> [] | Some f \<Rightarrow> f) in
       run_bind (load_pieces (fgets_all f)
                  \<lparr>ld_dirty = dirty, ld_args = a, ld_buf = [],
                   ld_size = length f + ARG_MAX_INVALID * LINE_MAX_LENGTH\<rparr>) (\<lambda>l.
         if \<not> args_sane (ld_args l) then exits 1
         else do {
           l \<leftarrow> append_dirty [0..<6] l;
           let a = ld_args l;
           let mem = strip_nl SRV_OFS (strip_nl CLT_OFS (strip_nl PORT_OFS (pa_mem a)));
           continues (a\<lparr>pa_mem := mem, pa_initialized := True\<rparr>, cfg_comment @ ld_buf l) })))"

subsection \<open>Initialisation\<close>

abbreviation (input) CLI_INIT :: nat where "CLI_INIT \<equiv> 0"
abbreviation (input) CLR_ALL :: nat where "CLR_ALL \<equiv> 1"
abbreviation (input) NCP_INIT :: nat where "NCP_INIT \<equiv> 2"
abbreviation (input) CFG_INIT :: nat where "CFG_INIT \<equiv> 3"
abbreviation (input) MNG_INIT :: nat where "MNG_INIT \<equiv> 4"

definition FULL_RESET :: u32 where
  "FULL_RESET = push_bit CLI_INIT 1 OR push_bit CFG_INIT 1 OR push_bit NCP_INIT 1 OR push_bit CFG_INIT 1
     OR push_bit MNG_INIT 1"

definition NORMAL_RESET :: u32 where
  "NORMAL_RESET = push_bit NCP_INIT 1 OR push_bit CFG_INIT 1 OR push_bit MNG_INIT 1"

definition FACTORY_RESET :: u32 where
  "FACTORY_RESET = push_bit CLR_ALL 1 OR push_bit NCP_INIT 1 OR push_bit CFG_INIT 1 OR push_bit MNG_INIT 1"

text \<open>
  \<open>sync_host_and_ncp_target\<close>: one event is looked at per second, anything but the boot event makes it reset the
  target again; \<open>peek k\<close> is the event that is there at the \<open>k\<close>-th look. After \<open>MAXSLEEP\<close> seconds it exits.
\<close>

abbreviation (input) MAXSLEEP :: nat where "MAXSLEEP \<equiv> 60 * 5"

fun sync_host_and_ncp_target :: "env \<Rightarrow> (nat \<Rightarrow> bgevt option) \<Rightarrow> nat \<Rightarrow> nat \<Rightarrow> sys \<Rightarrow> sys run" where
  "sync_host_and_ncp_target E peek timeout 0 s = exits 1"
| "sync_host_and_ncp_target E peek timeout (Suc k) s =
    (if (case peek timeout of None \<Rightarrow> False | Some e \<Rightarrow> msg_id e = 0x000100a0) then continues s
     else sync_host_and_ncp_target E peek (Suc timeout) k (snd (bgcall E cmd_system_reset s)))"

text \<open>The transport: whether it opens, and the events it delivers while host and target synchronise.\<close>

record transport =
  tr_opens :: "proj_args_t \<Rightarrow> bool"
  tr_peek :: "nat \<Rightarrow> bgevt option"

definition init_ncp :: "env \<Rightarrow> transport \<Rightarrow> proj_args_t \<Rightarrow> sys \<Rightarrow> (error_code_t \<times> sys) run" where
  "init_ncp E tr a s =
    (if \<not> pa_initialized a then continues (ec_state, s)
     else if \<not> tr_opens tr a then exits 1
     else run_bind (sync_host_and_ncp_target E (tr_peek tr) 0 MAXSLEEP s) (\<lambda>s. continues (ec_success, s)))"

definition init_fun :: "env \<Rightarrow> transport \<Rightarrow> proj_args_t \<Rightarrow> nat \<Rightarrow> sys \<Rightarrow> (error_code_t \<times> sys) run" where
  "init_fun E tr a i s =
    (if i = CLI_INIT then continues (ec_success, s)
     else if i = CLR_ALL then map_option Inr (clr_all E s)
     else if i = NCP_INIT then init_ncp E tr a s
     else if i = CFG_INIT then map_option Inr (cfg_init E s)
     else if i = MNG_INIT then map_option (\<lambda>s. Inr (ec_success, s)) (mng_init s)
     else undef)"

fun init_loop :: "env \<Rightarrow> transport \<Rightarrow> proj_args_t \<Rightarrow> u32 \<Rightarrow> nat list \<Rightarrow> sys \<Rightarrow> sys run" where
  "init_loop E tr a ret [] s = continues s"
| "init_loop E tr a ret (i # is) s =
    (if \<not> bit ret i then init_loop E tr a ret is s
     else run_bind (init_fun E tr a i s) (\<lambda>(e, s).
            if e \<noteq> ec_success then exits 1 else init_loop E tr a ret is s))"

text \<open>
  \<open>cli_proc\<close> from the return of \<open>setjmp\<close> up to the creation of the manager's thread; \<open>ret\<close> is 0 the first
  time and the bitmap of a reset later, when the thread of the manager is running.
\<close>

definition cli_proc :: "env \<Rightarrow> transport \<Rightarrow> proj_args_t \<Rightarrow> bool \<Rightarrow> u32 \<Rightarrow> sys \<Rightarrow> sys run" where
  "cli_proc E tr a started ret s =
    (let s = (if started then s\<lparr>mng := (mng s)\<lparr>m_state := nil\<rparr>\<rparr> else s);
         ret = (if ret = 0 then FULL_RESET else ret)
     in run_bind (init_loop E tr a ret [0..<32] s) (\<lambda>s. map_option (\<lambda>(e, s). Inr s) (nwk_init E s)))"

text \<open>The bitmap of the reset a line asks for: \<open>reset\<close> of \<open>cli.c\<close> is 0 when none is due.\<close>

definition reset_bitmap :: "cli_out \<Rightarrow> u32 option" where
  "reset_bitmap out =
    (case out of cli_reset r \<Rightarrow> if r = 0 then None else Some (if r = 2 then FACTORY_RESET else NORMAL_RESET)
     | _ \<Rightarrow> None)"

end
