(* ===== verification/StartFacts.thy ===== *)
theory StartFacts
  imports Startup
begin

text \<open>Facts on the arguments of the program: the memory of the union, the lines of the file, and numbers as text.\<close>

subsection \<open>Text\<close>

lemma strstr_subset: "strstr s k \<Longrightarrow> set k \<subseteq> set s"
  by (induction s k rule: strstr.induct) (fastforce dest: set_mono_prefix)+

lemma fgets_line: "NL \<notin> set l \<Longrightarrow> length l \<le> 98 \<Longrightarrow> fgets (l @ NL # rest) = l @ [NL]"
proof -
  assume l: "NL \<notin> set l" "length l \<le> 98"
  then have "takeWhile (\<lambda>c. c \<noteq> NL) (take 99 (l @ NL # rest)) = l"
    by (auto simp: takeWhile_append take_Cons' intro!: takeWhile_eq_all_conv [THEN iffD2])
  then show ?thesis using l by (simp add: fgets_def Let_def)
qed

lemma fgets_all_line:
  "NL \<notin> set l \<Longrightarrow> length l \<le> 98 \<Longrightarrow> fgets_all (l @ NL # rest) = (l @ [NL]) # fgets_all rest"
  using fgets_line [of l rest] by (subst fgets_all.simps) simp

lemma fgets_all_Nil [simp]: "fgets_all [] = []"
  by (simp add: fgets_all.simps)

text \<open>The comment is skipped.\<close>

definition comment_lines :: "string list" where
  "comment_lines = [replicate 72 (CHR ''#''), ''# ** Startup Config File **'',
     ''#   - DO NOT EDIT IT MANUALLY IF YOU ARE NOT SURE ABOUT THE RULES'',
     ''#   - The first config entry should always be if the connection between'',
     ''#     NCP host and target is encrypted or not'',
     ''#   - For more information, look into the source code'', replicate 72 (CHR ''#'')]"

lemma cfg_comment_lines: "cfg_comment = concat (map (\<lambda>ln. ln @ [NL]) comment_lines)"
  by (simp add: cfg_comment_def comment_lines_def)

definition comment_line :: "string \<Rightarrow> bool" where
  "comment_line ln \<longleftrightarrow> NL \<notin> set ln \<and> length ln \<le> 98 \<and> take 1 ln = ''#''"

lemma load_comment_lines:
  "list_all comment_line lns \<Longrightarrow>
    load_pieces (fgets_all (concat (map (\<lambda>ln. ln @ [NL]) lns) @ rest)) l = load_pieces (fgets_all rest) l"
proof (induction lns)
  case (Cons ln lns)
  then have ln: "NL \<notin> set ln" "length ln \<le> 98" "take 1 (ln @ [NL]) = ''#''"
    by (auto simp: comment_line_def take_Suc split: list.splits) (cases ln; simp)+
  then show ?case using Cons fgets_all_line [OF ln(1,2)] by simp
qed simp

lemma load_comment: "load_pieces (fgets_all (cfg_comment @ rest)) l = load_pieces (fgets_all rest) l"
proof -
  have "list_all comment_line comment_lines" by code_simp
  then show ?thesis unfolding cfg_comment_lines by (rule load_comment_lines)
qed

lemma of_char_int: "m < 256 \<Longrightarrow> (of_char (char_of m :: char) :: int) = int m"
  by (metis mod_less of_char_of of_nat_of_char)

lemma dec_value_fmt: "foldl (\<lambda>n c. 10 * n + (of_char c - 48)) 0 (fmt_base 10 n) = int n"
proof (induction n rule: less_induct)
  case (less n)
  show ?case
  proof (cases "n < 10")
    case True
    then show ?thesis by (subst fmt_base.simps) (simp add: digit_char_def of_char_int)
  next
    case False
    have "int (n mod 10) = int n - 10 * int (n div 10)" by (simp add: zmod_int zdiv_int minus_mult_div_eq_mod)
    then show ?thesis using False less.IH [of "n div 10"] by (subst fmt_base.simps) (simp add: digit_char_def of_char_int)
  qed
qed

lemma fmt_u_digit: "c \<in> set (fmt_u n) \<Longrightarrow> dec_digit c \<noteq> None"
  unfolding fmt_u_def by (rule fmt_base_dec_digits)

lemma fmt_u_chars: "c \<in> set (fmt_u n) \<Longrightarrow> 48 \<le> (of_char c :: nat) \<and> of_char c \<le> (57 :: nat)"
  using fmt_u_digit by (fastforce simp: dec_digit_def Let_def split: if_splits)

lemma fmt_u_ne [simp]: "fmt_u n \<noteq> []"
  by (simp add: fmt_u_def)

lemma atoi_fmt_u:
  assumes "dec_digit (hd (rest @ [NUL])) = None"
  shows "atoi (fmt_u n @ rest) = int n"
proof -
  obtain c cs where c: "fmt_u n = c # cs" by (cases "fmt_u n") auto
  have d: "48 \<le> (of_char c :: nat) \<and> of_char c \<le> (57 :: nat)" using fmt_u_chars [of c n] c by simp
  then have no: "c \<noteq> CHR '' ''" "c \<noteq> CHR ''-''" "c \<noteq> CHR ''+''" by auto
  have ds: "takeWhile (\<lambda>c. dec_digit c \<noteq> None) (fmt_u n @ rest) = fmt_u n"
    using fmt_u_digit assms by (cases rest) (auto simp: takeWhile_append2)
  have "atoi (fmt_u n @ rest) = dec_value (fmt_u n @ rest)"
    using d no unfolding c atoi_def by (simp add: dec_value_def)
  then show ?thesis using dec_value_fmt [of n] ds by (simp add: dec_value_def fmt_u_def)
qed

subsection \<open>Memory\<close>

definition br_bytes :: "nat \<Rightarrow> string" where
  "br_bytes n = map (\<lambda>k. char_of (n div 256 ^ k mod 256)) [0, 1, 2, 3]"

lemma length_br_bytes [simp]: "length (br_bytes n) = 4"
  by (simp add: br_bytes_def)

lemma br_bytes_value:
  assumes "n < 2 ^ 32" and "take 4 mem = br_bytes n" and "4 \<le> length mem"
  shows "serial_br \<lparr>pa_initialized = i, pa_enc = e, pa_mem = mem\<rparr> = of_nat n"
proof -
  have "mem ! k = br_bytes n ! k" if "k < 4" for k using assms(2,3) that by (metis nth_take)
  then have b: "of_char (mem ! 0) = n mod 256" "of_char (mem ! 1) = n div 256 mod 256"
    "of_char (mem ! 2) = n div 65536 mod 256" "of_char (mem ! 3) = n div 16777216 mod 256"
    by (simp_all add: br_bytes_def)
  have sum: "n mod 256 + 256 * (n div 256 mod 256) + 65536 * (n div 65536 mod 256)
      + 16777216 * (n div 16777216 mod 256) = n"
  proof -
    have d: "n div 65536 = n div 256 div 256" "n div 16777216 = n div 256 div 256 div 256"
      by (simp_all add: div_mult2_eq [symmetric])
    have "n div 256 div 256 div 256 < 256" using assms(1) by (simp add: div_mult2_eq [symmetric] less_mult_imp_div_less)
    moreover have "r0 + 256 * r1 + 65536 * r2 + 16777216 * c = n"
      if "n = r0 + 256 * a" "a = r1 + 256 * b" "b = r2 + 256 * c" for r0 r1 r2 a b c :: nat
      using that by simp
    from this [OF mod_mult_div_eq [symmetric] mod_mult_div_eq [symmetric] mod_mult_div_eq [symmetric]]
    have "n mod 256 + 256 * (n div 256 mod 256) + 65536 * (n div 256 div 256 mod 256)
      + 16777216 * (n div 256 div 256 div 256) = n" .
    ultimately show ?thesis unfolding d by simp
  qed
  have "of_char (mem ! 0) + 256 * of_char (mem ! 1) + 65536 * of_char (mem ! 2) + 16777216 * of_char (mem ! 3) = n"
    unfolding b by (rule sum)
  then show ?thesis unfolding serial_br_def by simp
qed

text \<open>The memory that holds a serial port: the bytes of the rate, the name, and zeros.\<close>

definition serial_mem :: "nat \<Rightarrow> string \<Rightarrow> string" where
  "serial_mem n p = br_bytes n @ p @ replicate (216 - length p) NUL"

lemma cstr_at_port:
  assumes "NUL \<notin> set p" and "length p < 108"
  shows "cstr_at 4 (serial_mem n p) = p"
proof -
  have "216 - length p = Suc (215 - length p)" using assms(2) by simp
  then have "replicate (216 - length p) NUL = NUL # replicate (215 - length p) NUL" by simp
  moreover have "takeWhile (\<lambda>c. c \<noteq> NUL) (p @ NUL # r) = p" for r
    using assms(1) by (subst takeWhile_append2) auto
  ultimately show ?thesis by (simp add: cstr_at_def serial_mem_def)
qed

lemma char_of_eq_iff: "m < 256 \<Longrightarrow> k < 256 \<Longrightarrow> (char_of m :: char) = char_of k \<longleftrightarrow> m = (k :: nat)"
proof
  assume m: "m < 256" "k < 256" and "(char_of m :: char) = char_of k"
  then have "(of_char (char_of m :: char) :: nat) = of_char (char_of k :: char)" by simp
  then show "m = k" using m by (simp only: of_char_of mod_less)
qed simp

lemma char_of_0: "char_of (0 :: nat) = NUL"
  by (simp add: char_of_def)

lemma char_of_10: "char_of (10 :: nat) = NL"
  by code_simp

lemma strcpy_port:
  assumes "length q < 108"
  shows "strcpy_at 4 q zero_projargs = Some (zero_projargs\<lparr>pa_mem := serial_mem 0 q\<rparr>)"
proof -
  have z: "br_bytes 0 = replicate 4 NUL" 
  proof -
    have "replicate 4 NUL = [NUL, NUL, NUL, NUL]" by code_simp
    then show ?thesis by (simp add: br_bytes_def char_of_0)
  qed
  have t4: "take 4 (replicate 220 NUL) = replicate 4 NUL" by simp
  have "216 - length q = Suc (215 - length q)" "220 - (4 + length q + 1) = 215 - length q" using assms by simp_all
  then have "[NUL] @ drop (4 + length q + 1) (replicate 220 NUL) = replicate (216 - length q) NUL" by simp
  then show ?thesis using assms by (simp add: strcpy_at_def zero_projargs_def serial_mem_def z t4)
qed

lemma set_br_port:
  assumes "n < 2 ^ 32" and "pa_mem a = serial_mem k q"
  shows "set_serial_br (of_nat n) a = a\<lparr>pa_mem := serial_mem n q\<rparr>"
proof -
  have "unat (of_nat n :: u32) = n" using assms(1) by (simp add: unsigned_of_nat take_bit_nat_eq_self)
  moreover have "drop 4 (serial_mem k q) = q @ replicate (216 - length q) NUL" by (simp add: serial_mem_def)
  ultimately show ?thesis by (simp add: set_serial_br_def assms(2) serial_mem_def br_bytes_def)
qed

lemma serial_br_port: "n < 2 ^ 32 \<Longrightarrow> serial_br \<lparr>pa_initialized = i, pa_enc = e, pa_mem = serial_mem n q\<rparr> = of_nat n"
  by (rule br_bytes_value) (simp_all add: serial_mem_def)

lemma strip_none: "NL \<notin> set (cstr_at ofs mem) \<Longrightarrow> strip_nl ofs mem = mem"
  by (simp add: strip_nl_def Let_def)

lemma strip_port:
  assumes "NUL \<notin> set p" and "NL \<notin> set p" and "length p < 107"
  shows "strip_nl 4 (serial_mem n (p @ [NL])) = serial_mem n p"
proof -
  have c: "cstr_at 4 (serial_mem n (p @ [NL])) = p @ [NL]" using assms by (intro cstr_at_port) auto
  have after: "takeWhile (\<lambda>c. c \<noteq> NL) (rev (p @ [NL])) = []" by simp
  have "strip_nl 4 (serial_mem n (p @ [NL])) = (serial_mem n (p @ [NL]))[4 + length p := NUL]"
    unfolding strip_nl_def Let_def c after by simp
  also have "\<dots> = br_bytes n @ p @ [NUL] @ replicate (216 - length (p @ [NL])) NUL"
    by (simp add: serial_mem_def list_update_append)
  also have "\<dots> = serial_mem n p"
  proof -
    have "216 - length p = Suc (216 - length (p @ [NL]))" using assms(3) by simp
    then show ?thesis by (simp add: serial_mem_def)
  qed
  finally show ?thesis .
qed

lemma strip_clt:
  assumes "length p < 100"
  shows "strip_nl 109 (serial_mem n p) = serial_mem n p"
proof (rule strip_none)
  have "drop 109 (serial_mem n p) = replicate (111) NUL" using assms by (simp add: serial_mem_def)
  then have "cstr_at 109 (serial_mem n p) = []" by (simp add: cstr_at_def)
  then show "NL \<notin> set (cstr_at 109 (serial_mem n p))" by simp
qed

text \<open>
  The socket's name shares the bytes of the rate above the lowest one: a byte of the rate that is a newline
  is taken for the end of a line.
\<close>

lemma cstr_at_srv:
  assumes "n < 2 ^ 24"
  shows "cstr_at 1 (serial_mem n p) = takeWhile (\<lambda>c. c \<noteq> NUL) [char_of (n div 256 mod 256), char_of (n div 65536)]"
proof -
  have b3: "n div 16777216 = 0" and b2: "n div 65536 < 256"
    using assms by (simp_all add: less_mult_imp_div_less)
  have "drop 1 (serial_mem n p) = [char_of (n div 256 mod 256), char_of (n div 65536)] @ NUL # p @ replicate (216 - length p) NUL"
    using b2 b3 by (simp add: serial_mem_def br_bytes_def char_of_0)
  then show ?thesis by (simp add: cstr_at_def)
qed

lemma strip_srv:
  assumes "n < 2 ^ 24" and "n div 256 mod 256 \<noteq> 10" and "n div 65536 \<noteq> 10"
  shows "strip_nl 1 (serial_mem n p) = serial_mem n p"
proof (rule strip_none)
  have b2: "n div 65536 < 256" using assms(1) by (simp add: less_mult_imp_div_less)
  have "n div 256 mod 256 < 256" by simp
  then have "char_of (n div 256 mod 256) \<noteq> NL" "char_of (n div 65536) \<noteq> NL"
    using assms(2,3) b2 unfolding char_of_10 [symmetric] by (simp_all only: char_of_eq_iff) simp_all
  then have "NL \<notin> set [char_of (n div 256 mod 256), char_of (n div 65536)]" by simp
  then show "NL \<notin> set (cstr_at 1 (serial_mem n p))"
    unfolding cstr_at_srv [OF assms(1)] using set_takeWhileD by metis
qed

text \<open>The memory that holds the sockets: the flag of the encryption and the two names, each followed by zeros.\<close>

definition sock_mem :: "bool \<Rightarrow> string \<Rightarrow> string \<Rightarrow> string" where
  "sock_mem e srv clt = (if e then CHR 0x01 else NUL) # srv @ replicate (108 - length srv) NUL
     @ clt @ replicate (111 - length clt) NUL"

lemma takeWhile_NUL: "NUL \<notin> set str \<Longrightarrow> takeWhile (\<lambda>c. c \<noteq> NUL) (str @ NUL # post) = str"
  by (subst takeWhile_append2) auto

lemma cstr_at_append:
  assumes "length pre = ofs" and "NUL \<notin> set str"
  shows "cstr_at ofs (pre @ str @ NUL # post) = str"
  using assms by (simp add: cstr_at_def takeWhile_NUL)

lemma replicate_NUL: "k < m \<Longrightarrow> replicate (m - k) NUL = NUL # replicate (m - Suc k) NUL"
  by (simp add: Suc_diff_Suc flip: replicate_Suc)

lemma cstr_at_sock:
  assumes "NUL \<notin> set srv" and "length srv < 108"
  shows "cstr_at 1 (sock_mem e srv clt) = srv"
  using cstr_at_append [of "[if e then CHR 0x01 else NUL]" 1 srv] assms by (simp add: sock_mem_def replicate_NUL)

lemma cstr_at_clt:
  assumes "NUL \<notin> set clt" and "length clt < 108" and "length srv < 108"
  shows "cstr_at 109 (sock_mem e srv clt) = clt"
  using cstr_at_append [of "(if e then CHR 0x01 else NUL) # srv @ replicate (108 - length srv) NUL" 109 clt] assms
  by (simp add: sock_mem_def replicate_NUL [of _ 111])

lemma strcpy_srv:
  assumes "length srv < 108" and "pa_mem a = replicate 220 NUL"
  shows "strcpy_at 1 srv a = Some (a\<lparr>pa_mem := sock_mem False srv []\<rparr>)"
proof -
  have "replicate (108 - length srv) NUL @ replicate 111 NUL = replicate (219 - length srv) NUL"
    using assms(1) by (simp flip: replicate_add)
  then show ?thesis
    using assms replicate_NUL [of "length srv" 219] by (simp add: strcpy_at_def sock_mem_def)
qed

lemma strcpy_clt:
  assumes "length clt < 108" and "length srv < 108" and "pa_mem a = sock_mem e srv []"
  shows "strcpy_at 109 clt a = Some (a\<lparr>pa_mem := sock_mem e srv clt\<rparr>)"
proof -
  let ?pre = "(if e then CHR 0x01 else NUL) # srv @ replicate (108 - length srv) NUL"
  have m: "sock_mem e srv c = ?pre @ c @ replicate (111 - length c) NUL" for c by (simp add: sock_mem_def)
  have l: "length ?pre = 109" using assms(2) by simp
  have "take 109 (?pre @ z) = ?pre" "drop (109 + length clt + 1) (?pre @ replicate 111 NUL) = replicate (110 - length clt) NUL" for z
    using l by (simp_all only: take_append drop_append) simp_all
  then show ?thesis using assms(1,3) replicate_NUL [of "length clt" 111] by (simp add: strcpy_at_def m)
qed

lemma set_sock_enc_mem: "pa_mem a = sock_mem e srv clt \<Longrightarrow> set_sock_enc b a = a\<lparr>pa_mem := sock_mem b srv clt\<rparr>"
  by (simp add: set_sock_enc_def sock_mem_def)

lemma strip_last:
  assumes "length pre = ofs" and "NUL \<notin> set str" and "NL \<notin> set str"
  shows "strip_nl ofs (pre @ str @ NL # NUL # post) = pre @ str @ NUL # NUL # post"
proof -
  have c: "cstr_at ofs (pre @ str @ NL # NUL # post) = str @ [NL]"
    using cstr_at_append [of pre ofs "str @ [NL]" post] assms by simp
  show ?thesis unfolding strip_nl_def c using assms(1) by (simp add: list_update_append)
qed

lemma strip_nothing: "mem ! ofs = NUL \<Longrightarrow> ofs < length mem \<Longrightarrow> strip_nl ofs mem = mem"
  by (rule strip_none) (simp add: cstr_at_def flip: Cons_nth_drop_Suc)

definition strip_all :: "string \<Rightarrow> string" where
  "strip_all mem = strip_nl SRV_OFS (strip_nl CLT_OFS (strip_nl PORT_OFS mem))"

lemma strip_sock_srv:
  assumes "NUL \<notin> set srv" and "NL \<notin> set srv" and "length srv < 107"
  shows "strip_nl 1 (sock_mem e (srv @ [NL]) clt) = sock_mem e srv clt" (is ?a)
    and "strip_nl 4 (sock_mem e (srv @ [NL]) clt) \<in> {sock_mem e srv clt, sock_mem e (srv @ [NL]) clt}" (is ?b)
proof -
  let ?e = "if e then CHR 0x01 else NUL"
  let ?post = "replicate (106 - length srv) NUL @ clt @ replicate (111 - length clt) NUL"
  have r: "replicate (108 - length srv) NUL = NUL # NUL # replicate (106 - length srv) NUL"
    "replicate (107 - length srv) NUL = NUL # replicate (106 - length srv) NUL"
    using assms(3) replicate_NUL [of "length srv"] replicate_NUL [of "Suc (length srv)" 108] by simp_all
  have m: "sock_mem e (srv @ [NL]) clt = ?e # srv @ NL # NUL # ?post" "sock_mem e srv clt = ?e # srv @ NUL # NUL # ?post"
    by (simp_all add: sock_mem_def r)
  show ?a using strip_last [of "[?e]" 1 srv ?post] assms by (simp add: m)
  show ?b
  proof (cases "length srv < 3")
    case True
    then have "(?e # srv @ NL # NUL # ?post) ! 4 = NUL"
      by (auto simp: nth_append nth_Cons' less_Suc_eq numeral_3_eq_3)
    then have "strip_nl 4 (?e # srv @ NL # NUL # ?post) = ?e # srv @ NL # NUL # ?post"
      using assms(3) by (intro strip_nothing) simp_all
    then show ?thesis by (simp add: m)
  next
    case False
    then have s: "srv = take 3 srv @ drop 3 srv" and l: "length (?e # take 3 srv) = 4" by simp_all
    have "set (drop 3 srv) \<subseteq> set srv" by (rule set_drop_subset)
    then have "strip_nl 4 ((?e # take 3 srv) @ drop 3 srv @ NL # NUL # ?post) = (?e # take 3 srv) @ drop 3 srv @ NUL # NUL # ?post"
      using assms(1,2) by (intro strip_last [OF l]) auto
    then show ?thesis unfolding m by (simp flip: append_assoc)
  qed
qed

lemma strip_sock_clt:
  assumes "NUL \<notin> set clt" and "NL \<notin> set clt" and "length clt < 107" and "length srv \<le> 107"
  shows "strip_nl 109 (sock_mem e srv (clt @ [NL])) = sock_mem e srv clt"
proof -
  let ?pre = "(if e then CHR 0x01 else NUL) # srv @ replicate (108 - length srv) NUL"
  have r: "replicate (111 - length clt) NUL = NUL # NUL # replicate (109 - length clt) NUL"
    "replicate (110 - length clt) NUL = NUL # replicate (109 - length clt) NUL"
    using assms(3) replicate_NUL [of "length clt"] replicate_NUL [of "Suc (length clt)" 111] by simp_all
  have "length ?pre = 109" using assms(4) by simp
  from strip_last [OF this assms(1,2)] show ?thesis by (simp add: sock_mem_def r)
qed

lemma strip_sock_none:
  assumes "NUL \<notin> set srv" and "NL \<notin> set srv" and "length srv < 107"
    and "NUL \<notin> set clt" and "NL \<notin> set clt" and "length clt < 107"
  shows "strip_nl 1 (sock_mem e srv clt) = sock_mem e srv clt" "strip_nl 109 (sock_mem e srv clt) = sock_mem e srv clt"
    "strip_nl 4 (sock_mem e srv clt) = sock_mem e srv clt"
proof -
  show "strip_nl 1 (sock_mem e srv clt) = sock_mem e srv clt"
    using cstr_at_sock [of srv e clt] assms by (intro strip_none) simp
  show "strip_nl 109 (sock_mem e srv clt) = sock_mem e srv clt"
    using cstr_at_clt [of clt srv e] assms by (intro strip_none) simp
  have "drop 4 (sock_mem e srv clt) = drop 3 srv @ drop (3 - length srv) (replicate (108 - length srv) NUL)
      @ clt @ replicate (111 - length clt) NUL" using assms(3) by (simp add: sock_mem_def)
  also have "drop (3 - length srv) (replicate (108 - length srv) NUL) = NUL # replicate (107 - length srv - (3 - length srv)) NUL"
    using assms(3) replicate_NUL [of "3 - length srv" "108 - length srv"] by simp
  finally have "cstr_at 4 (sock_mem e srv clt) = drop 3 srv"
    using takeWhile_NUL [of "drop 3 srv"] assms(1) in_set_dropD [of NUL 3 srv] by (auto simp: cstr_at_def)
  then show "strip_nl 4 (sock_mem e srv clt) = sock_mem e srv clt"
    using assms(2) by (intro strip_none) (auto dest: in_set_dropD)
qed

lemma strip_all_sock:
  assumes "NUL \<notin> set srv" and "NL \<notin> set srv" and "length srv < 107"
    and "NUL \<notin> set clt" and "NL \<notin> set clt" and "length clt < 107"
  shows "strip_all (sock_mem e (srv @ [NL]) (clt @ [NL])) = sock_mem e srv clt"
    and "strip_all (sock_mem e srv clt) = sock_mem e srv clt"
proof -
  have clt: "strip_nl 109 (sock_mem e s (clt @ [NL])) = sock_mem e s clt" if "s \<in> {srv, srv @ [NL]}" for s
    using that assms(3) by (intro strip_sock_clt [OF assms(4-6)]) auto
  show "strip_all (sock_mem e (srv @ [NL]) (clt @ [NL])) = sock_mem e srv clt"
    using strip_sock_srv(2) [OF assms(1-3), of e "clt @ [NL]"] clt strip_sock_srv(1) [OF assms(1-3), of e clt]
      strip_sock_none(1) [OF assms, of e] unfolding strip_all_def by auto
  show "strip_all (sock_mem e srv clt) = sock_mem e srv clt"
    unfolding strip_all_def by (simp only: strip_sock_none [OF assms])
qed

subsection \<open>Lines of the file\<close>
subsection \<open>Lines of the file\<close>

text \<open>
  A line with the value of an argument, and the text of several of them. A value survives in the file when
  its line fits and no key of another argument occurs in it.
\<close>

definition arg_line :: "nat \<Rightarrow> string \<Rightarrow> string" where
  "arg_line i v = arg_keys ! i @ '' = '' @ v"

definition entries_text :: "(nat \<times> string) list \<Rightarrow> string" where
  "entries_text es = concat (map (\<lambda>(i, v). arg_line i v @ [NL]) es)"

definition entry_ok :: "nat \<Rightarrow> string \<Rightarrow> bool" where
  "entry_ok i v \<longleftrightarrow> i < 6 \<and> v \<noteq> [] \<and> NUL \<notin> set v \<and> NL \<notin> set v \<and> hd v \<noteq> CHR '' '' \<and> length (arg_line i v) \<le> 98
    \<and> list_all (\<lambda>j. j = i \<or> \<not> strstr (arg_line i v @ [NL]) (arg_keys ! j)) [0..<6]"

lemma entries_text_simps [simp]:
  "entries_text [] = []" "entries_text ((i, v) # es) = arg_line i v @ NL # entries_text es"
  by (simp_all add: entries_text_def)

lemma key_list: "[0..<6] = [0, 1, 2, 3, 4, 5 :: nat]"
  by code_simp

lemma arg_key_nth:
  "arg_keys ! 0 = ''Encryption''" "arg_keys ! 1 = ''Port''" "arg_keys ! 2 = ''Baud Rate''"
  "arg_keys ! 3 = ''Socket Server''" "arg_keys ! 4 = ''Socket Client''" "arg_keys ! 5 = ''Socket Encription''"
  "arg_keys ! Suc 0 = ''Port''"
  by (simp_all add: arg_keys_def)

lemma key_cases: "i < 6 \<Longrightarrow> i \<in> {0, 1, 2, 3, 4, 5 :: nat}"
  by auto

lemma key_chars:
  assumes "i < 6"
  shows "NL \<notin> set (arg_keys ! i)" "CHR ''='' \<notin> set (arg_keys ! i)" "take 1 (arg_keys ! i @ r) \<noteq> ''#''"
  using key_cases [OF assms] by (auto simp: arg_key_nth)

lemma key_occurs: "strstr (arg_line i v @ r) (arg_keys ! i)"
proof -
  have "strstr (k @ r) k" for k r by (cases "k @ r") (auto, metis prefixI)
  then show ?thesis by (simp add: arg_line_def)
qed

lemma load_no_key: "(\<And>j. j \<in> set is \<Longrightarrow> \<not> strstr tmp (arg_keys ! j)) \<Longrightarrow> load_keys is tmp l = Some (Inr l)"
  by (induction "is") simp_all

lemma load_one_key:
  assumes "i \<in> set is" and "distinct is" and "strstr tmp (arg_keys ! i)"
    and "\<And>j. j \<in> set is \<Longrightarrow> j \<noteq> i \<Longrightarrow> \<not> strstr tmp (arg_keys ! j)"
    and "ld_dirty l = 0" and "length (ld_buf l) + length tmp < ld_size l"
    and "store_cache_config tmp i (ld_args l) = Some (Inr a)"
  shows "load_keys is tmp l = Some (Inr (l\<lparr>ld_buf := ld_buf l @ tmp, ld_args := a\<rparr>))"
  using assms
proof (induction "is")
  case (Cons j js)
  show ?case
  proof (cases "j = i")
    case True
    then have "load_keys js tmp l' = Some (Inr l')" for l'
      using Cons.prems(2,4) by (intro load_no_key) auto
    then show ?thesis using True Cons.prems(3,5-7) by (simp add: buf_cat_def)
  next
    case False
    then show ?thesis using Cons by simp
  qed
qed simp

lemma split_value_line:
  assumes "i < 6" and "hd v \<noteq> CHR '' ''" and "v \<noteq> []"
  shows "split_value (arg_line i v @ r) = Some (arg_keys ! i @ '' = '', v @ r)"
proof -
  let ?k = "arg_keys ! i @ '' ''"
  have k: "CHR ''='' \<notin> set ?k" using key_chars(2) [OF assms(1)] by simp
  have e: "arg_line i v @ r = ?k @ ''= '' @ v @ r" by (simp add: arg_line_def)
  have "dropWhile (\<lambda>c. c \<noteq> CHR ''='') (?k @ ''= '' @ v @ r) = ''= '' @ v @ r"
    using k by (subst dropWhile_append2) auto
  moreover have "takeWhile (\<lambda>c. c \<noteq> CHR ''='') (?k @ ''= '' @ v @ r) = ?k"
    using k by (subst takeWhile_append2) auto
  moreover have "takeWhile (\<lambda>c. c = CHR '' '') (v @ r) = []" "dropWhile (\<lambda>c. c = CHR '' '') (v @ r) = v @ r"
    using assms(2,3) by (cases v; simp)+
  ultimately show ?thesis unfolding split_value_def e by simp
qed

text \<open>Reading a file of such lines stores their values and copies the lines.\<close>

fun store_entries :: "(nat \<times> string) list \<Rightarrow> proj_args_t \<Rightarrow> proj_args_t run" where
  "store_entries [] a = continues a"
| "store_entries ((i, v) # es) a = run_bind (store_cache_config (arg_line i v @ [NL]) i a) (store_entries es)"

lemma load_entries:
  assumes "list_all (\<lambda>(i, v). entry_ok i v) es" and "ld_dirty l = 0"
    and "length (ld_buf l) + length (entries_text es) < ld_size l" and "store_entries es (ld_args l) = Some (Inr a)"
  shows "load_pieces (fgets_all (entries_text es)) l
    = Some (Inr (l\<lparr>ld_buf := ld_buf l @ entries_text es, ld_args := a\<rparr>))"
  using assms
proof (induction es arbitrary: l)
  case (Cons e es)
  obtain i v where e: "e = (i, v)" by fastforce
  let ?tmp = "arg_line i v @ [NL]"
  have ok: "i < 6" "NL \<notin> set (arg_line i v)" "length (arg_line i v) \<le> 98"
    "\<And>j. j \<in> set [0..<6] \<Longrightarrow> j \<noteq> i \<Longrightarrow> \<not> strstr ?tmp (arg_keys ! j)"
    using Cons.prems(1) key_chars(1) by (auto simp: e entry_ok_def arg_line_def list_all_iff)
  obtain b where b: "store_cache_config ?tmp i (ld_args l) = Some (Inr b)" "store_entries es b = Some (Inr a)"
    using Cons.prems(4) unfolding e store_entries.simps run_bind_def by (auto split: option.splits sum.splits)
  let ?l = "l\<lparr>ld_buf := ld_buf l @ ?tmp, ld_args := b\<rparr>"
  have "load_keys [0..<6] ?tmp l = Some (Inr ?l)"
    using ok(1) Cons.prems(2,3) by (intro load_one_key [OF _ _ key_occurs ok(4) _ _ b(1)]) (auto simp: e)
  moreover have "take 1 ?tmp \<noteq> ''#''" using key_chars(3) [OF ok(1)] by (simp only: arg_line_def append_assoc not_False_eq_True)
  moreover have "load_pieces (fgets_all (entries_text es)) ?l
      = Some (Inr (?l\<lparr>ld_buf := ld_buf ?l @ entries_text es, ld_args := a\<rparr>))"
    using Cons.prems(1-3) b(2) by (intro Cons.IH) (auto simp: e)
  ultimately show ?case using fgets_all_line [OF ok(2,3), of "entries_text es"] by (simp add: e)
qed simp

text \<open>Writing the arguments that were given back appends their lines.\<close>

lemma append_clean: "ld_dirty l = 0 \<Longrightarrow> append_dirty is l = Some l"
  by (cases "is") simp_all

lemma append_entries:
  assumes "distinct is" and "\<And>i. i \<in> set is \<Longrightarrow> bit (ld_dirty l) i \<Longrightarrow> length (arg_line i (arg_value i (ld_args l))) \<le> 98"
    and "length (ld_buf l) + length (entries_text (map (\<lambda>i. (i, arg_value i (ld_args l))) (filter (bit (ld_dirty l)) is))) < ld_size l"
  shows "\<exists>d. append_dirty is l = Some (l\<lparr>ld_dirty := d,
    ld_buf := ld_buf l @ entries_text (map (\<lambda>i. (i, arg_value i (ld_args l))) (filter (bit (ld_dirty l)) is))\<rparr>)"
  using assms
proof (induction "is" arbitrary: l)
  case Nil
  then show ?case by (auto intro: exI [of _ "ld_dirty l"])
next
  case (Cons i "is")
  let ?v = "arg_value i (ld_args l)"
  show ?case
  proof (cases "bit (ld_dirty l) i")
    case False
    then have "append_dirty (i # is) l = append_dirty is l" using append_clean [of l "is"] by simp
    then show ?thesis using Cons.IH [of l] Cons.prems False by simp
  next
    case True
    let ?l = "l\<lparr>ld_buf := ld_buf l @ arg_line i ?v @ [NL], ld_dirty := BIT_CLR (ld_dirty l) i\<rparr>"
    have "bit (BIT_CLR (ld_dirty l) i) j = bit (ld_dirty l) j" if "j \<in> set is" for j
      using that Cons.prems(1) by (auto simp: BIT_CLR_def bit_simps dest: bit_imp_le_length)
    then have f: "filter (bit (BIT_CLR (ld_dirty l) i)) is = filter (bit (ld_dirty l)) is" by (auto intro: filter_cong)
    have "ld_dirty l \<noteq> 0" using True by auto
    then have step: "append_dirty (i # is) l = append_dirty is ?l"
      using True Cons.prems(2) [of i] Cons.prems(3) by (simp add: append_cfg_def Let_def buf_cat_def arg_line_def)
    have "bit (BIT_CLR (ld_dirty l) i) j \<Longrightarrow> bit (ld_dirty l) j" for j by (simp add: BIT_CLR_def bit_simps)
    then have "\<exists>d. append_dirty is ?l = Some (?l\<lparr>ld_dirty := d,
        ld_buf := ld_buf ?l @ entries_text (map (\<lambda>j. (j, arg_value j (ld_args ?l))) (filter (bit (ld_dirty ?l)) is))\<rparr>)"
      using Cons.prems True by (intro Cons.IH) (auto simp: f)
    then show ?thesis unfolding step using True by (simp add: f)
  qed
qed

end
