(* ===== verification/System.thy ===== *)
theory System
  imports MngTurn Startup Samples
begin

text \<open>
  The whole program as a step relation: the threads of the command line and of the manager interleave, one
  line and one turn of the main loop at a time, events of the target arrive in between, and the command \<open>reset\<close>
  initialises the program again. The states that can be reached from program start satisfy the
  invariant of the manager.
\<close>

subsection \<open>Initialisation\<close>

lemma prov_clrctl_ctl: "prov_clrctl E s = Some (e, s') \<Longrightarrow> same_ctl s s'"
  by (auto simp: prov_clrctl_def dest!: json_write_prov_ctl)

lemma cfg_clrctl_ctl:
  assumes "cfg_clrctl E s = Some (e, s')"
  shows "same_ctl s s'"
proof -
  obtain e1 s1 where 1: "load_cfg_file E PROV_CFG_FILE False s = Some (e1, s1)"
    using assms by (auto simp: cfg_clrctl_def bind_Some_conv)
  show ?thesis
  proof (cases "e1 = ec_success")
    case True
    then obtain e2 s2 where 2: "load_cfg_file E NW_NODES_CFG_FILE False s1 = Some (e2, s2)"
      using assms 1 by (auto simp: cfg_clrctl_def bind_Some_conv)
    show ?thesis
    proof (cases "e2 = ec_success")
      case True
      then obtain e3 s3 where 3: "prov_clrctl E s2 = Some (e3, s3)"
        using assms 1 2 \<open>e1 = ec_success\<close> by (auto simp: cfg_clrctl_def bind_Some_conv)
      then have "s' = s3 \<or> json_write_clrctl E s3 = Some (e, s')"
        using assms 1 2 True \<open>e1 = ec_success\<close> by (auto simp: cfg_clrctl_def split: if_splits)
      then show ?thesis
        using load_cfg_file_ctl [OF 1] load_cfg_file_ctl [OF 2] prov_clrctl_ctl [OF 3]
          json_write_clrctl_ctl [of E s3 e s'] by auto
    qed (use assms 1 2 True load_cfg_file_ctl [OF 1] load_cfg_file_ctl [OF 2] in \<open>simp add: cfg_clrctl_def\<close>)
  qed (use assms 1 load_cfg_file_ctl [OF 1] in \<open>simp add: cfg_clrctl_def\<close>)
qed

lemma clr_all_ctl: "clr_all E s = Some (e, s') \<Longrightarrow> same_ctl s s'"
  by (auto simp: clr_all_def bgcall_def bind_Some_conv Let_def split: if_splits dest!: cfg_clrctl_ctl)

lemma cfg_init_ctl: "cfg_init E s = Some (e, s') \<Longrightarrow> same_ctl s s'"
  by (auto simp: cfg_init_def bind_Some_conv Let_def split: if_splits prod.splits dest!: load_cfg_file_ctl)

lemma sync_ctl: "sync_host_and_ncp_target E peek t k s = Some (Inr s') \<Longrightarrow> mng s' = mng s \<and> acc s' = acc s"
  by (induction k arbitrary: t s) (auto split: if_splits)

text \<open>Once the engine is started its states are the default ones.\<close>

definition acc_ok :: "sys \<Rightarrow> bool" where
  "acc_ok s \<longleftrightarrow> (acc_started (acc s) \<longrightarrow> acc_states (acc s) = default_states)"

lemma mng_inv_acc_ok: "mng_inv s \<Longrightarrow> acc_ok s"
  by (simp add: acc_ok_def mng_inv_def)

lemma run_bind_Inr: "run_bind m f = Some (Inr y) \<longleftrightarrow> (\<exists>x. m = Some (Inr x) \<and> f x = Some (Inr y))"
  by (auto simp: run_bind_def split: option.splits sum.splits)

lemma init_ncp_ctl: "init_ncp E tr a s = Some (Inr (e, s')) \<Longrightarrow> same_ctl s s'"
  by (auto simp: init_ncp_def run_bind_Inr split: if_splits dest!: sync_ctl)

lemma init_fun_acc_ok:
  assumes "init_fun E tr a i s = Some (Inr (e, s'))" and "acc_ok s"
  shows "acc_ok s'" and "i = MNG_INIT \<Longrightarrow> mng_inv s'"
proof -
  show m: "i = MNG_INIT \<Longrightarrow> mng_inv s'"
    using assms mng_init_inv by (auto simp: init_fun_def acc_ok_def)
  have "i \<noteq> MNG_INIT \<Longrightarrow> same_ctl s s'"
    using assms(1) by (auto simp: init_fun_def split: if_splits dest: clr_all_ctl cfg_init_ctl init_ncp_ctl)
  then show "acc_ok s'" using m mng_inv_acc_ok assms(2) by (cases "i = MNG_INIT") (auto simp: acc_ok_def)
qed

lemma init_loop_acc_ok: "init_loop E tr a ret is s = Some (Inr s') \<Longrightarrow> acc_ok s \<Longrightarrow> acc_ok s'"
  by (induction "is" arbitrary: s) (auto simp: run_bind_Inr split: if_splits dest: init_fun_acc_ok(1))

lemma init_loop_append:
  "init_loop E tr a ret (is @ js) s = run_bind (init_loop E tr a ret is s) (init_loop E tr a ret js)"
  by (induction "is" arbitrary: s) (auto simp: run_bind_def split: option.splits sum.splits prod.splits)

lemma init_loop_skip: "\<forall>i \<in> set is. \<not> bit ret i \<Longrightarrow> init_loop E tr a ret is s = Some (Inr s)"
  by (induction "is") auto

lemma reset_bits:
  assumes "ret \<in> {FULL_RESET, NORMAL_RESET, FACTORY_RESET}"
  shows "bit ret MNG_INIT" and "\<forall>i \<in> set [5..<32]. \<not> bit ret i" and "ret \<noteq> 0"
proof -
  have "FULL_RESET = 29" "NORMAL_RESET = 28" "FACTORY_RESET = 30" by code_simp+
  then have ret: "ret = 29 \<or> ret = 28 \<or> ret = 30" using assms by auto
  then show "bit ret MNG_INIT" "ret \<noteq> 0" by auto
  have "\<forall>r \<in> {29, 28, 30 :: u32}. \<forall>i \<in> set [5..<32]. \<not> bit r i" by code_simp
  then show "\<forall>i \<in> set [5..<32]. \<not> bit ret i" using ret by blast
qed

lemma init_loop_inv:
  assumes "init_loop E tr a ret [0..<32] s = Some (Inr s')" and "acc_ok s"
    and "ret \<in> {FULL_RESET, NORMAL_RESET, FACTORY_RESET}"
  shows "mng_inv s'"
proof -
  have split: "[0..<32] = [0..<4] @ [4] @ [5..<32]" by code_simp
  obtain s1 where 1: "init_loop E tr a ret [0..<4] s = Some (Inr s1)"
    and 2: "init_loop E tr a ret ([4] @ [5..<32]) s1 = Some (Inr s')"
    using assms(1) unfolding split init_loop_append [of _ _ _ _ "[0..<4]"] run_bind_Inr by blast
  obtain e s2 where 3: "init_fun E tr a MNG_INIT s1 = Some (Inr (e, s2))" "init_loop E tr a ret [5..<32] s2 = Some (Inr s')"
    using 2 reset_bits(1) [OF assms(3)] by (auto simp: run_bind_Inr split: if_splits simp del: upt.simps)
  have "s' = s2" using 3(2) init_loop_skip [OF reset_bits(2) [OF assms(3)]] by simp
  then show ?thesis using init_fun_acc_ok(2) [OF 3(1) init_loop_acc_ok [OF 1 assms(2)]] by simp
qed

lemma cli_proc_inv:
  assumes "cli_proc E tr a started ret s = Some (Inr s')" and "acc_ok s"
    and "ret \<in> {0, NORMAL_RESET, FACTORY_RESET}"
  shows "mng_inv s'"
proof -
  let ?s = "if started then s\<lparr>mng := (mng s)\<lparr>m_state := nil\<rparr>\<rparr> else s"
  let ?ret = "if ret = 0 then FULL_RESET else ret"
  obtain s1 e where 1: "init_loop E tr a ?ret [0..<32] ?s = Some (Inr s1)" and 2: "nwk_init E s1 = Some (e, s')"
    using assms(1) unfolding cli_proc_def Let_def run_bind_Inr by auto
  have "acc_ok ?s" using assms(2) by (simp add: acc_ok_def)
  moreover have "?ret \<in> {FULL_RESET, NORMAL_RESET, FACTORY_RESET}" using assms(3) by auto
  ultimately have "mng_inv s1" using init_loop_inv 1 by blast
  then show ?thesis using same_ctl_inv [OF nwk_init_ctl [OF 2]] by simp
qed

subsection \<open>Runs\<close>

inductive prog_step :: "sys \<Rightarrow> sys \<Rightarrow> bool" where
  turn: "mng_turn E s = Some (b, s') \<Longrightarrow> prog_step s s'"
| event: "prog_step s (s\<lparr>evq := evq s @ [e]\<rparr>)"
| line: "cli_line wordexp str s = Some (out, s') \<Longrightarrow> reset_bitmap out = None \<Longrightarrow> prog_step s s'"
| again: "cli_line wordexp str s = Some (out, t) \<Longrightarrow> reset_bitmap out = Some ret \<Longrightarrow>
    cli_proc E tr a True ret (t\<lparr>evq := es\<rparr>) = Some (Inr s') \<Longrightarrow> prog_step s s'"

inductive reachable :: "sys \<Rightarrow> bool" where
  start: "cli_proc E tr a False 0 ((zero_sys d)\<lparr>evq := es\<rparr>) = Some (Inr s) \<Longrightarrow> reachable s"
| step: "reachable s \<Longrightarrow> prog_step s s' \<Longrightarrow> reachable s'"

inductive_cases prog_stepE: "prog_step s s'"

lemma cmd_enq_ctl: "cmd_enq wordexp str i s = Some s' \<Longrightarrow> same_ctl s s'"
  by (auto simp: cmd_enq_def new_item_def bind_Some_conv split: option.splits)

lemma cli_line_ctl: "cli_line wordexp str s = Some (out, s') \<Longrightarrow> same_ctl s s'"
  using cmd_enq_ctl by (auto simp: cli_line_def Let_def split: option.splits if_splits)

lemma reset_bitmap_set: "reset_bitmap out = Some ret \<Longrightarrow> ret \<in> {0, NORMAL_RESET, FACTORY_RESET}"
  by (auto simp: reset_bitmap_def split: cli_out.splits if_splits)

lemma prog_step_inv: "prog_step s s' \<Longrightarrow> mng_inv s \<Longrightarrow> mng_inv s'"
proof (induction rule: prog_step.induct)
  case (turn E s b s')
  then show ?case by (rule mng_turn_inv)
next
  case (event s e)
  then show ?case by (simp only: same_ctl_evq)
next
  case (line wordexp str s out s')
  then show ?case using same_ctl_inv [OF cli_line_ctl] by simp
next
  case (again wordexp str s out t ret E tr a es s')
  have "mng_inv t" using same_ctl_inv [OF cli_line_ctl [OF again(1)]] again.prems by simp
  then have "acc_ok (t\<lparr>evq := es\<rparr>)" using mng_inv_acc_ok by (simp add: acc_ok_def)
  then show ?case using cli_proc_inv [OF again(3)] reset_bitmap_set [OF again(2)] by blast
qed

lemma reachable_inv: "reachable s \<Longrightarrow> mng_inv s"
proof (induction rule: reachable.induct)
  case (start E tr a es d s)
  have "acc_ok ((zero_sys d)\<lparr>evq := es\<rparr>)" by (simp add: acc_ok_def zero_sys_def)
  then show ?case using cli_proc_inv [OF start] by simp
next
  case (step s s')
  then show ?case using prog_step_inv by blast
qed

end
