(* ===== verification/StartProps.thy ===== *)
theory StartProps
  imports StartFacts System
begin

text \<open>Properties of program start and of every run of the program.\<close>

subsection \<open>Arguments\<close>

text \<open>The two ways to reach the target, with the options that ask for them and the lines that remember them.\<close>

datatype link_args = Serial string nat | Sockets string string bool

fun link_opts :: "link_args \<Rightarrow> (char \<times> string) list" where
  "link_opts (Serial p n) = [(CHR ''m'', ''i''), (CHR ''p'', p), (CHR ''b'', fmt_u n)]"
| "link_opts (Sockets srv clt e) =
    [(CHR ''m'', ''s''), (CHR ''s'', srv), (CHR ''c'', clt), (CHR ''e'', if e then ''1'' else ''0'')]"

fun link_entries :: "link_args \<Rightarrow> (nat \<times> string) list" where
  "link_entries (Serial p n) = [(ARG_DIRTY_ENC, ''0''), (ARG_DIRTY_PORT, p), (ARG_DIRTY_BR, fmt_u n)]"
| "link_entries (Sockets srv clt e) =
    [(ARG_DIRTY_ENC, ''1''), (ARG_DIRTY_SOCK_SRV, srv), (ARG_DIRTY_SOCK_CLT, clt), (ARG_DIRTY_SOCK_ENC, if e then ''1'' else ''0'')]"

definition link_of :: "proj_args_t \<Rightarrow> link_args" where
  "link_of a =
    (if pa_enc a then Sockets (cstr_at SRV_OFS (pa_mem a)) (cstr_at CLT_OFS (pa_mem a)) (sock_enc a)
     else Serial (cstr_at PORT_OFS (pa_mem a)) (unat (serial_br a)))"

text \<open>
  Names that survive in the file: see \<^const>\<open>entry_ok\<close>. A rate keeps its bytes when none above the lowest one
  is the code of a newline.
\<close>

fun link_ok :: "link_args \<Rightarrow> bool" where
  "link_ok (Serial p n) \<longleftrightarrow> entry_ok ARG_DIRTY_PORT p \<and> 0 < n \<and> n < 2 ^ 24"
| "link_ok (Sockets srv clt e) \<longleftrightarrow> entry_ok ARG_DIRTY_SOCK_SRV srv \<and> entry_ok ARG_DIRTY_SOCK_CLT clt"

fun rate_ok :: "link_args \<Rightarrow> bool" where
  "rate_ok (Serial p n) \<longleftrightarrow> n div 256 mod 256 \<noteq> 10 \<and> n div 65536 \<noteq> 10"
| "rate_ok (Sockets srv clt e) \<longleftrightarrow> True"

lemma length_fmt_u: "n < 10 ^ Suc k \<Longrightarrow> length (fmt_base 10 n) \<le> Suc k"
proof (induction k arbitrary: n)
  case 0
  then show ?case by (subst fmt_base.simps) simp
next
  case (Suc k)
  then have "n div 10 < 10 ^ Suc k" by (simp add: less_mult_imp_div_less)
  then show ?case using Suc.IH [of "n div 10"] by (subst fmt_base.simps) simp
qed

lemma entry_okD:
  assumes "entry_ok i v"
  shows "v \<noteq> []" "NUL \<notin> set v" "NL \<notin> set v" "hd v \<noteq> CHR '' ''" "length (arg_line i v) \<le> 98" "length v < 98"
  using assms by (auto simp: entry_ok_def arg_line_def)

lemma digit_entry_ok: "v \<in> {''0'', ''1''} \<Longrightarrow> i \<in> {ARG_DIRTY_ENC, ARG_DIRTY_SOCK_ENC} \<Longrightarrow> entry_ok i v"
  by (auto simp: entry_ok_def arg_line_def key_list arg_key_nth)

lemma rate_entry_ok:
  assumes "n < 2 ^ 24"
  shows "entry_ok ARG_DIRTY_BR (fmt_u n)"
proof -
  let ?ln = "arg_line 2 (fmt_u n) @ [NL]"
  have out: "CHR ''E'' \<notin> set (fmt_u n)" "CHR ''P'' \<notin> set (fmt_u n)" "CHR ''S'' \<notin> set (fmt_u n)"
    "NUL \<notin> set (fmt_u n)" "NL \<notin> set (fmt_u n)"
    using fmt_u_chars by fastforce+
  then have "CHR ''E'' \<notin> set ?ln" "CHR ''P'' \<notin> set ?ln" "CHR ''S'' \<notin> set ?ln"
    by (auto simp: arg_line_def arg_key_nth)
  then have no: "\<not> strstr ?ln ''Encryption''" "\<not> strstr ?ln ''Port''" "\<not> strstr ?ln ''Socket Server''"
    "\<not> strstr ?ln ''Socket Client''" "\<not> strstr ?ln ''Socket Encription''"
    using strstr_subset [of ?ln] by (meson list.set_intros(1) subsetD)+
  have "hd (fmt_u n) \<noteq> CHR '' ''" using fmt_u_chars [of "hd (fmt_u n)" n] by auto
  moreover have "length (fmt_u n) \<le> 8" using length_fmt_u [of n 7] assms by (simp add: fmt_u_def)
  ultimately show ?thesis using no out
    by (simp add: entry_ok_def key_list arg_key_nth del: strstr.simps) (simp add: arg_line_def arg_key_nth)
qed

lemma link_entries_ok: "link_ok x \<Longrightarrow> list_all (\<lambda>(i, v). entry_ok i v) (link_entries x)"
  using rate_entry_ok by (cases x) (auto intro: digit_entry_ok)

lemma link_entries_length:
  assumes "link_ok x"
  shows "length (entries_text (link_entries x)) < 600"
proof -
  have "length (entries_text es) \<le> 99 * length es" if "list_all (\<lambda>(i, v). entry_ok i v) es" for es
    using that
  proof (induction es)
    case (Cons e es)
    then show ?case by (cases e) (auto dest: entry_okD)
  qed simp
  from this [OF link_entries_ok [OF assms]] show ?thesis by (cases x) auto
qed

text \<open>What both starts end with, once the arguments are in memory.\<close>

definition finish_args :: "proj_args_t \<Rightarrow> proj_args_t" where
  "finish_args a = a\<lparr>pa_mem := strip_all (pa_mem a), pa_initialized := True\<rparr>"

lemma setprojargs_first:
  assumes "argv1 \<notin> {''--help'', ''-h''}" and "store_args opts 0 zero_projargs = Some (Inr (d, a))" and "args_sane a"
    and "map (\<lambda>i. (i, arg_value i a)) (filter (bit d) [0..<6]) = es"
    and "list_all (\<lambda>(i, v). entry_ok i v) es" and "length (entries_text es) < 600"
  shows "setprojargs (Some argv1) opts None zero_projargs = Some (Inr (finish_args a, cfg_comment @ entries_text es))"
proof -
  let ?l = "\<lparr>ld_dirty = d, ld_args = a, ld_buf = [], ld_size = 600\<rparr>"
  have "\<exists>d'. append_dirty [0..<6] ?l = Some (?l\<lparr>ld_dirty := d',
      ld_buf := ld_buf ?l @ entries_text (map (\<lambda>i. (i, arg_value i (ld_args ?l))) (filter (bit (ld_dirty ?l)) [0..<6]))\<rparr>)"
  proof (rule append_entries)
    fix i assume "i \<in> set [0..<6]" "bit (ld_dirty ?l) i"
    then have "(i, arg_value i a) \<in> set es" unfolding assms(4) [symmetric] by auto
    then show "length (arg_line i (arg_value i (ld_args ?l))) \<le> 98"
      using assms(5) entry_okD(5) by (fastforce simp: list_all_iff)
  qed (use assms(4,6) in auto)
  then obtain d' where "append_dirty [0..<6] ?l = Some (?l\<lparr>ld_dirty := d', ld_buf := entries_text es\<rparr>)"
    using assms(4) by auto
  then show ?thesis using assms(1-3)
    by (simp add: setprojargs_def finish_args_def strip_all_def)
qed

lemma setprojargs_again:
  assumes "list_all (\<lambda>(i, v). entry_ok i v) es" and "store_entries es zero_projargs = Some (Inr a)" and "args_sane a"
  shows "setprojargs None [] (Some (cfg_comment @ entries_text es)) zero_projargs
    = Some (Inr (finish_args a, cfg_comment @ entries_text es))"
proof -
  let ?l = "\<lparr>ld_dirty = 0, ld_args = zero_projargs, ld_buf = [], ld_size = length (cfg_comment @ entries_text es) + 600\<rparr>"
  have "load_pieces (fgets_all (entries_text es)) ?l = Some (Inr (?l\<lparr>ld_buf := ld_buf ?l @ entries_text es, ld_args := a\<rparr>))"
    using assms(1,2) by (intro load_entries) simp_all
  then show ?thesis using assms(3)
    by (simp add: setprojargs_def load_comment append_clean finish_args_def strip_all_def)
qed

text \<open>The arguments in memory: as the options leave them, and with the newlines of the lines of the file.\<close>

definition enc_mem :: "bool \<Rightarrow> string \<Rightarrow> proj_args_t" where
  "enc_mem e m = \<lparr>pa_initialized = False, pa_enc = e, pa_mem = m\<rparr>"

lemma enc_mem_simps [simp]:
  "pa_enc (enc_mem e m) = e" "pa_mem (enc_mem e m) = m" "enc_mem e m\<lparr>pa_mem := m'\<rparr> = enc_mem e m'"
  "enc_mem e m\<lparr>pa_enc := e'\<rparr> = enc_mem e' m"
  by (simp_all add: enc_mem_def)

lemma zero_enc_mem: "zero_projargs = enc_mem False (replicate 220 NUL)"
  by (simp add: enc_mem_def zero_projargs_def)

lemma serial_stored:
  assumes "link_ok (Serial p n)"
  shows "store_args (link_opts (Serial p n)) 0 zero_projargs = Some (Inr (7, enc_mem False (serial_mem n p)))"
    and "store_entries (link_entries (Serial p n)) zero_projargs = Some (Inr (enc_mem False (serial_mem n (p @ [NL]))))"
proof -
  have ok: "entry_ok 1 p" "0 < n" "n < 2 ^ 24" using assms by simp_all
  note p = entry_okD [OF ok(1)]
  have cp: "strcpy_at 4 q (enc_mem False (replicate 220 NUL)) = Some (enc_mem False (serial_mem 0 q))" if "length q < 108" for q
    using strcpy_port [OF that] by (simp add: zero_enc_mem)
  have br: "set_serial_br (of_nat n) (enc_mem False (serial_mem 0 q)) = enc_mem False (serial_mem n q)" for q
    using set_br_port [of n "enc_mem False (serial_mem 0 q)" 0 q] ok(3) by simp
  have at: "atoi (fmt_u n) = int n" "atoi (fmt_u n @ [NL]) = int n"
    using atoi_fmt_u [of "[]" n] atoi_fmt_u [of "[NL]" n] by (simp_all add: dec_digit_def)
  have bits: "BIT_SET (BIT_SET (BIT_SET 0 0) 1) 2 = (7 :: u32)" by code_simp
  show "store_args (link_opts (Serial p n)) 0 zero_projargs = Some (Inr (7, enc_mem False (serial_mem n p)))"
    using p(6) bits by (simp add: zero_enc_mem at cp br)
  have r: "entry_ok 2 (fmt_u n)" using rate_entry_ok [OF ok(3)] by simp
  have v: "split_value (arg_line 0 ''0'' @ [NL]) = Some (arg_keys ! 0 @ '' = '', ''0'' @ [NL])"
    "split_value (arg_line 1 p @ [NL]) = Some (arg_keys ! 1 @ '' = '', p @ [NL])"
    "split_value (arg_line 2 (fmt_u n) @ [NL]) = Some (arg_keys ! 2 @ '' = '', fmt_u n @ [NL])"
    using p entry_okD [OF r] by (intro split_value_line; simp)+
  show "store_entries (link_entries (Serial p n)) zero_projargs = Some (Inr (enc_mem False (serial_mem n (p @ [NL]))))"
    using p(6) by (simp add: store_cache_config_def v [simplified] zero_enc_mem cp br at)
qed

lemma sockets_stored:
  assumes "link_ok (Sockets srv clt e)"
  shows "store_args (link_opts (Sockets srv clt e)) 0 zero_projargs = Some (Inr (57, enc_mem True (sock_mem e srv clt)))"
    and "store_entries (link_entries (Sockets srv clt e)) zero_projargs
      = Some (Inr (enc_mem True (sock_mem e (srv @ [NL]) (clt @ [NL]))))"
proof -
  have ok: "entry_ok 3 srv" "entry_ok 4 clt" using assms by simp_all
  note srv = entry_okD [OF ok(1)] and clt = entry_okD [OF ok(2)]
  have s: "strcpy_at 1 q (enc_mem True (replicate 220 NUL)) = Some (enc_mem True (sock_mem False q []))" if "length q < 108" for q
    using strcpy_srv [OF that, of "enc_mem True (replicate 220 NUL)"] by simp
  have c: "strcpy_at 109 q (enc_mem True (sock_mem False q' [])) = Some (enc_mem True (sock_mem False q' q))"
    if "length q < 108" "length q' < 108" for q q'
    using strcpy_clt [OF that, of "enc_mem True (sock_mem False q' [])"] by simp
  have en: "set_sock_enc b (enc_mem True (sock_mem False q' q)) = enc_mem True (sock_mem b q' q)" for b q q'
    by (simp add: set_sock_enc_mem)
  have bits: "BIT_SET (BIT_SET (BIT_SET (BIT_SET 0 0) 3) 4) 5 = (57 :: u32)" by code_simp
  have at: "atoi ''1'' = 1" "atoi ''0'' = 0" "atoi (''1'' @ [NL]) = 1" "atoi (''0'' @ [NL]) = 0" by code_simp+
  have m: "zero_projargs\<lparr>pa_enc := True\<rparr> = enc_mem True (replicate 220 NUL)" by (simp add: zero_enc_mem)
  show "store_args (link_opts (Sockets srv clt e)) 0 zero_projargs = Some (Inr (57, enc_mem True (sock_mem e srv clt)))"
    using srv(6) clt(6) bits s [of srv] by (simp add: m at s [simplified] c en)
  have v: "split_value (arg_line 0 ''1'' @ [NL]) = Some (arg_keys ! 0 @ '' = '', ''1'' @ [NL])"
    "split_value (arg_line 3 srv @ [NL]) = Some (arg_keys ! 3 @ '' = '', srv @ [NL])"
    "split_value (arg_line 4 clt @ [NL]) = Some (arg_keys ! 4 @ '' = '', clt @ [NL])"
    "split_value (arg_line 5 (if e then ''1'' else ''0'') @ [NL]) = Some (arg_keys ! 5 @ '' = '', (if e then ''1'' else ''0'') @ [NL])"
    using srv clt by (intro split_value_line; simp)+
  show "store_entries (link_entries (Sockets srv clt e)) zero_projargs
      = Some (Inr (enc_mem True (sock_mem e (srv @ [NL]) (clt @ [NL]))))"
    using srv(6) clt(6) v
    by (simp add: store_cache_config_def m s [simplified] c en at [simplified] split del: if_split) (simp add: at [simplified])
qed

text \<open>Both starts have the same arguments in the end, and they are the ones asked for.\<close>

lemma finish_serial:
  assumes "link_ok (Serial p n)" and "m \<in> {serial_mem n p, serial_mem n (p @ [NL])}"
  shows "finish_args (enc_mem False m) = \<lparr>pa_initialized = True, pa_enc = False, pa_mem = strip_nl 1 (serial_mem n p)\<rparr>"
    and "args_sane (enc_mem False m)"
proof -
  have ok: "entry_ok 1 p" "0 < n" "n < 2 ^ 24" using assms(1) by simp_all
  note p = entry_okD [OF ok(1)]
  have unat_n: "unat (of_nat n :: u32) = n" using ok(3) by (simp add: unsigned_of_nat take_bit_nat_eq_self)
  have l: "length p < 92" using p(5) by (simp add: arg_line_def arg_key_nth)
  have "cstr_at 4 (serial_mem n p) = p" using p by (intro cstr_at_port) auto
  then have "strip_nl 4 (serial_mem n p) = serial_mem n p" using p(3) by (intro strip_none) simp
  moreover have "strip_nl 4 (serial_mem n (p @ [NL])) = serial_mem n p" using p by (intro strip_port) auto
  moreover have "strip_nl 109 (serial_mem n p) = serial_mem n p" using l by (intro strip_clt) simp
  ultimately have "strip_all m = strip_nl 1 (serial_mem n p)" using assms(2) by (auto simp: strip_all_def)
  then show "finish_args (enc_mem False m) = \<lparr>pa_initialized = True, pa_enc = False, pa_mem = strip_nl 1 (serial_mem n p)\<rparr>"
    by (simp add: finish_args_def enc_mem_def)
  have "serial_br (enc_mem False (serial_mem n q)) = of_nat n" for q
    using serial_br_port [of n] ok(3) by (simp add: enc_mem_def)
  moreover have "(of_nat n :: u32) \<noteq> 0"
    using ok(2,3) unat_n by (metis less_irrefl unsigned_0)
  moreover have "serial_mem n (p @ q) ! 4 \<noteq> NUL" for q using p(1,2) by (cases p) (auto simp: serial_mem_def nth_append)
  from this [of "[]"] this [of "[NL]"] have "m ! 4 \<noteq> NUL" using assms(2) by auto
  ultimately show "args_sane (enc_mem False m)" using assms(2) by (auto simp: args_sane_def)
qed

lemma finish_sockets:
  assumes "link_ok (Sockets srv clt e)" and "m \<in> {sock_mem e srv clt, sock_mem e (srv @ [NL]) (clt @ [NL])}"
  shows "finish_args (enc_mem True m) = \<lparr>pa_initialized = True, pa_enc = True, pa_mem = sock_mem e srv clt\<rparr>"
    and "args_sane (enc_mem True m)"
proof -
  have ok: "entry_ok 3 srv" "entry_ok 4 clt" using assms(1) by simp_all
  note srv = entry_okD [OF ok(1)] and clt = entry_okD [OF ok(2)]
  have "strip_all m = sock_mem e srv clt" using assms(2) strip_all_sock [of srv clt e] srv clt by auto
  then show "finish_args (enc_mem True m) = \<lparr>pa_initialized = True, pa_enc = True, pa_mem = sock_mem e srv clt\<rparr>"
    by (simp add: finish_args_def enc_mem_def)
  have "sock_mem e (srv @ q) c ! 1 \<noteq> NUL" for q c using srv(1,2) by (cases srv) (auto simp: sock_mem_def)
  from this [of "[]"] this [of "[NL]"] have 1: "m ! 1 \<noteq> NUL" using assms(2) by auto
  have "sock_mem e s (clt @ q) ! 109 \<noteq> NUL" if "length s \<le> 108" for s q
    using clt(1,2) that by (cases clt) (auto simp: sock_mem_def nth_append)
  from this [of srv "[]"] this [of "srv @ [NL]" "[NL]"] have "m ! 109 \<noteq> NUL" using assms(2) srv(6) by auto
  then show "args_sane (enc_mem True m)" using 1 by (simp add: args_sane_def)
qed

lemma link_of_serial:
  assumes "link_ok (Serial p n)"
  shows "link_of \<lparr>pa_initialized = i, pa_enc = False, pa_mem = serial_mem n p\<rparr> = Serial p n"
proof -
  have ok: "entry_ok 1 p" "n < 2 ^ 24" using assms by simp_all
  then have "unat (of_nat n :: u32) = n" by (simp add: unsigned_of_nat take_bit_nat_eq_self)
  then show ?thesis using cstr_at_port [of p n] serial_br_port [of n] ok entry_okD [OF ok(1)] by (simp add: link_of_def)
qed

lemma link_of_sockets:
  assumes "link_ok (Sockets srv clt e)"
  shows "link_of \<lparr>pa_initialized = i, pa_enc = True, pa_mem = sock_mem e srv clt\<rparr> = Sockets srv clt e"
proof -
  have ok: "entry_ok 3 srv" "entry_ok 4 clt" using assms by simp_all
  have "sock_mem e srv clt ! 0 = (if e then CHR 0x01 else NUL)" by (simp add: sock_mem_def)
  then show ?thesis
    using cstr_at_sock [of srv e clt] cstr_at_clt [of clt srv e] entry_okD [OF ok(1)] entry_okD [OF ok(2)]
    by (simp add: link_of_def sock_enc_def)
qed

text \<open>The arguments in memory, and the lines written for them.\<close>

lemma serial_entries:
  assumes "link_ok (Serial p n)"
  shows "map (\<lambda>i. (i, arg_value i (enc_mem False (serial_mem n p)))) (filter (bit (7 :: u32)) [0..<6]) = link_entries (Serial p n)"
proof -
  have "filter (bit (7 :: u32)) [0..<6] = [0, 1, 2]" by code_simp
  moreover have "link_of (enc_mem False (serial_mem n p)) = Serial p n" using link_of_serial [OF assms] by (simp add: enc_mem_def)
  ultimately show ?thesis by (simp add: arg_value_def link_of_def)
qed

lemma sockets_entries:
  assumes "link_ok (Sockets srv clt e)"
  shows "map (\<lambda>i. (i, arg_value i (enc_mem True (sock_mem e srv clt)))) (filter (bit (57 :: u32)) [0..<6])
    = link_entries (Sockets srv clt e)"
proof -
  have "filter (bit (57 :: u32)) [0..<6] = [0, 3, 4, 5]" by code_simp
  moreover have "link_of (enc_mem True (sock_mem e srv clt)) = Sockets srv clt e" using link_of_sockets [OF assms] by (simp add: enc_mem_def)
  moreover have "digit_char 1 = CHR ''1''" "digit_char 0 = CHR ''0''" by code_simp+
  then have "fmt_u 1 = ''1''" "fmt_u 0 = ''0''" by (simp_all add: fmt_u_def fmt_base.simps)
  ultimately show ?thesis by (simp add: arg_value_def link_of_def)
qed

text \<open>Both starts, with the options and after it without them.\<close>

lemma serial_starts:
  assumes "link_ok (Serial p n)" and "argv1 \<notin> {''--help'', ''-h''}"
  shows "\<exists>a f. setprojargs (Some argv1) (link_opts (Serial p n)) None zero_projargs = Some (Inr (a, f))
    \<and> setprojargs None [] (Some f) zero_projargs = Some (Inr (a, f))
    \<and> a = \<lparr>pa_initialized = True, pa_enc = False, pa_mem = strip_nl 1 (serial_mem n p)\<rparr>"
proof -
  note fin = finish_serial [OF assms(1)] and st = serial_stored [OF assms(1)] and es = link_entries_ok [OF assms(1)]
  let ?m = "serial_mem n p" and ?m' = "serial_mem n (p @ [NL])" and ?es = "link_entries (Serial p n)"
  have m: "?m \<in> {?m, ?m'}" "?m' \<in> {?m, ?m'}" by simp_all
  show ?thesis
    using setprojargs_first [OF assms(2) st(1) fin(2) [OF m(1)] serial_entries [OF assms(1)] es link_entries_length [OF assms(1)]]
      setprojargs_again [OF es st(2) fin(2) [OF m(2)]]
    unfolding fin(1) [OF m(1)] fin(1) [OF m(2)] by blast
qed

lemma sockets_starts:
  assumes "link_ok (Sockets srv clt e)" and "argv1 \<notin> {''--help'', ''-h''}"
  shows "\<exists>a f. setprojargs (Some argv1) (link_opts (Sockets srv clt e)) None zero_projargs = Some (Inr (a, f))
    \<and> setprojargs None [] (Some f) zero_projargs = Some (Inr (a, f)) \<and> link_of a = Sockets srv clt e"
proof -
  note fin = finish_sockets [OF assms(1)] and st = sockets_stored [OF assms(1)] and es = link_entries_ok [OF assms(1)]
  let ?m = "sock_mem e srv clt" and ?m' = "sock_mem e (srv @ [NL]) (clt @ [NL])"
  have m: "?m \<in> {?m, ?m'}" "?m' \<in> {?m, ?m'}" by simp_all
  show ?thesis
    using setprojargs_first [OF assms(2) st(1) fin(2) [OF m(1)] sockets_entries [OF assms(1)] es link_entries_length [OF assms(1)]]
      setprojargs_again [OF es st(2) fin(2) [OF m(2)]]
    unfolding fin(1) [OF m(1)] fin(1) [OF m(2)] using link_of_sockets [OF assms(1)] by blast
qed

text \<open>C37: The arguments are remembered, for either link: a start with the options of a serial port or of the sockets,
  when there is no file \<open>.config\<close> yet, writes one from which the next start, without options, gets exactly the
  same arguments, namely those of the options, and it leaves the file as it is. The names are not empty, do not
  start with a blank, hold no newline and no key of another argument and fit their line with the key; the rate is below \<open>2^24\<close> and its second and
  third byte are not the code of a newline.\<close>

theorem arguments_are_remembered:
  assumes "link_ok x" and "rate_ok x" and "argv1 \<notin> {''--help'', ''-h''}"
  shows "\<exists>a f. setprojargs (Some argv1) (link_opts x) None zero_projargs = Some (Inr (a, f))
    \<and> setprojargs None [] (Some f) zero_projargs = Some (Inr (a, f)) \<and> link_of a = x"
proof (cases x)
  case (Serial p n)
  then have "strip_nl 1 (serial_mem n p) = serial_mem n p" using assms(1,2) by (intro strip_srv) simp_all
  then show ?thesis using serial_starts [of p n argv1] link_of_serial [of p n] assms(1,3) unfolding Serial by metis
next
  case (Sockets srv clt e)
  then show ?thesis using sockets_starts assms(1,3) by blast
qed

theorem arguments_are_remembered_witness:
  "(\<exists>a f. setprojargs (Some ''-m'') [(CHR ''m'', ''i''), (CHR ''p'', ''/dev/ttyACM0''), (CHR ''b'', fmt_u 115200)] None zero_projargs
      = Some (Inr (a, f)) \<and> setprojargs None [] (Some f) zero_projargs = Some (Inr (a, f))
      \<and> link_of a = Serial ''/dev/ttyACM0'' 115200)
   \<and> (\<exists>a f. setprojargs (Some ''-m'') [(CHR ''m'', ''s''), (CHR ''s'', ''/tmp/srv''), (CHR ''c'', ''/tmp/clt''), (CHR ''e'', ''1'')]
      None zero_projargs = Some (Inr (a, f)) \<and> setprojargs None [] (Some f) zero_projargs = Some (Inr (a, f))
      \<and> link_of a = Sockets ''/tmp/srv'' ''/tmp/clt'' True)"
proof -
  have "entry_ok 1 ''/dev/ttyACM0''" "entry_ok 3 ''/tmp/srv''" "entry_ok 4 ''/tmp/clt''"
    by (simp_all add: entry_ok_def arg_line_def key_list arg_key_nth)
  then have "link_ok (Serial ''/dev/ttyACM0'' 115200)" "link_ok (Sockets ''/tmp/srv'' ''/tmp/clt'' True)" by simp_all
  from this [THEN arguments_are_remembered, of "''-m''"] show ?thesis by simp
qed

text \<open>The rate and the name of the server's socket share their bytes, and a newline is cut off the name whatever the
  mode: a rate from 2560 to 2815, whose second byte is the code of a newline, loses that byte.\<close>

theorem baud_rate_loses_a_byte:
  assumes "entry_ok ARG_DIRTY_PORT p" and "r < 256" and "argv1 \<notin> {''--help'', ''-h''}"
  shows "\<exists>a f. setprojargs (Some argv1) [(CHR ''m'', ''i''), (CHR ''p'', p), (CHR ''b'', fmt_u (2560 + r))] None zero_projargs
      = Some (Inr (a, f)) \<and> serial_br a = of_nat r"
proof -
  let ?n = "2560 + r"
  have "(r + 256 * 10) mod 256 = r mod 256" by (rule mod_mult_self2)
  then have m: "?n mod 256 = r" using assms(2) by (simp add: add.commute)
  have n: "?n < 2 ^ 24" "?n div 256 = 10" "?n div 65536 = 0" "?n div 16777216 = 0" "?n mod 256 = r" using assms(2) m by simp_all
  have c: "cstr_at 1 (serial_mem ?n p) = [NL]"
    unfolding cstr_at_srv [OF n(1)] by (simp add: n char_of_10 char_of_0 del: div_add)
  have "strip_nl 1 (serial_mem ?n p) = (serial_mem ?n p)[1 := NUL]"
    unfolding strip_nl_def c by simp
  also have "\<dots> = serial_mem r p"
    using assms(2) n by (simp add: serial_mem_def br_bytes_def char_of_0 del: div_add)
  finally have s: "strip_nl 1 (serial_mem ?n p) = serial_mem r p" .
  have "link_ok (Serial p ?n)" using assms(1) n(1) by simp
  from serial_starts [OF this assms(3)] show ?thesis
    unfolding s using serial_br_port [of r] assms(2) by auto
qed

theorem baud_rate_loses_a_byte_witness:
  "\<exists>a f. setprojargs (Some ''-m'') [(CHR ''m'', ''i''), (CHR ''p'', ''tty''), (CHR ''b'', fmt_u 2600)] None zero_projargs
      = Some (Inr (a, f)) \<and> serial_br a = 40"
proof -
  have "entry_ok ARG_DIRTY_PORT ''tty''" by (simp add: entry_ok_def arg_line_def key_list arg_key_nth)
  from baud_rate_loses_a_byte [OF this, of 40 "''-m''"] show ?thesis by simp
qed

subsection \<open>Every run\<close>

text \<open>C25: The invariant of the manager holds in every state the program can reach, whatever the target answers, the
  files hold and the user types, across resets: a slot of the engine is in use exactly when it holds a node, no
  device has two provisioning sessions, the priorities are valid and the engine has its default states.\<close>

theorem reachable_states_are_consistent:
  assumes "reachable s"
  shows "acc_wf (mng s) \<and> add_wf s \<and> prios_wf (mng s) \<and> acc_states (acc s) = default_states"
  using reachable_inv [OF assms] by (simp add: mng_inv_def)

text \<open>A target that boots and accepts everything, and a provisioner file with one network key.\<close>

definition boot_tr :: transport where
  "boot_tr = \<lparr>tr_opens = (\<lambda>_. True), tr_peek = (\<lambda>_. Some evt_system_boot)\<rparr>"

definition boot_disk :: "string \<Rightarrow> (json option \<times> int) option" where
  "boot_disk = (\<lambda>p. if p = cfg_path PROV_CFG_FILE then Some (Some (JObj
     [(STR_ADDR, JStr ''0x0001''), (STR_IVI, JStr ''0''), (STR_SYNC_TIME, JStr ''0''),
      (STR_SUBNETS, JArr [JObj [(STR_REFID, JStr ''0''), (STR_ID, JStr ''0''),
         (STR_VALUE, JStr ''00000000000000000000000000000000''), (STR_DONE, JStr ''0''), (STR_APPKEY, JArr [])]])]), 0) else None)"

lemma boot_runs:
  "map_option (\<lambda>r. case r of Inl n \<Rightarrow> None | Inr s \<Rightarrow> Some (m_state (mng s)))
     (cli_proc ok_env boot_tr (zero_projargs\<lparr>pa_initialized := True\<rparr>) False 0
        ((zero_sys boot_disk)\<lparr>evq := [evt_prov_initialized 0 1 0]\<rparr>)) = Some (Some configured)"
  by code_simp

lemma some_reachable: "\<exists>s. reachable s \<and> m_state (mng s) = configured"
proof -
  obtain s where "cli_proc ok_env boot_tr (zero_projargs\<lparr>pa_initialized := True\<rparr>) False 0
        ((zero_sys boot_disk)\<lparr>evq := [evt_prov_initialized 0 1 0]\<rparr>) = Some (Inr s)" "m_state (mng s) = configured"
  proof -
    obtain r where r: "cli_proc ok_env boot_tr (zero_projargs\<lparr>pa_initialized := True\<rparr>) False 0
        ((zero_sys boot_disk)\<lparr>evq := [evt_prov_initialized 0 1 0]\<rparr>) = Some r"
      "(case r of Inl n \<Rightarrow> None | Inr s \<Rightarrow> Some (m_state (mng s))) = Some configured"
      using boot_runs by auto
    then show thesis using that by (cases r) simp_all
  qed
  then show ?thesis using reachable.start by blast
qed

theorem reachable_states_are_consistent_witness:
  "\<exists>s. reachable s \<and> m_state (mng s) = configured \<and> acc_wf (mng s) \<and> prios_wf (mng s)"
  using some_reachable reachable_states_are_consistent by blast

text \<open>C26: The manager never aborts over its priorities: in every reachable state, that is between two turns,
  \<open>set_mng_state\<close>, whose loop asserts that a priority is a letter it knows, returns.\<close>

theorem priorities_never_abort:
  assumes "reachable s"
  shows "set_mng_state E s \<noteq> None"
  using set_mng_state_runs [OF reachable_inv [OF assms], of E] by auto

theorem priorities_never_abort_witness: "\<exists>s. reachable s \<and> set_mng_state ok_env s \<noteq> None"
  using some_reachable priorities_never_abort by blast

text \<open>C27: In every reachable state at most two nodes are being configured, in different slots, and at most two
  devices are being provisioned, in different sessions: the limits of \<open>include/projconfig.h\<close> (the README documents 6
  and 4).\<close>

theorem limits_of_the_target:
  assumes "reachable s"
  shows "utils_popcount (used (mng s)) \<le> int MAX_CONCURRENT_CONFIG_NODES
    \<and> length (sessions (c_add (mng s))) \<le> MAX_PROV_SESSIONS \<and> distinct (sessions (c_add (mng s)))"
proof -
  have a: "acc_wf (mng s)" "add_wf s" using reachable_inv [OF assms] by (simp_all add: mng_inv_def)
  have "set (ones32 (used (mng s))) \<subseteq> {..<MAX_CONCURRENT_CONFIG_NODES}"
    using a(1) unfolding set_ones32 acc_wf_def by auto
  then have "card (set (ones32 (used (mng s)))) \<le> MAX_CONCURRENT_CONFIG_NODES"
    using card_mono [of "{..<MAX_CONCURRENT_CONFIG_NODES}"] by fastforce
  moreover have "distinct (ones32 (used (mng s)))" unfolding ones32_def by simp
  moreover have "length (sessions cs) \<le> length cs" for cs by (simp add: sessions_def)
  ultimately show ?thesis using a(2) unfolding add_wf_def utils_popcount_def by (metis distinct_card of_nat_le_iff)
qed

theorem limits_of_the_target_witness:
  "\<exists>s. reachable s \<and> utils_popcount (used (mng s)) \<le> 2 \<and> length (sessions (c_add (mng s))) \<le> 2"
  using some_reachable limits_of_the_target by fastforce

end
