(* ===== verification/Complete.thy ===== *)
theory Complete
  imports Cli StrUtil
begin

text \<open>
  The completion of a command line, \<open>cli/cli.c\<close>. A generator is called with a state of 0
  first and with another one for every further match, until it returns NULL; its static variables are a
  position and the length of the text. \<open>rl_completion_matches\<close>, a function of the library readline, calls the
  generator and builds the array of strings that the code returns: it is the parameter \<open>rl\<close> of the model, and
  \<open>documented_matches rl\<close> is what the manual of readline says of it. NULL is the empty list.
\<close>

subsection \<open>Generators\<close>

type_synonym generator = "string \<Rightarrow> bool \<Rightarrow> nat \<times> nat \<Rightarrow> string option \<times> (nat \<times> nat)"

text \<open>The search loop of every generator, over the words from the position on.\<close>

fun search :: "(string \<Rightarrow> bool) \<Rightarrow> nat \<Rightarrow> string list \<Rightarrow> string option \<times> nat" where
  "search match i [] = (None, i)"
| "search match i (w # ws) = (if match w then (Some w, Suc i) else search match (Suc i) ws)"

text \<open>\<open>strncasecmp(name, text, len) == 0\<close> and \<open>strncmp(arg, text, len) == 0\<close>, where \<open>len\<close> is not above \<open>strlen(text)\<close>.\<close>

definition to_lower :: "char \<Rightarrow> char" where
  "to_lower c = (let x = (of_char c :: nat) in if 65 \<le> x \<and> x \<le> 90 then char_of (x + 32) else c)"

definition same_start_case :: "nat \<Rightarrow> string \<Rightarrow> string \<Rightarrow> bool" where
  "same_start_case len txt name = (take len (map to_lower name) = take len (map to_lower txt))"

definition same_start :: "nat \<Rightarrow> string \<Rightarrow> string \<Rightarrow> bool" where
  "same_start len txt arg = (take len arg = take len txt)"

definition word_generator :: "(nat \<Rightarrow> string \<Rightarrow> string \<Rightarrow> bool) \<Rightarrow> string list \<Rightarrow> generator" where
  "word_generator same ws txt new st =
    (let (i, len) = (if new then (0, length txt) else st);
         (r, i) = search (same len txt) i (drop i ws)
     in (r, (i, len)))"

definition command_generator :: generator where
  "command_generator = word_generator same_start_case (map c_name commands)"

definition seqset_arg :: "string list" where
  "seqset_arg = [''a--'', ''r--'', ''b--'', ''ar-'', ''ab-'', ''ra-'', ''rb-'', ''ba-'', ''br-'', ''arb'', ''abr'',
     ''rab'', ''rba'', ''bar'', ''bra'']"

definition seqset_arg_generator :: generator where
  "seqset_arg_generator = word_generator same_start seqset_arg"

text \<open>\<open>args\<close> holds the words of the argument.\<close>

definition arg_generator :: "string list \<Rightarrow> generator" where
  "arg_generator args = word_generator same_start args"

text \<open>
  The words of \<open>var_arg_generator\<close> are fetched when the completion starts; a failure to fetch them leaves
  none.
\<close>

definition vaget_words :: "vpget \<Rightarrow> sys \<Rightarrow> string list option" where
  "vaget_words vp s = do {
     r \<leftarrow> (case vp of vp_addrs \<Rightarrow> vaget_addrs 256 s | vp_lights ty \<Rightarrow> vaget_lights_addrs 256 ty s);
     Some (case r of Inl _ \<Rightarrow> [] | Inr ws \<Rightarrow> ws) }"

definition var_arg_generator :: "string list \<Rightarrow> generator" where
  "var_arg_generator va_param = word_generator same_start va_param"

text \<open>
  The calls of a generator from its static variables \<open>st\<close> on, \<open>new\<close> for the first one, return \<open>ws\<close> and then NULL.
\<close>

inductive yields :: "generator \<Rightarrow> string \<Rightarrow> bool \<Rightarrow> nat \<times> nat \<Rightarrow> string list \<Rightarrow> bool"
  for gen :: generator and str :: string where
  no_more: "gen str new st = (None, st') \<Longrightarrow> yields gen str new st []"
| one_more: "gen str new st = (Some w, st') \<Longrightarrow> yields gen str False st' ws \<Longrightarrow> yields gen str new st (w # ws)"

type_synonym collector = "generator \<Rightarrow> string \<Rightarrow> string list"

text \<open>
  The documented behaviour: NULL when there is no completion; otherwise the first entry is the text that replaces
  the word and the remaining entries are the possible completions. A single completion is the text itself and is
  not repeated.
\<close>

definition documented_matches :: "collector \<Rightarrow> bool" where
  "documented_matches rl \<longleftrightarrow> (\<forall>gen txt ws. (\<forall>st. yields gen txt True st ws) \<longrightarrow>
     (case ws of [] \<Rightarrow> rl gen txt = [] | [w] \<Rightarrow> rl gen txt = [w] | _ \<Rightarrow> (\<exists>subst. rl gen txt = subst # ws)))"

text \<open>The possible completions in the array.\<close>

fun offered :: "string list \<Rightarrow> string list" where
  "offered [] = []"
| "offered [w] = [w]"
| "offered (subst # ws) = ws"

subsection \<open>The words of an argument\<close>

text \<open>\<open>parse_args\<close>: the words, and whether the last one ends in dots (\<open>we_offs\<close>).\<close>

definition parse_args :: "(string \<Rightarrow> string list option) \<Rightarrow> string \<Rightarrow> string \<Rightarrow> (string list \<times> bool) option option" where
  "parse_args wordexp arg del = do {
     str \<leftarrow> strdelimit arg del (CHR 0x22);
     Some (case wordexp str of
             None \<Rightarrow> None
           | Some w \<Rightarrow> Some (w, w \<noteq> [] \<and> strsuffix (last w) ''...'')) }"

text \<open>What is offered for the argument of a command, a list of choices or the addresses.\<close>

datatype offer = offer_none | offer_choices "string list" | offer_vars

definition args_offer :: "(string \<Rightarrow> string list option) \<Rightarrow> command_t \<Rightarrow> nat \<Rightarrow> string \<Rightarrow> offer option" where
  "args_offer wordexp entry argc txt =
    (let index = int argc - (if txt = [] then 1 else 2)
     in if index < 0 then Some offer_none
        else case c_arg entry of
          None \<Rightarrow> Some offer_none
        | Some a \<Rightarrow> do {
            p \<leftarrow> parse_args wordexp a ''<>[]'';
            case p of
              None \<Rightarrow> Some offer_none
            | Some (w, dots) \<Rightarrow>
                if \<not> dots \<and> w \<noteq> [] \<and> nat index > length w - 1 then Some offer_none
                else if dots \<and> nat index \<ge> length w - 1 then Some offer_vars
                else do {
                  a \<leftarrow> idx w (nat index);
                  if CHR ''/'' \<notin> set a then Some offer_none
                  else do {
                    str \<leftarrow> strdelimit a ''/'' (CHR '' '');
                    Some (case wordexp str of None \<Rightarrow> offer_none | Some ws \<Rightarrow> offer_choices ws) } } })"

definition args_completion ::
  "collector \<Rightarrow> (string \<Rightarrow> string list option) \<Rightarrow> command_t \<Rightarrow> nat \<Rightarrow> string \<Rightarrow> sys \<Rightarrow> string list option" where
  "args_completion rl wordexp entry argc txt s = do {
     off \<leftarrow> args_offer wordexp entry argc txt;
     case off of
       offer_none \<Rightarrow> Some []
     | offer_choices ws \<Rightarrow> Some (rl (arg_generator ws) txt)
     | offer_vars \<Rightarrow> (case c_vpget entry of
         None \<Rightarrow> Some []
       | Some vp \<Rightarrow> do { ws \<leftarrow> vaget_words vp s; Some (rl (var_arg_generator ws) txt) }) }"

definition menu_completion ::
  "collector \<Rightarrow> (string \<Rightarrow> string list option) \<Rightarrow> string \<Rightarrow> nat \<Rightarrow> string \<Rightarrow> sys \<Rightarrow> string list option" where
  "menu_completion rl wordexp txt argc input_cmd s =
    (case find (\<lambda>c. c_name c = input_cmd) commands of
       None \<Rightarrow> Some []
     | Some c \<Rightarrow> if \<not> c_argcmpl c then args_completion rl wordexp c argc txt s
                 else Some (rl seqset_arg_generator txt))"

text \<open>\<open>line\<close> is the buffer of readline; a line without a word has no \<open>w.we_wordv[0]\<close>.\<close>

definition shell_completion ::
  "collector \<Rightarrow> (string \<Rightarrow> string list option) \<Rightarrow> string \<Rightarrow> nat \<Rightarrow> string \<Rightarrow> sys \<Rightarrow> string list option" where
  "shell_completion rl wordexp txt start line s =
    (if start = 0 then Some (rl command_generator txt)
     else case wordexp line of
       None \<Rightarrow> Some []
     | Some w \<Rightarrow> do { c \<leftarrow> idx w 0; menu_completion rl wordexp txt (length w) c s })"

subsection \<open>What is offered\<close>

lemma search_filter:
  "search match i ws = (case dropWhile (\<lambda>w. \<not> match w) ws of
      [] \<Rightarrow> (None, i + length ws) | w # rest \<Rightarrow> (Some w, i + length ws - length rest))"
proof (induction match i ws rule: search.induct)
  case (2 match i w ws)
  have "length rest \<le> length ws" if "dropWhile (\<lambda>w. \<not> match w) ws = w' # rest" for w' rest
    using that length_dropWhile_le [of "\<lambda>w. \<not> match w" ws] by simp
  then show ?case using 2 by (cases "match w") (auto split: list.splits simp del: dropWhile_eq_Nil_conv)
qed simp

lemma yields_filter:
  "i \<le> length ws \<Longrightarrow> yields (word_generator same ws) txt False (i, len) (filter (same len txt) (drop i ws))"
proof (induction "length ws - i" arbitrary: i rule: less_induct)
  case less
  show ?case
  proof (cases "dropWhile (\<lambda>w. \<not> same len txt w) (drop i ws)")
    case Nil
    then have "filter (same len txt) (drop i ws) = []" by (simp add: filter_empty_conv)
    then show ?thesis using Nil
      by (simp add: no_more word_generator_def search_filter del: dropWhile_eq_Nil_conv)
  next
    case (Cons w rest)
    let ?p = "takeWhile (\<lambda>w. \<not> same len txt w) (drop i ws)"
    have split: "drop i ws = ?p @ w # rest" using Cons takeWhile_dropWhile_id [of _ "drop i ws"] by metis
    let ?i = "i + length ?p + 1"
    have len: "length ws = ?i + length rest" using arg_cong [OF split, of length] less.prems by simp
    have "drop ?i ws = drop (length ?p + 1) (drop i ws)" by (simp add: add.commute)
    also have "\<dots> = rest" by (subst split) simp
    finally have rest: "drop ?i ws = rest" .
    have w: "same len txt w" using hd_dropWhile [of "\<lambda>w. \<not> same len txt w" "drop i ws"] Cons by simp
    have f: "filter (same len txt) (drop i ws) = w # filter (same len txt) (drop ?i ws)"
      unfolding rest by (subst split) (use w in \<open>auto simp: filter_empty_conv dest: set_takeWhileD\<close>)
    have "i + length (drop i ws) - length rest = ?i" using len less.prems by simp
    then have "word_generator same ws txt False (i, len) = (Some w, (?i, len))"
      using Cons by (simp add: word_generator_def search_filter)
    then show ?thesis unfolding f using less.hyps [of ?i] len by (intro one_more) auto
  qed
qed

lemma yields_same_call:
  assumes "yields gen str new st ws" and "gen str new' st' = gen str new st"
  shows "yields gen str new' st' ws"
  using assms(1)
proof cases
  case no_more
  then show ?thesis using yields.no_more [of gen str new' st'] assms(2) by simp
next
  case one_more
  then show ?thesis using yields.one_more [of gen str new' st'] assms(2) by simp
qed

lemma generator_yields: "yields (word_generator same ws) txt True st (filter (same (length txt) txt) ws)"
proof -
  have "word_generator same ws txt True st = word_generator same ws txt False (0, length txt)"
    by (simp add: word_generator_def)
  then show ?thesis
    using yields_same_call [of "word_generator same ws" "txt" False "(0, length txt)" _ True st]
      yields_filter [of 0 ws same "txt" "length txt"] by simp
qed

lemma documented_filter:
  assumes "documented_matches rl"
  shows "offered (rl (word_generator same ws) txt) = filter (same (length txt) txt) ws"
proof -
  let ?ws = "filter (same (length txt) txt) ws"
  have "case ?ws of [] \<Rightarrow> rl (word_generator same ws) txt = [] | [w] \<Rightarrow> rl (word_generator same ws) txt = [w]
      | _ \<Rightarrow> (\<exists>subst. rl (word_generator same ws) txt = subst # ?ws)"
    using assms generator_yields unfolding documented_matches_def by blast
  then show ?thesis
    by (cases ?ws rule: offered.cases) auto
qed

subsection \<open>A collector\<close>

text \<open>The documented behaviour can be had: an instance, with the longest common start as the first entry.\<close>

partial_function (option) collect :: "generator \<Rightarrow> string \<Rightarrow> bool \<Rightarrow> nat \<times> nat \<Rightarrow> string list option" where
  "collect gen txt new st =
    (case gen txt new st of
       (None, st) \<Rightarrow> Some []
     | (Some w, st) \<Rightarrow> do { ws \<leftarrow> collect gen txt False st; Some (w # ws) })"

fun common_start :: "string \<Rightarrow> string \<Rightarrow> string" where
  "common_start (c # cs) (d # ds) = (if c = d then c # common_start cs ds else [])"
| "common_start _ _ = []"

definition collect_matches :: collector where
  "collect_matches gen txt =
    (case collect gen txt True (0, 0) of
       None \<Rightarrow> []
     | Some [] \<Rightarrow> []
     | Some [w] \<Rightarrow> [w]
     | Some (w # ws) \<Rightarrow> foldr common_start ws w # w # ws)"

lemma yields_collect: "yields gen txt new st ws \<Longrightarrow> collect gen txt new st = Some ws"
  by (induction rule: yields.induct) (subst collect.simps, simp)+

lemma collect_matches_documented: "documented_matches collect_matches"
  unfolding documented_matches_def
proof (intro allI impI)
  fix gen and "txt" :: string and ws
  assume "\<forall>st. yields gen txt True st ws"
  then have "collect gen txt True (0, 0) = Some ws" by (simp add: yields_collect)
  then show "case ws of [] \<Rightarrow> collect_matches gen txt = [] | [w] \<Rightarrow> collect_matches gen txt = [w]
      | _ \<Rightarrow> (\<exists>subst. collect_matches gen txt = subst # ws)"
    by (simp add: collect_matches_def split: list.splits)
qed

end
