(* ===== verification/CliProps.thy ===== *)
theory CliProps
  imports Complete Samples Queue
begin

text \<open>Properties of the command line and of the conversions of numbers.\<close>

subsection \<open>Lines\<close>

text \<open>C38: What a line adds to the queue of the manager are the words of a command the manager has a callback for: its index
  is not one of the three local commands, and the name of the command starts the line without its blanks. The
  item is the last of the queue then, behind those that were waiting, and nothing else changes.\<close>

theorem queued_lines_have_a_callback:
  assumes "cli_line wordexp str s = Some (cli_queued, s')"
  shows "\<exists>i w. (\<forall>xs. cmdq_holds (cmdq s) xs \<longrightarrow> cmdq_holds (cmdq s') (xs @ [(i, w)]))
    \<and> (\<exists>a n. q_tail (cmdq s') = Some a \<and> q_mem (cmdq s') a = Some \<lparr>qi_offs = i, qi_cmd = w, qi_next = n\<rparr>)
    \<and> s' = s\<lparr>cmdq := cmdq s'\<rparr> \<and> i \<in> {3..<length commands}
    \<and> wordexp (stripwhite str) = Some w \<and> take (length (c_name (commands ! i))) (stripwhite str) = c_name (commands ! i)"
proof -
  let ?l = "stripwhite str"
  obtain w where w: "wordexp ?l = Some w" using assms by (auto simp: cli_line_def Let_def split: option.splits)
  obtain i where i: "find_cmd_index ?l = Some i" "3 \<le> i"
    and s': "cmd_enq wordexp ?l i s = Some s'"
    using assms w by (auto simp: cli_line_def Let_def split: option.splits if_splits)
  note spec = find_cmd_from_spec [OF i(1) [unfolded find_cmd_index_def]]
  have f: "i < length commands" using spec by simp
  have "take (length (map c_name commands ! i)) ?l = map c_name commands ! i" using spec by (simp only: diff_zero)
  then have "take (length (c_name (commands ! i))) ?l = c_name (commands ! i)"
    unfolding nth_map [OF f] .
  moreover have "\<forall>xs. cmdq_holds (cmdq s) xs \<longrightarrow> cmdq_holds (cmdq s') (xs @ [(i, w)])"
    using cmd_enq_holds [where wordexp = wordexp and str = ?l and i = i] w s' by fastforce
  ultimately show ?thesis using w i(2) cmd_enq_only_queue [OF s'] cmd_enq_last [OF s' w] f by auto
qed

lemma list_is_queued:
  assumes "cmdq_holds (cmdq s) xs"
  shows "\<exists>s'. cli_line (\<lambda>l. Some [l]) '' list'' s = Some (cli_queued, s')"
proof -
  have "stripwhite '' list'' = ''list''" "find_cmd_index ''list'' = Some 4" by code_simp+
  then show ?thesis using cmd_enq_holds [OF assms, of "\<lambda>l. Some [l]"] by (fastforce simp: cli_line_def)
qed

theorem queued_lines_have_a_callback_witness:
  "\<exists>s' i w. cli_line (\<lambda>l. Some [l]) '' list'' sample_sys = Some (cli_queued, s') \<and> cmdq_holds (cmdq s') [(i, w)]
    \<and> i \<in> {3..<length commands}"
proof -
  have q: "cmdq_holds (cmdq sample_sys) []" by (simp add: sample_sys_def acc_reset_def zero_sys_def zero_cmdq_holds)
  obtain s' where s': "cli_line (\<lambda>l. Some [l]) '' list'' sample_sys = Some (cli_queued, s')" using list_is_queued [OF q] by blast
  from queued_lines_have_a_callback [OF s'] show ?thesis using s' q by fastforce
qed

text \<open>The name of a command only has to start the line: every line that starts with the letter of the command
  \<open>q\<close>, whatever follows, ends the program.\<close>

theorem any_q_quits:
  assumes "wordexp (CHR ''q'' # l) = Some w" and "stripwhite str = CHR ''q'' # l"
  shows "cli_line wordexp str s = Some (cli_quit, s)"
proof -
  have "find_cmd_index (CHR ''q'' # l) = Some 1"
    by (simp add: find_cmd_index_def commands_def cmd_entry_def)
  then show ?thesis using assms by (simp add: cli_line_def)
qed

theorem any_q_quits_witness: "cli_line (\<lambda>l. Some [l]) ''quiet'' sample_sys = Some (cli_quit, sample_sys)"
  using any_q_quits [of "\<lambda>l. Some [l]" "''uiet''" "[''quiet'']" "''quiet''"] by (simp add: stripwhite_def whitespace_def)

subsection \<open>Completion\<close>

text \<open>C39: At the start of a line the possible completions are exactly the commands whose names start with the text, upper
  and lower case alike, in the order of the table, and there is no array when there is none: the generator with its
  static position, called by readline as its manual says, is a filter.\<close>

theorem completion_is_a_filter:
  assumes "documented_matches rl"
  shows "\<exists>a. shell_completion rl wordexp txt 0 line s = Some a
    \<and> offered a = filter (\<lambda>n. map to_lower (take (length txt) n) = map to_lower txt) (map c_name commands)"
proof -
  have "same_start_case (length txt) txt = (\<lambda>n. map to_lower (take (length txt) n) = map to_lower txt)" for "txt"
    by (simp add: same_start_case_def fun_eq_iff take_map)
  then show ?thesis
    using documented_filter [OF assms, of same_start_case "map c_name commands" "txt"]
    by (simp add: shell_completion_def command_generator_def)
qed

theorem completion_is_a_filter_witness:
  "\<exists>a. shell_completion collect_matches (\<lambda>_. None) ''L'' 0 [] sample_sys = Some a
    \<and> offered a = [''list'', ''loglvlset'', ''lightness'']"
proof -
  have "filter (\<lambda>n. map to_lower (take (length ''L'') n) = map to_lower ''L'') (map c_name commands)
      = [''list'', ''loglvlset'', ''lightness'']" by code_simp
  then show ?thesis
    using completion_is_a_filter [OF collect_matches_documented, of "\<lambda>_. None" "''L''" "[]" sample_sys] by simp
qed

text \<open>C40: Whatever the completion offers as the argument of \<open>seqset\<close> is accepted by the command, as long as the
  manager is not at work (in a state after \<open>configured\<close>, where the command is refused).\<close>

theorem offered_priorities_are_accepted:
  assumes "wordexp line = Some (''seqset'' # ws)" and "start \<noteq> 0" and "documented_matches rl"
    and "shell_completion rl wordexp txt start line s = Some a" and "p \<in> set (offered a)"
    and "mng_num (m_state (mng t)) \<le> mng_num configured"
  shows "clicb_seqset [''seqset'', p] t = (ec_success, t\<lparr>mng := (mng t)\<lparr>prios := p\<rparr>\<rparr>)"
proof -
  obtain c where c: "find (\<lambda>c. c_name c = ''seqset'') commands = Some c" "c_argcmpl c"
    by (simp add: commands_def cmd_entry_def)
  have "offered a = filter (same_start (length txt) txt) seqset_arg"
    using assms(1,2,4) c documented_filter [OF assms(3), of same_start seqset_arg "txt"]
    by (auto simp: shell_completion_def menu_completion_def seqset_arg_generator_def)
  then have "p \<in> set seqset_arg" using assms(5) by simp
  moreover have "list_all (\<lambda>p. length p = 3 \<and> seq_valid p) seqset_arg" by code_simp
  ultimately have "length p = 3" "seq_valid p" by (auto simp: list_all_iff)
  then show ?thesis using assms(6) by (simp add: clicb_seqset_def)
qed

theorem offered_priorities_are_accepted_witness:
  "clicb_seqset [''seqset'', ''ra-''] sample_sys = (ec_success, sample_sys\<lparr>mng := (mng sample_sys)\<lparr>prios := ''ra-''\<rparr>\<rparr>)"
proof -
  let ?a = "collect_matches (word_generator same_start seqset_arg) ''r''"
  have "find (\<lambda>c. c_name c = ''seqset'') commands = Some ((cmd_entry ''seqset'' (Some ''[arb-]''))\<lparr>c_argcmpl := True\<rparr>)"
    by (simp add: commands_def cmd_entry_def)
  then have run: "shell_completion collect_matches (\<lambda>_. Some [''seqset'', ''r'']) ''r'' 7 ''seqset r'' sample_sys = Some ?a"
    by (simp add: shell_completion_def menu_completion_def seqset_arg_generator_def)
  have "offered ?a = [''r--'', ''ra-'', ''rb-'', ''rab'', ''rba'']"
    using documented_filter [OF collect_matches_documented, of same_start seqset_arg "''r''"]
    by (simp add: seqset_arg_def same_start_def)
  with offered_priorities_are_accepted [OF _ _ collect_matches_documented run, of "[''r'']" "''ra-''" sample_sys]
  show ?thesis by (simp add: sample_sys_def acc_reset_def Let_def sample_mng_def)
qed

subsection \<open>Numbers\<close>

text \<open>A number written by \<open>uint2str\<close> in either base is read back by \<open>str2uint\<close>, when the buffer has room for its digits.\<close>

theorem number_text_roundtrip:
  assumes "unat v < 2 ^ 53" and "length (fmt_base 10 (unat v)) + 2 \<le> len"
    and "length (fmt_base 16 (unat v)) + 2 \<le> len" and "len \<le> length str"
  shows "\<exists>d h i j. uint2str v BASE_DEC len str = Some (ec_success, d) \<and> str2uint (take i d) 8 = Some (Inr (unat v))
    \<and> uint2str v BASE_HEX len str = Some (ec_success, h) \<and> str2uint (take j h) 8 = Some (Inr (unat v))"
proof -
  have fit: "unat v mod 2 ^ store_bits 8 = unat v"
  proof -
    have "unat v < 2 ^ 64" using assms(1) by simp
    then show ?thesis by (simp add: store_bits_def)
  qed
  obtain d where d: "uint2str v BASE_DEC len str = Some (ec_success, d)"
    "take (length (fmt_u (unat v))) d = fmt_u (unat v)"
    using uint2str_dec [of v len str] assms(2,4) by (auto simp: fmt_u_def)
  obtain h where h: "uint2str v BASE_HEX len str = Some (ec_success, h)"
    "take (length (fmt_base 16 (unat v)) + 2) h = ''0x'' @ fmt_base 16 (unat v)"
    using uint2str_hex [of v len str] assms(3,4) by blast
  have "str2uint (take (length (fmt_u (unat v))) d) 8 = Some (Inr (unat v))"
    unfolding d(2) using str2uint_dec [of "unat v" 8] assms(1) fit by simp
  moreover have "str2uint (take (length (fmt_base 16 (unat v)) + 2) h) 8 = Some (Inr (unat v))"
    unfolding h(2) using str2uint_hex [of "unat v" 8] assms(1) fit by simp
  ultimately show ?thesis using d(1) h(1) by blast
qed

theorem number_text_roundtrip_witness:
  "\<exists>d h i j. uint2str 48879 BASE_DEC 8 (replicate 8 CHR ''.'') = Some (ec_success, d) \<and> str2uint (take i d) 8 = Some (Inr 48879)
    \<and> uint2str 48879 BASE_HEX 8 (replicate 8 CHR ''.'') = Some (ec_success, h) \<and> str2uint (take j h) 8 = Some (Inr 48879)"
proof -
  have "length (fmt_base 10 48879) = 5" "length (fmt_base 16 48879) = 4"
    by (simp_all add: fmt_base.simps [of _ 48879] fmt_base.simps [of _ 4887] fmt_base.simps [of _ 488] fmt_base.simps [of _ 48]
        fmt_base.simps [of _ 4] fmt_base.simps [of _ 3054] fmt_base.simps [of _ 190] fmt_base.simps [of _ 11])
  then show ?thesis using number_text_roundtrip [of 48879 8 "replicate 8 CHR ''.''"] by simp
qed

text \<open>The test for room in base 16 is off by one: with one digit too many for the buffer, it is written over the \<open>x\<close>,
  and moving the digits runs past the end.\<close>

lemma uint2str_hex_overrun: "length str = 3 \<Longrightarrow> uint2str 0x12 BASE_HEX 3 str = undef"
proof -
  assume l: "length str = 3"
  then have ne: "str \<noteq> []" "Suc 0 < length str" by auto
  show ?thesis
    using l ne by (simp add: uint2str_def digits_loop.simps memmove_def)
qed

end
