(* ===== verification/Walk.thy ===== *)
theory Walk
  imports PubSub
begin

text \<open>
  How the states that send one command per key, model or address get through their work. A walk is a
  chain of positions of the iterators: each position has a command, and the iterator of the state
  leads to the next one. The locale \<open>acc_walk\<close> turns a walk into a run of the state: while the
  target accepts the commands and the node confirms each of them, the commands of the walk are sent
  in order, once each, and then the state is left with its iterators where the walk ends.
\<close>

type_synonym plan_fn = "config_cache_t \<Rightarrow> sys \<Rightarrow> (bgcmd \<times> (u16 \<times> u16) option) option"
type_synonym iter_fn = "config_cache_t \<Rightarrow> sys \<Rightarrow> (bool \<times> config_cache_t) option"

inductive walk ::
  "plan_fn \<Rightarrow> iter_fn \<Rightarrow> sys \<Rightarrow> config_cache_t \<Rightarrow> bgcmd list \<Rightarrow> bool \<Rightarrow> config_cache_t \<Rightarrow> bool"
  for plan iter s where
  walk_one: "plan c s = Some (cmd, m) \<Longrightarrow> iter c s = Some (b, c') \<Longrightarrow> walk plan iter s c [cmd] b c'"
| walk_more: "plan c s = Some (cmd, m) \<Longrightarrow> iter c s = Some (False, c1) \<Longrightarrow>
    walk plan iter s c1 cmds b c' \<Longrightarrow> walk plan iter s c (cmd # cmds) b c'"

lemma walk_append:
  "walk plan iter s c xs b1 c1 \<Longrightarrow> \<not> b1 \<Longrightarrow> walk plan iter s c1 ys b c' \<Longrightarrow> walk plan iter s c (xs @ ys) b c'"
  by (induction rule: walk.induct) (auto intro: walk_more)

lemma upt_filter_next:
  assumes "i < n" "P i" "i < j" "j \<le> n" "\<And>k. i < k \<Longrightarrow> k < j \<Longrightarrow> \<not> P k"
  shows "filter P [i..<n] = i # filter P [j..<n]"
proof -
  have "[i..<n] = i # [Suc i..<j] @ [j..<n]"
    using assms(1,3,4) by (metis Suc_leI upt_add_eq_append upt_conv_Cons le_add_diff_inverse)
  moreover have "filter P [Suc i..<j] = []" using assms(5) by (auto simp: filter_empty_conv)
  ultimately show ?thesis using assms(2) by simp
qed

text \<open>
  A level of the iteration: from the positions \<open>j\<close> with \<open>ok j\<close> the inner levels lead to the next such
  position, and from the last one out of the level.
\<close>

definition next_ok :: "(nat \<Rightarrow> bool) \<Rightarrow> nat \<Rightarrow> nat \<Rightarrow> nat \<Rightarrow> bool" where
  "next_ok ok n j j' \<longleftrightarrow> j < j' \<and> j' \<le> n \<and> (\<forall>k. j < k \<and> k < j' \<longrightarrow> \<not> ok k) \<and> (j' < n \<longrightarrow> ok j')"

lemma walk_level:
  assumes step: "\<And>j. i \<le> j \<Longrightarrow> j < n \<Longrightarrow> ok j \<Longrightarrow> \<exists>j'. next_ok ok n j j'
      \<and> (if j' < n then walk plan iter s (P j) (f j) False (P j') else walk plan iter s (P j) (f j) b q)"
    and i: "i < n" "ok i"
  shows "walk plan iter s (P i) (concat (map f (filter ok [i..<n]))) b q"
  using assms
proof (induction "n - i" arbitrary: i rule: less_induct)
  case less
  obtain j' where j': "next_ok ok n i j'"
    "if j' < n then walk plan iter s (P i) (f i) False (P j') else walk plan iter s (P i) (f i) b q"
    using less.prems(1) [OF le_refl less.prems(2,3)] by blast
  have fl: "filter ok [i..<n] = i # filter ok [j'..<n]"
    by (rule upt_filter_next) (use j'(1) less.prems in \<open>auto simp: next_ok_def\<close>)
  show ?case
  proof (cases "j' < n")
    case True
    have "walk plan iter s (P j') (concat (map f (filter ok [j'..<n]))) b q"
    proof (rule less.hyps)
      show "n - j' < n - i" using True j'(1) by (auto simp: next_ok_def)
      show "\<exists>ja'. next_ok ok n j ja' \<and> (if ja' < n then walk plan iter s (P j) (f j) False (P ja')
          else walk plan iter s (P j) (f j) b q)" if "j' \<le> j" "j < n" "ok j" for j
        using less.prems(1) [of j] that j'(1) by (auto simp: next_ok_def)
    qed (use True j'(1) in \<open>auto simp: next_ok_def\<close>)
    then show ?thesis using True j'(2) fl by (auto intro: walk_append)
  next
    case False
    then have "j' = n" using j'(1) by (simp add: next_ok_def)
    then show ?thesis using j'(2) fl by simp
  qed
qed

subsection \<open>Running a state along a walk\<close>

text \<open>The node answers with \<open>evt\<close> as long as a command is pending; \<^const>\<open>None\<close> when that does not end.\<close>

fun answer_all ::
  "(env \<Rightarrow> bgevt \<Rightarrow> config_cache_t \<Rightarrow> sys \<Rightarrow> acc_ret) \<Rightarrow> bgevt \<Rightarrow> env \<Rightarrow> nat \<Rightarrow> config_cache_t \<times> sys
    \<Rightarrow> (config_cache_t \<times> sys) option" where
  "answer_all inprg evt E 0 cs = None"
| "answer_all inprg evt E (Suc k) (c, s) =
    (if WAIT_RESPONSE c
     then do { (r, c, s) \<leftarrow> inprg E evt c s; answer_all inprg evt E k (c, s) }
     else Some (c, s))"

text \<open>The part of a cache that an iterator leaves alone, besides the node and its data.\<close>

definition ctrl :: "config_cache_t \<Rightarrow> u8 \<times> u32 \<times> u32 \<times> acc_state_emt option \<times> int" where
  "ctrl c = (flags c, err_bgcall c, err_bgevt c, next_state c, expired c)"

lemma ctrl_upd [simp]:
  "ctrl (c\<lparr>iter0 := i\<rparr>) = ctrl c" "ctrl (c\<lparr>iter1 := i\<rparr>) = ctrl c" "ctrl (c\<lparr>iter2 := i\<rparr>) = ctrl c"
  by (simp_all add: ctrl_def)

locale acc_walk =
  fixes send :: "env \<Rightarrow> config_cache_t \<Rightarrow> sys \<Rightarrow> acc_ret"
    and set_end :: "config_cache_t \<Rightarrow> u16 \<Rightarrow> bgerr_type_t \<Rightarrow> config_cache_t"
    and inprg :: "env \<Rightarrow> bgevt \<Rightarrow> config_cache_t \<Rightarrow> sys \<Rightarrow> acc_ret"
    and evt :: bgevt
    and plan :: plan_fn
    and iter :: iter_fn
  assumes send_plan: "plan c s = Some (cmd, m) \<Longrightarrow> send E c s = Some (send_cmd set_end E cmd (set_model m c) s)"
    and plan_same: "same_work c c1 \<Longrightarrow> plan c1 (s\<lparr>sent := h\<rparr>) = plan c s"
    and iter_same: "same_work c c1 \<Longrightarrow> iter c s = Some (b, c') \<Longrightarrow>
        \<exists>c1'. iter c1 (s\<lparr>sent := h\<rparr>) = Some (b, c1') \<and> same_work c' c1' \<and> ctrl c1' = ctrl c1"
    and inprg_ok: "inprg E evt c s =
        (let c = RETRY_CLEAR (WAIT_RESPONSE_CLEAR (timer_set E s c False))
         in do { (fin, c) \<leftarrow> iter c s;
                 if fin then Some (asr_suc, c\<lparr>next_state := None\<rparr>, s) else send E c s })"
begin

lemma send_along:
  assumes p: "plan c s = Some (cmd, m)" and w: "same_work c c1"
    and acc: "\<And>h cmd. rsp_result (ncp E h cmd) = bg_err_success"
  shows "\<exists>c2. send E c1 (s\<lparr>sent := h\<rparr>) = Some (asr_suc, c2, s\<lparr>sent := h @ [cmd]\<rparr>)
    \<and> same_work c c2 \<and> WAIT_RESPONSE c2"
proof -
  have "send E c1 (s\<lparr>sent := h\<rparr>) = Some (send_cmd set_end E cmd (set_model m c1) (s\<lparr>sent := h\<rparr>))"
    by (rule send_plan) (simp add: plan_same [OF w] p)
  then show ?thesis using w set_model_vnm [of m c1] acc
    by (auto simp: send_cmd_def bgcall_def on_rsp_def)
qed

lemma inprg_along:
  assumes i: "iter c s = Some (b, c')" and w: "same_work c c1"
  shows "\<exists>c1'. same_work c' c1' \<and> \<not> WAIT_RESPONSE c1' \<and> inprg E evt c1 (s\<lparr>sent := h\<rparr>) =
    (if b then Some (asr_suc, c1'\<lparr>next_state := None\<rparr>, s\<lparr>sent := h\<rparr>) else send E c1' (s\<lparr>sent := h\<rparr>))"
proof -
  let ?c = "RETRY_CLEAR (WAIT_RESPONSE_CLEAR (timer_set E (s\<lparr>sent := h\<rparr>) c1 False))"
  have "same_work c ?c" using w by simp
  from iter_same [OF this i, of h] obtain c1' where c1': "iter ?c (s\<lparr>sent := h\<rparr>) = Some (b, c1')"
    "same_work c' c1'" "ctrl c1' = ctrl ?c" by blast
  have "WAIT_RESPONSE c1' = WAIT_RESPONSE ?c" using c1'(3) by (simp add: WAIT_RESPONSE_def ctrl_def)
  then have "\<not> WAIT_RESPONSE c1'" by simp
  then show ?thesis using c1' by (auto simp: inprg_ok Let_def)
qed

lemma walk_runs:
  assumes "walk plan iter s c cmds b cf" and "b"
    and w: "same_work c c1" and acc: "\<And>h cmd. rsp_result (ncp E h cmd) = bg_err_success"
  shows "\<exists>c2 s2 c'. send E c1 (s\<lparr>sent := h\<rparr>) = Some (asr_suc, c2, s2)
    \<and> answer_all inprg evt E (Suc (length cmds)) (c2, s2) = Some (c', s\<lparr>sent := h @ cmds\<rparr>)
    \<and> same_work cf c' \<and> next_state c' = None"
  using assms(1,2) w
proof (induction arbitrary: c1 h rule: walk.induct)
  case (walk_one c cmd m b c')
  obtain c2 where c2: "send E c1 (s\<lparr>sent := h\<rparr>) = Some (asr_suc, c2, s\<lparr>sent := h @ [cmd]\<rparr>)"
    "same_work c c2" "WAIT_RESPONSE c2" using send_along [OF walk_one(1,4) acc] by blast
  obtain c3 where c3: "same_work c' c3" "\<not> WAIT_RESPONSE c3" "inprg E evt c2 (s\<lparr>sent := h @ [cmd]\<rparr>)
      = Some (asr_suc, c3\<lparr>next_state := None\<rparr>, s\<lparr>sent := h @ [cmd]\<rparr>)"
    using inprg_along [OF walk_one(2) c2(2), where h = "h @ [cmd]" and E = E] walk_one(3) by auto
  show ?case using c2 c3
    by (intro exI [of _ c2] exI [of _ "s\<lparr>sent := h @ [cmd]\<rparr>"] exI [of _ "c3\<lparr>next_state := None\<rparr>"]) simp
next
  case (walk_more c cmd m c' cmds b cf)
  obtain c2 where c2: "send E c1 (s\<lparr>sent := h\<rparr>) = Some (asr_suc, c2, s\<lparr>sent := h @ [cmd]\<rparr>)"
    "same_work c c2" "WAIT_RESPONSE c2" using send_along [OF walk_more(1,6) acc] by blast
  obtain c3 where c3: "same_work c' c3" "inprg E evt c2 (s\<lparr>sent := h @ [cmd]\<rparr>)
      = send E c3 (s\<lparr>sent := h @ [cmd]\<rparr>)"
    using inprg_along [OF walk_more(2) c2(2), where h = "h @ [cmd]" and E = E] by auto
  obtain c4 s4 ce where "send E c3 (s\<lparr>sent := h @ [cmd]\<rparr>) = Some (asr_suc, c4, s4)"
    "answer_all inprg evt E (Suc (length cmds)) (c4, s4) = Some (ce, s\<lparr>sent := (h @ [cmd]) @ cmds\<rparr>)"
    "same_work cf ce" "next_state ce = None"
    using walk_more.IH [OF walk_more(5) c3(1)] by blast
  then show ?case using c2 c3
    by (intro exI [of _ c2] exI [of _ "s\<lparr>sent := h @ [cmd]\<rparr>"] exI [of _ ce]) simp
qed

end

end
