(* ===== verification/Walks.thy ===== *)
theory Walks
  imports Walk
begin

text \<open>
  The walks of the four states that go over keys, models and addresses: what their iterators visit,
  level by level, and the interpretations of \<^const>\<open>acc_walk\<close> on the states.
\<close>

subsection \<open>Keys, elements and models of a node\<close>

definition key_id_of :: "sys \<Rightarrow> u16 \<Rightarrow> u16 option" where
  "key_id_of s r = (case appkey_by_refid s r of Some k \<Rightarrow> k | None \<Rightarrow> None)"

text \<open>The ids of the keys of a list that the provisioner has, in the order of the list.\<close>

definition keys_of :: "sys \<Rightarrow> uint16list_t \<Rightarrow> u16 list" where
  "keys_of s l = List.map_filter (key_id_of s) (take (unat (l_len l)) (l_data l))"

text \<open>
  The lists a walk relies on: the key table can be searched, and the first key of the node is one
  the provisioner has (the entry of the states asserts it).
\<close>

definition keys_ready :: "sys \<Rightarrow> uint16list_t \<Rightarrow> bool" where
  "keys_ready s l \<longleftrightarrow> l_len l \<noteq> 0 \<and> unat (l_len l) \<le> length (l_data l)
    \<and> (\<forall>r \<in> set (l_data l). appkey_by_refid s r \<noteq> None) \<and> key_id_of s (hd (l_data l)) \<noteq> None"

definition elem_ok :: "elem_t \<Rightarrow> bool" where
  "elem_ok el \<longleftrightarrow> 0 < model_cnt el \<and> unat (sigm_cnt el) \<le> length (sig_models el)
    \<and> unat (vm_cnt el) \<le> length (vm el)"

definition elements :: "dcd_t \<Rightarrow> elem_t list" where
  "elements d = (case elems d of None \<Rightarrow> [] | Some es \<Rightarrow> take (unat (element_cnt d)) es)"

text \<open>Composition data with all its elements, none of them without a model.\<close>

definition dcd_ok :: "dcd_t \<Rightarrow> bool" where
  "dcd_ok d \<longleftrightarrow> elements d \<noteq> [] \<and> length (elements d) = unat (element_cnt d)
    \<and> (\<forall>el \<in> set (elements d). elem_ok el)"

definition models_of :: "elem_t \<Rightarrow> (u16 \<times> u16) list" where
  "models_of el = map (\<lambda>i. the (model_at el i)) [0..<model_cnt el]"

lemma model_at_ok: "elem_ok el \<Longrightarrow> i < model_cnt el \<Longrightarrow> model_at el i = Some (models_of el ! i)"
  by (auto simp: elem_ok_def models_of_def model_cnt_def model_at_def idx_def bind_Some_conv)

lemma length_models_of [simp]: "length (models_of el) = model_cnt el"
  by (simp add: models_of_def)

text \<open>The models a state goes over when it passes the unsupported ones: it never passes the first.\<close>

definition models_visited :: "(u16 \<Rightarrow> bool) \<Rightarrow> elem_t \<Rightarrow> (u16 \<times> u16) list" where
  "models_visited supported el =
    (case models_of el of [] \<Rightarrow> [] | m # ms \<Rightarrow> m # filter (\<lambda>(vd, md). supported md) ms)"

definition visits :: "(u16 \<Rightarrow> bool) \<Rightarrow> elem_t \<Rightarrow> nat \<Rightarrow> bool" where
  "visits supported el i \<longleftrightarrow> i = 0 \<or> supported (snd (models_of el ! i))"

lemma filter_upt_nth: "filter P (map ((!) xs) [0..<length xs]) = map ((!) xs) (filter (P \<circ> (!) xs) [0..<length xs])"
  by (simp add: filter_map)

lemma map_visits:
  assumes "elem_ok el"
  shows "map (\<lambda>i. g (models_of el ! i)) (filter (visits supported el) [0..<model_cnt el])
    = map g (models_visited supported el)"
proof -
  obtain m ms where m: "models_of el = m # ms"
    using assms length_models_of [of el] by (cases "models_of el") (auto simp: elem_ok_def)
  then have n: "model_cnt el = Suc (length ms)" using length_models_of [of el] by simp
  have "filter (visits supported el) [0..<model_cnt el]
      = 0 # map Suc (filter (\<lambda>i. supported (snd (ms ! i))) [0..<length ms])"
    by (simp add: n visits_def m upt_rec [of 0] map_Suc_upt [symmetric] filter_map o_def del: upt_Suc map_Suc_upt)
  moreover have "map (\<lambda>i. ms ! i) (filter (\<lambda>i. supported (snd (ms ! i))) [0..<length ms])
      = filter (\<lambda>x. supported (snd x)) ms"
    using filter_upt_nth [of "\<lambda>x. supported (snd x)" ms] by (simp add: map_nth o_def)
  then have "map (\<lambda>i. g (ms ! i)) (filter (\<lambda>i. supported (snd (ms ! i))) [0..<length ms])
      = map g (filter (\<lambda>x. supported (snd x)) ms)"
    by (metis (no_types, lifting) map_map comp_def map_cong)
  ultimately show ?thesis by (simp add: models_visited_def m o_def case_prod_unfold)
qed

lemma map_filter_upt:
  assumes "n \<le> length xs"
  shows "map (\<lambda>j. h (the (g (xs ! j)))) (filter (\<lambda>j. g (xs ! j) \<noteq> None) [0..<n])
    = map h (List.map_filter g (take n xs))"
proof -
  have "take n xs = map ((!) xs) [0..<n]" using assms
    by (intro nth_equalityI) auto
  then show ?thesis by (simp add: List.map_filter_def filter_map o_def)
qed

subsection \<open>What the iterators do\<close>

lemma known_key_id: "appkey_by_refid s r \<noteq> None \<Longrightarrow> known_key s r = Some (key_id_of s r \<noteq> None)"
  by (auto simp: known_key_def key_id_of_def)

lemma known_key_sent [simp]: "known_key (s\<lparr>sent := h\<rparr>) = known_key s"
  by (simp add: known_key_def fun_eq_iff)

lemma next_key_ok:
  assumes "unat (l_len l) \<le> length (l_data l)" "\<forall>r \<in> set (l_data l). appkey_by_refid s r \<noteq> None"
  shows "j < unat (l_len l) \<Longrightarrow> \<exists>j'. next_key (known_key s) l j = Some j'
    \<and> next_ok (\<lambda>j. key_id_of s (l_data l ! j) \<noteq> None) (unat (l_len l)) j j'"
proof (induction "unat (l_len l) - j" arbitrary: j rule: less_induct)
  case less
  show ?case
  proof (cases "Suc j = unat (l_len l)")
    case True
    then show ?thesis by (subst next_key.simps) (auto simp: next_ok_def)
  next
    case False
    then have lt: "Suc j < unat (l_len l)" using less.prems by simp
    then have k: "known_key s (l_data l ! Suc j) = Some (key_id_of s (l_data l ! Suc j) \<noteq> None)"
      by (intro known_key_id) (use assms in auto)
    have "\<exists>j'. next_key (known_key s) l (Suc j) = Some j'
        \<and> next_ok (\<lambda>j. key_id_of s (l_data l ! j) \<noteq> None) (unat (l_len l)) (Suc j) j'"
      by (rule less.hyps) (use lt in auto)
    then obtain j' where j': "next_key (known_key s) l (Suc j) = Some j'"
      "next_ok (\<lambda>j. key_id_of s (l_data l ! j) \<noteq> None) (unat (l_len l)) (Suc j) j'"
      by blast
    show ?thesis
    proof (cases "key_id_of s (l_data l ! Suc j) = None")
      case True
      have "next_ok (\<lambda>j. key_id_of s (l_data l ! j) \<noteq> None) (unat (l_len l)) j j'"
        using j'(2) True unfolding next_ok_def by (metis Suc_lessD Suc_lessI)
      then show ?thesis using False lt k j'(1) True assms(1)
        by (subst next_key.simps) auto
    next
      case False
      then show ?thesis using lt k assms(1)
        by (subst next_key.simps) (auto simp: next_ok_def less_Suc_eq)
    qed
  qed
qed

lemma next_model_ok:
  assumes "elem_ok el"
  shows "j < model_cnt el \<Longrightarrow> \<exists>j'. next_ok (visits supported el) (model_cnt el) j j'
    \<and> next_model supported el j = Some (if j' < model_cnt el then Some j' else None)"
proof (induction "model_cnt el - j" arbitrary: j rule: less_induct)
  case less
  show ?case
  proof (cases "Suc j = model_cnt el")
    case True
    then show ?thesis by (subst next_model.simps) (auto simp: next_ok_def)
  next
    case False
    then have lt: "Suc j < model_cnt el" using less.prems by simp
    obtain vd md where m: "models_of el ! Suc j = (vd, md)" by (cases "models_of el ! Suc j")
    have at: "model_at el (Suc j) = Some (vd, md)" using model_at_ok [OF assms lt] m by simp
    have "\<exists>j'. next_ok (visits supported el) (model_cnt el) (Suc j) j'
        \<and> next_model supported el (Suc j) = Some (if j' < model_cnt el then Some j' else None)"
      by (rule less.hyps) (use lt in auto)
    then obtain j' where j': "next_ok (visits supported el) (model_cnt el) (Suc j) j'"
      "next_model supported el (Suc j) = Some (if j' < model_cnt el then Some j' else None)"
      by blast
    show ?thesis
    proof (cases "supported md")
      case True
      then have "next_ok (visits supported el) (model_cnt el) j (Suc j)"
        using lt m by (auto simp: next_ok_def visits_def)
      moreover have "next_model supported el j = Some (Some (Suc j))"
        using True lt at by (subst next_model.simps) simp
      ultimately show ?thesis using lt by auto
    next
      case False
      have "\<not> visits supported el (Suc j)" using False m by (simp add: visits_def)
      then have "next_ok (visits supported el) (model_cnt el) j j'"
        using j'(1) unfolding next_ok_def by (metis Suc_lessD Suc_lessI)
      then show ?thesis using lt at False j'(2)
        by (subst next_model.simps) auto
    qed
  qed
qed

subsection \<open>The levels of models and elements\<close>

definition pos :: "config_cache_t \<Rightarrow> nat \<Rightarrow> nat \<Rightarrow> nat \<Rightarrow> config_cache_t" where
  "pos c e m i = c\<lparr>iter0 := e, iter1 := m, iter2 := i\<rparr>"

lemma pos_simps [simp]:
  "iter0 (pos c e m i) = e" "iter1 (pos c e m i) = m" "iter2 (pos c e m i) = i"
  "cc_dcd (pos c e m i) = cc_dcd c" "cc_node (pos c e m i) = cc_node c"
  "(pos c e m i)\<lparr>iter0 := e'\<rparr> = pos c e' m i" "(pos c e m i)\<lparr>iter1 := m'\<rparr> = pos c e m' i"
  "(pos c e m i)\<lparr>iter2 := i'\<rparr> = pos c e m i'"
  "cache_node (pos c e m i) s = cache_node c s" "node_bindings (pos c e m i) s = node_bindings c s"
  "node_sublist (pos c e m i) s = node_sublist c s"
  by (simp_all add: pos_def cache_node_def node_bindings_def node_sublist_def)

lemma pos_id: "iter0 c = 0 \<Longrightarrow> iter1 c = 0 \<Longrightarrow> iter2 c = 0 \<Longrightarrow> pos c 0 0 0 = c"
  by (simp add: pos_def)

lemma cur_elem_pos:
  "e < length (elements (cc_dcd c)) \<Longrightarrow> cur_elem (pos c e m i) = Some (elements (cc_dcd c) ! e)"
  by (auto simp: cur_elem_def elements_def idx_def split: option.splits)

text \<open>Where the walk is after the last model of an element.\<close>

definition last_elem :: "config_cache_t \<Rightarrow> nat \<Rightarrow> bool" where
  "last_elem c e \<longleftrightarrow> Suc e = length (elements (cc_dcd c))"

definition after_elem :: "config_cache_t \<Rightarrow> nat \<Rightarrow> config_cache_t" where
  "after_elem c e = (if last_elem c e then pos c 0 0 0 else pos c (Suc e) 0 0)"

lemma next_elem_pos:
  "dcd_ok (cc_dcd c) \<Longrightarrow> next_elem (pos c e m 0) = (last_elem c e, after_elem c e)"
  by (auto simp: next_elem_def after_elem_def last_elem_def dcd_ok_def)

lemma map_enumerate: "map (\<lambda>e. g e (es ! e)) [0..<length es] = map (\<lambda>(e, el). g e el) (enumerate 0 es)"
  by (intro nth_equalityI) (auto simp: nth_enumerate_eq)

lemma elements_walk:
  assumes ok: "dcd_ok (cc_dcd c)"
    and inner: "\<And>e m el. e < length (elements (cc_dcd c)) \<Longrightarrow> el = elements (cc_dcd c) ! e \<Longrightarrow>
        elem_ok el \<Longrightarrow> m < model_cnt el \<Longrightarrow> vis el m \<Longrightarrow> \<exists>m'. next_ok (vis el) (model_cnt el) m m'
        \<and> (if m' < model_cnt el then walk plan iter s (pos c e m 0) (f e el m) False (pos c e m' 0)
           else walk plan iter s (pos c e m 0) (f e el m) (last_elem c e) (after_elem c e))"
    and vis0: "\<And>el. vis el 0"
  shows "walk plan iter s (pos c 0 0 0)
    (concat (map (\<lambda>(e, el). concat (map (f e el) (filter (vis el) [0..<model_cnt el])))
      (enumerate 0 (elements (cc_dcd c))))) True (pos c 0 0 0)"
proof -
  let ?es = "elements (cc_dcd c)"
  have elem: "walk plan iter s (pos c e 0 0)
      (concat (map (f e (?es ! e)) (filter (vis (?es ! e)) [0..<model_cnt (?es ! e)])))
      (last_elem c e) (after_elem c e)" if e: "e < length ?es" for e
  proof (rule walk_level [where P = "\<lambda>m. pos c e m 0"])
    have eo: "elem_ok (?es ! e)" using ok e by (simp add: dcd_ok_def)
    then show "0 < model_cnt (?es ! e)" by (simp add: elem_ok_def)
    fix j assume "j < model_cnt (?es ! e)" "vis (?es ! e) j"
    then show "\<exists>j'. next_ok (vis (?es ! e)) (model_cnt (?es ! e)) j j'
        \<and> (if j' < model_cnt (?es ! e) then walk plan iter s (pos c e j 0) (f e (?es ! e) j) False (pos c e j' 0)
           else walk plan iter s (pos c e j 0) (f e (?es ! e) j) (last_elem c e) (after_elem c e))"
      by (rule inner [OF e refl eo])
  qed (rule vis0)
  have "walk plan iter s (pos c 0 0 0) (concat (map (\<lambda>e. concat (map (f e (?es ! e))
      (filter (vis (?es ! e)) [0..<model_cnt (?es ! e)]))) (filter (\<lambda>_. True) [0..<length ?es]))) True (pos c 0 0 0)"
  proof (rule walk_level [where P = "\<lambda>e. pos c e 0 0"])
    show "0 < length ?es" using ok by (metis dcd_ok_def length_greater_0_conv)
    fix j assume "j < length ?es"
    then show "\<exists>j'. next_ok (\<lambda>_. True) (length ?es) j j' \<and>
      (if j' < length ?es then walk plan iter s (pos c j 0 0)
          (concat (map (f j (?es ! j)) (filter (vis (?es ! j)) [0..<model_cnt (?es ! j)]))) False (pos c j' 0 0)
       else walk plan iter s (pos c j 0 0)
          (concat (map (f j (?es ! j)) (filter (vis (?es ! j)) [0..<model_cnt (?es ! j)]))) True (pos c 0 0 0))"
      using elem [of j] by (intro exI [of _ "Suc j"])
        (auto simp: next_ok_def last_elem_def after_elem_def split: if_splits)
  qed simp
  then show ?thesis
    using map_enumerate [where es = ?es and g = "\<lambda>e el. concat (map (f e el) (filter (vis el) [0..<model_cnt el]))"]
    by simp
qed

subsection \<open>The walks of the states\<close>

definition key_plan :: plan_fn where
  "key_plan c s = map_option (\<lambda>cmd. (cmd, None)) (add_appkey_cmd c s)"

definition bind_plan :: plan_fn where
  "bind_plan c s = map_option (\<lambda>(cmd, m). (cmd, Some m)) (bind_appkey_cmd c s)"

definition pub_plan :: plan_fn where
  "pub_plan c s = map_option (\<lambda>(cmd, m). (cmd, Some m)) (setpub_cmd c s)"

definition sub_plan :: plan_fn where
  "sub_plan c s = map_option (\<lambda>(cmd, m). (cmd, Some m)) (addsub_cmd c s)"

lemmas plan_defs = key_plan_def bind_plan_def pub_plan_def sub_plan_def

text \<open>Every iterator reads and changes the iterators only, so it steps alike in caches with the same work.\<close>

lemma next_elem_same:
  "same_work c c1 \<Longrightarrow> next_elem c = (b, c') \<Longrightarrow>
    \<exists>c1'. next_elem c1 = (b, c1') \<and> same_work c' c1' \<and> ctrl c1' = ctrl c1"
  by (auto simp: next_elem_def same_work_def Let_def split: if_splits)

lemma iter_appkey_same:
  assumes w: "same_work c c1" and i: "iter_appkey c s = Some (b, c')"
  shows "\<exists>c1'. iter_appkey c1 (s\<lparr>sent := h\<rparr>) = Some (b, c1') \<and> same_work c' c1' \<and> ctrl c1' = ctrl c1"
  using w i
  by (auto simp: iter_appkey_def node_bindings_same [OF w] same_work_iters [OF w] bind_Some_conv split: if_splits)
    (auto simp: same_work_def)

lemma iter_bindings_same:
  assumes w: "same_work c c1" and i: "iter_bindings c s = Some (b, c')"
  shows "\<exists>c1'. iter_bindings c1 (s\<lparr>sent := h\<rparr>) = Some (b, c1') \<and> same_work c' c1' \<and> ctrl c1' = ctrl c1"
proof -
  obtain l j where l: "node_bindings c s = Some l" "next_key (known_key s) l (iter2 c) = Some j"
    using i by (auto simp: iter_bindings_def bind_Some_conv)
  show ?thesis
  proof (cases "j = unat (l_len l)")
    case False
    then have "\<not> b" "c' = c\<lparr>iter2 := j\<rparr>" using i l by (auto simp: iter_bindings_def)
    moreover have "iter_bindings c1 (s\<lparr>sent := h\<rparr>) = Some (False, c1\<lparr>iter2 := j\<rparr>)"
      using False l by (simp add: iter_bindings_def node_bindings_same [OF w] same_work_iters [OF w])
    ultimately show ?thesis using w by (simp add: same_work_def)
  next
    case True
    let ?f = "\<lambda>c. c\<lparr>iter2 := 0, iter1 := Suc (iter1 c)\<rparr>"
    have w': "same_work (?f c) (?f c1)" using w by (simp add: same_work_def)
    have it: "iter_bindings d t = do { el \<leftarrow> cur_elem (?f d);
        Some (if iter1 (?f d) = model_cnt el then next_elem (?f d) else (False, ?f d)) }"
      if "node_bindings d t = Some l" "next_key (known_key t) l (iter2 d) = Some j" for d t
      using that True by (simp add: iter_bindings_def Let_def)
    have i1: "iter_bindings c1 (s\<lparr>sent := h\<rparr>) = do { el \<leftarrow> cur_elem (?f c);
        Some (if iter1 (?f c) = model_cnt el then next_elem (?f c1) else (False, ?f c1)) }"
      using it [of c1 "s\<lparr>sent := h\<rparr>"] l same_work_iters [OF w] cur_elem_same [OF w'] node_bindings_same [OF w]
      by simp
    obtain el where el: "cur_elem (?f c) = Some el"
      using i it [OF l] by (auto simp: bind_Some_conv)
    show ?thesis
    proof (cases "iter1 (?f c) = model_cnt el")
      case True
      then have "next_elem (?f c) = (b, c')" using i it [OF l] el by simp
      from next_elem_same [OF w' this] show ?thesis using i1 el True by simp
    next
      case False
      then have "\<not> b" "c' = ?f c" using i it [OF l] el by auto
      then show ?thesis using False i1 el w' by simp
    qed
  qed
qed

lemma step_model_same:
  assumes w: "same_work c c1" and i: "step_model supported c = Some (b, c')"
  shows "\<exists>c1'. step_model supported c1 = Some (b, c1') \<and> same_work c' c1' \<and> ctrl c1' = ctrl c1"
proof -
  obtain el j where el: "cur_elem c = Some el" "next_model supported el (iter1 c) = Some j"
    using i by (auto simp: step_model_def bind_Some_conv)
  then have i1: "step_model supported c1 = Some (case j of Some i \<Rightarrow> (False, c1\<lparr>iter1 := i\<rparr>) | None \<Rightarrow> next_elem c1)"
    by (simp add: step_model_def cur_elem_same [OF w] same_work_iters [OF w])
  show ?thesis
  proof (cases j)
    case None
    then have "next_elem c = (b, c')" using i el by (simp add: step_model_def)
    from next_elem_same [OF w this] show ?thesis using i1 None by simp
  next
    case (Some k)
    then have "\<not> b" "c' = c\<lparr>iter1 := k\<rparr>" using i el by (auto simp: step_model_def)
    then show ?thesis using i1 Some w by (simp add: same_work_def)
  qed
qed

lemma iter_addsub_same:
  assumes w: "same_work c c1" and i: "iter_addsub c s = Some (b, c')"
  shows "\<exists>c1'. iter_addsub c1 (s\<lparr>sent := h\<rparr>) = Some (b, c1') \<and> same_work c' c1' \<and> ctrl c1' = ctrl c1"
proof -
  have w0: "same_work (c\<lparr>iter2 := 0\<rparr>) (c1\<lparr>iter2 := 0\<rparr>)" using w by (simp add: same_work_def)
  obtain l where l: "node_sublist c s = Some l" using i by (auto simp: iter_addsub_def bind_Some_conv)
  show ?thesis
  proof (cases "Suc (iter2 c) = unat (l_len l)")
    case True
    then have "step_model sub_supported (c\<lparr>iter2 := 0\<rparr>) = Some (b, c')"
      using i l by (simp add: iter_addsub_def)
    from step_model_same [OF w0 this] show ?thesis
      using True l by (auto simp: iter_addsub_def node_sublist_same [OF w] same_work_iters [OF w])
  next
    case False
    then have "\<not> b" "c' = c\<lparr>iter2 := Suc (iter2 c)\<rparr>" using i l by (auto simp: iter_addsub_def)
    then show ?thesis using w False l
      by (simp add: iter_addsub_def node_sublist_same [OF w] same_work_iters [OF w] same_work_def)
  qed
qed

interpretation key_walk: acc_walk add_appkey err_set_to_end addappkey_inprg
  "evt_appkey_status handle bg_err_success" key_plan iter_appkey for handle
proof
  show "\<exists>c1'. iter_appkey c1 (s\<lparr>sent := h\<rparr>) = Some (b, c1') \<and> same_work c' c1' \<and> ctrl c1' = ctrl c1"
    if "same_work c c1" "iter_appkey c s = Some (b, c')" for c c1 c' s h b
    using that by (rule iter_appkey_same)
qed (auto simp: plan_defs add_appkey_def set_model_def add_appkey_cmd_same addappkey_inprg_def Let_def bind_Some_conv)

interpretation bind_walk: acc_walk bind_appkey err_set_to_end bindappkey_inprg
  "evt_binding_status handle bg_err_success" bind_plan iter_bindings for handle
proof
  show "\<exists>c1'. iter_bindings c1 (s\<lparr>sent := h\<rparr>) = Some (b, c1') \<and> same_work c' c1' \<and> ctrl c1' = ctrl c1"
    if "same_work c c1" "iter_bindings c s = Some (b, c')" for c c1 c' s h b
    using that by (rule iter_bindings_same)
qed (auto simp: plan_defs bind_appkey_def set_model_def bind_appkey_cmd_same bindappkey_inprg_def Let_def bind_Some_conv)

interpretation pub_walk: acc_walk setpub err_set_to_end setpub_inprg
  "evt_model_pub_status handle bg_err_success" pub_plan "\<lambda>c s. iter_setpub c" for handle
proof
  show "\<exists>c1'. iter_setpub c1 = Some (b, c1') \<and> same_work c' c1' \<and> ctrl c1' = ctrl c1"
    if "same_work c c1" "iter_setpub c = Some (b, c')" for c c1 c' b
    using that unfolding iter_setpub_def by (rule step_model_same)
qed (auto simp: plan_defs setpub_def set_model_def setpub_cmd_same setpub_inprg_def Let_def bind_Some_conv)

interpretation sub_walk: acc_walk addsub err_set_to_end addsub_inprg
  "evt_model_sub_status handle bg_err_success" sub_plan iter_addsub for handle
proof
  show "\<exists>c1'. iter_addsub c1 (s\<lparr>sent := h\<rparr>) = Some (b, c1') \<and> same_work c' c1' \<and> ctrl c1' = ctrl c1"
    if "same_work c c1" "iter_addsub c s = Some (b, c')" for c c1 c' s h b
    using that by (rule iter_addsub_same)
qed (auto simp: plan_defs addsub_def set_model_def addsub_cmd_same addsub_inprg_def Let_def bind_Some_conv)

subsection \<open>What the states walk over\<close>

lemma keys_ready_upt:
  assumes "keys_ready s l"
  shows "map h (keys_of s l)
    = map (\<lambda>j. h (the (key_id_of s (l_data l ! j))))
        (filter (\<lambda>j. key_id_of s (l_data l ! j) \<noteq> None) [0..<unat (l_len l)])"
  using map_filter_upt [of "unat (l_len l)" "l_data l" h "key_id_of s"] assms
  by (simp add: keys_of_def keys_ready_def)

lemma keys_readyD:
  assumes "keys_ready s l"
  shows "0 < unat (l_len l)" "key_id_of s (l_data l ! 0) \<noteq> None"
    "j < unat (l_len l) \<Longrightarrow> \<exists>j'. next_key (known_key s) l j = Some j'
      \<and> next_ok (\<lambda>j. key_id_of s (l_data l ! j) \<noteq> None) (unat (l_len l)) j j'"
    "j < unat (l_len l) \<Longrightarrow> key_id_of s (l_data l ! j) = Some k \<Longrightarrow>
      idx (l_data l) j = Some (l_data l ! j) \<and> appkey_by_refid s (l_data l ! j) = Some (Some k)"
proof -
  note l = assms [unfolded keys_ready_def]
  show gt: "0 < unat (l_len l)" using l by (simp add: unat_gt_0)
  then have "l_data l \<noteq> []" using l by auto
  then show "key_id_of s (l_data l ! 0) \<noteq> None" using l by (simp add: hd_conv_nth)
  show "\<exists>j'. next_key (known_key s) l j = Some j'
      \<and> next_ok (\<lambda>j. key_id_of s (l_data l ! j) \<noteq> None) (unat (l_len l)) j j'" if "j < unat (l_len l)"
    using l that by (intro next_key_ok) auto
  show "idx (l_data l) j = Some (l_data l ! j) \<and> appkey_by_refid s (l_data l ! j) = Some (Some k)"
    if "j < unat (l_len l)" "key_id_of s (l_data l ! j) = Some k"
    using that l by (auto simp: idx_def key_id_of_def split: option.splits)
qed

lemma appkeys_walk:
  assumes n: "cache_node c s = Some n" "bindings (n_config n) = Some l" and l: "keys_ready s l"
    and nk: "netkey_id s = Some nk" and c: "iter0 c = 0"
  shows "walk key_plan iter_appkey s c
    (map (\<lambda>k. cmd_add_appkey nk (n_addr n) k nk) (keys_of s l)) True c"
proof -
  let ?ok = "\<lambda>j. key_id_of s (l_data l ! j) \<noteq> None" and ?P = "\<lambda>j. c\<lparr>iter0 := j\<rparr>"
  have b: "node_bindings (?P j) s = Some l" and cn: "cache_node (?P j) s = Some n" for j
    using n by (simp_all add: node_bindings_def cache_node_def)
  have "walk key_plan iter_appkey s (?P 0) (concat (map
      (\<lambda>j. [cmd_add_appkey nk (n_addr n) (the (key_id_of s (l_data l ! j))) nk])
      (filter ?ok [0..<unat (l_len l)]))) True c"
  proof (rule walk_level [where P = ?P])
    fix j assume j: "j < unat (l_len l)" "?ok j"
    then obtain k where k: "key_id_of s (l_data l ! j) = Some k" by blast
    have plan: "key_plan (?P j) s = Some (cmd_add_appkey nk (n_addr n) k nk, None)"
      using keys_readyD(4) [OF l j(1) k] b cn nk
      by (simp add: key_plan_def add_appkey_cmd_def)
    obtain j' where j': "next_key (known_key s) l j = Some j'" "next_ok ?ok (unat (l_len l)) j j'"
      using keys_readyD(3) [OF l j(1)] by blast
    have "c\<lparr>iter0 := 0\<rparr> = c" using c by simp
    then have "iter_appkey (?P j) s = Some (if j' < unat (l_len l) then (False, ?P j') else (True, c))"
      using j' b by (simp add: iter_appkey_def next_ok_def)
    then show "\<exists>j'. next_ok ?ok (unat (l_len l)) j j' \<and> (if j' < unat (l_len l)
        then walk key_plan iter_appkey s (?P j) [cmd_add_appkey nk (n_addr n) (the (key_id_of s (l_data l ! j))) nk] False (?P j')
        else walk key_plan iter_appkey s (?P j) [cmd_add_appkey nk (n_addr n) (the (key_id_of s (l_data l ! j))) nk] True c)"
      using plan k j'(2) by (intro exI [of _ j']) (auto intro: walk_one)
  qed (use keys_readyD [OF l] in simp_all)
  moreover have "?P 0 = c" using c by simp
  ultimately show ?thesis
    using keys_ready_upt [OF l, of "\<lambda>k. cmd_add_appkey nk (n_addr n) k nk"] by simp
qed

text \<open>The commands that bind a node's keys to its models.\<close>

definition bind_cmds :: "u16 \<Rightarrow> u16 \<Rightarrow> u16 list \<Rightarrow> dcd_t \<Rightarrow> bgcmd list" where
  "bind_cmds nk a ks d = concat (map (\<lambda>(e, el).
     concat (map (\<lambda>(vd, md). map (\<lambda>k. cmd_bind_model nk a e k vd md) ks) (models_of el)))
     (enumerate 0 (elements d)))"

lemma bind_keys_walk:
  assumes n: "cache_node c s = Some n" "bindings (n_config n) = Some l" and l: "keys_ready s l"
    and nk: "netkey_id s = Some nk" and d: "dcd_ok (cc_dcd c)"
    and e: "e < length (elements (cc_dcd c))" "el = elements (cc_dcd c) ! e"
    and m: "m < model_cnt el" "models_of el ! m = (vd, md)"
    and out: "(if Suc m = model_cnt el then (last_elem c e, after_elem c e) else (False, pos c e (Suc m) 0)) = (b, q)"
  shows "walk bind_plan iter_bindings s (pos c e m 0)
    (map (\<lambda>k. cmd_bind_model nk (n_addr n) e k vd md) (keys_of s l)) b q"
proof -
  let ?ok = "\<lambda>j. key_id_of s (l_data l ! j) \<noteq> None" and ?P = "pos c e m"
  let ?f = "\<lambda>j. [cmd_bind_model nk (n_addr n) e (the (key_id_of s (l_data l ! j))) vd md]"
  have b: "node_bindings c s = Some l" using n by (simp add: node_bindings_def)
  have eo: "elem_ok el" using d e by (simp add: dcd_ok_def)
  have "walk bind_plan iter_bindings s (?P 0) (concat (map ?f (filter ?ok [0..<unat (l_len l)]))) b q"
  proof (rule walk_level [where P = ?P])
    fix j assume j: "j < unat (l_len l)" "?ok j"
    then obtain k where k: "key_id_of s (l_data l ! j) = Some k" by blast
    have "cur_model (?P j) = Some (vd, md)"
      using cur_elem_pos [OF e(1)] e(2) model_at_ok [OF eo m(1)] m(2) by (simp add: cur_model_def)
    then have plan: "bind_plan (?P j) s = Some (cmd_bind_model nk (n_addr n) e k vd md, Some (vd, md))"
      using keys_readyD(4) [OF l j(1) k] b n(1) nk by (simp add: bind_plan_def bind_appkey_cmd_def)
    obtain j' where j': "next_key (known_key s) l j = Some j'" "next_ok ?ok (unat (l_len l)) j j'"
      using keys_readyD(3) [OF l j(1)] by blast
    have "iter_bindings (?P j) s = Some (if j' < unat (l_len l) then (False, ?P j') else (b, q))"
      using j' b out cur_elem_pos [OF e(1)] e(2) next_elem_pos [OF d]
      by (auto simp: iter_bindings_def next_ok_def split: if_splits)
    then show "\<exists>j'. next_ok ?ok (unat (l_len l)) j j' \<and> (if j' < unat (l_len l)
        then walk bind_plan iter_bindings s (?P j) (?f j) False (?P j')
        else walk bind_plan iter_bindings s (?P j) (?f j) b q)"
      using plan k j'(2) by (intro exI [of _ j']) (auto intro: walk_one)
  qed (use keys_readyD [OF l] in simp_all)
  then show ?thesis
    using keys_ready_upt [OF l, of "\<lambda>k. cmd_bind_model nk (n_addr n) e k vd md"] by simp
qed

lemma bindings_walk:
  assumes n: "cache_node c s = Some n" "bindings (n_config n) = Some l" and l: "keys_ready s l"
    and nk: "netkey_id s = Some nk" and d: "dcd_ok (cc_dcd c)"
    and c: "iter0 c = 0" "iter1 c = 0" "iter2 c = 0"
  shows "walk bind_plan iter_bindings s c (bind_cmds nk (n_addr n) (keys_of s l) (cc_dcd c)) True c"
proof -
  let ?f = "\<lambda>e el m. map (\<lambda>k. cmd_bind_model nk (n_addr n) e k (fst (models_of el ! m)) (snd (models_of el ! m))) (keys_of s l)"
  have "walk bind_plan iter_bindings s (pos c 0 0 0)
    (concat (map (\<lambda>(e, el). concat (map (?f e el) (filter (\<lambda>_. True) [0..<model_cnt el])))
      (enumerate 0 (elements (cc_dcd c))))) True (pos c 0 0 0)"
  proof (rule elements_walk [OF d])
    fix e m el assume em: "e < length (elements (cc_dcd c))" "el = elements (cc_dcd c) ! e" "m < model_cnt el"
    note w = bind_keys_walk [OF n l nk d em(1,2,3) prod.collapse [symmetric]]
    show "\<exists>m'. next_ok (\<lambda>_. True) (model_cnt el) m m' \<and> (if m' < model_cnt el
        then walk bind_plan iter_bindings s (pos c e m 0) (?f e el m) False (pos c e m' 0)
        else walk bind_plan iter_bindings s (pos c e m 0) (?f e el m) (last_elem c e) (after_elem c e))"
      using em(3) w by (intro exI [of _ "Suc m"]) (auto simp: next_ok_def)
  qed simp
  moreover have "map (?f e el) [0..<model_cnt el]
      = map (\<lambda>(vd, md). map (\<lambda>k. cmd_bind_model nk (n_addr n) e k vd md) (keys_of s l)) (models_of el)" for e el
    by (intro nth_equalityI) (auto simp: case_prod_unfold)
  ultimately show ?thesis using pos_id [OF c] by (simp add: bind_cmds_def)
qed

text \<open>The publication: one command for each model visited.\<close>

definition pub_cmd :: "u16 \<Rightarrow> u16 \<Rightarrow> u16 \<Rightarrow> publication_t \<Rightarrow> nat \<Rightarrow> u16 \<times> u16 \<Rightarrow> bgcmd" where
  "pub_cmd nk a k p e m = cmd_set_model_pub nk a e (fst m) (snd m) (pub_addr p) k (pub_ttl p) (pub_period p)
     (tx_cnt (pub_txp p)) (if tx_intv (pub_txp p) \<noteq> 0 then tx_intv (pub_txp p) else 50)"

definition per_model :: "(u16 \<Rightarrow> bool) \<Rightarrow> (nat \<Rightarrow> u16 \<times> u16 \<Rightarrow> bgcmd list) \<Rightarrow> dcd_t \<Rightarrow> bgcmd list" where
  "per_model supported g d = concat (map (\<lambda>(e, el). concat (map (g e) (models_visited supported el)))
     (enumerate 0 (elements d)))"

lemma step_model_pos:
  assumes d: "dcd_ok (cc_dcd c)" and e: "e < length (elements (cc_dcd c))" "el = elements (cc_dcd c) ! e"
    and m: "m < model_cnt el"
  shows "\<exists>m'. next_ok (visits supported el) (model_cnt el) m m' \<and> step_model supported (pos c e m 0) =
    Some (if m' < model_cnt el then (False, pos c e m' 0) else (last_elem c e, after_elem c e))"
proof -
  have "elem_ok el" using d e by (simp add: dcd_ok_def)
  from next_model_ok [OF this m, of supported] show ?thesis
    using cur_elem_pos [OF e(1)] e(2) next_elem_pos [OF d]
    by (auto simp: step_model_def)
qed

lemma models_walk:
  assumes d: "dcd_ok (cc_dcd c)" and c: "iter0 c = 0" "iter1 c = 0" "iter2 c = 0"
    and inner: "\<And>e el m b q. e < length (elements (cc_dcd c)) \<Longrightarrow> el = elements (cc_dcd c) ! e \<Longrightarrow>
      elem_ok el \<Longrightarrow> m < model_cnt el \<Longrightarrow> step_model supported (pos c e m 0) = Some (b, q) \<Longrightarrow>
      walk plan iter s (pos c e m 0) (g e (models_of el ! m)) b q"
  shows "walk plan iter s c (per_model supported g (cc_dcd c)) True c"
proof -
  have "walk plan iter s (pos c 0 0 0) (concat (map (\<lambda>(e, el). concat (map (\<lambda>m. g e (models_of el ! m))
      (filter (visits supported el) [0..<model_cnt el]))) (enumerate 0 (elements (cc_dcd c))))) True (pos c 0 0 0)"
  proof (rule elements_walk [OF d])
    fix e m el assume em: "e < length (elements (cc_dcd c))" "el = elements (cc_dcd c) ! e" "elem_ok el"
      "m < model_cnt el"
    obtain m' where m': "next_ok (visits supported el) (model_cnt el) m m'"
      "step_model supported (pos c e m 0) =
        Some (if m' < model_cnt el then (False, pos c e m' 0) else (last_elem c e, after_elem c e))"
      using step_model_pos [OF d em(1,2,4), of supported] by blast
    show "\<exists>m'. next_ok (visits supported el) (model_cnt el) m m' \<and> (if m' < model_cnt el
        then walk plan iter s (pos c e m 0) (g e (models_of el ! m)) False (pos c e m' 0)
        else walk plan iter s (pos c e m 0) (g e (models_of el ! m)) (last_elem c e) (after_elem c e))"
      using m' inner [OF em] by (intro exI [of _ m']) simp
  qed (simp add: visits_def)
  moreover have "map (\<lambda>(e, el). concat (map (\<lambda>m. g e (models_of el ! m)) (filter (visits supported el) [0..<model_cnt el])))
        (enumerate 0 (elements (cc_dcd c)))
      = map (\<lambda>(e, el). concat (map (g e) (models_visited supported el))) (enumerate 0 (elements (cc_dcd c)))"
    using d by (intro map_cong) (auto simp: map_visits dcd_ok_def dest!: in_set_enumerate_eq [THEN iffD1])
  ultimately show ?thesis using pos_id [OF c] by (simp add: per_model_def)
qed

lemma publication_walk:
  assumes n: "cache_node c s = Some n" "pub (n_config n) = Some p" and k: "appkey_by_refid s (pub_aki p) = Some (Some k)"
    and nk: "netkey_id s = Some nk" and d: "dcd_ok (cc_dcd c)" and c: "iter0 c = 0" "iter1 c = 0" "iter2 c = 0"
  shows "walk pub_plan (\<lambda>c s. iter_setpub c) s c
    (per_model pub_supported (\<lambda>e m. [pub_cmd nk (n_addr n) k p e m]) (cc_dcd c)) True c"
proof (rule models_walk [OF d c])
  fix e el m b q
  assume e: "e < length (elements (cc_dcd c))" "el = elements (cc_dcd c) ! e" "elem_ok el" "m < model_cnt el"
    and st: "step_model pub_supported (pos c e m 0) = Some (b, q)"
  have "cur_model (pos c e m 0) = Some (models_of el ! m)"
    using cur_elem_pos [OF e(1)] e(2) model_at_ok [OF e(3,4)] by (simp add: cur_model_def)
  then have "pub_plan (pos c e m 0) s = Some (pub_cmd nk (n_addr n) k p e (models_of el ! m), Some (models_of el ! m))"
    using n k nk by (simp add: pub_plan_def setpub_cmd_def pub_cmd_def)
  then show "walk pub_plan (\<lambda>c s. iter_setpub c) s (pos c e m 0) [pub_cmd nk (n_addr n) k p e (models_of el ! m)] b q"
    using st by (auto simp: iter_setpub_def intro: walk_one)
qed

text \<open>The subscriptions of a model: the first address replaces its list, the others are added.\<close>

definition sub_cmds :: "u16 \<Rightarrow> u16 \<Rightarrow> u16 list \<Rightarrow> nat \<Rightarrow> u16 \<times> u16 \<Rightarrow> bgcmd list" where
  "sub_cmds nk a addrs e m = (case addrs of [] \<Rightarrow> []
     | x # xs \<Rightarrow> cmd_set_model_sub nk a e (fst m) (snd m) x # map (cmd_add_model_sub nk a e (fst m) (snd m)) xs)"

lemma subscription_walk:
  assumes n: "cache_node c s = Some n" "sublist (n_config n) = Some l"
    and l: "l_len l \<noteq> 0" "unat (l_len l) \<le> length (l_data l)"
    and nk: "netkey_id s = Some nk" and d: "dcd_ok (cc_dcd c)" and c: "iter0 c = 0" "iter1 c = 0" "iter2 c = 0"
  shows "walk sub_plan iter_addsub s c
    (per_model sub_supported (sub_cmds nk (n_addr n) (take (unat (l_len l)) (l_data l))) (cc_dcd c)) True c"
proof (rule models_walk [OF d c])
  fix e el m b q
  assume e: "e < length (elements (cc_dcd c))" "el = elements (cc_dcd c) ! e" "elem_ok el" "m < model_cnt el"
    and st: "step_model sub_supported (pos c e m 0) = Some (b, q)"
  let ?m = "models_of el ! m" and ?n = "unat (l_len l)"
  let ?f = "\<lambda>j. (if j = 0 then cmd_set_model_sub else cmd_add_model_sub) nk (n_addr n) e (fst ?m) (snd ?m) (l_data l ! j)"
  have sl: "node_sublist c s = Some l" using n by (simp add: node_sublist_def)
  have pos0: "0 < ?n" using l(1) by (simp add: unat_gt_0)
  have "walk sub_plan iter_addsub s (pos c e m 0) (concat (map (\<lambda>j. [?f j]) (filter (\<lambda>_. True) [0..<?n]))) b q"
  proof (rule walk_level [where P = "pos c e m"])
    fix j assume j: "j < ?n"
    have "cur_model (pos c e m j) = Some ?m"
      using cur_elem_pos [OF e(1)] e(2) model_at_ok [OF e(3,4)] by (simp add: cur_model_def)
    then have plan: "sub_plan (pos c e m j) s = Some (?f j, Some ?m)"
      using n sl nk j l(2) by (simp add: sub_plan_def addsub_cmd_def idx_def)
    have "iter_addsub (pos c e m j) s = (if Suc j = ?n then Some (b, q) else Some (False, pos c e m (Suc j)))"
      using sl st by (simp add: iter_addsub_def)
    then show "\<exists>j'. next_ok (\<lambda>_. True) ?n j j' \<and> (if j' < ?n
        then walk sub_plan iter_addsub s (pos c e m j) [?f j] False (pos c e m j')
        else walk sub_plan iter_addsub s (pos c e m j) [?f j] b q)"
      using plan j by (intro exI [of _ "Suc j"]) (auto simp: next_ok_def intro: walk_one)
  qed (use pos0 in simp_all)
  moreover have "map ?f [0..<?n] = sub_cmds nk (n_addr n) (take ?n (l_data l)) e ?m"
  proof -
    obtain x xs where x: "take ?n (l_data l) = x # xs" using pos0 l(2) by (cases "take ?n (l_data l)") auto
    then have "length (x # xs) = ?n" using l(2) by (metis length_take min.absorb2)
    moreover have "l_data l ! j = (x # xs) ! j" if "j < ?n" for j using x that by (metis nth_take)
    ultimately show ?thesis unfolding sub_cmds_def x
      by (intro nth_equalityI) (auto simp: nth_Cons' simp del: upt_Suc)
  qed
  ultimately show "walk sub_plan iter_addsub s (pos c e m 0)
      (sub_cmds nk (n_addr n) (take ?n (l_data l)) e ?m) b q"
    by simp
qed

end
