(* ===== verification/WalkProps.thy ===== *)
theory WalkProps
  imports Walks Samples
begin

text \<open>
  What configuring a node sends: while the target accepts the commands and the node confirms them,
  the states about keys, bindings, publications and subscriptions go through all of the node's work,
  each command once and in order, and leave the iterators ready for the next state.
\<close>

subsection \<open>A node with work\<close>

definition walk_dcd :: dcd_t where
  "walk_dcd = \<lparr>dcd_feature = 0, element_cnt = 2, elems = Some
     [\<lparr>sigm_cnt = 2, vm_cnt = 1, sig_models = [0x0000, 0x1301], vm = [\<lparr>vid = 0x02FF, mid = 7\<rparr>]\<rparr>,
      \<lparr>sigm_cnt = 2, vm_cnt = 0, sig_models = [0x1300, 0x1201], vm = []\<rparr>]\<rparr>"

definition walk_node :: node_t where
  "walk_node = zero_node\<lparr>n_uuid := uuid1, n_addr := 2, n_config := zero_config\<lparr>
     bindings := Some \<lparr>l_len = 2, l_data = [0, 9]\<rparr>,
     sublist := Some \<lparr>l_len = 2, l_data = [0xC001, 0xC002]\<rparr>,
     pub := Some \<lparr>pub_addr = 0xC001, pub_aki = 0, pub_period = 0, pub_ttl = 5,
                  pub_txp = \<lparr>tx_cnt = 1, tx_intv = 0\<rparr>\<rparr>\<rparr>\<rparr>"

definition walk_sys :: sys where
  "walk_sys = sample_sys\<lparr>db := sample_db\<lparr>heap := (heap sample_db)(0 \<mapsto> walk_node)\<rparr>\<rparr>"

definition walk_cache :: config_cache_t where
  "walk_cache = cache_reset\<lparr>cc_node := Some 0, cc_dcd := walk_dcd\<rparr>"

lemmas walk_defs = walk_dcd_def walk_node_def walk_sys_def walk_cache_def zero_config_def zero_node_def
  zero_features_def zero_txp_def

definition walk_keys :: uint16list_t where "walk_keys = \<lparr>l_len = 2, l_data = [0, 9]\<rparr>"
definition walk_addrs :: uint16list_t where "walk_addrs = \<lparr>l_len = 2, l_data = [0xC001, 0xC002]\<rparr>"

lemma walk_facts:
  "cache_node walk_cache walk_sys = Some walk_node" "netkey_id walk_sys = Some 0"
  "bindings (n_config walk_node) = Some walk_keys" "sublist (n_config walk_node) = Some walk_addrs"
  "keys_ready walk_sys walk_keys" "dcd_ok (cc_dcd walk_cache)"
  "iter0 walk_cache = 0" "iter1 walk_cache = 0" "iter2 walk_cache = 0"
  by code_simp+

subsection \<open>The walks\<close>

text \<open>The keys come first, one command for each that the provisioner has.\<close>

lemma every_key_is_added:
  assumes "cache_node c s = Some n" "bindings (n_config n) = Some l" and "keys_ready s l"
    and "netkey_id s = Some nk" and "iter0 c = 0"
    and "\<And>h cmd. rsp_result (ncp E h cmd) = bg_err_success"
    and "cmds = map (\<lambda>k. cmd_add_appkey nk (n_addr n) k nk) (keys_of s l)"
  shows "\<exists>c1 s1 c'. addappkey_entry E c s = Some (asr_suc, c1, s1)
    \<and> answer_all addappkey_inprg (evt_appkey_status handle bg_err_success) E (Suc (length cmds)) (c1, s1)
      = Some (c', s\<lparr>sent := sent s @ cmds\<rparr>)
    \<and> same_work c c' \<and> next_state c' = None"
proof -
  have "addappkey_guard c s = Some True"
    using assms(1-3) by (simp add: addappkey_guard_def keys_ready_def)
  then have "addappkey_entry E c s = add_appkey E c (s\<lparr>sent := sent s\<rparr>)"
    by (simp add: addappkey_entry_def)
  then show ?thesis
    using key_walk.walk_runs [OF appkeys_walk [OF assms(1-5)] TrueI same_work_refl assms(6), of "sent s" handle]
    by (simp add: assms(7))
qed

text \<open>C12: While the target accepts the commands and the node confirms them, the binding state sends
  exactly one command for every model of every element and every application key of the node that
  the provisioner has, elements first, then models, then keys, and is left with its iterators back
  at the start.\<close>
theorem every_model_is_bound:
  assumes "cache_node c s = Some n" "bindings (n_config n) = Some l" and "keys_ready s l"
    and "netkey_id s = Some nk" and "dcd_ok (cc_dcd c)" and "iter0 c = 0" "iter1 c = 0" "iter2 c = 0"
    and "\<And>h cmd. rsp_result (ncp E h cmd) = bg_err_success"
  shows "\<exists>c1 s1 c'. bindappkey_entry E c s = Some (asr_suc, c1, s1)
    \<and> answer_all bindappkey_inprg (evt_binding_status handle bg_err_success) E
        (Suc (length (bind_cmds nk (n_addr n) (keys_of s l) (cc_dcd c)))) (c1, s1)
      = Some (c', s\<lparr>sent := sent s @ bind_cmds nk (n_addr n) (keys_of s l) (cc_dcd c)\<rparr>)
    \<and> same_work c c' \<and> next_state c' = None"
proof -
  have "bindappkey_guard c s = Some True"
    using assms(1-3) by (simp add: bindappkey_guard_def keys_ready_def)
  then have "bindappkey_entry E c s = bind_appkey E c (s\<lparr>sent := sent s\<rparr>)"
    by (simp add: bindappkey_entry_def)
  then show ?thesis
    using bind_walk.walk_runs [OF bindings_walk [OF assms(1-8)] TrueI same_work_refl assms(9), of "sent s" handle]
    by simp
qed

theorem every_model_is_bound_witness:
  "\<exists>c1 s1 c'. bindappkey_entry ok_env walk_cache walk_sys = Some (asr_suc, c1, s1)
    \<and> answer_all bindappkey_inprg (evt_binding_status 7 bg_err_success) ok_env 6 (c1, s1)
      = Some (c', walk_sys\<lparr>sent := sent walk_sys @
          [cmd_bind_model 0 2 0 5 0xFFFF 0, cmd_bind_model 0 2 0 5 0xFFFF 0x1301, cmd_bind_model 0 2 0 5 0x02FF 7,
           cmd_bind_model 0 2 1 5 0xFFFF 0x1300, cmd_bind_model 0 2 1 5 0xFFFF 0x1201]\<rparr>)
    \<and> same_work walk_cache c' \<and> next_state c' = None"
proof -
  have "bind_cmds 0 (n_addr walk_node) (keys_of walk_sys walk_keys) (cc_dcd walk_cache) =
      [cmd_bind_model 0 2 0 5 0xFFFF 0, cmd_bind_model 0 2 0 5 0xFFFF 0x1301, cmd_bind_model 0 2 0 5 0x02FF 7,
       cmd_bind_model 0 2 1 5 0xFFFF 0x1300, cmd_bind_model 0 2 1 5 0xFFFF 0x1201]"
    by code_simp
  then show ?thesis
    using every_model_is_bound [OF walk_facts(1,3,5,2,6-9), of ok_env 7] by (simp add: eval_nat_numeral del: answer_all.simps)
qed

text \<open>C13: While the target accepts the commands and the node confirms them, the subscription state
  gives every model it visits the whole list of addresses: the first one replaces the list of the
  model, the others are added, in order. It visits the first model of every element and those of
  the others that support subscriptions.\<close>
theorem every_model_subscribes:
  assumes "cache_node c s = Some n" "sublist (n_config n) = Some l"
    and "l_len l \<noteq> 0" "unat (l_len l) \<le> length (l_data l)"
    and "netkey_id s = Some nk" and "dcd_ok (cc_dcd c)" and "iter0 c = 0" "iter1 c = 0" "iter2 c = 0"
    and "\<And>h cmd. rsp_result (ncp E h cmd) = bg_err_success"
    and "cmds = per_model sub_supported (sub_cmds nk (n_addr n) (take (unat (l_len l)) (l_data l))) (cc_dcd c)"
  shows "\<exists>c1 s1 c'. addsub_entry E c s = Some (asr_suc, c1, s1)
    \<and> answer_all addsub_inprg (evt_model_sub_status handle bg_err_success) E (Suc (length cmds)) (c1, s1)
      = Some (c', s\<lparr>sent := sent s @ cmds\<rparr>)
    \<and> same_work c c' \<and> next_state c' = None"
proof -
  have "addsub_entry E c s = addsub E c (s\<lparr>sent := sent s\<rparr>)"
    using assms(1-3) by (simp add: addsub_guard_def addsub_entry_def)
  then show ?thesis
    using sub_walk.walk_runs [OF subscription_walk [OF assms(1-9)] TrueI same_work_refl assms(10), of "sent s" handle]
    by (simp add: assms(11))
qed

theorem every_model_subscribes_witness:
  "\<exists>c1 s1 c'. addsub_entry ok_env walk_cache walk_sys = Some (asr_suc, c1, s1)
    \<and> answer_all addsub_inprg (evt_model_sub_status 7 bg_err_success) ok_env 9 (c1, s1)
      = Some (c', walk_sys\<lparr>sent := sent walk_sys @
          [cmd_set_model_sub 0 2 0 0xFFFF 0 0xC001, cmd_add_model_sub 0 2 0 0xFFFF 0 0xC002,
           cmd_set_model_sub 0 2 0 0xFFFF 0x1301 0xC001, cmd_add_model_sub 0 2 0 0xFFFF 0x1301 0xC002,
           cmd_set_model_sub 0 2 0 0x02FF 7 0xC001, cmd_add_model_sub 0 2 0 0x02FF 7 0xC002,
           cmd_set_model_sub 0 2 1 0xFFFF 0x1300 0xC001, cmd_add_model_sub 0 2 1 0xFFFF 0x1300 0xC002]\<rparr>)
    \<and> same_work walk_cache c' \<and> next_state c' = None"
proof -
  have l: "l_len walk_addrs \<noteq> 0" "unat (l_len walk_addrs) \<le> length (l_data walk_addrs)"
    by code_simp+
  have "per_model sub_supported (sub_cmds 0 (n_addr walk_node) (take (unat (l_len walk_addrs)) (l_data walk_addrs)))
      (cc_dcd walk_cache) =
      [cmd_set_model_sub 0 2 0 0xFFFF 0 0xC001, cmd_add_model_sub 0 2 0 0xFFFF 0 0xC002,
       cmd_set_model_sub 0 2 0 0xFFFF 0x1301 0xC001, cmd_add_model_sub 0 2 0 0xFFFF 0x1301 0xC002,
       cmd_set_model_sub 0 2 0 0x02FF 7 0xC001, cmd_add_model_sub 0 2 0 0x02FF 7 0xC002,
       cmd_set_model_sub 0 2 1 0xFFFF 0x1300 0xC001, cmd_add_model_sub 0 2 1 0xFFFF 0x1300 0xC002]"
    by code_simp
  from every_model_subscribes [OF walk_facts(1,4) l walk_facts(2,6-9) _ this [symmetric], of ok_env 7]
  show ?thesis by (simp add: eval_nat_numeral del: answer_all.simps)
qed



end
