(* ===== verification/NetProps.thy ===== *)
theory NetProps
  imports MngFacts StoreProps
begin

text \<open>
  The growing and the shrinking network: what a provisioned device changes, when scanning for devices
  stays off, how the blacklist reaches the target and what happens to a batch the target cuts short.
\<close>

subsection \<open>Provisioning\<close>

lemma with_db_frame: "with_db f s = Some (e, s') \<Longrightarrow> s' = s\<lparr>db := db s'\<rparr>"
  by (auto simp: with_db_def bind_Some_conv)

lemma nassign_frame: "nassign r f s = Some s' \<Longrightarrow> s' = s\<lparr>db := db s'\<rparr>"
  by (auto simp: nassign_def split: option.splits)

lemma upl_nodeset_addr_target:
  assumes "nw_ok E s" "node_present E s u" and run: "upl_nodeset_addr E u a s = Some (e, s')"
  shows "sent s' = sent s \<and> scan_need_recover s' = scan_need_recover s"
proof -
  obtain s1 where s1: "json_write_nodes E (wrt_node_addr u a) s = Some (ec_success, s1)"
    "s1 = s\<lparr>jcfg := jcfg s1, disk := disk s1\<rparr>"
    using json_write_nodes_ok(1) [OF assms(1,2)] by blast
  obtain r e2 s2 s3 e4 where s2: "with_db (cfgdb_unpl_remove (cfgdb_unprov_dev_get u (db s1)) False) s1 = Some (e2, s2)"
    and s3: "nassign r (\<lambda>nd. nd\<lparr>n_addr := a\<rparr>) s2 = Some s3"
    and s4: "with_db (cfgdb_nodes_add (cfgdb_unprov_dev_get u (db s1))) s3 = Some (e4, s')"
    using run s1(1) by (auto simp: upl_nodeset_addr_def bind_Some_conv Let_def)
  note frames = with_db_frame [OF s4] nassign_frame [OF s3] with_db_frame [OF s2] s1(2)
  show ?thesis using frames [THEN arg_cong, of sent] frames [THEN arg_cong, of scan_need_recover] by simp
qed

text \<open>C32: A provisioned device of the configuration that has a template, and whose address is not in use, becomes a
  node: it is filed under its address, it
  leaves the devices to provision and waits for its configuration behind the others, its session is
  closed, and scanning starts again when it had been stopped.\<close>
theorem provisioned_device_is_next_to_configure:
  assumes "db_wf (db s)" and "cfgdb_unprov_dev_get u (db s) = Some r"
    and "heap (db s) r = Some n" and "n_tmpl n = Some t" and "t \<noteq> 0"
    and "cfgdb_node_get addr (db s) = None" and "addr \<noteq> 0"
    and "nw_ok E s" and "node_present E s u"
  shows "\<exists>s'. on_prov_success E addr u s = Some s'
    \<and> cfgdb_node_get addr (db s') = Some r \<and> cfgdb_unprov_dev_get u (db s') = None
    \<and> l_add (mng s') = remove1 r (l_add (mng s)) \<and> l_config (mng s') = l_config (mng s) @ [r]
    \<and> u \<notin> set (sessions (c_add (mng s'))) \<and> \<not> scan_need_recover s'
    \<and> sent s' = sent s @ (if scan_need_recover s then [cmd_prov_scan_unprov_beacons] else [])"
proof -
  obtain s1 where s1: "upl_nodeset_addr E u addr s = Some (ec_success, s1)"
    "cfgdb_unprov_dev_get u (db s1) = None" "cfgdb_node_get addr (db s1) = Some r"
    using upl_nodeset_addr_spec [OF assms] by blast
  have k: "mng s1 = mng s" "sent s1 = sent s" "scan_need_recover s1 = scan_need_recover s"
    using upl_nodeset_addr_keeps [OF s1(1)] upl_nodeset_addr_target [OF assms(8,9) s1(1)]
    by (simp_all add: keeps_mng_def)
  show ?thesis using s1 k
    by (auto simp: on_prov_success_def scan_recover_def rmcached_def bgcall_def stat_defs upd_stat_def Let_def
        sessions_def zero_add_cache_def split: if_splits)
qed

definition add_sys :: sys where
  "add_sys = sample_sys\<lparr>
     db := sample_db\<lparr>heap := (heap sample_db)(1 \<mapsto> zero_node\<lparr>n_uuid := uuid2, n_tmpl := Some 1\<rparr>)\<rparr>,
     mng := sample_mng\<lparr>m_state := adding_devices_em, l_add := [1],
       c_add := [\<lparr>ac_busy = True, ac_expired = 90, ac_uuid = uuid2\<rparr>, zero_add_cache]\<rparr>,
     scan_need_recover := True\<rparr>"

lemma add_sys_ok: "db_wf (db add_sys)" "nw_ok ok_env add_sys" "node_present ok_env add_sys uuid2"
proof -
  show "db_wf (db add_sys)"
    by (auto simp: db_wf_def add_sys_def sample_db_def zero_db_def gt_inv_def
        g_tree_lookup_def zero_node_def uuid2_def uuid1_def ran_def split: if_splits)
  have "jcfg add_sys = jcfg sample_sys" by (simp add: add_sys_def)
  then show "nw_ok ok_env add_sys" using sample_nw_ok by (simp add: nw_ok_def nw_at_def)
  have "find_node ok_env uuid2 add_sys = Some (Some [K STR_SUBNETS, I 0, K STR_NODES, I 1])" by code_simp
  then show "node_present ok_env add_sys uuid2" by (simp add: node_present_def)
qed

theorem provisioned_device_is_next_to_configure_witness:
  "\<exists>s'. on_prov_success ok_env 9 uuid2 add_sys = Some s' \<and> cfgdb_node_get 9 (db s') = Some 1
    \<and> l_add (mng s') = [] \<and> l_config (mng s') = [1] \<and> sent s' = sent add_sys @ [cmd_prov_scan_unprov_beacons]"
proof -
  have hyp: "cfgdb_unprov_dev_get uuid2 (db add_sys) = Some 1" "cfgdb_node_get 9 (db add_sys) = None"
    by code_simp+
  have "heap (db add_sys) 1 = Some (zero_node\<lparr>n_uuid := uuid2, n_tmpl := Some 1\<rparr>)" by (simp add: add_sys_def)
  from provisioned_device_is_next_to_configure [OF add_sys_ok(1) hyp(1) this _ _ hyp(2) _ add_sys_ok(2,3)]
  show ?thesis by (auto simp: add_sys_def sample_mng_def zero_mng_def)
qed

text \<open>Turns of the main loop, one in each of the environments.\<close>

fun turns :: "env list \<Rightarrow> sys \<Rightarrow> sys option" where
  "turns [] s = Some s"
| "turns (E # Es) s = do { (b, s) \<leftarrow> mng_turn E s; turns Es s }"

text \<open>The manager waits for devices: nothing else to do, no command and no event.\<close>

definition waits_for_devices :: "sys \<Rightarrow> bool" where
  "waits_for_devices s \<longleftrightarrow> m_state (mng s) = adding_devices_em \<and> l_add (mng s) \<noteq> [] \<and> l_config (mng s) = []
    \<and> used (mng s) = 0 \<and> \<not> m_oom (mng s) \<and> q_head (cmdq s) = None \<and> evq s = [] \<and> ms_nodes (mng s) = [] \<and> demo_expired s = 0"

lemma waiting_turn:
  assumes "waits_for_devices s"
  shows "\<exists>s'. mng_turn E s = Some (False, s') \<and> waits_for_devices s' \<and> sent s' = sent s
    \<and> scan_need_recover s' = scan_need_recover s \<and> c_add (mng s') = map (add_expire (now E)) (c_add (mng s))"
proof -
  let ?s = "s\<lparr>mng := (mng s)\<lparr>c_add := map (add_expire (now E)) (c_add (mng s))\<rparr>\<rparr>"
  have add: "add_loop E s = (False, ?s)" using assms by (simp add: add_loop_def waits_for_devices_def)
  obtain s1 where s1: "acc_loop E ?s = Some (False, s1)" "mng s1 = mng ?s" "sent s1 = sent s"
    "scan_need_recover s1 = scan_need_recover s" "cmdq s1 = cmdq s" "evq s1 = evq s" "demo_expired s1 = demo_expired s"
  proof (cases "acc_started (acc s)")
    case False
    then show ?thesis by (intro that [of ?s]) (simp_all add: acc_loop_def)
  next
    case True
    let ?t = "stat_config_loading_record E (stat_config_start E ?s)"
    have "acc_loop E ?s = Some (False, ?t)"
      using True assms by (simp add: acc_loop_def caches_load_def pending_def config_engine_def waits_for_devices_def)
        (simp add: engine_loop.simps)
    then show ?thesis by (intro that [of ?t]) (simp_all add: stat_defs upd_stat_def)
  qed
  have "poll_cmd E s = Some s" "bgevt_dispenser E s = Some s"
    using assms by (simp_all add: poll_cmd_def cmd_deq_def bgevt_dispenser_def waits_for_devices_def)
  moreover have "mng_work E s = Some (False, s1)"
    using assms add s1 by (simp add: mng_work_def waits_for_devices_def)
  moreover have "set_mng_state E s1 = Some s1" "models_loop E s1 = (False, s1)" "demo_run E s1 = Some s1"
    using assms s1 by (simp_all add: set_mng_state_def work_over_def models_loop_def demo_run_def waits_for_devices_def)
  ultimately have "mng_turn E s = Some (False, s1)" by (simp add: mng_turn_def)
  then show ?thesis using assms s1 by (intro exI [of _ s1]) (simp add: waits_for_devices_def)
qed

text \<open>C33: While devices wait to be provisioned and the target reports nothing, scanning that was stopped because
  the sessions were full (not the stop after an out-of-memory answer, which ends by itself) is never started again: no turn sends a command, however much time passes, not even when every
  session has expired and its slot is free.\<close>
theorem stopped_scanning_stays_stopped:
  assumes "waits_for_devices s" and "\<forall>c \<in> set (c_add (mng s)). ac_busy c \<longrightarrow> ac_expired c \<le> now E"
  shows "\<exists>s'. turns (E # Es) s = Some s' \<and> sent s' = sent s \<and> scan_need_recover s' = scan_need_recover s
    \<and> sessions (c_add (mng s')) = [] \<and> waits_for_devices s'"
proof -
  obtain s1 where s1: "mng_turn E s = Some (False, s1)" "waits_for_devices s1" "sent s1 = sent s"
    "scan_need_recover s1 = scan_need_recover s" "c_add (mng s1) = map (add_expire (now E)) (c_add (mng s))"
    using waiting_turn [OF assms(1)] by blast
  have free: "\<forall>c \<in> set (c_add (mng s1)). \<not> ac_busy c"
    using assms(2) s1(5) by (auto simp: add_expire_def zero_add_cache_def)
  have rest: "\<exists>s'. turns Es t = Some s' \<and> sent s' = sent t \<and> scan_need_recover s' = scan_need_recover t
      \<and> sessions (c_add (mng s')) = [] \<and> waits_for_devices s'"
    if "waits_for_devices t" "\<forall>c \<in> set (c_add (mng t)). \<not> ac_busy c" for t
    using that
  proof (induction Es arbitrary: t)
    case Nil
    then show ?case by (simp add: sessions_def)
  next
    case (Cons F Es)
    obtain t1 where t1: "mng_turn F t = Some (False, t1)" "waits_for_devices t1" "sent t1 = sent t"
      "scan_need_recover t1 = scan_need_recover t" "c_add (mng t1) = map (add_expire (now F)) (c_add (mng t))"
      using waiting_turn [OF Cons.prems(1)] by blast
    have "\<forall>c \<in> set (c_add (mng t1)). \<not> ac_busy c"
      using Cons.prems(2) t1(5) by (auto simp: add_expire_def zero_add_cache_def)
    from Cons.IH [OF t1(2) this] show ?case using t1 by simp
  qed
  from rest [OF s1(2) free] show ?thesis using s1 by simp
qed

theorem stopped_scanning_stays_stopped_witness:
  "\<exists>s'. turns [ok_env, ok_env, ok_env] add_sys = Some s' \<and> sent s' = sent add_sys \<and> scan_need_recover s'
    \<and> sessions (c_add (mng s')) = []"
proof -
  have "waits_for_devices add_sys" by code_simp
  moreover have "scan_need_recover add_sys" "\<forall>c \<in> set (c_add (mng add_sys)). ac_busy c \<longrightarrow> ac_expired c \<le> now ok_env"
    by (simp_all add: add_sys_def zero_add_cache_def)
  ultimately show ?thesis
    using stopped_scanning_stays_stopped [of add_sys ok_env "[ok_env, ok_env]"] by (simp del: turns.simps) metis
qed

subsection \<open>Blacklisting\<close>

text \<open>The commands for the nodes to blacklist, and how many of a list of commands the target accepts in a row.\<close>

definition bl_cmds :: "u16 \<Rightarrow> sys \<Rightarrow> bgcmd list" where
  "bl_cmds kid s =
    map (\<lambda>r. cmd_prov_set_key_refresh_blacklist kid 1 (n_uuid (the (nderef s r)))) (l_bl (mng s))"

fun accepted :: "env \<Rightarrow> bgcmd list \<Rightarrow> bgcmd list \<Rightarrow> nat" where
  "accepted E h [] = 0"
| "accepted E h (c # cs) =
    (if rsp_result (ncp E h c) = bg_err_success then Suc (accepted E (h @ [c]) cs) else 0)"

definition pushed :: "nat \<Rightarrow> bgcmd list \<Rightarrow> sys \<Rightarrow> sys" where
  "pushed j cs s = upd_bl (\<lambda>b. b\<lparr>bl_offset := bl_offset b + j\<rparr>) (s\<lparr>sent := sent s @ cs\<rparr>)"

lemma bl_push_batch:
  assumes "bl_offset (c_bl (mng s)) < length (l_bl (mng s))" and "netkey_id s = Some kid"
    and "\<forall>r \<in> set (l_bl (mng s)). nderef s r \<noteq> None"
  shows "bl_push E cnt s =
    (let cs = drop (bl_offset (c_bl (mng s))) (bl_cmds kid s); j = accepted E (sent s) cs
     in Some (cnt + j, pushed j (take (Suc j) cs) s))"
  using assms
proof (induction "length (l_bl (mng s)) - bl_offset (c_bl (mng s))" arbitrary: s cnt rule: less_induct)
  case less
  let ?o = "bl_offset (c_bl (mng s))"
  let ?r = "l_bl (mng s) ! ?o"
  define c where "c = cmd_prov_set_key_refresh_blacklist kid 1 (n_uuid (the (nderef s ?r)))"
  obtain n where n: "nderef s ?r = Some n" using less.prems(1,3) by fastforce
  have cs: "drop ?o (bl_cmds kid s) = c # drop (Suc ?o) (bl_cmds kid s)"
    using less.prems(1) by (subst Cons_nth_drop_Suc [symmetric]) (simp_all add: bl_cmds_def c_def)
  have call: "do { r \<leftarrow> idx (l_bl (mng s)) ?o; n \<leftarrow> nderef s r; kid \<leftarrow> netkey_id s;
      Some (bgcall E (cmd_prov_set_key_refresh_blacklist kid 1 (n_uuid n)) s) }
      = Some (ncp E (sent s) c, s\<lparr>sent := sent s @ [c]\<rparr>)"
    using less.prems(1,2) n by (simp add: idx_def c_def bgcall_def)
  let ?u = "upd_bl (\<lambda>b. b\<lparr>bl_offset := Suc (bl_offset b)\<rparr>) (s\<lparr>sent := sent s @ [c]\<rparr>)"
  show ?case
  proof (cases "rsp_result (ncp E (sent s) c) = bg_err_success")
    case False
    then show ?thesis unfolding cs using call
      by (subst bl_push.simps) (simp add: pushed_def upd_bl_def Let_def)
  next
    case True
    show ?thesis
    proof (cases "Suc ?o = length (l_bl (mng s))")
      case last: True
      then have "drop (Suc ?o) (bl_cmds kid s) = []" by (simp add: bl_cmds_def)
      then show ?thesis unfolding cs using call True last
        by (subst bl_push.simps) (simp add: pushed_def upd_bl_def Let_def)
    next
      case False
      have keep: "bl_cmds kid ?u = bl_cmds kid s" "netkey_id ?u = netkey_id s" "nderef ?u = nderef s"
        by (simp_all add: bl_cmds_def)
      have "bl_push E (Suc cnt) ?u =
          (let cs = drop (bl_offset (c_bl (mng ?u))) (bl_cmds kid ?u); j = accepted E (sent ?u) cs
           in Some (Suc cnt + j, pushed j (take (Suc j) cs) ?u))"
        by (rule less.hyps) (use less.prems False in \<open>auto simp: keep simp del: upd_bl_simps(6)\<close>)
      then show ?thesis unfolding cs keep using call True False
        by (subst bl_push.simps) (simp add: pushed_def upd_bl_def Let_def)
    qed
  qed
qed

text \<open>C34: Pushing the blacklist sends the commands for the waiting nodes in order up to and including the
  first one the target refuses, and the offset counts exactly those it accepted.\<close>
theorem blacklist_is_pushed_until_refused:
  assumes "bl_offset (c_bl (mng s)) < length (l_bl (mng s))" and "netkey_id s = Some kid"
    and "\<forall>r \<in> set (l_bl (mng s)). nderef s r \<noteq> None"
  shows "\<exists>j s'. bl_till_oom E s = Some (j, s')
    \<and> j = accepted E (sent s) (drop (bl_offset (c_bl (mng s))) (bl_cmds kid s))
    \<and> sent s' = sent s @ take (Suc j) (drop (bl_offset (c_bl (mng s))) (bl_cmds kid s))
    \<and> bl_offset (c_bl (mng s')) = bl_offset (c_bl (mng s)) + j \<and> l_bl (mng s') = l_bl (mng s)"
proof -
  have "l_bl (mng s) \<noteq> []" using assms(1) by auto
  then show ?thesis using bl_push_batch [OF assms, of E 0]
    by (simp add: bl_till_oom_def pushed_def Let_def)
qed

definition bl_sys :: sys where
  "bl_sys = sample_sys\<lparr>mng := sample_mng\<lparr>m_state := blacklisting_devices_em, l_bl := [0, 1]\<rparr>\<rparr>"

text \<open>A target that takes one command only.\<close>

definition one_env :: env where
  "one_env = ok_env\<lparr>ncp := (\<lambda>h _. if length h < 1 then ok_rsp else ok_rsp\<lparr>rsp_result := bg_err_out_of_memory\<rparr>)\<rparr>"

theorem blacklist_is_pushed_until_refused_witness:
  "\<exists>s'. bl_till_oom one_env bl_sys = Some (1, s')
    \<and> sent s' = [cmd_prov_set_key_refresh_blacklist 0 1 uuid1, cmd_prov_set_key_refresh_blacklist 0 1 uuid2]
    \<and> bl_offset (c_bl (mng s')) = 1"
proof -
  have "bl_offset (c_bl (mng bl_sys)) < length (l_bl (mng bl_sys))" "netkey_id bl_sys = Some 0"
    "\<forall>r \<in> set (l_bl (mng bl_sys)). nderef bl_sys r \<noteq> None"
    by code_simp+
  from blacklist_is_pushed_until_refused [OF this, of one_env]
  have "\<exists>j s'. bl_till_oom one_env bl_sys = Some (j, s')
    \<and> j = accepted one_env (sent bl_sys) (drop 0 (bl_cmds 0 bl_sys))
    \<and> sent s' = sent bl_sys @ take (Suc j) (drop 0 (bl_cmds 0 bl_sys))
    \<and> bl_offset (c_bl (mng s')) = 0 + j"
    by (auto simp: bl_sys_def sample_mng_def zero_mng_def zero_bl_cache_def)
  moreover have "bl_cmds 0 bl_sys = [cmd_prov_set_key_refresh_blacklist 0 1 uuid1, cmd_prov_set_key_refresh_blacklist 0 1 uuid2]"
    "sent bl_sys = []" "accepted one_env [] (bl_cmds 0 bl_sys) = 1"
    by code_simp+
  ultimately show ?thesis by simp
qed

lemma bl_nodes_loop_mng: "bl_nodes_loop E is s = Some s' \<Longrightarrow> mng s' = mng s"
proof (induction "is" arbitrary: s)
  case (Cons i "is")
  then obtain a e s1 where "nodes_bl E a s = Some (e, s1)" "bl_nodes_loop E is s1 = Some s'"
    by (auto simp: bind_Some_conv)
  then show ?case using Cons.IH [of s1] nodes_bl_keeps [of E a s e s1] by (simp add: keeps_mng_def)
qed simp

text \<open>C35: When the target has refused a part of the blacklist, finishing the key refresh of the other part
  goes back to starting one with nothing pushed in between, and the next pass aborts on its assertion.\<close>
theorem cut_batch_aborts:
  assumes "bl_state (c_bl (mng s)) = bl_done" and "bl_offset (c_bl (mng s)) \<noteq> length (l_bl (mng s))"
    and "bl_loop E s = Some (b, s')"
  shows "bl_state (c_bl (mng s')) = bl_starting \<and> bl_loop E' s' = None"
proof -
  obtain ls where r: "on_bl_done E s = Some s'" "\<not> b"
    using assms(1,3) by (auto simp: bl_loop_def bind_Some_conv)
  obtain s1 where s1: "bl_nodes_loop E [bl_tail (c_bl (mng s))..<bl_offset (c_bl (mng s))] s = Some s1"
    using r(1) by (auto simp: on_bl_done_def bind_Some_conv)
  then have "s' = upd_bl (\<lambda>b. b\<lparr>bl_state := bl_starting, bl_tail := bl_offset b\<rparr>) s1"
    using r(1) assms(2) bl_nodes_loop_mng [OF s1] by (simp add: on_bl_done_def)
  then show ?thesis by (simp add: bl_loop_def)
qed

theorem cut_batch_aborts_witness:
  "\<exists>b s'. bl_loop ok_env (bl_sys\<lparr>mng := (mng bl_sys)\<lparr>c_bl := zero_bl_cache\<lparr>bl_state := bl_done, bl_offset := 1\<rparr>\<rparr>\<rparr>)
      = Some (b, s') \<and> bl_loop ok_env s' = None"
proof -
  let ?s = "bl_sys\<lparr>mng := (mng bl_sys)\<lparr>c_bl := zero_bl_cache\<lparr>bl_state := bl_done, bl_offset := 1\<rparr>\<rparr>\<rparr>"
  have "map_option fst (bl_loop ok_env ?s) = Some False" by code_simp
  then obtain b s' where run: "bl_loop ok_env ?s = Some (b, s')" by auto
  have "bl_state (c_bl (mng ?s)) = bl_done" "bl_offset (c_bl (mng ?s)) \<noteq> length (l_bl (mng ?s))"
    by (simp_all add: bl_sys_def)
  from cut_batch_aborts [OF this run] run show ?thesis by blast
qed

end
