(* ===== verification/Removal.thy ===== *)
theory Removal
  imports StoreProps MngFacts
begin

text \<open>
  The removal of a node, from its place in the work list to the end of the work: the load into a slot,
  the reset command, the confirmation through the dispatch of events, and the end of the removal in
  the database, the node file and the target.
\<close>

subsection \<open>The node in the store\<close>

text \<open>A node filed under its address and described in the open node file, not filed as a device.\<close>

definition in_store :: "env \<Rightarrow> nref \<Rightarrow> node_t \<Rightarrow> sys \<Rightarrow> bool" where
  "in_store E r n s \<longleftrightarrow> db_wf (db s) \<and> cfgdb_node_get (n_addr n) (db s) = Some r \<and> heap (db s) r = Some n
    \<and> cfgdb_unprov_dev_get (n_uuid n) (db s) = None \<and> nw_ok E s \<and> node_present E s (n_uuid n)"

text \<open>Everything but the nodes of the database and the file.\<close>

definition rest :: "sys \<Rightarrow> sys" where
  "rest s = s\<lparr>db := zero_db\<lparr>self := self (db s)\<rparr>, jcfg := zero_jcfg, disk := Map.empty\<rparr>"

lemma rest_upd [simp]:
  "self d = self (db s) \<Longrightarrow> rest (s\<lparr>db := d\<rparr>) = rest s" "rest (s\<lparr>jcfg := j, disk := k\<rparr>) = rest s"
  by (simp_all add: rest_def)

lemma rest_sent: "rest (s\<lparr>sent := x\<rparr>) = (rest s)\<lparr>sent := x\<rparr>"
  by (cases s) (simp add: rest_def)

lemma restD:
  assumes "rest s' = rest s"
  shows "mng s' = mng s" "acc s' = acc s" "sent s' = sent s" "cmdq s' = cmdq s" "evq s' = evq s"
    "demo_expired s' = demo_expired s" "tid s' = tid s" "self (db s') = self (db s)"
  using arg_cong [OF assms, of mng] arg_cong [OF assms, of acc] arg_cong [OF assms, of sent]
    arg_cong [OF assms, of cmdq] arg_cong [OF assms, of evq] arg_cong [OF assms, of demo_expired]
    arg_cong [OF assms, of tid] arg_cong [OF assms, of "\<lambda>s. self (db s)"]
  by (simp_all add: rest_def)

lemma db_wf_heap_upd:
  assumes "db_wf d" "heap d r = Some n" "n_addr n' = n_addr n" "n_uuid n' = n_uuid n"
  shows "db_wf (d\<lparr>heap := (heap d)(r \<mapsto> n')\<rparr>)"
proof -
  have eq: "(\<exists>m. ((heap d)(r \<mapsto> n')) q = Some m \<and> P (n_uuid m) (n_addr m))
      = (\<exists>m. heap d q = Some m \<and> P (n_uuid m) (n_addr m))" for q P
    using assms(2-4) by auto
  show ?thesis
    using assms(1) eq [of _ "\<lambda>u b. b = a \<and> a \<noteq> 0" for a] eq [of _ "\<lambda>v b. v = u \<and> b = 0" for u]
    unfolding db_wf_def by simp
qed

lemma write_field_spec:
  fixes n' :: node_t
  assumes "in_store E r n s" and n': "n_addr n' = n_addr n" "n_uuid n' = n_uuid n" and "key \<noteq> STR_UUID"
  defines "t \<equiv> s\<lparr>db := (db s)\<lparr>heap := (heap (db s))(r \<mapsto> n')\<rparr>\<rparr>"
  assumes s': "store_field E (n_uuid n) key v t = Some s'" and fr: "s' = t\<lparr>jcfg := jcfg s', disk := disk s'\<rparr>"
  shows "in_store E r n' s' \<and> rest s' = rest s
    \<and> (\<forall>u k. node_text E s' u k = (if u = n_uuid n \<and> k = key then Some v else node_text E s u k))"
proof -
  have s: "db_wf (db s)" "cfgdb_node_get (n_addr n) (db s) = Some r" "heap (db s) r = Some n"
    "cfgdb_unprov_dev_get (n_uuid n) (db s) = None" "nw_ok E s" "node_present E s (n_uuid n)"
    using assms(1) by (simp_all add: in_store_def)
  have t: "nw_ok E t" "node_present E t (n_uuid n)" using s(5,6) by (simp_all add: t_def)
  have d: "db s' = db t" by (subst fr) simp
  have "rest s' = rest t" by (subst fr) (simp only: rest_upd)
  then have "rest s' = rest s" by (simp add: t_def)
  moreover have "in_store E r n' s'"
    using s nf.wr_ok [OF t assms(4) s'] db_wf_heap_upd [OF s(1,3) n'] n' t(2) db_wf_initialized [OF s(1)]
    unfolding in_store_def d by (simp add: cfgdb_node_get_def cfgdb_unprov_dev_get_def t_def)
  moreover have "node_text E t u k = node_text E s u k" for u k by (simp add: t_def)
  ultimately show ?thesis using nf.rd_wr [OF t assms(4) s'] by simp
qed

lemma nodeset_spec:
  assumes st: "in_store E r n s" and f: "n_addr (f n) = n_addr n" "n_uuid (f n) = n_uuid n" and key: "key \<noteq> STR_UUID"
    and wr: "\<And>t. nw_ok E t \<Longrightarrow> node_present E t (n_uuid n) \<Longrightarrow>
      \<exists>t'. json_write_nodes E (w (n_uuid n)) t = Some (ec_success, t') \<and> store_field E (n_uuid n) key v t = Some t'
        \<and> nw_ok E t' \<and> (\<forall>u'. node_present E t' u' = node_present E t u') \<and> t' = t\<lparr>jcfg := jcfg t', disk := disk t'\<rparr>"
  shows "\<exists>s'. do { r \<leftarrow> cfgdb_node_get (n_addr n) (db s); s \<leftarrow> nassign r f s; nd \<leftarrow> nderef s r;
        json_write_nodes E (w (n_uuid nd)) s } = Some (ec_success, s')
    \<and> in_store E r (f n) s' \<and> rest s' = rest s
    \<and> (\<forall>u k. node_text E s' u k = (if u = n_uuid n \<and> k = key then Some v else node_text E s u k))"
proof -
  let ?t = "s\<lparr>db := (db s)\<lparr>heap := (heap (db s))(r \<mapsto> f n)\<rparr>\<rparr>"
  have s: "cfgdb_node_get (n_addr n) (db s) = Some r" "heap (db s) r = Some n" "nw_ok E ?t"
    "node_present E ?t (n_uuid n)"
    using st by (simp_all add: in_store_def)
  from wr [OF s(3,4)] obtain s' where s': "json_write_nodes E (w (n_uuid n)) ?t = Some (ec_success, s')"
    "store_field E (n_uuid n) key v ?t = Some s'" "s' = ?t\<lparr>jcfg := jcfg s', disk := disk s'\<rparr>" by blast
  show ?thesis using s(1,2) s'(1) f write_field_spec [OF st f key s'(2,3)]
    by (intro exI [of _ s']) (simp add: nassign_def nderef_def)
qed

text \<open>The three fields an ended removal resets.\<close>

lemma nodeset_specs:
  assumes "in_store E r n s"
  shows "\<exists>s'. nodeset_errbits E (n_addr n) eb s = Some (ec_success, s') \<and> in_store E r (n\<lparr>n_err := eb\<rparr>) s'
      \<and> rest s' = rest s \<and> (\<forall>u k. node_text E s' u k =
          (if u = n_uuid n \<and> k = STR_ERRBITS then Some (''0x'' @ uint32_tostr eb) else node_text E s u k))"
    and "\<exists>s'. nodeset_done E (n_addr n) g s = Some (ec_success, s') \<and> in_store E r (n\<lparr>n_done := g\<rparr>) s'
      \<and> rest s' = rest s \<and> (\<forall>u k. node_text E s' u k =
          (if u = n_uuid n \<and> k = STR_DONE then Some (''0x'' @ uint8_tostr g) else node_text E s u k))"
    and "\<exists>s'. nodeset_func E (n_addr n) g s = Some (ec_success, s') \<and> in_store E r (n\<lparr>n_func := g\<rparr>) s'
      \<and> rest s' = rest s \<and> (\<forall>u k. node_text E s' u k =
          (if u = n_uuid n \<and> k = STR_FUNC then Some (''0x'' @ uint8_tostr g) else node_text E s u k))"
proof -
  show "\<exists>s'. nodeset_errbits E (n_addr n) eb s = Some (ec_success, s') \<and> in_store E r (n\<lparr>n_err := eb\<rparr>) s'
      \<and> rest s' = rest s \<and> (\<forall>u k. node_text E s' u k =
          (if u = n_uuid n \<and> k = STR_ERRBITS then Some (''0x'' @ uint32_tostr eb) else node_text E s u k))"
    unfolding nodeset_errbits_def
    by (rule nodeset_spec [OF assms, where f = "\<lambda>n. n\<lparr>n_err := eb\<rparr>" and w = "\<lambda>u. wrt_errbits u eb"])
      (use json_write_nodes_ok(2) in simp_all)
  show "\<exists>s'. nodeset_done E (n_addr n) g s = Some (ec_success, s') \<and> in_store E r (n\<lparr>n_done := g\<rparr>) s'
      \<and> rest s' = rest s \<and> (\<forall>u k. node_text E s' u k =
          (if u = n_uuid n \<and> k = STR_DONE then Some (''0x'' @ uint8_tostr g) else node_text E s u k))"
    unfolding nodeset_done_def
    by (rule nodeset_spec [OF assms, where f = "\<lambda>n. n\<lparr>n_done := g\<rparr>" and w = "\<lambda>u. wrt_done u g"])
      (use json_write_nodes_ok(4) in simp_all)
  show "\<exists>s'. nodeset_func E (n_addr n) g s = Some (ec_success, s') \<and> in_store E r (n\<lparr>n_func := g\<rparr>) s'
      \<and> rest s' = rest s \<and> (\<forall>u k. node_text E s' u k =
          (if u = n_uuid n \<and> k = STR_FUNC then Some (''0x'' @ uint8_tostr g) else node_text E s u k))"
    unfolding nodeset_func_def
    by (rule nodeset_spec [OF assms, where f = "\<lambda>n. n\<lparr>n_func := g\<rparr>" and w = "\<lambda>u. wrt_node_func u g"])
      (use json_write_nodes_ok(3) in simp_all)
qed

lemma nodes_rm_rest:
  assumes "in_store E r n s" and run: "nodes_rm E (n_addr n) s = Some (e, s')"
  shows "rest s' = rest s"
proof -
  have s: "nw_ok E s" "node_present E s (n_uuid n)" "cfgdb_node_get (n_addr n) (db s) = Some r"
    "heap (db s) r = Some n" "cfgdb_unprov_dev_get (n_uuid n) (db s) = None" and wf: "db_wf (db s)"
    using assms(1) by (simp_all add: in_store_def)
  have init: "db_initialized (db s)" using wf by (rule db_wf_initialized)
  have r': "g_tree_lookup (nodes (db s)) (n_addr n) = Some r" and new': "g_tree_lookup (unprov_devs (db s)) (n_uuid n) = None"
    using s init by (simp_all add: cfgdb_node_get_def cfgdb_unprov_dev_get_def)
  have addr: "n_addr n \<noteq> 0" using db_wf_nodesD [OF wf r'] by auto
  obtain d where d: "nodes_rm E (n_addr n) s = json_write_nodes E (wrt_node_addr (n_uuid n) 0) (s\<lparr>db := d\<rparr>)"
    "self d = self (db s)"
    using s(3,4) r' new' init addr
    by (simp add: nodes_rm_def with_db_def cfgdb_nodes_remove_spec nassign_def nderef_def cfgdb_unpl_add_new)
  obtain s2 where "json_write_nodes E (wrt_node_addr (n_uuid n) 0) (s\<lparr>db := d\<rparr>) = Some (ec_success, s2)"
    and fr: "s2 = s\<lparr>db := d\<rparr>\<lparr>jcfg := jcfg s2, disk := disk s2\<rparr>"
    using json_write_nodes_ok(1) [of E "s\<lparr>db := d\<rparr>" "n_uuid n" 0] s(1,2) by auto
  then have "s' = s2" using run d(1) by simp
  moreover have "rest s2 = rest s" by (subst fr) (simp add: d(2))
  ultimately show ?thesis by simp
qed

text \<open>What the file says depends on the open files only.\<close>

lemma file_cong:
  assumes "jcfg s' = jcfg s"
  shows "find_node E u s' = find_node E u s" "nw_ok E s' = nw_ok E s" "node_text E s' u k = node_text E s u k"
proof -
  have "subnet0_nodes s' = subnet0_nodes s" by (simp add: subnet0_nodes_def assms cong: option.case_cong)
  then show f: "find_node E u s' = find_node E u s" by (simp add: find_node_def)
  show "nw_ok E s' = nw_ok E s" by (simp add: nw_ok_def nw_at_def assms)
  show "node_text E s' u k = node_text E s u k"
    by (simp add: node_text_def node_field_def f assms cong: option.case_cong)
qed

text \<open>The end of a removal in the store and in the target.\<close>

lemma rmend_spec:
  assumes st: "in_store E r n s" and c: "cc_node c = Some r"
  shows "\<exists>s'. rmend_on_success E c s = Some s' \<and> db_wf (db s') \<and> nw_ok E s'
    \<and> cfgdb_node_get (n_addr n) (db s') = None \<and> cfgdb_unprov_dev_get (n_uuid n) (db s') = Some r
    \<and> heap (db s') r = Some (n\<lparr>n_err := 0, n_done := 0, n_func := 0, n_addr := 0\<rparr>)
    \<and> node_text E s' (n_uuid n) STR_ADDR = Some ''0x0000'' \<and> node_text E s' (n_uuid n) STR_DONE = Some ''0x00''
    \<and> rest s' = rest (s\<lparr>sent := sent s @ [cmd_prov_ddb_delete (n_uuid n)]\<rparr>)"
proof -
  have cn: "cache_node c t = heap (db t) r" for t using c by (simp add: cache_node_def nderef_def)
  obtain s1 where s1: "nodeset_errbits E (n_addr n) 0 s = Some (ec_success, s1)" "in_store E r (n\<lparr>n_err := 0\<rparr>) s1"
    "rest s1 = rest s" using nodeset_specs(1) [OF st, of 0] by blast
  obtain s2 where s2: "nodeset_done E (n_addr n) 0 s1 = Some (ec_success, s2)"
    "in_store E r (n\<lparr>n_err := 0, n_done := 0\<rparr>) s2" "rest s2 = rest s1"
    "node_text E s2 (n_uuid n) STR_DONE = Some (''0x'' @ uint8_tostr 0)"
    using nodeset_specs(2) [OF s1(2), of 0] by auto
  obtain s3 where s3: "nodeset_func E (n_addr n) 0 s2 = Some (ec_success, s3)"
    "in_store E r (n\<lparr>n_err := 0, n_done := 0, n_func := 0\<rparr>) s3" "rest s3 = rest s2"
    "node_text E s3 (n_uuid n) STR_DONE = Some (''0x'' @ uint8_tostr 0)"
    using nodeset_specs(3) [OF s2(2), of 0] s2(4) by auto
  note rm = nodes_rm_spec [of s3 "n_addr n" r "n\<lparr>n_err := 0, n_done := 0, n_func := 0\<rparr>" E] s3(2) [unfolded in_store_def]
  obtain s4 where s4: "nodes_rm E (n_addr n) s3 = Some (ec_success, s4)" "db_wf (db s4)" "nw_ok E s4"
    "cfgdb_node_get (n_addr n) (db s4) = None" "cfgdb_unprov_dev_get (n_uuid n) (db s4) = Some r"
    "heap (db s4) r = Some (n\<lparr>n_err := 0, n_done := 0, n_func := 0, n_addr := 0\<rparr>)"
    "\<forall>u k. node_text E s4 u k = (if u = n_uuid n \<and> k = STR_ADDR then Some ''0x0000'' else node_text E s3 u k)"
    using rm by auto
  have r4: "rest s4 = rest s" using nodes_rm_rest [OF s3(2)] s4(1) s1(3) s2(3) s3(3) by simp
  have h: "heap (db s) r = Some n" "heap (db s1) r = Some (n\<lparr>n_err := 0\<rparr>)"
    "heap (db s2) r = Some (n\<lparr>n_err := 0, n_done := 0\<rparr>)"
    "heap (db s3) r = Some (n\<lparr>n_err := 0, n_done := 0, n_func := 0\<rparr>)"
    using st s1(2) s2(2) s3(2) by (simp_all add: in_store_def)
  have "rmend_on_success E c s = Some (snd (bgcall E (cmd_prov_ddb_delete (n_uuid n)) s4))"
    using s1(1) s2(1) s3(1) s4(1,6) h by (simp add: rmend_on_success_def cn)
  moreover have "''0x'' @ uint8_tostr 0 = ''0x00''" by code_simp
  moreover have "nw_ok E (s4\<lparr>sent := x\<rparr>) = nw_ok E s4" "node_text E (s4\<lparr>sent := x\<rparr>) u k = node_text E s4 u k" for x u k
    using file_cong [of "s4\<lparr>sent := x\<rparr>" s4] by simp_all
  moreover have "rest (s4\<lparr>sent := sent s4 @ x\<rparr>) = rest (s\<lparr>sent := sent s @ x\<rparr>)" for x
    using r4 restD(3) [OF r4] by (simp add: rest_sent)
  ultimately show ?thesis using s4 s3(4) by (simp add: bgcall_def)
qed

subsection \<open>The node in its slot\<close>

lemma in_store_cong: "db s' = db s \<Longrightarrow> jcfg s' = jcfg s \<Longrightarrow> in_store E r n s' = in_store E r n s"
  using file_cong [of s' s] by (simp add: in_store_def node_present_def)

definition rm_loaded :: "nref \<Rightarrow> config_cache_t" where
  "rm_loaded r = cache_reset\<lparr>cc_node := Some r, cc_state := end_em, next_state := Some rm_em\<rparr>"

lemma used_facts:
  "utils_popcount 0 = 0" "utils_frz 0 = 0" "BIT_SET (0 :: u32) 0 = 1" "BIT_CLR (1 :: u32) 0 = 0"
  "utils_ctz 1 = 0" "ones32 1 = [0]"
  by code_simp+

lemma load_rm:
  assumes "used (mng s) = 0" "l_rm (mng s) = [r]" "c_config (mng s) = [cache_reset, cache_reset]"
  shows "caches_load type_rm s =
    (1, s\<lparr>mng := (mng s)\<lparr>c_config := [rm_loaded r, cache_reset], used := 1, l_rm := []\<rparr>\<rparr>)"
  using assms by (simp add: caches_load_def pending_def set_pending_def cache_item_load_def set_cache_def
      rm_loaded_def used_facts)

lemma as_get_rm:
  assumes "acc_states (acc s) = default_states"
  shows "as_get rm_em s = [rm_em, rmend_em]" "as_get end_em s = [end_em, rm_em, rmend_em]"
  using assms by (simp_all add: as_get_def default_states_def)

text \<open>The slot of a loaded node sends the reset command and waits.\<close>

definition rm_waiting :: "env \<Rightarrow> sys \<Rightarrow> nref \<Rightarrow> u32 \<Rightarrow> config_cache_t" where
  "rm_waiting E s r h = (timer_set E s ((WAIT_RESPONSE_SET (rm_loaded r))\<lparr>cc_handle := h\<rparr>) True)
     \<lparr>cc_state := rm_em, next_state := Some rm_em\<rparr>"

lemma slot_sends_reset:
  assumes st: "in_store E r n s" and nk: "netkey_id s = Some nk" and as: "acc_states (acc s) = default_states"
    and c: "c_config (mng s) = [rm_loaded r, c']"
    and ok: "rsp_result (ncp E (sent s) (cmd_reset_node nk (n_addr n))) = bg_err_success"
  shows "\<exists>x. engine_slot E 0 (False, s) = Some (True, set_cache 0
      (rm_waiting E x r (rsp_handle (ncp E (sent s) (cmd_reset_node nk (n_addr n)))))
      (s\<lparr>sent := sent s @ [cmd_reset_node nk (n_addr n)]\<rparr>))"
proof -
  let ?c = "rm_loaded r" and ?cmd = "cmd_reset_node nk (n_addr n)"
  have cn: "cache_node ?c s = Some n" using st by (simp add: cache_node_def rm_loaded_def in_store_def nderef_def)
  have a: "n_addr n \<noteq> 0" using st db_wf_nodesD [of "db s"]
    by (auto simp: in_store_def cfgdb_node_get_def split: if_splits)
  have f: "flags ?c = 0" "expired ?c = 0" "cc_state ?c = end_em" "next_state ?c = Some rm_em"
    by (simp_all add: rm_loaded_def cache_reset_def zero_config_cache_def)
  have ex: "engine_exception E ?c s = Some (?c, s)" using f by (simp add: engine_exception_def OOM_def)
  have w: "\<not> WAIT_RESPONSE ?c" using f by (simp add: WAIT_RESPONSE_def)
  have "rm_entry E ?c s = Some (asr_suc, timer_set E (s\<lparr>sent := sent s @ [?cmd]\<rparr>)
      ((WAIT_RESPONSE_SET ?c)\<lparr>cc_handle := rsp_handle (ncp E (sent s) ?cmd)\<rparr>) True, s\<lparr>sent := sent s @ [?cmd]\<rparr>)"
    using cn a nk ok by (simp add: rm_entry_def rm_guard_def rm_send_def rm_cmd_def send_cmd_def bgcall_def on_rsp_def)
  then have "to_next_state E ?c s = Some (True, rm_waiting E (s\<lparr>sent := sent s @ [?cmd]\<rparr>) r
      (rsp_handle (ncp E (sent s) ?cmd)), s\<lparr>sent := sent s @ [?cmd]\<rparr>)"
    using f cn as_get_rm [OF as] by (simp add: to_next_state_def rm_waiting_def)
  then show ?thesis using ex w f c
    by (intro exI [of _ "s\<lparr>sent := sent s @ [?cmd]\<rparr>"]) (simp add: engine_slot_def idx_def rm_waiting_def)
qed

subsection \<open>The two turns\<close>

text \<open>Nothing else to do than to remove: no other list, no command, no light, no demonstration.\<close>

definition only_removing :: "sys \<Rightarrow> bool" where
  "only_removing s \<longleftrightarrow> m_state (mng s) = removing_devices_em \<and> l_add (mng s) = [] \<and> l_config (mng s) = []
    \<and> l_bl (mng s) = [] \<and> prios_wf (mng s) \<and> acc_started (acc s) \<and> acc_states (acc s) = default_states
    \<and> q_head (cmdq s) = None \<and> ms_nodes (mng s) = [] \<and> demo_expired s = 0"

lemma stat_rm_frame [simp]:
  "cmdq (stat_rm_start E s) = cmdq s" "evq (stat_rm_start E s) = evq s"
  "demo_expired (stat_rm_start E s) = demo_expired s" "netkey_id (stat_rm_start E s) = netkey_id s"
  "cmdq (stat_rm_end E s) = cmdq s" "evq (stat_rm_end E s) = evq s" "demo_expired (stat_rm_end E s) = demo_expired s"
  "db (stat_rm_end E s) = db s" "jcfg (stat_rm_end E s) = jcfg s" "disk (stat_rm_end E s) = disk s"
  "sent (stat_rm_end E s) = sent s" "sent (stat_rm_start E s) = sent s" "jcfg (stat_rm_start E s) = jcfg s"
  by (simp_all add: stat_defs upd_stat_def netkey_id_def subnet0_def)

lemma turn_steps:
  assumes "q_head (cmdq s) = None" and "dispense E (evq s) (s\<lparr>evq := []\<rparr>) = Some t"
    and "m_state (mng t) \<in> {configuring_devices_em, removing_devices_em}" and "acc_loop E t = Some (b, u)"
    and "set_mng_state E u = Some v" and "ms_nodes (mng v) = []" and "demo_expired v = 0"
  shows "mng_turn E s = Some (b, v)"
  using assms by (auto simp: mng_turn_def poll_cmd_def cmd_deq_def bgevt_dispenser_def mng_work_def
      models_loop_def demo_run_def)

lemma first_turn:
  assumes s: "only_removing s" "in_store E r n s" and nk: "netkey_id s = Some nk" and ev: "evq s = []"
    and m: "used (mng s) = 0" "l_rm (mng s) = [r]" "c_config (mng s) = [cache_reset, cache_reset]"
    and ok: "rsp_result (ncp E (sent s) (cmd_reset_node nk (n_addr n))) = bg_err_success"
  shows "\<exists>s' x. mng_turn E s = Some (True, s') \<and> sent s' = sent s @ [cmd_reset_node nk (n_addr n)]
    \<and> db s' = db s \<and> jcfg s' = jcfg s \<and> acc s' = acc s \<and> q_head (cmdq s') = None \<and> evq s' = [] \<and> demo_expired s' = 0
    \<and> mng s' = (mng s)\<lparr>c_config := [rm_waiting E x r (rsp_handle (ncp E (sent s) (cmd_reset_node nk (n_addr n)))),
        cache_reset], used := 1, l_rm := []\<rparr>"
proof -
  let ?cmd = "cmd_reset_node nk (n_addr n)"
  let ?t = "stat_rm_start E (s\<lparr>mng := (mng s)\<lparr>c_config := [rm_loaded r, cache_reset], used := 1, l_rm := []\<rparr>\<rparr>)"
  have t: "in_store E r n ?t" using in_store_cong [of ?t s] s(2) by simp
  have k: "netkey_id ?t = Some nk" using nk by (simp add: netkey_id_def subnet0_def)
  have ok': "rsp_result (ncp E (sent ?t) ?cmd) = bg_err_success" using ok by simp
  have as: "acc_states (acc ?t) = default_states" "c_config (mng ?t) = [rm_loaded r, cache_reset]"
    using s(1) by (simp_all add: only_removing_def)
  obtain x where x: "engine_slot E 0 (False, ?t) = Some (True, set_cache 0 (rm_waiting E x r (rsp_handle (ncp E (sent ?t) ?cmd)))
      (?t\<lparr>sent := sent ?t @ [?cmd]\<rparr>))"
    using slot_sends_reset [OF t k as ok'] by blast
  let ?u = "set_cache 0 (rm_waiting E x r (rsp_handle (ncp E (sent s) ?cmd))) (?t\<lparr>sent := sent s @ [?cmd]\<rparr>)"
  have "acc_loop E s = config_engine E ?t"
    using s(1) load_rm [OF m] by (simp add: acc_loop_def only_removing_def)
  also have "\<dots> = engine_loop E 1 (False, ?t)" by (simp add: config_engine_def)
  also have "\<dots> = Some (True, ?u)"
    using x by (subst engine_loop.simps) (simp add: used_facts engine_loop.simps [of _ 0])
  finally have loop: "acc_loop E s = Some (True, ?u)" .
  have mu: "mng ?u = (mng s)\<lparr>c_config := [rm_waiting E x r (rsp_handle (ncp E (sent s) ?cmd)), cache_reset],
      used := 1, l_rm := []\<rparr>" by (simp add: set_cache_def)
  have "set_mng_state E ?u = Some ?u"
    using s(1) mu by (simp add: set_mng_state_def work_over_def only_removing_def del: stat_ops_mng)
  moreover have "ms_nodes (mng ?u) = []" "demo_expired ?u = 0" using s(1) by (simp_all add: set_cache_def only_removing_def)
  moreover have "dispense E (evq s) (s\<lparr>evq := []\<rparr>) = Some s" using ev by simp
  ultimately have "mng_turn E s = Some (True, ?u)"
    using turn_steps [OF _ _ _ loop] s(1) by (simp add: only_removing_def)
  then show ?thesis using mu s(1) ev
    by (intro exI [of _ ?u] exI [of _ x]) (simp add: set_cache_def only_removing_def)
qed

lemma rm_waiting_fields:
  "WAIT_RESPONSE (rm_waiting E x r h)" "cc_state (rm_waiting E x r h) = rm_em" "cc_handle (rm_waiting E x r h) = h"
  "cc_node (rm_waiting E x r h) = Some r" "err_bgcall (rm_waiting E x r h) = 0" "err_bgevt (rm_waiting E x r h) = 0"
  "\<not> OOM (rm_waiting E x r h)"
proof -
  let ?c = "(WAIT_RESPONSE_SET (rm_loaded r))\<lparr>cc_handle := h\<rparr>"
  have f: "flags (rm_waiting E x r h) = BIT_SET 0 6" "cc_handle (rm_waiting E x r h) = h"
    "cc_node (rm_waiting E x r h) = Some r" "err_bgcall (rm_waiting E x r h) = 0" "err_bgevt (rm_waiting E x r h) = 0"
    by (simp_all add: rm_waiting_def timer_set_def Let_def WAIT_RESPONSE_SET_def rm_loaded_def cache_reset_def
        zero_config_cache_def split: option.splits)
  show "WAIT_RESPONSE (rm_waiting E x r h)" "\<not> OOM (rm_waiting E x r h)"
    by (simp_all add: WAIT_RESPONSE_def OOM_def f(1))
  show "cc_state (rm_waiting E x r h) = rm_em" by (simp add: rm_waiting_def)
  show "cc_handle (rm_waiting E x r h) = h" "cc_node (rm_waiting E x r h) = Some r"
    "err_bgcall (rm_waiting E x r h) = 0" "err_bgevt (rm_waiting E x r h) = 0"
    by (rule f)+
qed

text \<open>The confirmation reaches the slot that waits for it.\<close>

definition rm_confirmed :: "config_cache_t \<Rightarrow> config_cache_t" where
  "rm_confirmed c = (RETRY_CLEAR (WAIT_RESPONSE_CLEAR (c\<lparr>expired := 0\<rparr>)))\<lparr>next_state := None\<rparr>"

lemma confirmation:
  assumes as: "acc_states (acc s) = default_states" and m: "used (mng s) = 1" "c_config (mng s) = [c, c']"
    and c: "WAIT_RESPONSE c" "cc_state c = rm_em" "cc_handle c = h" "cc_node c \<noteq> None"
  shows "handle_event E (evt_reset_status h bg_err_success) s = Some (True, set_cache 0 (rm_confirmed c) s)"
proof -
  let ?e = "evt_reset_status h bg_err_success"
  have "\<not> is_add_events ?e" "is_config_device_events ?e"
    by (simp_all add: is_add_events_def is_config_device_events_def)
  moreover have "cache_from_cchandle ?e s = Some 0" using m c by (simp add: cache_from_cchandle_def used_facts)
  moreover have "state_inprg E rm_em ?e c s = Some (asr_suc, rm_confirmed c, s)"
    by (simp add: rm_inprg_def timer_set_def rm_confirmed_def)
  moreover have "\<not> WAIT_RESPONSE (rm_confirmed c)" "\<not> EVER_RETRIED (rm_confirmed c)"
    by (simp_all add: rm_confirmed_def) (simp add: flag_defs)
  ultimately show ?thesis using c m as_get_rm [OF as]
    by (simp add: handle_event_def dev_add_hdr_def dev_config_hdr_def idx_def has_retry_def)
qed

text \<open>The confirmed slot ends the removal and is free.\<close>

lemma slot_ends_removal:
  assumes st: "in_store E r n s" and as: "acc_states (acc s) = default_states"
    and m: "used (mng s) = 1" "c_config (mng s) = [rm_confirmed c, cache_reset]"
    and c: "cc_state c = rm_em" "cc_node c = Some r" "err_bgcall c = 0" "err_bgevt c = 0" "\<not> OOM c"
  shows "\<exists>s'. engine_slot E 0 (False, s) = Some (True, cache_reset_idx 0 s')
    \<and> db_wf (db s') \<and> nw_ok E s' \<and> cfgdb_node_get (n_addr n) (db s') = None
    \<and> cfgdb_unprov_dev_get (n_uuid n) (db s') = Some r
    \<and> heap (db s') r = Some (n\<lparr>n_err := 0, n_done := 0, n_func := 0, n_addr := 0\<rparr>)
    \<and> node_text E s' (n_uuid n) STR_ADDR = Some ''0x0000'' \<and> node_text E s' (n_uuid n) STR_DONE = Some ''0x00''
    \<and> rest s' = rest ((stat_rm_one_dev s)\<lparr>sent := sent s @ [cmd_prov_ddb_delete (n_uuid n)]\<rparr>)"
proof -
  let ?c = "rm_confirmed c"
  have f: "expired ?c = 0" "\<not> OOM ?c" "\<not> WAIT_RESPONSE ?c" "next_state ?c = None" "cc_state ?c = rm_em"
    "cc_node ?c = Some r" "\<not> has_error ?c"
    using c by (simp_all add: rm_confirmed_def has_error_def) (simp_all add: flag_defs)
  have st': "in_store E r n (stat_rm_one_dev s)"
    using st in_store_cong [of "stat_rm_one_dev s" s] by (simp add: stat_defs)
  obtain s' where s': "rmend_on_success E ?c (stat_rm_one_dev s) = Some s'"
    "db_wf (db s')" "nw_ok E s'" "cfgdb_node_get (n_addr n) (db s') = None"
    "cfgdb_unprov_dev_get (n_uuid n) (db s') = Some r"
    "heap (db s') r = Some (n\<lparr>n_err := 0, n_done := 0, n_func := 0, n_addr := 0\<rparr>)"
    "node_text E s' (n_uuid n) STR_ADDR = Some ''0x0000''" "node_text E s' (n_uuid n) STR_DONE = Some ''0x00''"
    "rest s' = rest ((stat_rm_one_dev s)\<lparr>sent := sent (stat_rm_one_dev s) @ [cmd_prov_ddb_delete (n_uuid n)]\<rparr>)"
    using rmend_spec [OF st' f(6)] by blast
  have sn: "sent (stat_rm_one_dev s) = sent s" by (simp add: stat_defs)
  have cn: "cache_node ?c s = Some n" using st f(6) by (simp add: cache_node_def nderef_def in_store_def)
  have "rmend_entry E ?c s = Some (asr_suc, ?c, s')" using s'(1) f(7) by (simp add: rmend_entry_def)
  then have "to_next_state E ?c s = Some (True, ?c\<lparr>cc_state := rmend_em, next_state := Some rmend_em\<rparr>, s')"
    using f cn as_get_rm [OF as] by (simp add: to_next_state_def)
  moreover have "engine_exception E ?c s = Some (?c, s)" using f by (simp add: engine_exception_def)
  moreover have "\<not> has_error (?c\<lparr>cc_state := rmend_em, next_state := Some rmend_em\<rparr>)"
    using f(7) by (simp add: has_error_def)
  ultimately have "engine_slot E 0 (False, s) = Some (True, cache_reset_idx 0 s')"
    using f m by (simp add: engine_slot_def idx_def)
  then show ?thesis using s'(2-) unfolding sn by blast
qed

text \<open>With all lists empty the order of work ends the synchronisation.\<close>

lemma next_work_idle:
  assumes "l_add (mng s) = []" "l_config (mng s) = []" "l_rm (mng s) = []" "l_bl (mng s) = []"
    and "prios_wf (mng s)" and "k + seq_offs (mng s) = 3"
  shows "\<exists>j. next_work E k s = Some (False, set_seq_offs j s)"
  using assms
proof (induction k arbitrary: s)
  case 0
  then show ?case by (intro exI [of _ "seq_offs (mng s)"]) (simp add: set_seq_offs_def)
next
  case (Suc k)
  obtain p where p: "idx (prios (mng s)) (seq_offs (mng s)) = Some p" "p \<in> set ''arb-''"
    using prios_wf_idx [OF Suc.prems(5)] Suc.prems(6) by auto
  let ?n = "set_seq_offs (Suc (seq_offs (mng s))) s"
  have w: "prios_wf (mng ?n)" "k + seq_offs (mng ?n) = 3"
    using Suc.prems(5,6) by (simp_all add: prios_wf_def)
  have n: "\<exists>j. next_work E k ?n = Some (False, set_seq_offs j ?n)"
    by (rule Suc.IH) (use Suc.prems w in simp_all)
  have o: "set_seq_offs j (set_seq_offs i s) = set_seq_offs j s" for i j by (simp add: set_seq_offs_def)
  consider "p = CHR ''a''" | "p = CHR ''r''" | "p = CHR ''b''" | (dash) "p = CHR ''-''"
    using p(2) by auto
  then show ?case
  proof cases
    case dash
    then show ?thesis using p(1)
      by (intro exI [of _ "seq_offs (mng s)"]) (simp add: Let_def set_seq_offs_def)
  qed (use p(1) n Suc.prems in \<open>auto simp: Let_def o\<close>)
qed

lemma second_turn:
  assumes s: "only_removing s" "in_store E r n s" and ev: "evq s = [evt_reset_status h bg_err_success]"
    and m: "used (mng s) = 1" "l_rm (mng s) = []" "c_config (mng s) = [rm_waiting E x r h, cache_reset]"
  shows "\<exists>s'. mng_turn E s = Some (True, s') \<and> sent s' = sent s @ [cmd_prov_ddb_delete (n_uuid n)]
    \<and> db_wf (db s') \<and> cfgdb_node_get (n_addr n) (db s') = None \<and> cfgdb_unprov_dev_get (n_uuid n) (db s') = Some r
    \<and> heap (db s') r = Some (n\<lparr>n_err := 0, n_done := 0, n_func := 0, n_addr := 0\<rparr>)
    \<and> nw_ok E s' \<and> node_text E s' (n_uuid n) STR_ADDR = Some ''0x0000''
    \<and> node_text E s' (n_uuid n) STR_DONE = Some ''0x00''
    \<and> m_state (mng s') = configured \<and> used (mng s') = 0 \<and> c_config (mng s') = [cache_reset, cache_reset]
    \<and> l_rm (mng s') = []"
proof -
  let ?w = "rm_waiting E x r h" and ?s = "s\<lparr>evq := []\<rparr>"
  note w = rm_waiting_fields [of E x r h]
  note o = s(1) [unfolded only_removing_def]
  let ?t = "set_cache 0 (rm_confirmed ?w) ?s" and ?u = "stat_rm_start E (set_cache 0 (rm_confirmed ?w) ?s)"
  have ev1: "handle_event E (evt_reset_status h bg_err_success) ?s = Some (True, ?t)"
    by (rule confirmation [where c' = cache_reset]) (use o m w in simp_all)
  have t: "dispense E (evq s) ?s = Some ?t" using ev1 ev by simp
  have mu: "mng ?u = (mng s)\<lparr>c_config := [rm_confirmed ?w, cache_reset]\<rparr>" using m by (simp add: set_cache_def)
  have u: "in_store E r n ?u" using in_store_cong [of ?u s] s(2) by (simp add: set_cache_def)
  obtain s1 where s1: "engine_slot E 0 (False, ?u) = Some (True, cache_reset_idx 0 s1)"
    "db_wf (db s1)" "nw_ok E s1" "cfgdb_node_get (n_addr n) (db s1) = None"
    "cfgdb_unprov_dev_get (n_uuid n) (db s1) = Some r"
    "heap (db s1) r = Some (n\<lparr>n_err := 0, n_done := 0, n_func := 0, n_addr := 0\<rparr>)"
    "node_text E s1 (n_uuid n) STR_ADDR = Some ''0x0000''" "node_text E s1 (n_uuid n) STR_DONE = Some ''0x00''"
    and r1: "rest s1 = rest ((stat_rm_one_dev ?u)\<lparr>sent := sent ?u @ [cmd_prov_ddb_delete (n_uuid n)]\<rparr>)"
    using slot_ends_removal [OF u _ _ _ w(2,4-7)] o m mu by (auto simp: set_cache_def)
  have k1: "mng s1 = mng ?u" "sent s1 = sent s @ [cmd_prov_ddb_delete (n_uuid n)]" "q_head (cmdq s1) = None" "demo_expired s1 = 0"
    using restD [OF r1] o by (simp_all add: set_cache_def) (simp_all add: stat_defs upd_stat_def)
  let ?v = "cache_reset_idx 0 s1"
  have mv: "mng ?v = (mng s)\<lparr>c_config := [cache_reset, cache_reset], used := 0\<rparr>"
    using k1(1) mu m by (simp add: cache_reset_idx_def set_cache_def used_facts)
  have "caches_load type_rm ?t = (0, ?t)" using m by (simp add: caches_load_def pending_def set_cache_def)
  then have "acc_loop E ?t = config_engine E ?u" using o by (simp add: acc_loop_def set_cache_def)
  also have "\<dots> = engine_loop E 1 (False, ?u)" using m by (simp add: config_engine_def set_cache_def)
  also have "\<dots> = Some (True, ?v)"
    using s1(1) by (subst engine_loop.simps) (simp add: used_facts engine_loop.simps [of _ 0])
  finally have loop: "acc_loop E ?t = Some (True, ?v)" .
  let ?e = "stat_rm_end E ?v"
  have "\<exists>j. next_work E (3 - seq_offs (mng ?e)) ?e = Some (False, set_seq_offs j ?e)"
    by (rule next_work_idle) (use o m mv in \<open>simp_all add: prios_wf_def\<close>)
  then obtain j where j: "next_work E (3 - seq_offs (mng ?e)) ?e = Some (False, set_seq_offs j ?e)" by blast
  let ?f = "set_state configured (set_seq_offs 0 (set_seq_offs j ?e))"
  have "work_over E ?v = (True, ?e)" using o m mv by (simp add: work_over_def)
  then have state: "set_mng_state E ?v = Some ?f" using o mv j by (simp add: set_mng_state_def Let_def)
  have "ms_nodes (mng ?f) = []" "demo_expired ?f = 0"
    using o mv k1 by (simp_all add: set_state_def set_seq_offs_def cache_reset_idx_def set_cache_def)
  then have turn: "mng_turn E s = Some (True, ?f)"
    using turn_steps [OF _ t _ loop state] o by (simp add: set_cache_def)
  have dbf: "db ?f = db s1" "jcfg ?f = jcfg s1" "sent ?f = sent s1"
    by (simp_all add: set_state_def set_seq_offs_def cache_reset_idx_def set_cache_def)
  show ?thesis using turn dbf s1 k1 mv m file_cong [OF dbf(2)]
    by (intro exI [of _ ?f]) simp
qed

text \<open>C10: Two turns of the main loop remove a node: the first loads it into a slot and sends the reset command;
  with the confirmation of the node the second makes it a device without an address again, in the
  database and in the node file, deletes it from the target's database, frees the slot and ends the
  synchronisation when nothing else is left to do.\<close>
theorem node_is_removed:
  assumes "only_removing s" "in_store E r n s" "netkey_id s = Some nk" "evq s = []"
    and "used (mng s) = 0" "l_rm (mng s) = [r]" "c_config (mng s) = [cache_reset, cache_reset]"
    and "rsp_result (ncp E (sent s) (cmd_reset_node nk (n_addr n))) = bg_err_success"
    and "h = rsp_handle (ncp E (sent s) (cmd_reset_node nk (n_addr n)))"
  shows "\<exists>s1 s2. mng_turn E s = Some (True, s1)
    \<and> mng_turn E (s1\<lparr>evq := [evt_reset_status h bg_err_success]\<rparr>) = Some (True, s2)
    \<and> sent s2 = sent s @ [cmd_reset_node nk (n_addr n), cmd_prov_ddb_delete (n_uuid n)]
    \<and> db_wf (db s2) \<and> cfgdb_node_get (n_addr n) (db s2) = None \<and> cfgdb_unprov_dev_get (n_uuid n) (db s2) = Some r
    \<and> heap (db s2) r = Some (n\<lparr>n_err := 0, n_done := 0, n_func := 0, n_addr := 0\<rparr>)
    \<and> nw_ok E s2 \<and> node_text E s2 (n_uuid n) STR_ADDR = Some ''0x0000''
    \<and> node_text E s2 (n_uuid n) STR_DONE = Some ''0x00''
    \<and> m_state (mng s2) = configured \<and> used (mng s2) = 0 \<and> c_config (mng s2) = [cache_reset, cache_reset]
    \<and> l_rm (mng s2) = []"
proof -
  obtain s1 x where s1: "mng_turn E s = Some (True, s1)" "sent s1 = sent s @ [cmd_reset_node nk (n_addr n)]"
    "db s1 = db s" "jcfg s1 = jcfg s" "acc s1 = acc s" "q_head (cmdq s1) = None" "evq s1 = []" "demo_expired s1 = 0"
    "mng s1 = (mng s)\<lparr>c_config := [rm_waiting E x r h, cache_reset], used := 1, l_rm := []\<rparr>"
    using first_turn [OF assms(1-8)] assms(9) by blast
  let ?t = "s1\<lparr>evq := [evt_reset_status h bg_err_success]\<rparr>"
  have "only_removing ?t" using assms(1) s1 by (simp add: only_removing_def prios_wf_def)
  moreover have "in_store E r n ?t" using in_store_cong [of ?t s] s1 assms(2) by simp
  ultimately show ?thesis
    using second_turn [of ?t E r n h x] s1 by fastforce
qed

definition removal_sys :: sys where
  "removal_sys = sample_sys\<lparr>mng := (mng sample_sys)\<lparr>m_state := removing_devices_em, l_rm := [0]\<rparr>\<rparr>"

theorem node_is_removed_witness:
  "\<exists>s1 s2. mng_turn ok_env removal_sys = Some (True, s1)
    \<and> mng_turn ok_env (s1\<lparr>evq := [evt_reset_status 7 bg_err_success]\<rparr>) = Some (True, s2)
    \<and> sent s2 = [cmd_reset_node 0 2, cmd_prov_ddb_delete uuid1] \<and> cfgdb_node_get 2 (db s2) = None
    \<and> cfgdb_unprov_dev_get uuid1 (db s2) = Some 0 \<and> m_state (mng s2) = configured"
proof -
  let ?n = "zero_node\<lparr>n_uuid := uuid1, n_addr := 2\<rparr>"
  have "in_store ok_env 0 ?n sample_sys"
    using sample_db_wf sample_lookups sample_nw_ok sample_present(1) by (simp add: in_store_def)
  then have st: "in_store ok_env 0 ?n removal_sys"
    using in_store_cong [of removal_sys sample_sys] by (simp add: removal_sys_def)
  have o: "only_removing removal_sys"
    by (simp add: only_removing_def removal_sys_def sample_sys_def sample_mng_def zero_mng_def prios_wf_def seq_valid_def
        acc_reset_def Let_def zero_sys_def)
  have m: "used (mng removal_sys) = 0" "l_rm (mng removal_sys) = [0]" "c_config (mng removal_sys) = [cache_reset, cache_reset]"
    "netkey_id removal_sys = Some 0" "evq removal_sys = []" "sent removal_sys = []"
    by code_simp+
  from node_is_removed [OF o st m(4,5,1-3)] show ?thesis by (simp add: m(6)) metis
qed

end
