(* ===== verification/Answers.thy ===== *)
theory Answers
  imports Removal Walks AccFacts
begin

text \<open>
  One turn of the main loop for a node that is being configured in the first slot: the status that
  answers its command goes through the dispatch of events to the state of the slot, and the engine,
  which runs after it in the same turn, enters the next state when the one at work is done.
\<close>

subsection \<open>The states at work\<close>

text \<open>The four states that walk over keys, models and addresses, by their ids.\<close>

definition walking :: "acc_state_emt \<Rightarrow> bool" where
  "walking st \<longleftrightarrow> st \<in> {addappkey_em, bindappkey_em, setpub_em, addsub_em}"

fun state_plan :: "acc_state_emt \<Rightarrow> plan_fn" where
  "state_plan addappkey_em = key_plan"
| "state_plan bindappkey_em = bind_plan"
| "state_plan setpub_em = pub_plan"
| "state_plan addsub_em = sub_plan"
| "state_plan _ = (\<lambda>c s. None)"

fun state_iter :: "acc_state_emt \<Rightarrow> iter_fn" where
  "state_iter addappkey_em = iter_appkey"
| "state_iter bindappkey_em = iter_bindings"
| "state_iter setpub_em = (\<lambda>c s. iter_setpub c)"
| "state_iter addsub_em = iter_addsub"
| "state_iter _ = (\<lambda>c s. None)"

fun state_guard :: "acc_state_emt \<Rightarrow> config_cache_t \<Rightarrow> sys \<Rightarrow> bool option" where
  "state_guard addappkey_em = addappkey_guard"
| "state_guard bindappkey_em = bindappkey_guard"
| "state_guard setpub_em = setpub_guard"
| "state_guard addsub_em = addsub_guard"
| "state_guard _ = (\<lambda>c s. None)"

lemma state_walk:
  assumes "walking st"
  shows "acc_walk (state_send st) err_set_to_end (\<lambda>E. state_inprg E st) (status_of st 0 h bg_err_success)
    (state_plan st) (state_iter st)"
proof -
  have e: "(\<lambda>E. state_inprg E addappkey_em) = addappkey_inprg" "(\<lambda>E. state_inprg E bindappkey_em) = bindappkey_inprg"
    "(\<lambda>E. state_inprg E setpub_em) = setpub_inprg" "(\<lambda>E. state_inprg E addsub_em) = addsub_inprg"
    by (intro ext, simp)+
  show ?thesis
    using assms key_walk.acc_walk_axioms bind_walk.acc_walk_axioms pub_walk.acc_walk_axioms sub_walk.acc_walk_axioms
    by (auto simp: walking_def e)
qed

lemma state_entry_walk:
  assumes "walking st" and "state_guard st c s = Some g"
  shows "state_entry E st c s = (if g then state_send st E c s else Some (asr_tonext, c, s))"
  using assms by (auto simp: walking_def addappkey_entry_def bindappkey_entry_def setpub_entry_def addsub_entry_def)

text \<open>Commands, iterators and guards look at the database only.\<close>

lemma db_facts:
  assumes "db s' = db s"
  shows "cache_node c s' = cache_node c s" "netkey_id s' = netkey_id s" "appkey_by_refid s' = appkey_by_refid s"
    "known_key s' = known_key s" "node_bindings c s' = node_bindings c s" "node_sublist c s' = node_sublist c s"
    "key_id_of s' = key_id_of s" "keys_of s' = keys_of s" "node_features c s' = node_features c s"
proof -
  show 1: "cache_node c s' = cache_node c s" "netkey_id s' = netkey_id s" "appkey_by_refid s' = appkey_by_refid s"
    using assms by (simp_all add: cache_node_def nderef_def netkey_id_def subnet0_def appkey_by_refid_def fun_eq_iff)
  then show "known_key s' = known_key s" "node_bindings c s' = node_bindings c s" "node_sublist c s' = node_sublist c s"
    "node_features c s' = node_features c s" and k: "key_id_of s' = key_id_of s"
    by (simp_all add: known_key_def node_bindings_def node_sublist_def node_features_def key_id_of_def fun_eq_iff)
  show "keys_of s' = keys_of s" by (simp add: keys_of_def k fun_eq_iff)
qed

lemma state_db:
  assumes "db s' = db s"
  shows "state_plan st c s' = state_plan st c s" "state_iter st c s' = state_iter st c s"
    "state_guard st c s' = state_guard st c s"
proof -
  note f = db_facts [OF assms]
  show "state_plan st c s' = state_plan st c s"
    by (cases st) (simp_all add: plan_defs add_appkey_cmd_def bind_appkey_cmd_def setpub_cmd_def addsub_cmd_def f)
  show "state_iter st c s' = state_iter st c s"
    by (cases st) (simp_all add: iter_appkey_def iter_bindings_def iter_addsub_def f)
  show "state_guard st c s' = state_guard st c s"
    by (cases st) (simp_all add: addappkey_guard_def bindappkey_guard_def setpub_guard_def addsub_guard_def f)
qed

subsection \<open>A slot without trouble\<close>

lemma next_state_upd [simp]:
  "next_state (WAIT_RESPONSE_SET c) = next_state c" "next_state (WAIT_RESPONSE_CLEAR c) = next_state c"
  "next_state (RETRY_CLEAR c) = next_state c" "expired (WAIT_RESPONSE_CLEAR c) = expired c"
  "expired (RETRY_CLEAR c) = expired c" "expired (timer_set E s c False) = 0"
  by (simp_all add: flag_defs timer_set_def)

text \<open>No error, no retry and no lack of memory so far.\<close>

definition calm :: "config_cache_t \<Rightarrow> bool" where
  "calm c \<longleftrightarrow> \<not> OOM c \<and> \<not> EVER_RETRIED c \<and> \<not> has_error c"

lemma calm_upd [simp]:
  "calm (c\<lparr>cc_state := st\<rparr>) = calm c" "calm (c\<lparr>next_state := ns\<rparr>) = calm c" "calm (c\<lparr>expired := t\<rparr>) = calm c"
  "calm (c\<lparr>cc_handle := h\<rparr>) = calm c" "calm (WAIT_RESPONSE_SET c) = calm c" "calm (WAIT_RESPONSE_CLEAR c) = calm c"
  "calm (c\<lparr>vnm_vd := v, vnm_md := m\<rparr>) = calm c" "calm (timer_set E s c b) = calm c"
  "calm (c\<lparr>cc_dcd := d\<rparr>) = calm c"
  by (simp_all add: calm_def has_error_def flag_defs timer_set_def Let_def split: option.splits)

lemma calm_retry_clear: "calm c \<Longrightarrow> calm (RETRY_CLEAR c)"
  by (simp add: calm_def has_error_def flag_defs)

lemma calm_ctrl: "ctrl c' = ctrl c \<Longrightarrow> calm c' = calm c \<and> WAIT_RESPONSE c' = WAIT_RESPONSE c \<and> next_state c' = next_state c
    \<and> expired c' = expired c"
  by (simp add: ctrl_def calm_def has_error_def flag_defs)

text \<open>The guard timer of the slot has not expired.\<close>

definition in_time :: "env \<Rightarrow> config_cache_t \<Rightarrow> bool" where
  "in_time E c \<longleftrightarrow> expired c = 0 \<or> now E \<le> expired c"

lemma in_time_set: "in_time E (timer_set E s c b)"
proof -
  have "0 \<le> uint ((t + 999) div 1000)" for t :: u32 by simp
  then show ?thesis by (auto simp: in_time_def timer_set_def Let_def split: option.splits)
qed

lemma in_time_upd [simp]:
  "in_time E (c\<lparr>cc_state := st\<rparr>) = in_time E c" "in_time E (c\<lparr>next_state := ns\<rparr>) = in_time E c"
  by (simp_all add: in_time_def)

text \<open>An accepted command: the slot waits, in the same position, and nothing else changed.\<close>

lemma send_accepted_cmd:
  assumes "rsp_result (ncp E (sent s) cmd) = bg_err_success" and "calm c"
  shows "\<exists>c'. send_cmd set_end E cmd (set_model m c) s = (asr_suc, c', s\<lparr>sent := sent s @ [cmd]\<rparr>)
    \<and> same_work c c' \<and> WAIT_RESPONSE c' \<and> calm c' \<and> in_time E c' \<and> next_state c' = next_state c"
proof -
  obtain vd md where m: "set_model m c = c\<lparr>vnm_vd := vd, vnm_md := md\<rparr>" using set_model_vnm by blast
  show ?thesis unfolding m using assms in_time_set
    by (simp add: send_cmd_def bgcall_def on_rsp_def)
qed

lemma walking_send:
  assumes "walking st" "state_plan st p s0 = Some (cmd, m)" "same_work p c" "db s = db s0" "calm c"
    and "rsp_result (ncp E (sent s) cmd) = bg_err_success"
  shows "\<exists>c'. state_send st E c s = Some (asr_suc, c', s\<lparr>sent := sent s @ [cmd]\<rparr>)
    \<and> same_work p c' \<and> WAIT_RESPONSE c' \<and> calm c' \<and> in_time E c' \<and> next_state c' = next_state c"
proof -
  note w = state_walk [OF assms(1)]
  have "state_plan st c (s\<lparr>sent := sent s\<rparr>) = state_plan st p s" by (rule acc_walk.plan_same [OF w assms(3)])
  then have "state_plan st c s = Some (cmd, m)" using state_db(1) [OF assms(4)] assms(2) by simp
  then show ?thesis
    using acc_walk.send_plan [OF w] send_accepted_cmd [OF assms(6,5), of err_set_to_end m]
      same_work_trans [OF assms(3)] by fastforce
qed

text \<open>The confirmation of a command, in the state's handler.\<close>

lemma walking_confirmed:
  assumes "walking st" "state_iter st p s0 = Some (b, p')" "same_work p c" "db s = db s0" "calm c"
  shows "\<exists>c'. same_work p' c' \<and> \<not> WAIT_RESPONSE c' \<and> calm c' \<and> next_state c' = next_state c
    \<and> state_inprg E st (status_of st 0 h bg_err_success) c s =
      (if b then Some (asr_suc, c'\<lparr>next_state := None\<rparr>, s) else state_send st E c' s)
    \<and> expired c' = 0"
proof -
  note w = state_walk [OF assms(1), of h]
  let ?c = "RETRY_CLEAR (WAIT_RESPONSE_CLEAR (timer_set E s c False))"
  have sw: "same_work p ?c" using assms(3) by simp
  have "state_iter st p s = Some (b, p')" using state_db(2) [OF assms(4)] assms(2) by simp
  from acc_walk.iter_same [OF w sw this, of "sent s"]
  obtain c' where c': "state_iter st ?c s = Some (b, c')" "same_work p' c'" "ctrl c' = ctrl ?c" by auto
  show ?thesis using c' calm_ctrl [OF c'(3)] calm_retry_clear assms(5) acc_walk.inprg_ok [OF w, of E c s]
    by (intro exI [of _ c']) (auto simp: Let_def)
qed

subsection \<open>The slot and the rest of the program\<close>

text \<open>Nothing else to do than to configure: no other list, no command, no light, no demonstration.\<close>

definition only_configuring :: "sys \<Rightarrow> bool" where
  "only_configuring s \<longleftrightarrow> m_state (mng s) = configuring_devices_em \<and> l_add (mng s) = [] \<and> l_rm (mng s) = []
    \<and> l_bl (mng s) = [] \<and> prios_wf (mng s) \<and> acc_started (acc s) \<and> acc_states (acc s) = default_states
    \<and> ms_nodes (mng s) = [] \<and> q_head (cmdq s) = None \<and> demo_expired s = 0"

text \<open>The node \<open>r\<close> is in the first slot, the only one in use, and nothing else changed since \<open>s0\<close>.\<close>

definition in_slot :: "env \<Rightarrow> sys \<Rightarrow> nref \<Rightarrow> node_t \<Rightarrow> config_cache_t \<Rightarrow> sys \<Rightarrow> bool" where
  "in_slot E s0 r n c s \<longleftrightarrow> mng s = (mng s0)\<lparr>c_config := [c, cache_reset], used := 1, l_config := []\<rparr>
    \<and> acc s = acc s0 \<and> q_head (cmdq s) = None \<and> demo_expired s = 0 \<and> tid s = tid s0 \<and> evq s = []
    \<and> in_store E r n s \<and> cc_node c = Some r \<and> calm c"

lemma in_slot_cong:
  assumes "in_slot E s0 r n c s" and "mng s' = (mng s)\<lparr>c_config := [c', cache_reset]\<rparr>" "acc s' = acc s"
    "cmdq s' = cmdq s" "demo_expired s' = demo_expired s" "tid s' = tid s" "evq s' = evq s" "in_store E r n' s'"
    "cc_node c' = Some r" "calm c'"
  shows "in_slot E s0 r n' c' s'"
  using assms by (simp add: in_slot_def)

lemma set_slot:
  assumes "in_slot E s0 r n c s" "cc_node c' = Some r" "calm c'"
  shows "in_slot E s0 r n c' (set_cache 0 c' s)"
  by (rule in_slot_cong [OF assms(1)])
    (use assms in_store_cong [of "set_cache 0 c' s" s E r n] in \<open>simp_all add: set_cache_def in_slot_def\<close>)

lemma in_slot_sent: "in_slot E s0 r n c s \<Longrightarrow> in_slot E s0 r n c (s\<lparr>sent := h\<rparr>)"
  using in_store_cong [of "s\<lparr>sent := h\<rparr>" s E r n] by (simp add: in_slot_def)

definition stats :: "env \<Rightarrow> sys \<Rightarrow> sys" where
  "stats E s = stat_config_loading_record E (stat_config_start E s)"

lemma stats_frame [simp]:
  "mng (stats E s) = mng s" "acc (stats E s) = acc s" "cmdq (stats E s) = cmdq s" "evq (stats E s) = evq s"
  "demo_expired (stats E s) = demo_expired s" "tid (stats E s) = tid s" "sent (stats E s) = sent s"
  "db (stats E s) = db s" "jcfg (stats E s) = jcfg s"
  by (simp_all add: stats_def stat_defs) (simp_all add: upd_stat_def)

lemma in_slot_stats: "in_slot E s0 r n c s \<Longrightarrow> in_slot E s0 r n c (stats E' s)"
  using in_store_cong [of "stats E' s" s E r n] by (simp add: in_slot_def)

subsection \<open>The answer\<close>

lemma slot_event:
  assumes "only_configuring s0" "in_slot E s0 r n c s" "WAIT_RESPONSE c" "has_retry (cc_state c)"
    and "evt_handle e = Some (cc_handle c)" "is_config_device_events e" "\<not> is_add_events e"
    and "state_inprg E' (cc_state c) e c s = Some (asr_suc, c', s')" "mng s' = mng s" "WAIT_RESPONSE c' \<or> calm c'"
  shows "handle_event E' e s = Some (True, set_cache 0 c' s')"
proof -
  have "cc_state c \<in> set default_states" using assms(4) by (auto simp: has_retry_def default_states_def)
  then have "as_get (cc_state c) s \<noteq> []"
    using assms(1,2) by (auto simp: as_get_def dropWhile_eq_Nil_conv only_configuring_def in_slot_def)
  moreover have "cache_from_cchandle e s = Some 0"
    using assms(2,5) by (simp add: cache_from_cchandle_def in_slot_def used_facts)
  moreover have "\<not> (\<not> WAIT_RESPONSE c' \<and> EVER_RETRIED c')" using assms(10) by (auto simp: calm_def)
  ultimately show ?thesis using assms(2-4,6-9)
    by (auto simp: handle_event_def dev_add_hdr_def dev_config_hdr_def idx_def in_slot_def)
qed

text \<open>After the events of a turn: the engine, then the choice of the next kind of work.\<close>

definition after_events :: "env \<Rightarrow> sys \<Rightarrow> sys option" where
  "after_events E s = do { (b, s) \<leftarrow> acc_loop E s; set_mng_state E s }"

definition enter_turn :: "env \<Rightarrow> acc_state_emt list \<Rightarrow> config_cache_t \<Rightarrow> sys \<Rightarrow> sys option" where
  "enter_turn E nas c s = do {
     (b, c, s) \<leftarrow> enter_states E nas c s;
     s \<leftarrow> (if cc_state c = end_em \<or> cc_state c = rmend_em
          then do {
            n \<leftarrow> cc_node c;
            Some (cache_reset_idx 0 (if has_error c then s\<lparr>mng := (mng s)\<lparr>l_fail := l_fail (mng s) @ [n]\<rparr>\<rparr> else s)) }
          else Some (set_cache 0 c s));
     set_mng_state E s }"

text \<open>Nothing keeps the turn busy after that.\<close>

definition quiet :: "sys \<Rightarrow> bool" where
  "quiet s \<longleftrightarrow> ms_nodes (mng s) = [] \<and> demo_expired s = 0"

lemma turn_with:
  assumes "only_configuring s0" "in_slot E s0 r n c s"
    and "dispense E' es s = Some t" "in_slot E s0 r n' c' t" "after_events E' t = Some v" "quiet v"
  shows "\<exists>b. mng_turn E' (s\<lparr>evq := es\<rparr>) = Some (b, v)"
proof -
  have "s\<lparr>evq := []\<rparr> = s" using assms(2) by (cases s) (simp add: in_slot_def)
  then have d: "dispense E' (evq (s\<lparr>evq := es\<rparr>)) (s\<lparr>evq := es, evq := []\<rparr>) = Some t" using assms(3) by simp
  obtain b u where u: "acc_loop E' t = Some (b, u)" "set_mng_state E' u = Some v"
    using assms(5) by (auto simp: after_events_def bind_Some_conv)
  have "mng_turn E' (s\<lparr>evq := es\<rparr>) = Some (b, v)"
    by (rule turn_steps [OF _ d _ u])
      (use assms(1,2,4,6) in \<open>auto simp: in_slot_def only_configuring_def quiet_def\<close>)
  then show ?thesis by blast
qed

lemma engine_of_slot:
  assumes "only_configuring s0" "in_slot E s0 r n c s"
  shows "acc_loop E' s = engine_slot E' 0 (False, stats E' s)"
proof -
  have "caches_load type_config s = (0, s)"
    using assms(2) by (simp add: caches_load_def pending_def in_slot_def)
  then have "acc_loop E' s = config_engine E' (stats E' s)"
    using assms by (simp add: acc_loop_def only_configuring_def in_slot_def stats_def)
  also have "\<dots> = engine_loop E' 1 (False, stats E' s)" using assms(2) by (simp add: config_engine_def in_slot_def)
  also have "\<dots> = engine_slot E' 0 (False, stats E' s)"
    by (subst engine_loop.simps) (simp add: used_facts engine_loop.simps [of _ 0] split: option.splits)
  finally show ?thesis .
qed

lemma work_goes_on:
  assumes "only_configuring s0" "in_slot E s0 r n c s"
  shows "set_mng_state E' s = Some s"
  using assms by (simp add: set_mng_state_def work_over_def only_configuring_def in_slot_def)

lemma no_exception: "calm c \<Longrightarrow> in_time E c \<Longrightarrow> engine_exception E c s = Some (c, s)"
  by (auto simp: engine_exception_def calm_def in_time_def Let_def)

lemma slot_quiet: "only_configuring s0 \<Longrightarrow> in_slot E s0 r n c s \<Longrightarrow> quiet s"
  by (simp add: only_configuring_def in_slot_def quiet_def)

lemma turn_waits:
  assumes "only_configuring s0" "in_slot E s0 r n c s" "WAIT_RESPONSE c" "in_time E' c"
  shows "\<exists>v. after_events E' s = Some v \<and> in_slot E s0 r n c v \<and> sent v = sent s \<and> db v = db s"
proof -
  let ?v = "set_cache 0 c (stats E' s)"
  note s' = in_slot_stats [OF assms(2), of E']
  have cc: "c_config (mng (stats E' s)) = [c, cache_reset]" and c: "calm c" using assms(2) by (simp_all add: in_slot_def)
  have v: "in_slot E s0 r n c ?v" by (rule set_slot [OF s']) (use assms(2) in \<open>simp_all add: in_slot_def\<close>)
  have "engine_slot E' 0 (False, stats E' s) = Some (False, ?v)"
    using cc no_exception [OF c assms(4)] assms(3) by (simp add: engine_slot_def idx_def)
  then show ?thesis using v engine_of_slot [OF assms(1,2)] work_goes_on [OF assms(1) v]
    by (intro exI [of _ ?v]) (simp add: after_events_def set_cache_def)
qed

text \<open>A slot whose state is done enters the next one in the same turn.\<close>

lemma turn_enters:
  assumes "only_configuring s0" "in_slot E s0 r n c s" "\<not> WAIT_RESPONSE c" "next_state c = None" "in_time E' c"
    and "tl (as_get (cc_state c) s0) \<noteq> []"
  shows "after_events E' s = enter_turn E' (tl (as_get (cc_state c) s0)) c (stats E' s)"
proof -
  note s' = in_slot_stats [OF assms(2), of E']
  have cc: "c_config (mng (stats E' s)) = [c, cache_reset]" and c: "calm c" using assms(2) by (simp_all add: in_slot_def)
  have as: "as_get x (stats E' s) = as_get x s0" for x using assms(2) by (simp add: as_get_def in_slot_def)
  have cn: "cache_node c (stats E' s) = Some n"
    using s' by (simp add: in_slot_def in_store_def cache_node_def nderef_def)
  have "as_get (cc_state c) s0 \<noteq> []" using assms(6) by auto
  then have nx: "to_next_state E' c (stats E' s) = enter_states E' (tl (as_get (cc_state c) s0)) c (stats E' s)"
    using assms(4,6) cn as by (simp add: to_next_state_def Let_def)
  show ?thesis
    unfolding after_events_def enter_turn_def engine_of_slot [OF assms(1,2)] engine_slot_def
    using cc no_exception [OF c assms(5)] assms(3,4)
    by (simp add: nx idx_def Let_def bind_assoc split_def if_distrib [of "\<lambda>x. Option.bind x _"] cong: if_cong)
qed

subsection \<open>Turn after turn\<close>

text \<open>The status a setting is confirmed with.\<close>

definition setting_status :: "nat \<Rightarrow> u32 \<Rightarrow> u16 \<Rightarrow> bgevt" where
  "setting_status w h r =
    (if w = RELAY_BITOFS then evt_relay_status h r else if w = PROXY_BITOFS then evt_gatt_proxy_status h r
     else if w = FRIEND_BITOFS then evt_friend_status h r else if w = NETTX_BITOFS then evt_network_transmit_status h r
     else if w = TTL_BITOFS then evt_default_ttl_status h r else evt_beacon_status h r)"

text \<open>
  What the node answers to the command the first slot waits for: its composition data, or the status
  that confirms the command.
\<close>

definition answer :: "u8 list \<Rightarrow> sys \<Rightarrow> bgevt list" where
  "answer data s =
    (case c_config (mng s) of
       [] \<Rightarrow> []
     | c # cs \<Rightarrow>
         (let h = cc_handle c
          in if \<not> WAIT_RESPONSE c then []
             else if cc_state c = get_dcd_em then [evt_dcd_data h 0 data, evt_dcd_data_end h bg_err_success]
             else if cc_state c = setconfig_em
             then (case node_features c s of
                 None \<Rightarrow> []
               | Some f \<Rightarrow> (case next_item f of None \<Rightarrow> [] | Some w \<Rightarrow> [setting_status w h bg_err_success]))
             else [status_of (cc_state c) 0 h bg_err_success]))"

text \<open>Turns of the main loop at the times \<open>ts\<close>, the answer of the node arriving before each of them.\<close>

fun answered_turns :: "u8 list \<Rightarrow> env \<Rightarrow> int list \<Rightarrow> sys \<Rightarrow> sys option" where
  "answered_turns data E [] s = Some s"
| "answered_turns data E (t # ts) s = do {
     (b, s) \<leftarrow> mng_turn (E\<lparr>now := t\<rparr>) (s\<lparr>evq := answer data s\<rparr>);
     answered_turns data E ts s }"

text \<open>The outcome: the node is done, without an error, and the manager is at rest.\<close>

definition finished :: "env \<Rightarrow> sys \<Rightarrow> nref \<Rightarrow> node_t \<Rightarrow> sys \<Rightarrow> bool" where
  "finished E s0 r n s \<longleftrightarrow> in_store E r (n\<lparr>n_err := 0, n_done := 1\<rparr>) s
    \<and> mng s = (mng s0)\<lparr>m_state := configured, seq_offs := 0, c_config := [cache_reset, cache_reset],
        used := 0, l_config := []\<rparr>
    \<and> node_text E s (n_uuid n) STR_ERRBITS = Some ''0x00000000'' \<and> node_text E s (n_uuid n) STR_DONE = Some ''0x01''"

text \<open>
  From a slot that waits for an answer, and from one that is about to enter the first state of \<open>nas\<close>
  that has work: each turn sends the next of the commands \<open>later\<close>, and the last of them ends with
  the outcome.
\<close>

definition carries_on :: "env \<Rightarrow> u8 list \<Rightarrow> sys \<Rightarrow> nref \<Rightarrow> node_t \<Rightarrow> sys \<Rightarrow> bgcmd list \<Rightarrow> bool" where
  "carries_on E data s0 r n s later \<longleftrightarrow> (\<forall>ts. length ts = length later \<longrightarrow>
     (\<exists>w. answered_turns data E ts s = Some w \<and> sent w = sent s @ later \<and> finished E s0 r n w))"

definition goes_on ::
  "env \<Rightarrow> u8 list \<Rightarrow> sys \<Rightarrow> nref \<Rightarrow> node_t \<Rightarrow> acc_state_emt list \<Rightarrow> config_cache_t \<Rightarrow> sys \<Rightarrow> bgcmd list \<Rightarrow> bool" where
  "goes_on E data s0 r n nas c s later \<longleftrightarrow> (\<forall>t ts. Suc (length ts) = length later \<longrightarrow>
     (\<exists>v w. enter_turn (E\<lparr>now := t\<rparr>) nas c s = Some v \<and> quiet v
        \<and> answered_turns data E ts v = Some w \<and> sent w = sent s @ later \<and> finished E s0 r n w))"

lemma carries_onI:
  assumes "only_configuring s0" "in_slot E s0 r n1 c s" "later \<noteq> []"
    and "\<And>t. \<exists>u c' n2. dispense (E\<lparr>now := t\<rparr>) (answer data s) s = Some u \<and> in_slot E s0 r n2 c' u
      \<and> (\<forall>ts. Suc (length ts) = length later \<longrightarrow> (\<exists>v w. after_events (E\<lparr>now := t\<rparr>) u = Some v \<and> quiet v
        \<and> answered_turns data E ts v = Some w \<and> sent w = sent s @ later \<and> finished E s0 r n w))"
  shows "carries_on E data s0 r n s later"
  unfolding carries_on_def
proof (intro allI impI)
  fix ts :: "int list" assume len: "length ts = length later"
  then obtain t ts' where ts: "ts = t # ts'" "Suc (length ts') = length later"
    using assms(3) by (cases ts) auto
  obtain u c' n2 v w where u: "dispense (E\<lparr>now := t\<rparr>) (answer data s) s = Some u" "in_slot E s0 r n2 c' u"
    "after_events (E\<lparr>now := t\<rparr>) u = Some v" "quiet v"
    "answered_turns data E ts' v = Some w" "sent w = sent s @ later" "finished E s0 r n w"
    using assms(4) [of t] ts(2) by blast
  obtain b where "mng_turn (E\<lparr>now := t\<rparr>) (s\<lparr>evq := answer data s\<rparr>) = Some (b, v)"
    using turn_with [OF assms(1,2) u(1-4)] by blast
  then show "\<exists>w. answered_turns data E ts s = Some w \<and> sent w = sent s @ later \<and> finished E s0 r n w"
    using u(5-) ts(1) by simp
qed

end
