(* ===== verification/Configuring.thy ===== *)
theory Configuring
  imports Answers
begin

text \<open>
  The configuration of a node, from its place in the work list to the end of the work: every turn of
  the main loop sends one command, as long as the target accepts the commands and the node confirms
  them, and the last turn makes the node a configured one.
\<close>

abbreviation accepting :: "env \<Rightarrow> bool" where
  "accepting E \<equiv> \<forall>h cmd. rsp_result (ncp E h cmd) = bg_err_success"

subsection \<open>A state that walks\<close>

lemma walking_facts:
  assumes "walking st"
  shows "has_retry st" "st \<noteq> get_dcd_em" "st \<noteq> setconfig_em" "st \<noteq> end_em" "st \<noteq> rmend_em"
    "evt_handle (status_of st 0 h r) = Some h" "is_config_device_events (status_of st 0 h r)"
    "\<not> is_add_events (status_of st 0 h r)"
  using assms by (auto simp: walking_def has_retry_def is_config_device_events_def is_add_events_def)

lemma answer_walking:
  "in_slot E s0 r n c s \<Longrightarrow> WAIT_RESPONSE c \<Longrightarrow> walking (cc_state c) \<Longrightarrow>
    answer data s = [status_of (cc_state c) 0 (cc_handle c) bg_err_success]"
  using walking_facts(2,3) [of "cc_state c"] by (simp add: answer_def in_slot_def)

lemma walking_event:
  assumes "only_configuring s0" "in_slot E s0 r n c s" "WAIT_RESPONSE c" "walking (cc_state c)"
    and "state_inprg E' (cc_state c) (status_of (cc_state c) 0 (cc_handle c) bg_err_success) c s = Some (asr_suc, c', s')"
    and "s' = s\<lparr>sent := h\<rparr>" "cc_node c' = cc_node c" "calm c'"
  shows "dispense E' (answer data s) s = Some (set_cache 0 c' s')" "in_slot E s0 r n c' (set_cache 0 c' s')"
proof -
  note f = walking_facts [OF assms(4)]
  have "handle_event E' (status_of (cc_state c) 0 (cc_handle c) bg_err_success) s = Some (True, set_cache 0 c' s')"
    by (rule slot_event [OF assms(1-3) f(1,6-8) assms(5)]) (use assms(6,8) in simp_all)
  then show "dispense E' (answer data s) s = Some (set_cache 0 c' s')"
    by (simp add: answer_walking [OF assms(2-4)])
  show "in_slot E s0 r n c' (set_cache 0 c' s')"
    unfolding assms(6) by (rule set_slot [OF in_slot_sent [OF assms(2)]]) (use assms(2,7,8) in \<open>simp_all add: in_slot_def\<close>)
qed

lemma same_work_node: "same_work c c' \<Longrightarrow> cc_node c' = cc_node c \<and> cc_state c' = cc_state c \<and> cc_dcd c' = cc_dcd c"
  by (simp add: same_work_def)

text \<open>An iterator changes its counters only.\<close>

lemma state_iter_node:
  assumes "state_iter st c s = Some (b, c')"
  shows "cc_node c' = cc_node c \<and> cc_state c' = cc_state c \<and> cc_dcd c' = cc_dcd c"
proof -
  have e: "let q = snd (next_elem c) in cc_node q = cc_node c \<and> cc_state q = cc_state c \<and> cc_dcd q = cc_dcd c" for c
    by (simp add: next_elem_def Let_def)
  have m: "let q = snd bq in cc_node q = cc_node c \<and> cc_state q = cc_state c \<and> cc_dcd q = cc_dcd c"
    if "step_model sup c = Some bq" for sup c bq
    using that e [of c] by (auto simp: step_model_def bind_Some_conv Let_def split: option.splits)
  show ?thesis
  proof (cases st)
    case addappkey_em
    then show ?thesis using assms by (auto simp: iter_appkey_def bind_Some_conv split: if_splits)
  next
    case bindappkey_em
    let ?c = "c\<lparr>iter2 := 0, iter1 := Suc (iter1 c)\<rparr>"
    obtain l i where l: "node_bindings c s = Some l" "next_key (known_key s) l (iter2 c) = Some i"
      using assms bindappkey_em by (auto simp: iter_bindings_def bind_Some_conv)
    show ?thesis
    proof (cases "i = unat (l_len l)")
      case True
      then obtain el where "(if iter1 ?c = model_cnt el then next_elem ?c else (False, ?c)) = (b, c')"
        using assms bindappkey_em l by (auto simp: iter_bindings_def bind_Some_conv Let_def simp del: split_paired_Ex)
      then show ?thesis using e [of ?c] by (cases "iter1 ?c = model_cnt el") (simp_all add: Let_def, auto)
    qed (use assms bindappkey_em l in \<open>auto simp: iter_bindings_def\<close>)
  next
    case setpub_em
    then show ?thesis using assms m [of pub_supported c "(b, c')"] by (simp add: iter_setpub_def Let_def)
  next
    case addsub_em
    then show ?thesis using assms m [of sub_supported "c\<lparr>iter2 := 0\<rparr>" "(b, c')"]
      by (auto simp: iter_addsub_def bind_Some_conv Let_def split: if_splits)
  qed (use assms in simp_all)
qed

text \<open>The slot waits for the answer to the first command of the walk.\<close>

lemma walk_turns:
  assumes "walk (state_plan st) (state_iter st) D p cmds b pf" and b
    and st: "walking st" and only: "only_configuring s0" and acc: "accepting E"
    and nas: "tl (as_get st s0) = nas" "nas \<noteq> []" and later: "later \<noteq> []"
    and cont: "\<And>c s. in_slot E s0 r n c s \<Longrightarrow> same_work pf c \<Longrightarrow> db s = db D \<Longrightarrow> goes_on E data s0 r n' nas c s later"
    and s: "in_slot E s0 r n c s" "same_work p c" "cc_state p = st" "WAIT_RESPONSE c" "next_state c = Some st"
      "db s = db D"
  shows "carries_on E data s0 r n' s (tl cmds @ later)"
  using assms(1,2) cont s
proof (induction arbitrary: c s rule: walk.induct)
  case (walk_one p cmd m b p')
  note sw = same_work_node [OF walk_one(6)] and it = state_iter_node [OF walk_one(2)]
  have cst: "cc_state c = st" and wc: "walking (cc_state c)" and cn: "calm c" "cc_node c = Some r"
    using sw walk_one(5,7) st by (simp_all add: in_slot_def)
  show ?case
  proof (rule carries_onI [OF only walk_one(5)])
    fix t
    let ?E = "E\<lparr>now := t\<rparr>"
    obtain c1 where c1: "same_work p' c1" "\<not> WAIT_RESPONSE c1" "calm c1" "expired c1 = 0"
      "state_inprg ?E st (status_of st 0 (cc_handle c) bg_err_success) c s = Some (asr_suc, c1\<lparr>next_state := None\<rparr>, s)"
      using walking_confirmed [OF st walk_one(2,6,10) cn(1), where h = "cc_handle c" and E = ?E] walk_one(3) by auto
    let ?c = "c1\<lparr>next_state := None\<rparr>" and ?u = "set_cache 0 (c1\<lparr>next_state := None\<rparr>) s"
    have n1: "cc_node ?c = cc_node c" "cc_state ?c = st"
      using same_work_node [OF c1(1)] it sw walk_one(7) by simp_all
    have cm: "calm ?c" "in_time ?E ?c" using c1(3,4) by (simp_all add: in_time_def)
    have u: "dispense ?E (answer data s) s = Some ?u" "in_slot E s0 r n ?c ?u"
      using walking_event [OF only walk_one(5,8) wc _ _ n1(1) cm(1), of ?E s "sent s"] c1(5) cst by simp_all
    have e: "after_events ?E ?u = enter_turn ?E nas ?c (stats ?E ?u)"
      using turn_enters [OF only u(2) _ _ cm(2)] c1(2) n1(2) nas by simp
    have "goes_on E data s0 r n' nas ?c (stats ?E ?u) later"
      by (rule walk_one(4) [OF in_slot_stats [OF u(2)]]) (use c1(1) walk_one(10) in \<open>simp_all add: set_cache_def\<close>)
    then show "\<exists>u c' n2. dispense ?E (answer data s) s = Some u \<and> in_slot E s0 r n2 c' u
      \<and> (\<forall>ts. Suc (length ts) = length (tl [cmd] @ later) \<longrightarrow> (\<exists>v w. after_events ?E u = Some v \<and> quiet v
        \<and> answered_turns data E ts v = Some w \<and> sent w = sent s @ tl [cmd] @ later \<and> finished E s0 r n' w))"
      using u e unfolding goes_on_def
      by (intro exI [of _ ?u] exI [of _ ?c] exI [of _ n]) (simp add: set_cache_def)
  qed (simp add: later)
next
  case (walk_more p cmd m p1 cmds b pf)
  note sw = same_work_node [OF walk_more(8)] and it = state_iter_node [OF walk_more(2)]
  have cst: "cc_state c = st" and wc: "walking (cc_state c)" and cn: "calm c" "cc_node c = Some r"
    using sw walk_more(7,9) st by (simp_all add: in_slot_def)
  obtain cmd' m' rest where p1: "state_plan st p1 D = Some (cmd', m')" "cmds = cmd' # rest"
    using walk_more(3) by (cases rule: walk.cases) auto
  show ?case
  proof (rule carries_onI [OF only walk_more(7)])
    fix t
    let ?E = "E\<lparr>now := t\<rparr>"
    obtain c1 where c1: "same_work p1 c1" "\<not> WAIT_RESPONSE c1" "calm c1" "next_state c1 = next_state c"
      "state_inprg ?E st (status_of st 0 (cc_handle c) bg_err_success) c s = state_send st ?E c1 s"
      using walking_confirmed [OF st walk_more(2,8,12) cn(1), where h = "cc_handle c" and E = ?E] by auto
    have "rsp_result (ncp ?E (sent s) cmd') = bg_err_success" using acc by simp
    then obtain c2 where c2: "state_send st ?E c1 s = Some (asr_suc, c2, s\<lparr>sent := sent s @ [cmd']\<rparr>)"
      "same_work p1 c2" "WAIT_RESPONSE c2" "calm c2" "in_time ?E c2" "next_state c2 = next_state c1"
      using walking_send [OF st p1(1) c1(1) walk_more(12) c1(3)] by blast
    let ?s = "s\<lparr>sent := sent s @ [cmd']\<rparr>" and ?u = "set_cache 0 c2 (s\<lparr>sent := sent s @ [cmd']\<rparr>)"
    have n2: "cc_node c2 = cc_node c" using same_work_node [OF c2(2)] it sw by simp
    have u: "dispense ?E (answer data s) s = Some ?u" "in_slot E s0 r n c2 ?u"
      using walking_event [OF only walk_more(7,10) wc _ _ n2 c2(4), of ?E ?s] c1(5) c2(1) cst by simp_all
    obtain v where v: "after_events ?E ?u = Some v" "in_slot E s0 r n c2 v" "sent v = sent ?u" "db v = db ?u"
      using turn_waits [OF only u(2) c2(3,5)] by blast
    have "carries_on E data s0 r n' v (tl cmds @ later)"
      by (rule walk_more.IH [OF walk_more(5,6) v(2) c2(2)])
        (use it walk_more(9,11,12) c1(4) c2(3,6) v(4) in \<open>simp_all add: set_cache_def\<close>)
    then show "\<exists>u c' n2. dispense ?E (answer data s) s = Some u \<and> in_slot E s0 r n2 c' u
      \<and> (\<forall>ts. Suc (length ts) = length (tl (cmd # cmds) @ later) \<longrightarrow> (\<exists>v w. after_events ?E u = Some v \<and> quiet v
        \<and> answered_turns data E ts v = Some w \<and> sent w = sent s @ tl (cmd # cmds) @ later \<and> finished E s0 r n' w))"
      using u v(1,3) slot_quiet [OF only v(2)] p1(2) unfolding carries_on_def
      by (intro exI [of _ ?u] exI [of _ c2] exI [of _ n]) (auto simp: set_cache_def)
  qed (simp add: later)
qed

subsection \<open>The work of a node\<close>

text \<open>The publication of a node that has one and is bound to its key.\<close>

definition pub_due :: "node_t \<Rightarrow> publication_t option" where
  "pub_due n = (case (pub (n_config n), bindings (n_config n)) of
     (Some p, Some l) \<Rightarrow> if l_len l \<noteq> 0 \<and> pub_aki p \<in> set (take (unat (l_len l)) (l_data l)) then Some p else None
   | _ \<Rightarrow> None)"

text \<open>The commands of the states, by the node, its composition data and the keys of the provisioner.\<close>

fun state_work :: "u16 \<Rightarrow> sys \<Rightarrow> node_t \<Rightarrow> dcd_t \<Rightarrow> acc_state_emt \<Rightarrow> bgcmd list" where
  "state_work nk s n d addappkey_em = (case bindings (n_config n) of
     None \<Rightarrow> [] | Some l \<Rightarrow> if l_len l = 0 then [] else map (\<lambda>k. cmd_add_appkey nk (n_addr n) k nk) (keys_of s l))"
| "state_work nk s n d bindappkey_em = (case bindings (n_config n) of
     None \<Rightarrow> [] | Some l \<Rightarrow> if l_len l = 0 then [] else bind_cmds nk (n_addr n) (keys_of s l) d)"
| "state_work nk s n d setpub_em = (case pub_due n of
     None \<Rightarrow> [] | Some p \<Rightarrow> (case key_id_of s (pub_aki p) of
       None \<Rightarrow> [] | Some k \<Rightarrow> per_model pub_supported (\<lambda>e m. [pub_cmd nk (n_addr n) k p e m]) d))"
| "state_work nk s n d addsub_em = (case sublist (n_config n) of
     None \<Rightarrow> [] | Some l \<Rightarrow> if l_len l = 0 then []
       else per_model sub_supported (sub_cmds nk (n_addr n) (take (unat (l_len l)) (l_data l))) d)"
| "state_work nk s n d _ = []"

text \<open>The lists of the node hold what they say, and the keys it needs are keys of the provisioner.\<close>

definition node_ready :: "u16 \<Rightarrow> sys \<Rightarrow> node_t \<Rightarrow> dcd_t \<Rightarrow> bool" where
  "node_ready nk s n d \<longleftrightarrow> netkey_id s = Some nk \<and> dcd_ok d
    \<and> (case bindings (n_config n) of None \<Rightarrow> True | Some l \<Rightarrow> l_len l = 0 \<or> keys_ready s l)
    \<and> (case pub_due n of None \<Rightarrow> True | Some p \<Rightarrow> key_id_of s (pub_aki p) \<noteq> None)
    \<and> (case sublist (n_config n) of None \<Rightarrow> True | Some l \<Rightarrow> unat (l_len l) \<le> length (l_data l))"

lemma has_aki_eq: "k \<le> length ks \<Longrightarrow> has_aki a k ks = Some (a \<in> set (take k ks))"
  by (induction a k ks rule: has_aki.induct) auto

lemma state_works:
  assumes ready: "node_ready nk s n d" and st: "walking st" and c: "cache_node c s = Some n" "cc_dcd c = d"
    and i: "iter0 c = 0" "iter1 c = 0" "iter2 c = 0"
  shows "\<exists>g. state_guard st c s = Some g \<and> (if g
    then walk (state_plan st) (state_iter st) s c (state_work nk s n d st) True c else state_work nk s n d st = [])"
proof -
  have nk: "netkey_id s = Some nk" and d: "dcd_ok (cc_dcd c)" using ready c by (simp_all add: node_ready_def)
  consider "st = addappkey_em" | "st = bindappkey_em" | "st = setpub_em" | "st = addsub_em"
    using st by (auto simp: walking_def)
  then show ?thesis
  proof cases
    case 1
    then show ?thesis using ready c appkeys_walk [OF c(1) _ _ nk i(1)]
      by (auto simp: addappkey_guard_def node_ready_def split: option.splits)
  next
    case 2
    then show ?thesis using ready c bindings_walk [OF c(1) _ _ nk d i]
      by (auto simp: bindappkey_guard_def node_ready_def split: option.splits)
  next
    case 3
    show ?thesis
    proof (cases "pub_due n")
      case None
      have "setpub_guard c s = Some False"
        using None ready c by (auto simp: setpub_guard_def pub_due_def node_ready_def keys_ready_def has_aki_eq
            split: option.splits if_splits)
      then show ?thesis using 3 None by (intro exI [of _ False]) simp
    next
      case (Some p)
      then obtain l where l: "pub (n_config n) = Some p" "bindings (n_config n) = Some l" "l_len l \<noteq> 0"
        "pub_aki p \<in> set (take (unat (l_len l)) (l_data l))"
        by (auto simp: pub_due_def split: option.splits if_splits)
      have "unat (l_len l) \<le> length (l_data l)" using ready l by (simp add: node_ready_def keys_ready_def)
      then have g: "setpub_guard c s = Some True" using l c by (simp add: setpub_guard_def has_aki_eq)
      obtain k where k: "key_id_of s (pub_aki p) = Some k" using ready Some by (auto simp: node_ready_def)
      then have "appkey_by_refid s (pub_aki p) = Some (Some k)" by (auto simp: key_id_of_def split: option.splits)
      then show ?thesis using publication_walk [OF c(1) l(1) _ nk d i] 3 g Some k c(2)
        by (intro exI [of _ True]) simp
    qed
  next
    case 4
    then show ?thesis using ready c subscription_walk [OF c(1) _ _ _ nk d i]
      by (auto simp: addsub_guard_def node_ready_def split: option.splits)
  qed
qed

subsection \<open>Entering the states\<close>

definition at_start :: "dcd_t \<Rightarrow> config_cache_t \<Rightarrow> bool" where
  "at_start d c \<longleftrightarrow> iter0 c = 0 \<and> iter1 c = 0 \<and> iter2 c = 0 \<and> cc_dcd c = d"

lemma state_upd [simp]:
  "state_plan st (c\<lparr>cc_state := x\<rparr>) s = state_plan st c s" "state_guard st (c\<lparr>cc_state := x\<rparr>) s = state_guard st c s"
proof -
  have f: "cache_node (c\<lparr>cc_state := x\<rparr>) s = cache_node c s" "cur_model (c\<lparr>cc_state := x\<rparr>) = cur_model c"
    by (simp_all add: cache_node_def cur_model_def cur_elem_def)
  show "state_plan st (c\<lparr>cc_state := x\<rparr>) s = state_plan st c s"
    by (cases st) (simp_all add: plan_defs add_appkey_cmd_def bind_appkey_cmd_def setpub_cmd_def addsub_cmd_def
        node_bindings_def node_sublist_def f)
  show "state_guard st (c\<lparr>cc_state := x\<rparr>) s = state_guard st c s"
    by (cases st) (simp_all add: addappkey_guard_def bindappkey_guard_def setpub_guard_def addsub_guard_def f)
qed

lemma enter_sends:
  assumes only: "only_configuring s0" and s: "in_slot E s0 r n c s" and st: "st \<noteq> end_em" "st \<noteq> rmend_em"
    and e: "state_entry E' st c s = Some (asr_suc, c', s\<lparr>sent := h\<rparr>)" and c': "cc_node c' = cc_node c" "calm c'"
  shows "\<exists>v. enter_turn E' (st # nas) c s = Some v \<and> in_slot E s0 r n (c'\<lparr>cc_state := st, next_state := Some st\<rparr>) v
    \<and> sent v = h \<and> db v = db s"
proof -
  let ?c = "c'\<lparr>cc_state := st, next_state := Some st\<rparr>" and ?t = "s\<lparr>sent := h\<rparr>"
  let ?v = "set_cache 0 (c'\<lparr>cc_state := st, next_state := Some st\<rparr>) (s\<lparr>sent := h\<rparr>)"
  have v: "in_slot E s0 r n ?c ?v"
    by (rule set_slot [OF in_slot_sent [OF s]]) (use s c' in \<open>simp_all add: in_slot_def\<close>)
  have "enter_turn E' (st # nas) c s = Some ?v"
    using st e work_goes_on [OF only v] by (simp add: enter_turn_def)
  then show ?thesis using v by (intro exI [of _ ?v]) (simp add: set_cache_def)
qed

lemma goes_on_skips:
  assumes "\<And>t. state_entry (E\<lparr>now := t\<rparr>) st c s = Some (asr_tonext, c, s)" and "goes_on E data s0 r n nas c s later"
  shows "goes_on E data s0 r n (st # nas) c s later"
  using assms by (simp add: goes_on_def enter_turn_def)

lemma goes_on_walks:
  assumes st: "walking st" and only: "only_configuring s0" and acc: "accepting E"
    and nas: "tl (as_get st s0) = nas" "nas \<noteq> []" and later: "later \<noteq> []" and ready: "node_ready nk D n d"
    and cont: "\<And>c s. in_slot E s0 r n c s \<Longrightarrow> at_start d c \<Longrightarrow> db s = db D \<Longrightarrow> goes_on E data s0 r n' nas c s later"
    and s: "in_slot E s0 r n c s" "at_start d c" "db s = db D"
  shows "goes_on E data s0 r n' (st # nas) c s (state_work nk D n d st @ later)"
proof -
  let ?p = "c\<lparr>cc_state := st\<rparr>"
  have p: "cache_node ?p D = Some n" "cc_dcd ?p = d" "iter0 ?p = 0" "iter1 ?p = 0" "iter2 ?p = 0"
    using s by (simp_all add: at_start_def cache_node_def nderef_def in_slot_def in_store_def)
  obtain g where g: "state_guard st c D = Some g" "if g
      then walk (state_plan st) (state_iter st) D ?p (state_work nk D n d st) True ?p else state_work nk D n d st = []"
    using state_works [OF ready st p] by auto
  have e: "state_entry E' st c s = (if g then state_send st E' c s else Some (asr_tonext, c, s))" for E'
    by (rule state_entry_walk [OF st]) (use state_db(3) [OF s(3)] g(1) in simp)
  show ?thesis
  proof (cases g)
    case False
    then show ?thesis using cont [OF s] e g(2) by (intro goes_on_skips) simp_all
  next
    case True
    then have w: "walk (state_plan st) (state_iter st) D ?p (state_work nk D n d st) True ?p" using g(2) by simp
    then obtain cmd m rest where cmd: "state_plan st c D = Some (cmd, m)" "state_work nk D n d st = cmd # rest"
      by (cases rule: walk.cases) auto
    have cn: "calm c" "cc_node c = Some r" using s(1) by (simp_all add: in_slot_def)
    show ?thesis unfolding goes_on_def
    proof (intro allI impI)
      fix t :: int and ts :: "int list"
      assume len: "Suc (length ts) = length (state_work nk D n d st @ later)"
      let ?E = "E\<lparr>now := t\<rparr>"
      have "rsp_result (ncp ?E (sent s) cmd) = bg_err_success" using acc by simp
      then obtain c1 where c1: "state_send st ?E c s = Some (asr_suc, c1, s\<lparr>sent := sent s @ [cmd]\<rparr>)"
        "same_work c c1" "WAIT_RESPONSE c1" "calm c1"
        using walking_send [OF st cmd(1) same_work_refl s(3) cn(1)] by blast
      let ?c = "c1\<lparr>cc_state := st, next_state := Some st\<rparr>"
      obtain v where v: "enter_turn ?E (st # nas) c s = Some v" "in_slot E s0 r n ?c v"
        "sent v = sent s @ [cmd]" "db v = db s"
        using enter_sends [OF only s(1) walking_facts(4,5) [OF st], of ?E c1 "sent s @ [cmd]" nas] e True c1
          same_work_node [OF c1(2)] by auto
      have "carries_on E data s0 r n' v (tl (state_work nk D n d st) @ later)"
        by (rule walk_turns [OF w TrueI st only acc nas later _ v(2)])
          (use cont c1(2,3) s(3) v(4) p(2-5) in \<open>simp_all add: same_work_def WAIT_RESPONSE_def at_start_def\<close>)
      moreover have "length ts = length (tl (state_work nk D n d st) @ later)" using len cmd(2) by simp
      ultimately obtain w where "answered_turns data E ts v = Some w" "sent w = sent v @ tl (state_work nk D n d st) @ later"
        "finished E s0 r n' w" unfolding carries_on_def by blast
      then show "\<exists>v w. enter_turn ?E (st # nas) c s = Some v \<and> quiet v \<and> answered_turns data E ts v = Some w
          \<and> sent w = sent s @ state_work nk D n d st @ later \<and> finished E s0 r n' w"
        using v(1,3) slot_quiet [OF only v(2)] cmd(2) by (intro exI [of _ v] exI [of _ w]) simp
    qed
  qed
qed

end
