(* ===== verification/Finishing.thy ===== *)
theory Finishing
  imports Configuring
begin

unbundle bit_operations_syntax

text \<open>
  The last two states of a configuration: the settings of the node, one command for each that is not
  as it should be, and the end, which records the node as configured and lets the manager rest.
\<close>

subsection \<open>The time does not matter to the files\<close>

lemma json_at_time: "json_object_get_string (E\<lparr>now := t\<rparr>) j = json_object_get_string E j"
proof (cases j)
  case (Some x)
  then show ?thesis by (cases x) simp_all
qed simp

lemma file_at_time [simp]:
  "nw_ok (E\<lparr>now := t\<rparr>) s = nw_ok E s" "find_node (E\<lparr>now := t\<rparr>) u s = find_node E u s"
  "node_present (E\<lparr>now := t\<rparr>) s u = node_present E s u" "node_text (E\<lparr>now := t\<rparr>) s u k = node_text E s u k"
proof -
  have u: "node_uuid (E\<lparr>now := t\<rparr>) = node_uuid E" by (simp add: node_uuid_def json_at_time fun_eq_iff)
  have "find_node_from (E\<lparr>now := t\<rparr>) u i xs = find_node_from E u i xs" for i xs
  proof (induction xs arbitrary: i)
    case (Cons x xs)
    then show ?case by (cases "node_uuid E x") (simp_all add: u)
  qed simp
  then have "find_node_from (E\<lparr>now := t\<rparr>) u = find_node_from E u" by (simp add: fun_eq_iff)
  then show f: "find_node (E\<lparr>now := t\<rparr>) u s = find_node E u s"
    by (simp add: find_node_def cong: option.case_cong prod.case_cong)
  show "nw_ok (E\<lparr>now := t\<rparr>) s = nw_ok E s" by (simp add: nw_ok_def nw_at_def u)
  show "node_present (E\<lparr>now := t\<rparr>) s u = node_present E s u" by (simp add: node_present_def f)
  show "node_text (E\<lparr>now := t\<rparr>) s u k = node_text E s u k" by (simp add: node_text_def node_field_def f json_at_time)
qed

lemma in_store_at_time [simp]: "in_store (E\<lparr>now := t\<rparr>) r n s = in_store E r n s"
  by (simp add: in_store_def)

subsection \<open>The end\<close>

text \<open>What the end of a configuration does to the store; \<open>ON_END_DEBUG\<close> sends a message to a group.\<close>

definition end_message :: "u8 \<Rightarrow> bgcmd" where
  "end_message t = cmd_generic_client_set 0x1001 0xc030 t 0 [1]"

lemma end_spec:
  assumes st: "in_store E r n s" and c: "cc_node c = Some r"
  shows "\<exists>s'. end_on_success E c s = Some s' \<and> in_store E r (n\<lparr>n_err := 0, n_done := 1\<rparr>) s'
    \<and> node_text E s' (n_uuid n) STR_ERRBITS = Some ''0x00000000'' \<and> node_text E s' (n_uuid n) STR_DONE = Some ''0x01''
    \<and> rest s' = rest (s\<lparr>sent := sent s @ [end_message (tid s)], tid := tid s + 1\<rparr>)"
proof -
  have cn: "cache_node c t = heap (db t) r" for t using c by (simp add: cache_node_def nderef_def)
  obtain s1 where s1: "nodeset_errbits E (n_addr n) 0 s = Some (ec_success, s1)" "in_store E r (n\<lparr>n_err := 0\<rparr>) s1"
    "rest s1 = rest s" "node_text E s1 (n_uuid n) STR_ERRBITS = Some (''0x'' @ uint32_tostr 0)"
    using nodeset_specs(1) [OF st, of 0] by auto
  obtain s2 where s2: "nodeset_done E (n_addr n) 1 s1 = Some (ec_success, s2)"
    "in_store E r (n\<lparr>n_err := 0, n_done := 1\<rparr>) s2" "rest s2 = rest s1"
    "node_text E s2 (n_uuid n) STR_DONE = Some (''0x'' @ uint8_tostr 1)"
    "node_text E s2 (n_uuid n) STR_ERRBITS = Some (''0x'' @ uint32_tostr 0)"
    using nodeset_specs(2) [OF s1(2), of 1] s1(4) by auto
  have h: "heap (db s) r = Some n" "heap (db s1) r = Some (n\<lparr>n_err := 0\<rparr>)"
    using st s1(2) by (simp_all add: in_store_def)
  have t: "''0x'' @ uint32_tostr 0 = ''0x00000000''" "''0x'' @ uint8_tostr 1 = ''0x01''" by code_simp+
  let ?v = "s2\<lparr>sent := sent s2 @ [end_message (tid s2)], tid := tid s2 + 1\<rparr>"
  have k: "tid s2 = tid s" "sent s2 = sent s"
    using arg_cong [OF s2(3), of tid] arg_cong [OF s1(3), of tid] restD(3) [OF s2(3)] restD(3) [OF s1(3)]
    by (simp_all add: rest_def)
  have r: "rest (x\<lparr>sent := a, tid := b\<rparr>) = (rest x)\<lparr>sent := a, tid := b\<rparr>" for x a b
    by (cases x) (simp add: rest_def)
  have "end_on_success E c s = Some ?v"
    using s1(1) s2(1) h by (simp add: end_on_success_def cn send_onoff_def client_set_def bgcall_def end_message_def)
  moreover have "rest ?v = rest (s\<lparr>sent := sent s @ [end_message (tid s)], tid := tid s + 1\<rparr>)"
    using s1(3) s2(3) k by (simp add: r)
  ultimately show ?thesis
    using s2 t in_store_cong [of ?v s2 E r] file_cong [of ?v s2] by (intro exI [of _ ?v]) simp
qed

lemma goes_on_ends:
  assumes only: "only_configuring s0" and s: "in_slot E s0 r n c s"
  shows "goes_on E data s0 r n (end_em # nas) c s [end_message (tid s0)]"
  unfolding goes_on_def
proof (intro allI impI)
  fix t :: int and ts :: "int list" assume "Suc (length ts) = length [end_message (tid s0)]"
  then have ts: "ts = []" by simp
  let ?E = "E\<lparr>now := t\<rparr>" and ?s = "stat_config_one_dev s"
  have st: "in_store ?E r n ?s" using s in_store_cong [of ?s s E r n] by (simp add: in_slot_def stat_defs)
  have c: "cc_node c = Some r" "\<not> has_error c" using s by (simp_all add: in_slot_def calm_def)
  have f: "sent ?s = sent s" "tid ?s = tid s0" using s by (simp_all add: stat_defs upd_stat_def in_slot_def)
  obtain s1 where s1: "end_on_success ?E c ?s = Some s1" "in_store E r (n\<lparr>n_err := 0, n_done := 1\<rparr>) s1"
    "node_text E s1 (n_uuid n) STR_ERRBITS = Some ''0x00000000''" "node_text E s1 (n_uuid n) STR_DONE = Some ''0x01''"
    and r1: "rest s1 = rest (?s\<lparr>sent := sent ?s @ [end_message (tid ?s)], tid := tid ?s + 1\<rparr>)"
    using end_spec [OF st c(1)] by auto
  have k: "mng s1 = mng s" "sent s1 = sent s @ [end_message (tid s0)]" "demo_expired s1 = 0"
    using restD [OF r1] f s by (simp_all add: in_slot_def) (simp add: stat_defs upd_stat_def)
  let ?c = "c\<lparr>cc_state := end_em, next_state := Some end_em\<rparr>" and ?v = "cache_reset_idx 0 s1"
  have mv: "mng ?v = (mng s0)\<lparr>c_config := [cache_reset, cache_reset], used := 0, l_config := []\<rparr>"
    using k(1) s by (simp add: cache_reset_idx_def set_cache_def in_slot_def used_facts)
  let ?w = "stat_config_end ?E ?v"
  have mw: "mng ?w = mng ?v" by simp
  have "\<exists>j. next_work ?E (3 - seq_offs (mng ?w)) ?w = Some (False, set_seq_offs j ?w)"
    by (rule next_work_idle) (use only mv in \<open>simp_all add: only_configuring_def prios_wf_def\<close>)
  then obtain j where j: "next_work ?E (3 - seq_offs (mng ?w)) ?w = Some (False, set_seq_offs j ?w)" by blast
  let ?f = "set_state configured (set_seq_offs 0 (set_seq_offs j ?w))"
  have "work_over ?E ?v = (True, ?w)" using only mv by (simp add: work_over_def only_configuring_def)
  then have state: "set_mng_state ?E ?v = Some ?f"
    using only mv j by (simp add: set_mng_state_def Let_def only_configuring_def)
  have e: "enter_turn ?E (end_em # nas) c s = Some ?f"
    using s1(1) c state by (simp add: enter_turn_def end_entry_def has_error_def)
  have fr: "db ?f = db s1" "jcfg ?f = jcfg s1" "sent ?f = sent s1" "demo_expired ?f = demo_expired s1"
    by (simp_all add: set_state_def set_seq_offs_def cache_reset_idx_def set_cache_def stat_defs)
      (simp_all add: upd_stat_def)
  have "finished E s0 r n ?f"
    using s1 mv in_store_cong [OF fr(1,2)] file_cong [OF fr(2)]
    by (simp add: finished_def set_state_def set_seq_offs_def)
  moreover have "quiet ?f"
    using only mv fr(4) k(3) by (simp add: quiet_def set_state_def set_seq_offs_def only_configuring_def)
  ultimately show "\<exists>v w. enter_turn ?E (end_em # nas) c s = Some v \<and> quiet v
      \<and> answered_turns data E ts v = Some w \<and> sent w = sent s @ [end_message (tid s0)] \<and> finished E s0 r n w"
    using e ts fr(3) k(2) by (intro exI [of _ ?f]) simp
qed

subsection \<open>The settings\<close>

text \<open>The settings that are not as they should be, lowest first.\<close>

definition settings_due :: "features_t \<Rightarrow> nat list" where
  "settings_due f = filter (\<lambda>w. bit (target f) w \<noteq> bit (current f) w) [0..<16]"

text \<open>Each of them has a command, and the value it takes is given.\<close>

definition settings_ready :: "node_t \<Rightarrow> bool" where
  "settings_ready n \<longleftrightarrow> (\<forall>w \<in> set (settings_due (features (n_config n))). configurable (Some w)
     \<and> (w = RELAY_BITOFS \<longrightarrow> relay_txp (features (n_config n)) \<noteq> None)
     \<and> (w = TTL_BITOFS \<longrightarrow> ttl (n_config n) \<noteq> None) \<and> (w = NETTX_BITOFS \<longrightarrow> net_txp (n_config n) \<noteq> None))"

definition set_work :: "u16 \<Rightarrow> node_t \<Rightarrow> bgcmd list" where
  "set_work nk n = map (\<lambda>w. the (config_cmd nk n (Some w))) (settings_due (features (n_config n)))"

text \<open>The node with its settings as they should be.\<close>

definition settled :: "node_t \<Rightarrow> node_t" where
  "settled n = n\<lparr>n_config := (n_config n)\<lparr>features := (features (n_config n))\<lparr>current := target (features (n_config n))\<rparr>\<rparr>\<rparr>"

definition setting_done :: "nat \<Rightarrow> node_t \<Rightarrow> node_t" where
  "setting_done w n = n\<lparr>n_config := (n_config n)\<lparr>features := feature_done w (features (n_config n))\<rparr>\<rparr>"

lemma set_settings_due: "set (settings_due f) = todo f"
  using todo_bound [of f] by (auto simp: settings_due_def todo_def)

lemma next_item_due: "next_item f = (case settings_due f of [] \<Rightarrow> None | w # ws \<Rightarrow> Some w)"
proof (cases "settings_due f")
  case Nil
  then show ?thesis using next_item_None [of f] set_settings_due [of f] by simp
next
  case (Cons w ws)
  then have "todo f \<noteq> {}" and w: "w \<in> todo f" using set_settings_due [of f] by auto
  then obtain v where v: "next_item f = Some v" using next_item_None [of f] by auto
  have "sorted (w # ws)" unfolding Cons [symmetric] settings_due_def by (simp add: sorted_wrt_filter)
  moreover have "v \<in> set (w # ws)" using next_item_Some(1) [OF v] set_settings_due [of f] Cons by simp
  ultimately have "w \<le> v" by auto
  moreover have "\<not> w < v" using next_item_Some(2) [OF v] w by blast
  ultimately show ?thesis using v Cons by simp
qed

lemma settings_due_done:
  assumes "settings_due f = w # ws"
  shows "settings_due (feature_done w f) = ws"
proof -
  have d: "distinct (w # ws)" unfolding assms [symmetric] settings_due_def by simp
  have "w \<in> todo f" using set_settings_due [of f] assms by auto
  then have "w < 16" using todo_bound [of f] by auto
  then have t: "todo (feature_done w f) = todo f - {w}" by (rule feature_done_todo)
  have "settings_due (feature_done w f) = filter (\<lambda>v. v \<noteq> w) (settings_due f)"
    using t unfolding settings_due_def todo_def filter_filter by (intro filter_cong) auto
  also have "\<dots> = ws" using assms d by (auto simp: filter_id_conv)
  finally show ?thesis .
qed

lemma setting_done_simps [simp]:
  "n_addr (setting_done w n) = n_addr n" "n_uuid (setting_done w n) = n_uuid n"
  "config_cmd nk (setting_done w n) v = config_cmd nk n v" "settled (setting_done w n) = settled n"
  "features (n_config (setting_done w n)) = feature_done w (features (n_config n))"
  "ttl (n_config (setting_done w n)) = ttl (n_config n)" "net_txp (n_config (setting_done w n)) = net_txp (n_config n)"
proof -
  have f: "relay_txp (feature_done w f) = relay_txp f" "(feature_done w f)\<lparr>current := x\<rparr> = f\<lparr>current := x\<rparr>" for f x
    by (simp_all add: feature_done_def)
  show "config_cmd nk (setting_done w n) v = config_cmd nk n v"
    by (simp add: config_cmd_def setting_done_def f Let_def)
  show "settled (setting_done w n) = settled n" by (simp add: settled_def setting_done_def f)
qed (simp_all add: setting_done_def)

lemma settings_ready_done:
  assumes "settings_ready n" "settings_due (features (n_config n)) = w # ws"
  shows "settings_ready (setting_done w n)"
proof -
  have "relay_txp (feature_done w f) = relay_txp f" for f by (simp add: feature_done_def)
  then show ?thesis using assms settings_due_done [OF assms(2)] by (simp add: settings_ready_def)
qed

lemma settings_all_done: "settings_due (features (n_config n)) = [] \<Longrightarrow> settled n = n"
proof -
  assume "settings_due (features (n_config n)) = []"
  then have "current (features (n_config n)) = target (features (n_config n))"
    using set_settings_due [of "features (n_config n)"] todo_empty by auto
  moreover have "f\<lparr>current := target f\<rparr> = f" if "current f = target f" for f :: features_t
    using that by (cases f) simp
  ultimately show ?thesis by (simp add: settled_def)
qed

lemma setting_status_facts:
  assumes "configurable (Some w)"
  shows "config_status (setting_status w h r) = Some (w, r)" "evt_handle (setting_status w h r) = Some h"
    "is_config_device_events (setting_status w h r)" "\<not> is_add_events (setting_status w h r)"
  using assms by (auto simp: configurable_def setting_status_def is_config_device_events_def is_add_events_def)

lemma config_cmd_ready:
  assumes "settings_ready n" "w \<in> set (settings_due (features (n_config n)))"
  shows "configurable (Some w)" "print_defined w n" "\<exists>cmd. config_cmd nk n (Some w) = Some cmd"
  using assms by (auto simp: settings_ready_def print_defined_def config_cmd_def Let_def)

text \<open>The confirmed setting in the store.\<close>

definition node_upd :: "nref \<Rightarrow> node_t \<Rightarrow> sys \<Rightarrow> sys" where
  "node_upd r n s = s\<lparr>db := (db s)\<lparr>heap := (heap (db s))(r \<mapsto> n)\<rparr>\<rparr>"

lemma node_upd_frame [simp]:
  "mng (node_upd r n s) = mng s" "acc (node_upd r n s) = acc s" "cmdq (node_upd r n s) = cmdq s"
  "evq (node_upd r n s) = evq s" "demo_expired (node_upd r n s) = demo_expired s" "tid (node_upd r n s) = tid s"
  "sent (node_upd r n s) = sent s" "jcfg (node_upd r n s) = jcfg s" "netkey_id (node_upd r n s) = netkey_id s"
  "heap (db (node_upd r n s)) r = Some n"
  by (simp_all add: node_upd_def netkey_id_def subnet0_def)

lemma in_store_upd:
  assumes "in_store E r n s" "n_addr n' = n_addr n" "n_uuid n' = n_uuid n"
  shows "in_store E r n' (node_upd r n' s)"
  using assms db_wf_heap_upd [of "db s" r n n'] file_cong [of "node_upd r n' s" s]
  by (simp add: in_store_def node_present_def) (auto simp: node_upd_def cfgdb_node_get_def cfgdb_unprov_dev_get_def split: if_splits)

lemma setconfig_sends:
  assumes "settings_ready n" "settings_due (features (n_config n)) = w # ws" "netkey_id s = Some nk"
    and "cache_node c s = Some n" "calm c" "accepting E"
  shows "\<exists>c'. setconfig E c s = Some (asr_suc, c', s\<lparr>sent := sent s @ [the (config_cmd nk n (Some w))]\<rparr>)
    \<and> same_work c c' \<and> WAIT_RESPONSE c' \<and> calm c' \<and> in_time E c' \<and> next_state c' = next_state c"
proof -
  have w: "configurable (Some w)" "\<exists>cmd. config_cmd nk n (Some w) = Some cmd"
    using config_cmd_ready [OF assms(1), of w] assms(2) by simp_all
  have "next_config_item c s = Some (Some w)"
    using assms(2,4) by (simp add: next_config_item_def node_features_def next_item_due)
  then have "setconfig_plan c s = Some (Some (the (config_cmd nk n (Some w))))"
    using w assms(3,4) by (auto simp: setconfig_plan_def)
  moreover have "rsp_result (ncp E (sent s) (the (config_cmd nk n (Some w)))) = bg_err_success" using assms(6) by simp
  note send_accepted_cmd [OF this assms(5), of err_set_to_end None]
  ultimately show ?thesis by (auto simp: setconfig_def set_model_def)
qed

lemma setting_confirmed:
  assumes "settings_ready n" "settings_due (features (n_config n)) = w # ws" "netkey_id s = Some nk"
    and c: "cc_node c = Some r" "heap (db s) r = Some n" "calm c" and acc: "accepting E"
  defines "s' \<equiv> node_upd r (setting_done w n) s"
  shows "\<exists>c'. same_work c c' \<and> calm c' \<and> (if ws = []
    then \<not> WAIT_RESPONSE c' \<and> next_state c' = None \<and> expired c' = 0
      \<and> setconfig_inprg E (setting_status w h bg_err_success) c s = Some (asr_suc, c', s')
    else WAIT_RESPONSE c' \<and> next_state c' = next_state c \<and> in_time E c'
      \<and> setconfig_inprg E (setting_status w h bg_err_success) c s =
        Some (asr_suc, c', s'\<lparr>sent := sent s @ [the (config_cmd nk n (Some (hd ws)))]\<rparr>))"
proof -
  let ?c = "RETRY_CLEAR (WAIT_RESPONSE_CLEAR (timer_set E s c False))" and ?n = "setting_done w n"
  have w: "configurable (Some w)" "print_defined w n" using config_cmd_ready [OF assms(1), of w] assms(2) by simp_all
  have sw: "same_work c ?c" by simp
  have cn: "cc_node ?c = Some r" "calm ?c" "cache_node ?c s = Some n" "cache_node ?c s' = Some ?n"
    using same_work_node [OF sw] c calm_retry_clear by (simp_all add: cache_node_def nderef_def s'_def)
  have on: "on_feature_configured ?c w s = Some s'"
    using cn(1) c(2) by (simp add: on_feature_configured_def nassign_def s'_def node_upd_def setting_done_def)
  have due: "settings_due (features (n_config ?n)) = ws" using settings_due_done [OF assms(2)] by simp
  have item: "next_config_item ?c s' = Some (if ws = [] then None else Some (hd ws))"
    using cn(4) due by (cases ws) (simp_all add: next_config_item_def node_features_def next_item_due)
  have run: "setconfig_inprg E (setting_status w h bg_err_success) c s =
      (if ws = [] then Some (asr_suc, ?c\<lparr>next_state := None\<rparr>, s')
       else do { r \<leftarrow> setconfig E ?c s'; Some (notfnd_to_next r) })"
    using setting_status_facts(1) [OF w(1)] w(2) cn(3) on item by (simp add: setconfig_inprg_def Let_def)
  show ?thesis
  proof (cases ws)
    case Nil
    then show ?thesis using run cn(2) by (intro exI [of _ "?c\<lparr>next_state := None\<rparr>"]) simp
  next
    case (Cons v vs)
    have nk: "netkey_id s' = Some nk" "sent s' = sent s" using assms(3) by (simp_all add: s'_def)
    obtain c' where c': "setconfig E ?c s' = Some (asr_suc, c', s'\<lparr>sent := sent s @ [the (config_cmd nk n (Some v))]\<rparr>)"
      "same_work ?c c'" "WAIT_RESPONSE c'" "calm c'" "in_time E c'" "next_state c' = next_state ?c"
      using setconfig_sends [OF settings_ready_done [OF assms(1,2)] due [unfolded Cons] nk(1) cn(4,2) acc] nk(2) by auto
    then show ?thesis using run Cons same_work_trans [OF sw c'(2)]
      by (intro exI [of _ c']) (simp add: notfnd_to_next_def)
  qed
qed

lemma setting_event:
  assumes only: "only_configuring s0" and s: "in_slot E s0 r n c s" "cc_state c = setconfig_em" "WAIT_RESPONSE c"
    and due: "settings_ready n" "settings_due (features (n_config n)) = w # ws"
    and run: "setconfig_inprg E' (setting_status w (cc_handle c) bg_err_success) c s
      = Some (asr_suc, c', (node_upd r (setting_done w n) s)\<lparr>sent := h\<rparr>)"
    and c': "same_work c c'" "calm c'"
  defines "u \<equiv> set_cache 0 c' ((node_upd r (setting_done w n) s)\<lparr>sent := h\<rparr>)"
  shows "dispense E' (answer data s) s = Some u" "in_slot E s0 r (setting_done w n) c' u"
proof -
  let ?e = "setting_status w (cc_handle c) bg_err_success" and ?s = "(node_upd r (setting_done w n) s)\<lparr>sent := h\<rparr>"
  have cs: "cc_node c = Some r" "c_config (mng s) = [c, cache_reset]" and st: "in_store E r n s"
    using s(1) by (simp_all add: in_slot_def)
  have "configurable (Some w)" using config_cmd_ready [OF due(1), of w] due(2) by simp
  note f = setting_status_facts [OF this]
  have "cache_node c s = Some n" using cs(1) st by (simp add: cache_node_def nderef_def in_store_def)
  then have a: "answer data s = [?e]"
    using cs(2) s(2,3) due(2) by (simp add: answer_def node_features_def next_item_due)
  have "handle_event E' ?e s = Some (True, u)"
    unfolding u_def
    by (rule slot_event [OF only s(1,3) _ f(2,3,4)]) (use run s(2) c'(2) in \<open>simp_all add: has_retry_def\<close>)
  then show "dispense E' (answer data s) s = Some u" by (simp add: a)
  have "in_store E r (setting_done w n) (node_upd r (setting_done w n) s)"
    by (rule in_store_upd [OF st]) simp_all
  then have "in_store E r (setting_done w n) u"
    using in_store_cong [of u "node_upd r (setting_done w n) s" E r] by (simp add: u_def set_cache_def)
  then show "in_slot E s0 r (setting_done w n) c' u"
    by (intro in_slot_cong [OF s(1)]) (use cs same_work_node [OF c'(1)] c'(2) in \<open>simp_all add: u_def set_cache_def\<close>)
qed

text \<open>Every turn confirms one setting and sends the next.\<close>

lemma settings_turns:
  assumes only: "only_configuring s0" and acc: "accepting E" and nas: "tl (as_get setconfig_em s0) = nas" "nas \<noteq> []"
    and later: "later \<noteq> []"
    and cont: "\<And>c s. in_slot E s0 r (settled n0) c s \<Longrightarrow> goes_on E data s0 r n' nas c s later"
    and s: "in_slot E s0 r n c s" "cc_state c = setconfig_em" "WAIT_RESPONSE c" "next_state c = Some setconfig_em"
      "netkey_id s = Some nk" "settings_ready n" "settled n = settled n0" "settings_due (features (n_config n)) = w # ws"
  shows "carries_on E data s0 r n' s (map (\<lambda>w. the (config_cmd nk n (Some w))) ws @ later)"
  using s
proof (induction ws arbitrary: w n c s)
  case (Nil w n c s)
  let ?n = "setting_done w n" and ?u = "node_upd r (setting_done w n) s"
  have cs: "cc_node c = Some r" "heap (db s) r = Some n" "calm c" using Nil(1) by (simp_all add: in_slot_def in_store_def)
  have n: "?n = settled n0"
    using settings_all_done [of ?n] settings_due_done [OF Nil(8)] Nil(7) by simp
  show ?case
  proof (rule carries_onI [OF only Nil(1)])
    fix t
    let ?E = "E\<lparr>now := t\<rparr>"
    have "accepting ?E" using acc by simp
    from setting_confirmed [OF Nil(6,8,5) cs this, of "cc_handle c"]
    obtain c' where c': "same_work c c'" "calm c'" "\<not> WAIT_RESPONSE c'" "next_state c' = None" "expired c' = 0"
      "setconfig_inprg ?E (setting_status w (cc_handle c) bg_err_success) c s = Some (asr_suc, c', ?u\<lparr>sent := sent s\<rparr>)"
      by (auto simp: node_upd_def)
    let ?v = "set_cache 0 c' (?u\<lparr>sent := sent s\<rparr>)"
    have v: "dispense ?E (answer data s) s = Some ?v" "in_slot E s0 r ?n c' ?v"
      using setting_event [OF only Nil(1-3,6,8) c'(6,1,2)] by simp_all
    have "after_events ?E ?v = enter_turn ?E nas c' (stats ?E ?v)"
      using turn_enters [OF only v(2) c'(3,4), of ?E] c'(5) same_work_node [OF c'(1)] Nil(2) nas
      by (simp add: in_time_def)
    moreover have "goes_on E data s0 r n' nas c' (stats ?E ?v) later"
      by (rule cont) (use in_slot_stats [OF v(2)] n in simp)
    moreover have "sent (stats ?E ?v) = sent s" by (simp add: set_cache_def)
    ultimately show "\<exists>u c' n2. dispense ?E (answer data s) s = Some u \<and> in_slot E s0 r n2 c' u
      \<and> (\<forall>ts. Suc (length ts) = length (map (\<lambda>w. the (config_cmd nk n (Some w))) [] @ later) \<longrightarrow>
        (\<exists>v w. after_events ?E u = Some v \<and> quiet v \<and> answered_turns data E ts v = Some w
          \<and> sent w = sent s @ map (\<lambda>w. the (config_cmd nk n (Some w))) [] @ later \<and> finished E s0 r n' w))"
      using v unfolding goes_on_def by (intro exI [of _ ?v] exI [of _ c'] exI [of _ ?n]) simp
  qed (simp add: later)
next
  case (Cons x ws w n c s)
  let ?n = "setting_done w n" and ?u = "node_upd r (setting_done w n) s" and ?cmd = "the (config_cmd nk n (Some x))"
  have cs: "cc_node c = Some r" "heap (db s) r = Some n" "calm c" using Cons(2) by (simp_all add: in_slot_def in_store_def)
  show ?case
  proof (rule carries_onI [OF only Cons(2)])
    fix t
    let ?E = "E\<lparr>now := t\<rparr>"
    have "accepting ?E" using acc by simp
    from setting_confirmed [OF Cons(7,9,6) cs this, of "cc_handle c"]
    obtain c' where c': "same_work c c'" "calm c'" "WAIT_RESPONSE c'" "next_state c' = next_state c" "in_time ?E c'"
      "setconfig_inprg ?E (setting_status w (cc_handle c) bg_err_success) c s
        = Some (asr_suc, c', ?u\<lparr>sent := sent s @ [?cmd]\<rparr>)"
      by auto
    let ?v = "set_cache 0 c' (?u\<lparr>sent := sent s @ [?cmd]\<rparr>)"
    have v: "dispense ?E (answer data s) s = Some ?v" "in_slot E s0 r ?n c' ?v"
      using setting_event [OF only Cons(2-4,7,9) c'(6,1,2)] by simp_all
    obtain z where z: "after_events ?E ?v = Some z" "in_slot E s0 r ?n c' z" "sent z = sent ?v" "db z = db ?v"
      using turn_waits [OF only v(2) c'(3,5)] by blast
    have "netkey_id z = netkey_id ?u" by (rule db_facts(2)) (simp add: z(4) set_cache_def)
    then have nk: "netkey_id z = Some nk" using Cons(6) by simp
    have "carries_on E data s0 r n' z (map (\<lambda>w. the (config_cmd nk ?n (Some w))) ws @ later)"
      by (rule Cons.IH [OF z(2) _ c'(3) _ nk settings_ready_done [OF Cons(7,9)]])
        (use same_work_node [OF c'(1)] Cons(3,5,8) c'(4) settings_due_done [OF Cons(9)] in simp_all)
    then show "\<exists>u c' n2. dispense ?E (answer data s) s = Some u \<and> in_slot E s0 r n2 c' u
      \<and> (\<forall>ts. Suc (length ts) = length (map (\<lambda>w. the (config_cmd nk n (Some w))) (x # ws) @ later) \<longrightarrow>
        (\<exists>v w. after_events ?E u = Some v \<and> quiet v \<and> answered_turns data E ts v = Some w
          \<and> sent w = sent s @ map (\<lambda>w. the (config_cmd nk n (Some w))) (x # ws) @ later \<and> finished E s0 r n' w))"
      using v z(1,3) slot_quiet [OF only z(2)] unfolding carries_on_def
      by (intro exI [of _ ?v] exI [of _ c'] exI [of _ ?n]) (auto simp: set_cache_def)
  qed (simp add: later)
qed

text \<open>Entering the settings, or passing them when none is due.\<close>

lemma goes_on_settings:
  assumes only: "only_configuring s0" and acc: "accepting E" and s: "in_slot E s0 r n c s" "netkey_id s = Some nk"
    and ready: "settings_ready n"
  shows "goes_on E data s0 r (settled n) [setconfig_em, end_em, rm_em, rmend_em] c s
    (set_work nk n @ [end_message (tid s0)])"
proof -
  let ?nas = "[end_em, rm_em, rmend_em]"
  have cs: "cc_node c = Some r" "calm c" "cache_node c s = Some n"
    using s(1) by (simp_all add: in_slot_def in_store_def cache_node_def nderef_def)
  have x: "a XOR b = 0 \<longleftrightarrow> a = b" for a b :: u16 by (auto simp: bit_eq_iff bit_xor_iff)
  have g: "setconfig_guard c s = Some (settings_due (features (n_config n)) \<noteq> [])"
    using cs(3) set_settings_due [of "features (n_config n)"] todo_empty [of "features (n_config n)"]
    by (auto simp: setconfig_guard_def node_features_def x)
  show ?thesis
  proof (cases "settings_due (features (n_config n))")
    case Nil
    have "goes_on E data s0 r n (setconfig_em # ?nas) c s [end_message (tid s0)]"
      by (rule goes_on_skips [OF _ goes_on_ends [OF only s(1)]]) (use g Nil in \<open>simp add: setconfig_entry_def\<close>)
    then show ?thesis using settings_all_done [OF Nil] Nil by (simp add: set_work_def)
  next
    case (Cons w ws)
    have nas: "tl (as_get setconfig_em s0) = ?nas"
      using only by (simp add: only_configuring_def as_get_def default_states_def)
    show ?thesis unfolding goes_on_def
    proof (intro allI impI)
      fix t :: int and ts :: "int list"
      assume len: "Suc (length ts) = length (set_work nk n @ [end_message (tid s0)])"
      let ?E = "E\<lparr>now := t\<rparr>" and ?cmd = "the (config_cmd nk n (Some w))"
      have "accepting ?E" using acc by simp
      from setconfig_sends [OF ready Cons s(2) cs(3,2) this]
      obtain c' where c': "setconfig ?E c s = Some (asr_suc, c', s\<lparr>sent := sent s @ [?cmd]\<rparr>)" "same_work c c'"
        "WAIT_RESPONSE c'" "calm c'" by blast
      let ?c = "c'\<lparr>cc_state := setconfig_em, next_state := Some setconfig_em\<rparr>"
      have "state_entry ?E setconfig_em c s = Some (asr_suc, c', s\<lparr>sent := sent s @ [?cmd]\<rparr>)"
        using c'(1) g Cons by (simp add: setconfig_entry_def notfnd_to_next_def)
      then obtain v where v: "enter_turn ?E (setconfig_em # ?nas) c s = Some v" "in_slot E s0 r n ?c v"
        "sent v = sent s @ [?cmd]" "db v = db s"
        using enter_sends [OF only s(1), of setconfig_em ?E c' "sent s @ [?cmd]" ?nas] same_work_node [OF c'(2)] c'(4)
        by auto
      have "carries_on E data s0 r (settled n) v (map (\<lambda>w. the (config_cmd nk n (Some w))) ws @ [end_message (tid s0)])"
        by (rule settings_turns [OF only acc nas _ _ goes_on_ends [OF only] v(2)])
          (use c'(3) db_facts(2) [OF v(4)] s(2) ready Cons in \<open>simp_all add: WAIT_RESPONSE_def\<close>)
      then have "\<exists>w. answered_turns data E ts v = Some w
          \<and> sent w = sent v @ map (\<lambda>w. the (config_cmd nk n (Some w))) ws @ [end_message (tid s0)] \<and> finished E s0 r (settled n) w"
        using len Cons unfolding carries_on_def by (simp add: set_work_def)
      then show "\<exists>v w. enter_turn ?E [setconfig_em, end_em, rm_em, rmend_em] c s = Some v \<and> quiet v
          \<and> answered_turns data E ts v = Some w \<and> sent w = sent s @ set_work nk n @ [end_message (tid s0)]
          \<and> finished E s0 r (settled n) w"
        using v(1,3) slot_quiet [OF only v(2)] Cons by (auto simp: set_work_def)
    qed
  qed
qed

end
