(* ===== verification/Composition.thy ===== *)
theory Composition
  imports Removal
begin

text \<open>
  The composition data of a node: what \<open>__dcd_store\<close> reads from a page and what it stores. The reading
  is separated from the updates of the node, and a page written element by element is read back
  when the loop that counts the elements, which looks at the size of the first one only, counts right.
\<close>

subsection \<open>Reading a page\<close>

fun read_elems :: "u8 list \<Rightarrow> nat \<Rightarrow> bool \<Rightarrow> u8 \<Rightarrow> u8 \<Rightarrow> elem_t list \<Rightarrow> (elem_t list \<times> u8) option" where
  "read_elems data 0 first i func es = Some (es, func)"
| "read_elems data (Suc k) first i func es = do {
     (i, func, el) \<leftarrow> parse_elem data (if first then i else i + 2) func;
     read_elems data k False i func (es @ [el]) }"

text \<open>The composition data and the functions of the node that a page says.\<close>

definition read_dcd :: "u8 list \<Rightarrow> u8 \<Rightarrow> (dcd_t \<times> u8) option" where
  "read_dcd data func = do {
     sigm \<leftarrow> idx data 12;
     vmc \<leftarrow> idx data 13;
     eles \<leftarrow> count_elems sigm vmc (of_nat (length data)) 14 0;
     feature \<leftarrow> read_u16 data 8;
     (es, func) \<leftarrow> read_elems data (unat eles) True 12 func [];
     Some (\<lparr>dcd_feature = feature, element_cnt = eles, elems = Some es\<rparr>, func) }"

lemma parse_elems_reads:
  assumes "in_store E r n s" and "read_elems data k first i (n_func n) es = Some (es', f)"
  shows "\<exists>s'. parse_elems E data r k first i es s = Some (es', s')
    \<and> in_store E r (n\<lparr>n_func := f\<rparr>) s' \<and> rest s' = rest s"
  using assms
proof (induction k arbitrary: first i es n s)
  case 0
  then have n: "n\<lparr>n_func := f\<rparr> = n" by (cases n) simp
  show ?case unfolding n using 0 by (intro exI [of _ s]) simp
next
  case (Suc k)
  obtain i1 f1 el where p: "parse_elem data (if first then i else i + 2) (n_func n) = Some (i1, f1, el)"
    and rec: "read_elems data k False i1 f1 (es @ [el]) = Some (es', f)"
    using Suc.prems(2) by (auto simp: bind_Some_conv)
  let ?n = "n\<lparr>n_func := f1\<rparr>"
  let ?s = "s\<lparr>db := (db s)\<lparr>heap := (heap (db s))(r \<mapsto> ?n)\<rparr>\<rparr>"
  note st = Suc.prems(1) [unfolded in_store_def]
  have t: "in_store E r ?n ?s"
    using st db_wf_heap_upd [of "db s" r n ?n] by (simp add: in_store_def) (auto simp: cfgdb_node_get_def cfgdb_unprov_dev_get_def split: if_splits)
  obtain s1 where s1: "nodeset_func E (n_addr n) f1 ?s = Some (ec_success, s1)" "in_store E r ?n s1" "rest s1 = rest ?s"
    using nodeset_specs(3) [OF t, of f1] by auto
  obtain s' where s': "parse_elems E data r k False i1 (es @ [el]) s1 = Some (es', s')"
    "in_store E r (n\<lparr>n_func := f\<rparr>) s'" "rest s' = rest s1"
    using Suc.IH [OF s1(2), of False i1 "es @ [el]"] rec by auto
  have h: "nderef s r = Some n" "nassign r (\<lambda>n. n\<lparr>n_func := f1\<rparr>) s = Some ?s"
    using st by (simp_all add: nderef_def nassign_def)
  have "parse_elems E data r (Suc k) first i es s = Some (es', s')"
    using h p s1(1) s'(1) by (simp add: Let_def)
  moreover have "rest ?s = rest s" by simp
  ultimately show ?case using s' s1(3) by (intro exI [of _ s']) simp
qed

text \<open>The handler stores what it reads, in the cache, in the node and in the file.\<close>

lemma dcd_store_reads:
  assumes "in_store E r n s" "cc_node c = Some r" "read_dcd data (n_func n) = Some (d, f)"
  shows "\<exists>s'. dcd_store E data c s = Some (c\<lparr>cc_dcd := d\<rparr>, s')
    \<and> in_store E r (n\<lparr>n_func := f\<rparr>) s' \<and> rest s' = rest s"
proof -
  obtain sigm vmc eles feature es where d: "idx data 12 = Some sigm" "idx data 13 = Some vmc"
    "count_elems sigm vmc (of_nat (length data)) 14 0 = Some eles" "read_u16 data 8 = Some feature"
    "read_elems data (unat eles) True 12 (n_func n) [] = Some (es, f)"
    "d = \<lparr>dcd_feature = feature, element_cnt = eles, elems = Some es\<rparr>"
    using assms(3) by (auto simp: read_dcd_def bind_Some_conv)
  obtain s' where "parse_elems E data r (unat eles) True 12 [] s = Some (es, s')"
    "in_store E r (n\<lparr>n_func := f\<rparr>) s'" "rest s' = rest s"
    using parse_elems_reads [OF assms(1) d(5)] by blast
  then show ?thesis using d assms(2) by (intro exI [of _ s']) (simp add: dcd_store_def)
qed

subsection \<open>Writing a page\<close>

text \<open>An element as the node sends it: its location, its SIG models and its vendor models.\<close>

type_synonym raw_elem = "u16 \<times> u16 list \<times> vendor_model_t list"

definition models_size :: "raw_elem \<Rightarrow> nat" where
  "models_size e = (case e of (loc, sg, vms) \<Rightarrow> 2 * length sg + 4 * length vms)"

definition model_bytes :: "raw_elem \<Rightarrow> u8 list" where
  "model_bytes e = (case e of (loc, sg, vms) \<Rightarrow>
     of_nat (length sg) # of_nat (length vms) # concat (map le_bytes sg)
       @ concat (map (\<lambda>m. le_bytes (vid m) @ le_bytes (mid m)) vms))"

definition elem_bytes :: "raw_elem \<Rightarrow> u8 list" where
  "elem_bytes e = le_bytes (fst e) @ model_bytes e"

definition page_bytes :: "u8 list \<Rightarrow> u16 \<Rightarrow> raw_elem list \<Rightarrow> u8 list" where
  "page_bytes ids feature es = ids @ le_bytes feature @ concat (map elem_bytes es)"

definition is_config_model :: "u16 \<Rightarrow> bool" where
  "is_config_model m \<longleftrightarrow> m = CONFIGURATION_CLIENT_MDID \<or> m = CONFIGURATION_SERVER_MDID"

text \<open>The element as the program keeps it: without the configuration models.\<close>

definition kept_elem :: "raw_elem \<Rightarrow> elem_t" where
  "kept_elem e = (case e of (loc, sg, vms) \<Rightarrow>
     (let kept = filter (\<lambda>m. \<not> is_config_model m) sg
      in \<lparr>sigm_cnt = of_nat (length kept), vm_cnt = of_nat (length vms),
          sig_models = kept @ replicate (length sg - length kept) 0, vm = vms\<rparr>))"

definition elem_func :: "raw_elem \<Rightarrow> u8 \<Rightarrow> u8" where
  "elem_func e f = (case e of (loc, sg, vms) \<Rightarrow> fold func_of_model sg f)"

lemma length_le_bytes [simp]: "length (le_bytes v) = 2"
  by (simp add: le_bytes_def)

lemma length_bytes [simp]:
  "length (concat (map le_bytes sg)) = 2 * length sg"
  "length (concat (map (\<lambda>m. le_bytes (vid m) @ le_bytes (mid m)) vms)) = 4 * length vms"
  by (induction sg, auto) (induction vms, auto)

lemma unat_u8_add: "unat (i :: u8) + unat k < 256 \<Longrightarrow> unat (i + k) = unat i + unat k"
  by (simp add: unat_word_ariths)

lemma unat_u8_add_nat: "unat (i :: u8) + k < 256 \<Longrightarrow> unat (i + of_nat k) = unat i + k"
  by (simp add: unat_word_ariths unat_of_nat)

lemma BUILD_le_bytes: "BUILD_UINT16 (ucast v) (ucast (drop_bit 8 v)) = v"
proof (rule bit_word_eqI)
  have m: "(0xFF :: u16) = mask 8" by (simp add: mask_eq_exp_minus_1)
  fix n assume "n < LENGTH(16)"
  then show "bit (BUILD_UINT16 (ucast v) (ucast (drop_bit 8 v))) n = bit v n"
    unfolding BUILD_UINT16_def m by (auto simp: bit_simps)
qed

text \<open>Reading at the end of a prefix.\<close>

lemma idx_append: "idx (xs @ ys) (length xs + k) = idx ys k"
  by (simp add: idx_def nth_append)

lemma read_u16_at:
  assumes "data = xs @ le_bytes v @ ys" "unat i = length xs"
  shows "read_u16 data i = Some v"
proof -
  have "idx data (unat i) = Some (ucast v)" "idx data (unat i + 1) = Some (ucast (drop_bit 8 v))"
    using assms idx_append [of xs "le_bytes v @ ys" 0] idx_append [of xs "le_bytes v @ ys" 1]
    by (simp_all add: le_bytes_def idx_def)
  then show ?thesis by (simp add: read_u16_def BUILD_le_bytes)
qed

lemma parse_sig_at:
  assumes "data = xs @ concat (map le_bytes sg) @ ys" "unat i = length xs" "length data < 256"
  shows "parse_sig data (length sg) i f kept
    = Some (i + of_nat (2 * length sg), fold func_of_model sg f, kept @ filter (\<lambda>m. \<not> is_config_model m) sg)"
  using assms
proof (induction sg arbitrary: xs i f kept)
  case (Cons m sg)
  have r: "read_u16 data i = Some m" by (rule read_u16_at [where ys = "concat (map le_bytes sg) @ ys"]) (use Cons.prems in simp_all)
  have d: "data = (xs @ le_bytes m) @ concat (map le_bytes sg) @ ys" using Cons.prems(1) by simp
  have i: "unat (i + 2) = length (xs @ le_bytes m)"
    using Cons.prems unat_u8_add [of i 2] by simp
  have "i + 2 + of_nat (2 * length sg) = i + of_nat (2 * length (m # sg))" by (simp add: algebra_simps)
  then show ?case using r Cons.IH [OF d i Cons.prems(3)] by (simp add: is_config_model_def)
qed simp

lemma parse_vm_at:
  assumes "data = xs @ concat (map (\<lambda>m. le_bytes (vid m) @ le_bytes (mid m)) vms) @ ys"
    and "unat i = length xs" "length data < 256"
  shows "parse_vm data (length vms) i ms = Some (i + of_nat (4 * length vms), ms @ vms)"
  using assms
proof (induction vms arbitrary: xs i ms)
  case (Cons m vms)
  let ?rest = "concat (map (\<lambda>m. le_bytes (vid m) @ le_bytes (mid m)) vms) @ ys"
  have r: "read_u16 data i = Some (vid m)"
    by (rule read_u16_at [where ys = "le_bytes (mid m) @ ?rest"]) (use Cons.prems in simp_all)
  have i2: "unat (i + 2) = length (xs @ le_bytes (vid m))" using Cons.prems unat_u8_add [of i 2] by simp
  have r2: "read_u16 data (i + 2) = Some (mid m)"
    by (rule read_u16_at [OF _ i2, where ys = ?rest]) (use Cons.prems in simp)
  have d: "data = (xs @ le_bytes (vid m) @ le_bytes (mid m)) @ ?rest" using Cons.prems(1) by simp
  have i: "unat (i + 4) = length (xs @ le_bytes (vid m) @ le_bytes (mid m))"
    using Cons.prems unat_u8_add [of i 4] by simp
  have "i + 4 + of_nat (4 * length vms) = i + of_nat (4 * length (m # vms))" by (simp add: algebra_simps)
  moreover have "\<lparr>vid = vid m, mid = mid m\<rparr> = m" by simp
  ultimately show ?case using r r2 Cons.IH [OF d i Cons.prems(3)] by simp
qed simp

lemma parse_elem_at:
  assumes "data = xs @ model_bytes e @ ys" "unat i = length xs" "length data < 256"
  shows "parse_elem data i f = Some (i + of_nat (length (model_bytes e)), elem_func e f, kept_elem e)"
proof -
  obtain loc sg vms where e: "e = (loc, sg, vms)" by (cases e) auto
  let ?sb = "concat (map le_bytes sg)" and ?vb = "concat (map (\<lambda>m. le_bytes (vid m) @ le_bytes (mid m)) vms)"
  let ?sc = "of_nat (length sg) :: u8" and ?vc = "of_nat (length vms) :: u8"
  have d: "data = xs @ ?sc # ?vc # ?sb @ ?vb @ ys" using assms(1) by (simp add: e model_bytes_def)
  have len: "length xs + 2 + 2 * length sg + 4 * length vms < 256" using assms(3) unfolding d by simp
  have cnt: "unat ?sc = length sg" "unat ?vc = length vms" using len by (simp_all add: unat_of_nat)
  have i: "unat (i + 1) = length xs + 1" "unat (i + 2) = length xs + 2"
    using assms(2) len unat_u8_add [of i 1] unat_u8_add [of i 2] by simp_all
  have "idx data (unat i) = Some ?sc" "idx data (unat (i + 1)) = Some ?vc"
    using idx_append [of xs "?sc # ?vc # ?sb @ ?vb @ ys" 0] idx_append [of xs "?sc # ?vc # ?sb @ ?vb @ ys" 1]
    by (simp_all add: assms(2) i d idx_def)
  moreover have "parse_sig data (length sg) (i + 2) f []
      = Some (i + 2 + of_nat (2 * length sg), fold func_of_model sg f, filter (\<lambda>m. \<not> is_config_model m) sg)"
    using parse_sig_at [of data "xs @ [?sc, ?vc]" sg "?vb @ ys" "i + 2" f "[]"] i assms(3) d by simp
  moreover have "unat (i + 2 + of_nat (2 * length sg)) = length (xs @ ?sc # ?vc # ?sb)"
    using unat_u8_add_nat [of "i + 2" "2 * length sg"] i len by simp
  from parse_vm_at [OF _ this assms(3), of vms ys "[]"]
  have "parse_vm data (length vms) (i + 2 + of_nat (2 * length sg)) []
      = Some (i + 2 + of_nat (2 * length sg) + of_nat (4 * length vms), vms)" using d by simp
  moreover have "?sc - of_nat (length sg - k) = of_nat k" if "k \<le> length sg" for k
    using that by (simp add: of_nat_diff)
  moreover have "length (filter (\<lambda>m. \<not> is_config_model m) sg) \<le> length sg" by simp
  moreover have "i + 2 + of_nat (2 * length sg) + of_nat (4 * length vms) = i + of_nat (length (model_bytes e))"
    by (simp add: e model_bytes_def algebra_simps)
  ultimately show ?thesis
    by (simp add: parse_elem_def cnt e elem_func_def kept_elem_def Let_def)
qed

lemma read_elems_at:
  assumes "data = xs @ concat (map elem_bytes es) @ ys" "unat i = length xs" "length data < 256"
  shows "read_elems data (length es) False i f ks = Some (ks @ map kept_elem es, fold elem_func es f)"
  using assms
proof (induction es arbitrary: xs i f ks)
  case (Cons e es)
  let ?rest = "concat (map elem_bytes es) @ ys"
  have d: "data = (xs @ le_bytes (fst e)) @ model_bytes e @ ?rest"
    using Cons.prems(1) by (simp add: elem_bytes_def [of e])
  have i: "unat (i + 2) = length (xs @ le_bytes (fst e))"
    using Cons.prems d unat_u8_add [of i 2] by simp
  note p = parse_elem_at [OF d i Cons.prems(3), of f]
  have "unat (i + 2 + of_nat (length (model_bytes e))) = length (xs @ elem_bytes e)"
    using unat_u8_add_nat [of "i + 2" "length (model_bytes e)"] i Cons.prems(3) d
    by (simp add: elem_bytes_def [of e])
  from Cons.IH [OF _ this Cons.prems(3), of "elem_func e f" "ks @ [kept_elem e]"] show ?case
    using p Cons.prems(1) by simp
qed simp

lemma count_elems_at:
  assumes "unat (2 * sigm + 4 * vmc) = k" "0 < n" "0 < k"
    and "unat i + n * k < 256" "unat i + (n - 1) * k < unat len" "unat len \<le> unat i + n * k"
  shows "count_elems sigm vmc len i eles = Some (eles + of_nat n)"
  using assms
proof (induction n arbitrary: i eles)
  case (Suc n)
  let ?i = "i + 2 * sigm + 4 * vmc"
  have i: "unat ?i = unat i + k"
    using unat_u8_add [of i "2 * sigm + 4 * vmc"] Suc.prems by (simp add: add.assoc)
  show ?case
  proof (cases "n = 0")
    case True
    then have "\<not> ?i < len" using i Suc.prems by (simp add: word_less_nat_alt)
    then show ?thesis using True by (subst count_elems.simps) (simp add: Let_def)
  next
    case False
    have m: "n * k = (n - 1) * k + k" using False by (cases n) simp_all
    then have "?i < len" using i Suc.prems by (simp add: word_less_nat_alt)
    moreover have "count_elems sigm vmc len ?i (eles + 1) = Some (eles + 1 + of_nat n)"
      by (rule Suc.IH) (use i Suc.prems False m in simp_all)
    ultimately show ?thesis by (subst count_elems.simps) (simp add: Let_def add.assoc)
  qed
qed simp

text \<open>The program reads a page back when the loop counts its elements right.\<close>

definition counted_right :: "raw_elem list \<Rightarrow> nat \<Rightarrow> bool" where
  "counted_right es len \<longleftrightarrow> (case es of [] \<Rightarrow> False
     | e # _ \<Rightarrow> 0 < models_size e \<and> 14 + (length es - 1) * models_size e < len
         \<and> len \<le> 14 + length es * models_size e \<and> 14 + length es * models_size e < 256)"

lemma page_read:
  assumes "counted_right es (length (page_bytes ids feature es))" and "length ids = 8"
  shows "read_dcd (page_bytes ids feature es) f
    = Some (\<lparr>dcd_feature = feature, element_cnt = of_nat (length es), elems = Some (map kept_elem es)\<rparr>,
        fold elem_func es f)"
proof -
  let ?data = "page_bytes ids feature es"
  obtain e es' where es: "es = e # es'" using assms(1) by (cases es) (auto simp: counted_right_def)
  obtain loc sg vms where e: "e = (loc, sg, vms)" by (cases e) auto
  let ?k = "models_size e" and ?rest = "concat (map elem_bytes es')"
  note c = assms(1) [unfolded counted_right_def es list.case]
  have len: "length ?data < 256" using c by (simp add: es)
  have d: "?data = (ids @ le_bytes feature @ le_bytes loc) @ model_bytes e @ ?rest"
    by (simp add: page_bytes_def es elem_bytes_def e)
  have k: "length (model_bytes e) = 2 + ?k" by (simp add: e model_bytes_def models_size_def)
  have f: "read_u16 ?data 8 = Some feature"
    by (rule read_u16_at [where ys = "concat (map elem_bytes es)"]) (use assms(2) in \<open>simp_all add: page_bytes_def\<close>)
  have i: "unat (12 :: u8) = length (ids @ le_bytes feature @ le_bytes loc)" using assms(2) by simp
  let ?sc = "of_nat (length sg) :: u8" and ?vc = "of_nat (length vms) :: u8"
  obtain mb where "model_bytes e = ?sc # ?vc # mb" by (simp add: e model_bytes_def)
  then have d': "?data = (ids @ le_bytes feature @ le_bytes loc) @ (?sc # ?vc # mb @ ?rest)" using d by simp
  then have h: "idx ?data 12 = Some ?sc" "idx ?data 13 = Some ?vc"
    unfolding d' using idx_append [of "ids @ le_bytes feature @ le_bytes loc" "?sc # ?vc # mb @ ?rest" 0]
      idx_append [of "ids @ le_bytes feature @ le_bytes loc" "?sc # ?vc # mb @ ?rest" 1] assms(2)
    by (simp_all add: idx_def)
  have "(2 * ?sc + 4 * ?vc) = of_nat ?k" by (simp add: e models_size_def)
  moreover have "?k < 256" using c by simp
  ultimately have "unat (2 * ?sc + 4 * ?vc) = ?k" by (simp only: unat_of_nat) simp
  from count_elems_at [OF this, of "length es" 14 "of_nat (length ?data)" 0]
  have cnt: "count_elems ?sc ?vc (of_nat (length ?data)) 14 0 = Some (of_nat (length es))"
    using c len by (simp add: es unat_of_nat)
  have n: "unat (of_nat (length es) :: u8) = Suc (length es')"
  proof -
    have "length es * 1 \<le> length es * ?k" by (rule mult_le_mono2) (use c in simp)
    moreover have "length es * ?k < 256" using c by (simp add: es)
    ultimately have "length es < 256" by linarith
    then have "unat (of_nat (length es) :: u8) = length es" by (simp add: unat_of_nat del: of_nat_Suc)
    then show ?thesis by (simp only: es) simp
  qed
  have i1: "unat (12 + of_nat (length (model_bytes e)) :: u8) = length ((ids @ le_bytes feature @ le_bytes loc) @ model_bytes e)"
    using unat_u8_add_nat [of 12 "length (model_bytes e)"] len d assms(2) by simp
  have "read_elems ?data (Suc (length es')) True 12 f [] = Some (map kept_elem es, fold elem_func es f)"
    using parse_elem_at [OF d i len, of f] read_elems_at [OF _ i1 len, of es' "[]"] d by (simp add: es)
  then show ?thesis using h cnt f n by (simp add: read_dcd_def)
qed

end
