(* ===== verification/ConfigProps.thy ===== *)
theory ConfigProps
  imports Finishing Composition Samples
begin

text \<open>
  A node is configured: the states, the turns and the store together. The theorem follows the node
  from the work list through the slot to its entry in the database and in the node file.
\<close>

subsection \<open>Keys and lists depend on the provisioner's data only\<close>



subsection \<open>From the composition data on\<close>




subsection \<open>From the work list on\<close>





definition cfg_page :: "u8 list" where
  "cfg_page = page_bytes (replicate 8 1) 0 [(0, [0x0000, 0x1000, 0x1300, 0x1301], []), (1, [0x1000], [])]"





text \<open>C11: A page of composition data is stored as the node wrote it, in the slot and in the node: every element
  with its models but the configuration models, and the functions that the models stand for. This
  needs the loop that counts the elements to count right, which looks at the size of the first
  element only and wraps at 256.\<close>
theorem composition_is_stored:
  assumes "in_store E r n s" and "cc_node c = Some r"
    and "counted_right es (length (page_bytes ids feature es))" and "length ids = 8"
  shows "\<exists>s'. dcd_store E (page_bytes ids feature es) c s = Some (c\<lparr>cc_dcd :=
      \<lparr>dcd_feature = feature, element_cnt = of_nat (length es), elems = Some (map kept_elem es)\<rparr>\<rparr>, s')
    \<and> in_store E r (n\<lparr>n_func := fold elem_func es (n_func n)\<rparr>) s'"
  using dcd_store_reads [OF assms(1,2) page_read [OF assms(3,4)]] by blast

theorem composition_is_stored_witness:
  "\<exists>c s' n. dcd_store ok_env cfg_page (cache_reset\<lparr>cc_node := Some 0\<rparr>) removal_sys = Some (c, s')
    \<and> elems (cc_dcd c) = Some [\<lparr>sigm_cnt = 3, vm_cnt = 0, sig_models = [0x1000, 0x1300, 0x1301, 0], vm = []\<rparr>,
        \<lparr>sigm_cnt = 1, vm_cnt = 0, sig_models = [0x1000], vm = []\<rparr>]
    \<and> heap (db s') 0 = Some n \<and> n_func n = 3"
proof -
  let ?n = "zero_node\<lparr>n_uuid := uuid1, n_addr := 2\<rparr>"
    and ?es = "[(0, [0x0000, 0x1000, 0x1300, 0x1301], []), (1, [0x1000], [])] :: raw_elem list"
  have "in_store ok_env 0 ?n sample_sys"
    using sample_db_wf sample_lookups sample_nw_ok sample_present(1) by (simp add: in_store_def)
  then have st: "in_store ok_env 0 ?n removal_sys"
    using in_store_cong [of removal_sys sample_sys] by (simp add: removal_sys_def)
  have c: "counted_right ?es (length (page_bytes (replicate 8 1) 0 ?es))" "length (replicate 8 (1 :: u8)) = 8"
    "map kept_elem ?es = [\<lparr>sigm_cnt = 3, vm_cnt = 0, sig_models = [0x1000, 0x1300, 0x1301, 0], vm = []\<rparr>,
        \<lparr>sigm_cnt = 1, vm_cnt = 0, sig_models = [0x1000], vm = []\<rparr>]" "fold elem_func ?es (n_func ?n) = 3"
    by code_simp+
  from composition_is_stored [OF st _ c(1,2), of "cache_reset\<lparr>cc_node := Some 0\<rparr>"]
  obtain s' where s': "dcd_store ok_env cfg_page (cache_reset\<lparr>cc_node := Some 0\<rparr>) removal_sys
      = Some (cache_reset\<lparr>cc_node := Some 0, cc_dcd := \<lparr>dcd_feature = 0, element_cnt = of_nat (length ?es),
          elems = Some (map kept_elem ?es)\<rparr>\<rparr>, s')"
    "in_store ok_env 0 (?n\<lparr>n_func := fold elem_func ?es (n_func ?n)\<rparr>) s'"
    by (auto simp: cfg_page_def)
  have "heap (db s') 0 = Some (?n\<lparr>n_func := 3\<rparr>)" using s'(2) c(4) by (simp add: in_store_def)
  then show ?thesis using s'(1) c(3)
    by (intro exI [of _ "cache_reset\<lparr>cc_node := Some 0, cc_dcd := \<lparr>dcd_feature = 0, element_cnt = of_nat (length ?es),
          elems = Some (map kept_elem ?es)\<rparr>\<rparr>"] exI [of _ s'] exI [of _ "?n\<lparr>n_func := 3\<rparr>"]) simp
qed

end
