(* ===== verification/Bglib.thy ===== *)
theory Bglib
  imports Startup
begin

text \<open>
  The host side of the BGAPI protocol, \<open>hal/ble_stack/src/host/gecko_bglib.c\<close>. A message is a header
  of four bytes, which holds the length of the payload, and the payload. Events that arrive while a
  response is awaited are kept in a ring of \<open>BGLIB_QUEUE_LEN\<close> packets. The functions that transfer bytes are
  the pointers \<open>bglib_output\<close>, \<open>bglib_input\<close> and \<open>bglib_peek\<close>; they act on the device \<open>dev\<close>, which is a
  parameter of the theory. A pointer to a packet names the place it points to.
\<close>

record pkt =
  header :: u32
  payload :: "u8 list"

datatype (plugins only: code) pktptr = Queue_slot nat | Rsp_msg

record 'io bglib =
  gecko_queue :: "pkt list"
  gecko_queue_w :: nat
  gecko_queue_r :: nat
  gecko_rsp_msg :: pkt
  gecko_cmd_msg :: pkt
  dev :: 'io

record 'io bguart_t =
  bglib_output :: "nat \<Rightarrow> u8 list \<Rightarrow> 'io \<Rightarrow> 'io run"
  bglib_input :: "nat \<Rightarrow> 'io \<Rightarrow> (int \<times> u8 list \<times> 'io) option"
  bglib_peek :: "('io \<Rightarrow> (int \<times> 'io) option) option"

abbreviation (input) BGLIB_MSG_HEADER_LEN :: nat where "BGLIB_MSG_HEADER_LEN \<equiv> 4"
abbreviation (input) BGLIB_MSG_MAX_PAYLOAD :: nat where "BGLIB_MSG_MAX_PAYLOAD \<equiv> 256"
abbreviation (input) BGLIB_QUEUE_LEN :: nat where "BGLIB_QUEUE_LEN \<equiv> 30"
abbreviation (input) gecko_dev_type_gecko :: u32 where "gecko_dev_type_gecko \<equiv> 0x20"
abbreviation (input) gecko_msg_type_evt :: u32 where "gecko_msg_type_evt \<equiv> 0x80"

definition BGLIB_MSG_LEN :: "u32 \<Rightarrow> nat" where
  "BGLIB_MSG_LEN h = unat (push_bit 8 (h AND 0x7) OR drop_bit 8 (h AND 0xff00))"

text \<open>The bytes of a 32 bit word in memory, the lowest first.\<close>

definition le_bytes4 :: "u32 \<Rightarrow> u8 list" where
  "le_bytes4 h = map (\<lambda>k. ucast (drop_bit (8 * k) h)) [0, 1, 2, 3]"

fun le_word :: "u8 list \<Rightarrow> u32" where
  "le_word [] = 0"
| "le_word (b # bs) = ucast b OR push_bit 8 (le_word bs)"

definition BGLIB_DEFINE :: "'io \<Rightarrow> 'io bglib" where
  "BGLIB_DEFINE io = (let p = \<lparr>header = 0, payload = replicate BGLIB_MSG_MAX_PAYLOAD 0\<rparr>
     in \<lparr>gecko_queue = replicate BGLIB_QUEUE_LEN p, gecko_queue_w = 0, gecko_queue_r = 0,
         gecko_rsp_msg = p, gecko_cmd_msg = p, dev = io\<rparr>)"

definition deref :: "'io bglib \<Rightarrow> pktptr \<Rightarrow> pkt" where
  "deref b p = (case p of Queue_slot i \<Rightarrow> gecko_queue b ! i | Rsp_msg \<Rightarrow> gecko_rsp_msg b)"

definition upd_pkt :: "pktptr \<Rightarrow> (pkt \<Rightarrow> pkt) \<Rightarrow> 'io bglib \<Rightarrow> 'io bglib" where
  "upd_pkt p f b = (case p of
     Queue_slot i \<Rightarrow> b\<lparr>gecko_queue := (gecko_queue b)[i := f (gecko_queue b ! i)]\<rparr>
   | Rsp_msg \<Rightarrow> b\<lparr>gecko_rsp_msg := f (gecko_rsp_msg b)\<rparr>)"

subsection \<open>Reading a message\<close>

text \<open>
  The end of \<open>gecko_wait_message\<close>: the packet is there (\<open>pck\<close>), its header is stored and its payload is
  read. Bytes stored before a failure stay.
\<close>

definition read_payload :: "'io bguart_t \<Rightarrow> pktptr \<Rightarrow> pktptr option \<Rightarrow> u32 \<Rightarrow> 'io bglib \<Rightarrow> (pktptr option \<times> 'io bglib) option" where
  "read_payload U pck retVal hdr b =
    (let b = upd_pkt pck (\<lambda>p. p\<lparr>header := hdr\<rparr>) b; msg_length = BGLIB_MSG_LEN hdr
     in if msg_length = 0 then Some (retVal, b)
        else do {
          (ret, bs, io) \<leftarrow> bglib_input U msg_length (dev b);
          let b = upd_pkt pck (\<lambda>p. p\<lparr>payload := bs @ drop (length bs) (payload p)\<rparr>) (b\<lparr>dev := io\<rparr>);
          Some (if ret < 0 then None else retVal, b)
        })"

definition gecko_wait_message :: "'io bguart_t \<Rightarrow> 'io bglib \<Rightarrow> (pktptr option \<times> 'io bglib) option" where
  "gecko_wait_message U b = do {
     (ret, b0, io) \<leftarrow> bglib_input U 1 (dev b);
     let b = b\<lparr>dev := io\<rparr>;
     if ret < 0 \<or> le_word b0 AND 0x78 \<noteq> gecko_dev_type_gecko then Some (None, b)
     else do {
       (ret, b1, io) \<leftarrow> bglib_input U (BGLIB_MSG_HEADER_LEN - 1) (dev b);
       let b = b\<lparr>dev := io\<rparr>;
       if ret < 0 then Some (None, b)
       else
         let hdr = le_word (b0 @ b1); msg_length = BGLIB_MSG_LEN hdr
         in if msg_length > BGLIB_MSG_MAX_PAYLOAD then Some (None, b)
            else if hdr AND 0xf8 = gecko_dev_type_gecko OR gecko_msg_type_evt then
              if (gecko_queue_w b + 1) mod BGLIB_QUEUE_LEN = gecko_queue_r b then
                if msg_length \<noteq> 0 then do {
                  (ret, bs, io) \<leftarrow> bglib_input U msg_length (dev b);
                  Some (None, b\<lparr>dev := io\<rparr>)
                } else Some (None, b)
              else read_payload U (Queue_slot (gecko_queue_w b)) None hdr
                     (b\<lparr>gecko_queue_w := (gecko_queue_w b + 1) mod BGLIB_QUEUE_LEN\<rparr>)
            else if hdr AND 0xf8 = gecko_dev_type_gecko then read_payload U Rsp_msg (Some Rsp_msg) hdr b
            else Some (None, b)
     }
   }"

subsection \<open>Events and responses\<close>

definition gecko_event_pending :: "'io bguart_t \<Rightarrow> 'io bglib \<Rightarrow> (int \<times> 'io bglib) option" where
  "gecko_event_pending U b =
    (if gecko_queue_w b \<noteq> gecko_queue_r b then Some (1, b)
     else (case bglib_peek U of
       None \<Rightarrow> Some (0, b)
     | Some peek \<Rightarrow> do { (n, io) \<leftarrow> peek (dev b); Some (if n \<noteq> 0 then 1 else 0, b\<lparr>dev := io\<rparr>) }))"

text \<open>\<open>!block && bglib_peek && bglib_peek() == 0\<close>\<close>

definition nothing_there :: "'io bguart_t \<Rightarrow> bool \<Rightarrow> 'io bglib \<Rightarrow> (bool \<times> 'io bglib) option" where
  "nothing_there U block b =
    (if block then Some (False, b)
     else (case bglib_peek U of
       None \<Rightarrow> Some (False, b)
     | Some peek \<Rightarrow> do { (n, io) \<leftarrow> peek (dev b); Some (n = 0, b\<lparr>dev := io\<rparr>) }))"

partial_function (option) gecko_get_event ::
  "'io bguart_t \<Rightarrow> bool \<Rightarrow> 'io bglib \<Rightarrow> (pktptr option \<times> 'io bglib) option" where
  "gecko_get_event U block b =
    (if gecko_queue_w b \<noteq> gecko_queue_r b then
       Some (Some (Queue_slot (gecko_queue_r b)), b\<lparr>gecko_queue_r := (gecko_queue_r b + 1) mod BGLIB_QUEUE_LEN\<rparr>)
     else do {
       (out, b) \<leftarrow> nothing_there U block b;
       if out then Some (None, b)
       else do {
         (p, b) \<leftarrow> gecko_wait_message U b;
         if p \<noteq> None then Some (p, b) else gecko_get_event U block b
       }
     })"

definition gecko_wait_event :: "'io bguart_t \<Rightarrow> 'io bglib \<Rightarrow> (pktptr option \<times> 'io bglib) option" where
  "gecko_wait_event U b = gecko_get_event U True b"

definition gecko_peek_event :: "'io bguart_t \<Rightarrow> 'io bglib \<Rightarrow> (pktptr option \<times> 'io bglib) option" where
  "gecko_peek_event U b = gecko_get_event U False b"

partial_function (option) gecko_wait_response ::
  "'io bguart_t \<Rightarrow> 'io bglib \<Rightarrow> (pktptr \<times> 'io bglib) option" where
  "gecko_wait_response U b = do {
     (p, b) \<leftarrow> gecko_wait_message U b;
     if p \<noteq> None \<and> header (deref b (the p)) AND gecko_msg_type_evt = 0 then Some (the p, b)
     else gecko_wait_response U b
   }"

text \<open>The bytes of the command in \<open>gecko_cmd_msg\<close>.\<close>

definition cmd_bytes :: "pkt \<Rightarrow> u8 list" where
  "cmd_bytes p = take (BGLIB_MSG_HEADER_LEN + BGLIB_MSG_LEN (header p)) (le_bytes4 (header p) @ payload p)"

definition output_command :: "'io bguart_t \<Rightarrow> 'io bglib \<Rightarrow> 'io bglib run" where
  "output_command U b =
    (if BGLIB_MSG_LEN (header (gecko_cmd_msg b)) > BGLIB_MSG_MAX_PAYLOAD then undef
     else run_bind (bglib_output U (BGLIB_MSG_HEADER_LEN + BGLIB_MSG_LEN (header (gecko_cmd_msg b)))
                      (cmd_bytes (gecko_cmd_msg b)) (dev b))
       (\<lambda>io. continues (b\<lparr>dev := io\<rparr>)))"

definition gecko_handle_command_noresponse :: "'io bguart_t \<Rightarrow> 'io bglib \<Rightarrow> 'io bglib run" where
  "gecko_handle_command_noresponse U b = output_command U b"

definition gecko_handle_command :: "'io bguart_t \<Rightarrow> 'io bglib \<Rightarrow> 'io bglib run" where
  "gecko_handle_command U b =
    run_bind (output_command U b) (\<lambda>b. map_option (\<lambda>(p, b). Inr b) (gecko_wait_response U b))"

subsection \<open>The ring\<close>

text \<open>
  The packets waiting in the ring, the oldest first. One slot always stays free: it holds the event that
  was handed out last, which the program is still working on.
\<close>

definition pending_count :: "'io bglib \<Rightarrow> nat" where
  "pending_count b = (gecko_queue_w b + BGLIB_QUEUE_LEN - gecko_queue_r b) mod BGLIB_QUEUE_LEN"

definition waiting :: "'io bglib \<Rightarrow> pkt list" where
  "waiting b = map (\<lambda>i. gecko_queue b ! ((gecko_queue_r b + i) mod BGLIB_QUEUE_LEN)) [0..<pending_count b]"

definition handed_out :: "'io bglib \<Rightarrow> pkt" where
  "handed_out b = gecko_queue b ! ((gecko_queue_r b + 29) mod BGLIB_QUEUE_LEN)"

definition ring_ok :: "'io bglib \<Rightarrow> bool" where
  "ring_ok b = (length (gecko_queue b) = BGLIB_QUEUE_LEN \<and> gecko_queue_w b < BGLIB_QUEUE_LEN
     \<and> gecko_queue_r b < BGLIB_QUEUE_LEN \<and> (\<forall>p\<in>set (gecko_queue b). length (payload p) = BGLIB_MSG_MAX_PAYLOAD)
     \<and> length (payload (gecko_rsp_msg b)) = BGLIB_MSG_MAX_PAYLOAD)"

lemma length_waiting [simp]: "length (waiting b) = pending_count b"
  by (simp add: waiting_def)

lemma mod_30: "x < 60 \<Longrightarrow> x mod 30 = (if x < 30 then x else x - 30)" for x :: nat
  by (simp add: mod_if)

lemma pending_less: "pending_count b \<le> 29"
proof -
  have "pending_count b < 30" unfolding pending_count_def by (rule mod_less_divisor) simp
  then show ?thesis by simp
qed

lemma pending_eq:
  "ring_ok b \<Longrightarrow> pending_count b = (if gecko_queue_r b \<le> gecko_queue_w b then gecko_queue_w b - gecko_queue_r b
     else gecko_queue_w b + 30 - gecko_queue_r b)"
  by (auto simp: pending_count_def ring_ok_def mod_30)

lemma ring_bounds: "ring_ok b \<Longrightarrow> gecko_queue_w b < 30 \<and> gecko_queue_r b < 30 \<and> length (gecko_queue b) = 30"
  by (simp add: ring_ok_def)

lemma ring_empty: "ring_ok b \<Longrightarrow> gecko_queue_w b = gecko_queue_r b \<longleftrightarrow> pending_count b = 0"
  using ring_bounds [of b] by (auto simp: pending_eq)

lemma ring_full: "ring_ok b \<Longrightarrow> (gecko_queue_w b + 1) mod 30 = gecko_queue_r b \<longleftrightarrow> pending_count b = 29"
  using ring_bounds [of b] by (auto simp: pending_eq mod_30)

lemma ring_slot:
  assumes "ring_ok b"
  shows "(gecko_queue_r b + pending_count b) mod 30 = gecko_queue_w b"
  using ring_bounds [OF assms] by (auto simp: pending_eq [OF assms] mod_30)

lemma ring_slots_differ:
  fixes r i c :: nat
  assumes "i < c" "c < 30" "r < 30"
  shows "(r + i) mod 30 \<noteq> (r + c) mod 30"
  using assms by (auto simp: mod_30)

lemma ring_dev: "waiting (b\<lparr>dev := io\<rparr>) = waiting b" "ring_ok (b\<lparr>dev := io\<rparr>) = ring_ok b"
  "handed_out (b\<lparr>dev := io\<rparr>) = handed_out b" "pending_count (b\<lparr>dev := io\<rparr>) = pending_count b"
  by (simp_all add: waiting_def ring_ok_def handed_out_def pending_count_def)

text \<open>Storing a packet at \<open>w\<close> appends it, taking one at \<open>r\<close> removes the first.\<close>

lemma ring_append:
  assumes "ring_ok b" "pending_count b < 29" "length (payload p) = 256"
  defines "b' \<equiv> b\<lparr>gecko_queue := (gecko_queue b)[gecko_queue_w b := p], gecko_queue_w := (gecko_queue_w b + 1) mod 30\<rparr>"
  shows "waiting b' = waiting b @ [p]" "ring_ok b'" "handed_out b' = handed_out b" "gecko_queue_r b' = gecko_queue_r b"
proof -
  let ?r = "gecko_queue_r b" and ?w = "gecko_queue_w b" and ?c = "pending_count b"
  have w: "?w = (?r + ?c) mod 30" using ring_slot [OF assms(1)] by simp
  have q: "length (gecko_queue b) = 30" "?w < 30" "?r < 30" using assms(1) by (simp_all add: ring_ok_def)
  show ok: "ring_ok b'"
    using assms(1,3) set_update_subset_insert [of "gecko_queue b" ?w p] by (auto simp: ring_ok_def b'_def)
  have c: "pending_count b' = Suc ?c"
    using q assms(2) unfolding pending_eq [OF ok] pending_eq [OF assms(1)] by (auto simp: b'_def mod_30 split: if_splits)
  have same: "(gecko_queue b)[?w := p] ! ((?r + i) mod 30) = gecko_queue b ! ((?r + i) mod 30)" if "i < ?c" for i
    using ring_slots_differ [OF that _ q(3)] assms(2) w by simp
  have "map (\<lambda>i. (gecko_queue b)[?w := p] ! ((?r + i) mod 30)) [0..<?c] = waiting b"
    unfolding waiting_def by (rule map_cong) (auto simp: same)
  moreover have "(gecko_queue b)[?w := p] ! ((?r + ?c) mod 30) = p" unfolding w [symmetric] using q by simp
  ultimately show "waiting b' = waiting b @ [p]" unfolding waiting_def [of b'] c by (simp add: b'_def)
  have "(?r + 29) mod 30 \<noteq> ?w" using ring_slots_differ [of ?c 29 ?r] assms(2) w q(3) by simp
  then show "handed_out b' = handed_out b" by (simp add: handed_out_def b'_def)
qed (simp add: b'_def)

lemma ring_take:
  assumes "ring_ok b" "gecko_queue_w b \<noteq> gecko_queue_r b"
  defines "b' \<equiv> b\<lparr>gecko_queue_r := (gecko_queue_r b + 1) mod 30\<rparr>"
  shows "waiting b = gecko_queue b ! gecko_queue_r b # waiting b'" "ring_ok b'"
    "handed_out b' = gecko_queue b ! gecko_queue_r b"
proof -
  let ?r = "gecko_queue_r b"
  note q = ring_bounds [OF assms(1)]
  show ok: "ring_ok b'" using assms(1) by (simp add: ring_ok_def b'_def)
  have c: "pending_count b = Suc (pending_count b')"
    using q assms(2) unfolding pending_eq [OF ok] pending_eq [OF assms(1)] by (auto simp: b'_def mod_30 split: if_splits)
  have m: "((?r + 1) mod 30 + i) mod 30 = (?r + Suc i) mod 30" for i by (simp add: mod_simps)
  have "waiting b = gecko_queue b ! ((?r + 0) mod 30) # map (\<lambda>i. gecko_queue b ! ((?r + Suc i) mod 30)) [0..<pending_count b']"
    unfolding waiting_def c by (simp only: upt_conv_Cons zero_less_Suc list.map map_Suc_upt [symmetric] map_map comp_def)
  then show "waiting b = gecko_queue b ! ?r # waiting b'"
    using q by (simp add: waiting_def [of b']) (simp add: b'_def m [simplified])
  have "((?r + 1) mod 30 + 29) mod 30 = ?r" using q by (auto simp: mod_30)
  then show "handed_out b' = gecko_queue b ! ?r"
    by (simp add: handed_out_def b'_def)
qed

subsection \<open>Messages\<close>

text \<open>
  A message as the target means it: the header and the payload; \<open>msg_of\<close> reads it off a packet. A
  message of the protocol is an event or a response whose header tells the length of its payload.
\<close>

type_synonym msg = "u32 \<times> u8 list"

definition msg_bytes :: "msg \<Rightarrow> u8 list" where
  "msg_bytes m = le_bytes4 (fst m) @ snd m"

definition msg_of :: "pkt \<Rightarrow> msg" where
  "msg_of p = (header p, take (BGLIB_MSG_LEN (header p)) (payload p))"

definition proper :: "msg \<Rightarrow> bool" where
  "proper m = (fst m AND 0x78 = gecko_dev_type_gecko \<and> BGLIB_MSG_LEN (fst m) = length (snd m)
     \<and> length (snd m) \<le> BGLIB_MSG_MAX_PAYLOAD)"

definition is_event :: "msg \<Rightarrow> bool" where
  "is_event m = (fst m AND gecko_msg_type_evt \<noteq> 0)"

lemma length_le_bytes4 [simp]: "length (le_bytes4 h) = 4"
  by (simp add: le_bytes4_def)

lemma length_msg_bytes [simp]: "length (msg_bytes m) = 4 + length (snd m)"
  by (simp add: msg_bytes_def)

lemma le_word_bytes: "le_word (le_bytes4 h) = h"
proof (rule bit_eqI)
  fix n assume "possible_bit TYPE(u32) n"
  then have n: "n < 32" by simp
  have b: "bit (ucast (x :: u8) :: u32) k = (k < 8 \<and> bit x k)" for x k by (auto simp: bit_simps dest: bit_imp_le_length)
  show "bit (le_word (le_bytes4 h)) n = bit h n"
  proof -
    consider "n < 8" | "8 \<le> n" "n < 16" | "16 \<le> n" "n < 24" | "24 \<le> n" using n by linarith
    then show ?thesis
      using n by cases (simp_all add: le_bytes4_def bit_or_iff bit_push_bit_iff b bit_simps, linarith?, auto)
  qed
qed

lemma low_byte: "(ucast (ucast (h :: u32) :: u8) :: u32) AND 0x78 = h AND 0x78"
proof -
  have "(ucast (ucast h :: u8) :: u32) = take_bit 8 h"
    by (rule bit_eqI) (auto simp: bit_simps)
  also have "\<dots> = h AND 0xff" by (simp add: take_bit_eq_mask mask_eq_exp_minus_1)
  finally show ?thesis by (simp add: and.assoc)
qed

lemma le_bytes4_split: "le_bytes4 h = [ucast h] @ tl (le_bytes4 h)" "take 1 (le_bytes4 h) = [ucast h]"
  "drop 1 (le_bytes4 h) = tl (le_bytes4 h)" "length (tl (le_bytes4 h)) = 3"
  by (simp_all add: le_bytes4_def)

lemma type_bit: "(h AND 0x80 = 0 \<or> h AND 0x80 = 0x80)" for h :: u32
proof -
  have e: "bit (0x80 :: u32) n \<longleftrightarrow> n = 7" for n using bit_exp_iff [of 7 n, where 'a = u32] by auto
  show ?thesis
  proof (cases "bit h 7")
    case True
    then have "h AND 0x80 = 0x80" by (intro bit_eqI) (auto simp only: bit_and_iff e)
    then show ?thesis by (rule disjI2)
  next
    case False
    then have "h AND 0x80 = 0" by (intro bit_eqI) (auto simp only: bit_and_iff e bit_0_eq bot_fun_def bot_bool_def)
    then show ?thesis by (rule disjI1)
  qed
qed

lemma type_bits:
  fixes h :: u32
  assumes "h AND 0x78 = 0x20"
  shows "h AND 0xf8 = (if h AND 0x80 \<noteq> 0 then 0xa0 else 0x20)"
proof -
  have "h AND 0xf8 = (h AND 0x78) OR (h AND 0x80)"
    by (simp add: bit.conj_disj_distrib [symmetric])
  then show ?thesis using assms type_bit [of h] by auto
qed

subsection \<open>A source of messages\<close>

text \<open>
  What the library relies on. \<open>delivers io p ms\<close>: the rest \<open>p\<close> of a message can be read, then the messages
  \<open>ms\<close> follow. A message that has not arrived yet may make \<open>bglib_input\<close> fail; that costs patience, which
  is finite. \<open>outs\<close> are the bytes handed to the target.
\<close>

locale message_source =
  fixes U :: "'io bguart_t"
    and delivers :: "'io \<Rightarrow> u8 list \<Rightarrow> u8 list list \<Rightarrow> bool"
    and patience :: "'io \<Rightarrow> nat"
    and outs :: "'io \<Rightarrow> u8 list"
  assumes start: "delivers io [] (m # ms) \<Longrightarrow> 0 < n \<Longrightarrow> n \<le> length m \<Longrightarrow>
      (\<exists>io'. bglib_input U n io = Some (int n, take n m, io') \<and> delivers io' (drop n m) ms
         \<and> patience io' \<le> patience io \<and> outs io' = outs io)
      \<or> (\<exists>io'. bglib_input U n io = Some (-1, [], io') \<and> delivers io' [] (m # ms)
         \<and> patience io' < patience io \<and> outs io' = outs io)"
    and cont: "delivers io p ms \<Longrightarrow> 0 < n \<Longrightarrow> n \<le> length p \<Longrightarrow>
      \<exists>io'. bglib_input U n io = Some (int n, take n p, io') \<and> delivers io' (drop n p) ms
         \<and> patience io' \<le> patience io \<and> outs io' = outs io"
    and sends_all: "delivers io p ms \<Longrightarrow>
      \<exists>io'. bglib_output U (length bs) bs io = Some (Inr io') \<and> delivers io' p ms
         \<and> patience io' = patience io \<and> outs io' = outs io @ bs"
begin

text \<open>One call of \<open>gecko_wait_message\<close> on a message that is to come.\<close>

definition wm_same :: "'io bglib \<Rightarrow> 'io bglib \<Rightarrow> bool" where
  "wm_same b b' = (patience (dev b') \<le> patience (dev b) \<and> outs (dev b') = outs (dev b) \<and> handed_out b' = handed_out b
     \<and> gecko_queue_r b' = gecko_queue_r b \<and> gecko_cmd_msg b' = gecko_cmd_msg b)"

lemma msg_header:
  assumes "delivers io [] (msg_bytes m # ms)"
  shows "(\<exists>io1 io2. bglib_input U 1 io = Some (1, [ucast (fst m)], io1)
       \<and> bglib_input U 3 io1 = Some (3, tl (le_bytes4 (fst m)), io2) \<and> delivers io2 (snd m) ms
       \<and> patience io2 \<le> patience io \<and> outs io2 = outs io)
    \<or> (\<exists>io'. bglib_input U 1 io = Some (-1, [], io') \<and> delivers io' [] (msg_bytes m # ms)
       \<and> patience io' < patience io \<and> outs io' = outs io)"
proof -
  have m: "take 1 (msg_bytes m) = [ucast (fst m)]" "drop 1 (msg_bytes m) = tl (le_bytes4 (fst m)) @ snd m"
    by (simp_all add: msg_bytes_def le_bytes4_def)
  have "1 \<le> length (msg_bytes m)" by simp
  from start [OF assms zero_less_one this] show ?thesis
  proof (elim disjE exE conjE)
    fix io1
    assume i: "bglib_input U 1 io = Some (int 1, take 1 (msg_bytes m), io1)" "delivers io1 (drop 1 (msg_bytes m)) ms"
      "patience io1 \<le> patience io" "outs io1 = outs io"
    obtain io2 where "bglib_input U 3 io1 = Some (3, tl (le_bytes4 (fst m)), io2)" "delivers io2 (snd m) ms"
      "patience io2 \<le> patience io1" "outs io2 = outs io1"
      using cont [OF i(2), of 3] le_bytes4_split(4) [of "fst m"] unfolding m by auto
    then show ?thesis using i m by (intro disjI1) auto
  qed auto
qed

lemma payload_read:
  assumes "delivers io p ms" "p \<noteq> []"
  shows "\<exists>io'. bglib_input U (length p) io = Some (int (length p), p, io') \<and> delivers io' [] ms
    \<and> patience io' \<le> patience io \<and> outs io' = outs io"
  using cont [OF assms(1), of "length p"] assms(2) by auto

lemma read_payload_spec:
  assumes "delivers (dev b) pl ms" "BGLIB_MSG_LEN h = length pl"
    and slot: "case pck of Queue_slot i \<Rightarrow> i < length (gecko_queue b) | Rsp_msg \<Rightarrow> True"
  shows "\<exists>io'. read_payload U pck rv h b =
      Some (rv, upd_pkt pck (\<lambda>p. p\<lparr>header := h, payload := pl @ drop (length pl) (payload p)\<rparr>) (b\<lparr>dev := io'\<rparr>))
    \<and> delivers io' [] ms \<and> patience io' \<le> patience (dev b) \<and> outs io' = outs (dev b)"
proof (cases "pl = []")
  case True
  then show ?thesis
    using assms(1,2) by (intro exI [of _ "dev b"]) (simp add: read_payload_def upd_pkt_def split: pktptr.split)
next
  case False
  have d: "dev (upd_pkt pck f b) = dev b" for f by (simp add: upd_pkt_def split: pktptr.split)
  obtain io' where "bglib_input U (length pl) (dev b) = Some (int (length pl), pl, io')" "delivers io' [] ms"
    "patience io' \<le> patience (dev b)" "outs io' = outs (dev b)"
    using payload_read [OF assms(1) False] by blast
  then show ?thesis
    using assms(2) False slot
    by (intro exI [of _ io'], cases pck) (simp_all add: read_payload_def d Let_def, simp_all add: upd_pkt_def)
qed

lemma msg_of_read:
  assumes "length (payload p) = 256" "proper m"
  shows "msg_of (p\<lparr>header := fst m, payload := snd m @ drop (length (snd m)) (payload p)\<rparr>) = m"
    "length (payload (p\<lparr>header := fst m, payload := snd m @ drop (length (snd m)) (payload p)\<rparr>)) = 256"
  using assms by (auto simp: msg_of_def proper_def)

definition wm_step :: "msg \<Rightarrow> u8 list list \<Rightarrow> 'io bglib \<Rightarrow> pktptr option \<Rightarrow> 'io bglib \<Rightarrow> bool" where
  "wm_step m ms b r b' = (delivers (dev b') [] ms \<and>
     (if is_event m then r = None
        \<and> map msg_of (waiting b') = (if pending_count b < 29 then map msg_of (waiting b) @ [m] else map msg_of (waiting b))
      else r = Some Rsp_msg \<and> msg_of (gecko_rsp_msg b') = m \<and> waiting b' = waiting b))"

definition wm_wait :: "msg \<Rightarrow> u8 list list \<Rightarrow> 'io bglib \<Rightarrow> pktptr option \<Rightarrow> 'io bglib \<Rightarrow> bool" where
  "wm_wait m ms b r b' = (r = None \<and> waiting b' = waiting b \<and> delivers (dev b') [] (msg_bytes m # ms)
     \<and> patience (dev b') < patience (dev b))"

text \<open>The header has been read: the rest of the call.\<close>

lemma wait_message_got:
  assumes ok: "ring_ok b" and pr: "proper m" and i1: "bglib_input U 1 (dev b) = Some (1, [ucast (fst m)], io1)"
    and i2: "bglib_input U 3 io1 = Some (3, tl (le_bytes4 (fst m)), io2)" and d: "delivers io2 (snd m) ms"
    and le: "patience io2 \<le> patience (dev b)" and o: "outs io2 = outs (dev b)"
  shows "\<exists>r b'. gecko_wait_message U b = Some (r, b') \<and> ring_ok b' \<and> wm_same b b' \<and> wm_step m ms b r b'"
proof -
  let ?h = "fst m" and ?b = "b\<lparr>dev := io2\<rparr>" and ?w = "gecko_queue_w b"
  have h: "le_word [ucast ?h] AND 0x78 = 0x20" using pr low_byte [of ?h] by (simp add: proper_def)
  have hdr: "le_word ([ucast ?h] @ tl (le_bytes4 ?h)) = ?h" using le_word_bytes le_bytes4_split(1) by metis
  have len: "BGLIB_MSG_LEN ?h = length (snd m)" "length (snd m) \<le> 256" and ty: "?h AND 0x78 = 0x20"
    using pr by (simp_all add: proper_def)
  have bits: "?h AND 0xf8 = (if is_event m then 0xa0 else 0x20)"
    using type_bits [OF ty] by (simp add: is_event_def)
  note rd = i1 i2 h [simplified] hdr [simplified] len(1) len(2) [THEN leD] bits
  show ?thesis
  proof (cases "is_event m")
    case False
    let ?f = "\<lambda>p. p\<lparr>header := ?h, payload := snd m @ drop (length (snd m)) (payload p)\<rparr>"
    obtain io' where r: "read_payload U Rsp_msg (Some Rsp_msg) ?h ?b =
        Some (Some Rsp_msg, upd_pkt Rsp_msg ?f (?b\<lparr>dev := io'\<rparr>))" "delivers io' [] ms"
      "patience io' \<le> patience (dev ?b)" "outs io' = outs (dev ?b)"
      using read_payload_spec [of ?b "snd m" ms ?h Rsp_msg] d len(1) by auto
    let ?b' = "upd_pkt Rsp_msg ?f (?b\<lparr>dev := io'\<rparr>)"
    have "gecko_wait_message U b = Some (Some Rsp_msg, ?b')"
      unfolding gecko_wait_message_def using False r(1) by (simp add: rd Let_def del: One_nat_def)
    moreover have "length (payload (gecko_rsp_msg b)) = 256" using ok by (simp add: ring_ok_def)
    ultimately show ?thesis
      using ok False r le o msg_of_read [OF _ pr]
      by (intro exI [of _ "Some Rsp_msg"] exI [of _ ?b'])
        (simp add: wm_step_def wm_same_def ring_ok_def upd_pkt_def waiting_def pending_count_def handed_out_def)
  next
    case True
    show ?thesis
    proof (cases "pending_count b < 29")
      case full: False
      then have f: "(?w + 1) mod 30 = gecko_queue_r b" using ring_full [OF ok] pending_less [of b] by simp
      show ?thesis
      proof (cases "snd m = []")
        case nil: True
        have "gecko_wait_message U b = Some (None, ?b)"
          unfolding gecko_wait_message_def using True f nil by (simp add: rd Let_def del: One_nat_def)
        then show ?thesis
          using ok True full d le o nil
          by (intro exI [of _ None] exI [of _ ?b]) (simp add: wm_step_def wm_same_def ring_dev)
      next
        case cons: False
        obtain io' where p: "bglib_input U (length (snd m)) io2 = Some (int (length (snd m)), snd m, io')"
          "delivers io' [] ms" "patience io' \<le> patience io2" "outs io' = outs io2"
          using payload_read [OF d cons] by blast
        have "gecko_wait_message U b = Some (None, ?b\<lparr>dev := io'\<rparr>)"
          unfolding gecko_wait_message_def using True f cons p(1) by (simp add: rd Let_def del: One_nat_def)
        then show ?thesis
          using ok True full p le o
          by (intro exI [of _ None] exI [of _ "?b\<lparr>dev := io'\<rparr>"]) (simp add: wm_step_def wm_same_def ring_dev)
      qed
    next
      case room: True
      then have f: "(?w + 1) mod 30 \<noteq> gecko_queue_r b" using ring_full [OF ok] by simp
      let ?f = "\<lambda>p. p\<lparr>header := ?h, payload := snd m @ drop (length (snd m)) (payload p)\<rparr>"
      let ?b1 = "?b\<lparr>gecko_queue_w := (?w + 1) mod 30\<rparr>"
      have w: "?w < length (gecko_queue b)" using ok by (simp add: ring_ok_def)
      obtain io' where r: "read_payload U (Queue_slot ?w) None ?h ?b1 =
          Some (None, upd_pkt (Queue_slot ?w) ?f (?b1\<lparr>dev := io'\<rparr>))" "delivers io' [] ms"
        "patience io' \<le> patience io2" "outs io' = outs io2"
        using read_payload_spec [of ?b1 "snd m" ms ?h "Queue_slot ?w"] d len(1) w by auto
      let ?c = "b\<lparr>dev := io'\<rparr>" and ?p = "?f (gecko_queue b ! ?w)"
      let ?b' = "?c\<lparr>gecko_queue := (gecko_queue ?c)[gecko_queue_w ?c := ?p], gecko_queue_w := (gecko_queue_w ?c + 1) mod 30\<rparr>"
      have e: "gecko_wait_message U b = Some (None, ?b')"
        unfolding gecko_wait_message_def using True f r(1) by (simp add: rd Let_def upd_pkt_def del: One_nat_def)
      have l: "length (payload (gecko_queue b ! ?w)) = 256" using ok w by (simp add: ring_ok_def)
      note p = msg_of_read [OF l pr]
      have oc: "ring_ok ?c" "pending_count ?c < 29" using ok room by (simp_all add: ring_dev)
      note a = ring_append [OF oc p(2)]
      show ?thesis
      proof (intro exI [of _ None] exI [of _ ?b'] conjI)
        show "wm_step m ms b None ?b'"
          using True room r(2) a(1) p(1) by (simp add: wm_step_def ring_dev)
        show "wm_same b ?b'"
          using a(3,4) r(3,4) le o by (simp add: wm_same_def ring_dev)
      qed (rule e, rule a(2))
    qed
  qed
qed

lemma wait_message_spec:
  assumes ok: "ring_ok b" and pr: "proper m" and dl: "delivers (dev b) [] (msg_bytes m # ms)"
  shows "\<exists>r b'. gecko_wait_message U b = Some (r, b') \<and> ring_ok b' \<and> wm_same b b'
    \<and> (wm_step m ms b r b' \<or> wm_wait m ms b r b')"
  using msg_header [OF dl]
proof (elim disjE exE conjE)
  fix io'
  assume "bglib_input U 1 (dev b) = Some (-1, [], io')" "delivers io' [] (msg_bytes m # ms)"
    "patience io' < patience (dev b)" "outs io' = outs (dev b)"
  then show ?thesis
    using ok by (intro exI [of _ None] exI [of _ "b\<lparr>dev := io'\<rparr>"])
      (simp add: gecko_wait_message_def wm_wait_def wm_same_def ring_dev)
next
  fix io1 io2
  assume "bglib_input U 1 (dev b) = Some (1, [ucast (fst m)], io1)"
    "bglib_input U 3 io1 = Some (3, tl (le_bytes4 (fst m)), io2)" "delivers io2 (snd m) ms"
    "patience io2 \<le> patience (dev b)" "outs io2 = outs (dev b)"
  from wait_message_got [OF ok pr this] show ?thesis by blast
qed

text \<open>
  Waiting for a response: the events that come before it are kept in order as far as the ring has
  room, the response is what is returned, and what follows it stays to be read.
\<close>

lemma wm_same_trans: "wm_same a b \<Longrightarrow> wm_same b c \<Longrightarrow> wm_same a c"
  by (auto simp: wm_same_def)

lemma wait_response_spec:
  assumes "ring_ok b" "list_all proper es" "list_all is_event es" "proper m" "\<not> is_event m"
    "delivers (dev b) [] (map msg_bytes es @ msg_bytes m # ms)"
  shows "\<exists>b'. gecko_wait_response U b = Some (Rsp_msg, b') \<and> ring_ok b' \<and> wm_same b b'
    \<and> msg_of (gecko_rsp_msg b') = m \<and> map msg_of (waiting b') = map msg_of (waiting b) @ take (29 - pending_count b) es
    \<and> delivers (dev b') [] ms"
  using assms
proof (induction "length es + patience (dev b)" arbitrary: b es rule: less_induct)
  case less
  define x xs where x: "x = hd (es @ [m])" and xs: "xs = tl (map msg_bytes es @ msg_bytes m # ms)"
  have px: "proper x" using less.prems(2,4) by (cases es) (simp_all add: x)
  have dx: "delivers (dev b) [] (msg_bytes x # xs)" using less.prems(6) by (cases es) (simp_all add: x xs)
  obtain r b1 where w: "gecko_wait_message U b = Some (r, b1)" and ok: "ring_ok b1" and same: "wm_same b b1"
    and st: "wm_step x xs b r b1 \<or> wm_wait x xs b r b1"
    using wait_message_spec [OF less.prems(1) px dx] by blast
  show ?case
  proof (cases "wm_wait x xs b r b1")
    case True
    then have s: "waiting b1 = waiting b" "r = None" and d1: "delivers (dev b1) [] (map msg_bytes es @ msg_bytes m # ms)"
      and lt: "length es + patience (dev b1) < length es + patience (dev b)"
      by (cases es; simp add: wm_wait_def x xs)+
    have c: "pending_count b1 = pending_count b" using s(1) length_waiting by metis
    obtain b' where "gecko_wait_response U b1 = Some (Rsp_msg, b')" "ring_ok b'" "wm_same b1 b'"
      "msg_of (gecko_rsp_msg b') = m" "map msg_of (waiting b') = map msg_of (waiting b1) @ take (29 - pending_count b1) es"
      "delivers (dev b') [] ms"
      using less.hyps [OF lt ok less.prems(2-5) d1] by blast
    then show ?thesis
      using w s c wm_same_trans [OF same] by (intro exI [of _ b'], subst gecko_wait_response.simps) simp
  next
    case False
    then have st: "wm_step x xs b r b1" using st by blast
    show ?thesis
    proof (cases es)
      case Nil
      then have "r = Some Rsp_msg" "msg_of (gecko_rsp_msg b1) = m" "waiting b1 = waiting b" "delivers (dev b1) [] ms"
        using st less.prems(5) by (simp_all add: wm_step_def x xs)
      moreover from this(2) have "header (gecko_rsp_msg b1) AND 0x80 = 0"
        using less.prems(5) by (auto simp: msg_of_def is_event_def)
      ultimately show ?thesis
        using w ok same Nil by (intro exI [of _ b1], subst gecko_wait_response.simps) (simp add: deref_def)
    next
      case (Cons e es')
      have lt: "length es' + patience (dev b1) < length es + patience (dev b)"
        using same Cons by (simp add: wm_same_def)
      have e: "is_event e" "list_all proper es'" "list_all is_event es'" using less.prems Cons by simp_all
      have s: "r = None" "delivers (dev b1) [] (map msg_bytes es' @ msg_bytes m # ms)"
        "map msg_of (waiting b1) = (if pending_count b < 29 then map msg_of (waiting b) @ [e] else map msg_of (waiting b))"
        using st Cons e(1) by (simp_all add: wm_step_def x xs)
      have c: "pending_count b1 = (if pending_count b < 29 then Suc (pending_count b) else pending_count b)"
        using arg_cong [OF s(3), of length] by (simp split: if_splits)
      obtain b' where "gecko_wait_response U b1 = Some (Rsp_msg, b')" "ring_ok b'" "wm_same b1 b'"
        "msg_of (gecko_rsp_msg b') = m" "map msg_of (waiting b') = map msg_of (waiting b1) @ take (29 - pending_count b1) es'"
        "delivers (dev b') [] ms"
        using less.hyps [OF lt ok e(2,3) less.prems(4,5) s(2)] by blast
      moreover have "map msg_of (waiting b1) @ take (29 - pending_count b1) es' = map msg_of (waiting b) @ take (29 - pending_count b) es"
        using s(3) c Cons by (simp add: take_Cons' Suc_diff_Suc)
      ultimately show ?thesis
        using w s(1) wm_same_trans [OF same] by (intro exI [of _ b'], subst gecko_wait_response.simps) simp
    qed
  qed
qed

text \<open>A command: its bytes reach the target, and then the response is awaited.\<close>

lemma length_cmd_bytes:
  "length (payload p) = 256 \<Longrightarrow> BGLIB_MSG_LEN (header p) \<le> 256 \<Longrightarrow> length (cmd_bytes p) = 4 + BGLIB_MSG_LEN (header p)"
  by (simp add: cmd_bytes_def)

lemma handle_command_spec:
  assumes "ring_ok b" "list_all proper es" "list_all is_event es" "proper m" "\<not> is_event m"
    "delivers (dev b) [] (map msg_bytes es @ msg_bytes m # ms)"
    "BGLIB_MSG_LEN (header (gecko_cmd_msg b)) \<le> 256" "length (payload (gecko_cmd_msg b)) = 256"
  shows "\<exists>b'. gecko_handle_command U b = Some (Inr b') \<and> ring_ok b' \<and> outs (dev b') = outs (dev b) @ cmd_bytes (gecko_cmd_msg b)
    \<and> handed_out b' = handed_out b \<and> msg_of (gecko_rsp_msg b') = m
    \<and> map msg_of (waiting b') = map msg_of (waiting b) @ take (29 - pending_count b) es \<and> delivers (dev b') [] ms"
proof -
  let ?bs = "cmd_bytes (gecko_cmd_msg b)"
  have l: "length ?bs = 4 + BGLIB_MSG_LEN (header (gecko_cmd_msg b))" using assms(7,8) by (rule length_cmd_bytes [rotated])
  obtain io' where o: "bglib_output U (length ?bs) ?bs (dev b) = Some (Inr io')"
    "delivers io' [] (map msg_bytes es @ msg_bytes m # ms)" "outs io' = outs (dev b) @ ?bs"
    using sends_all [OF assms(6)] by blast
  let ?b = "b\<lparr>dev := io'\<rparr>"
  have "ring_ok ?b" "delivers (dev ?b) [] (map msg_bytes es @ msg_bytes m # ms)" using assms(1) o(2) by (simp_all add: ring_dev)
  from wait_response_spec [OF this(1) assms(2-5) this(2)]
  obtain b' where "gecko_wait_response U ?b = Some (Rsp_msg, b')" "ring_ok b'" "wm_same ?b b'"
    "msg_of (gecko_rsp_msg b') = m" "map msg_of (waiting b') = map msg_of (waiting ?b) @ take (29 - pending_count ?b) es"
    "delivers (dev b') [] ms" by blast
  then show ?thesis
    using o(1,3) assms(7) unfolding l
    by (auto simp: gecko_handle_command_def output_command_def wm_same_def ring_dev)
qed

end

subsection \<open>Looking for events\<close>

text \<open>
  The start of a round of the loops of \<open>bgevt_dispenser\<close> and \<open>sync_host_and_ncp_target\<close>: \<open>poll\<close> is the
  call of \<open>poll_update\<close> where it is made. \<open>rounds\<close> are the events a number of rounds look at.
\<close>

definition peek_round :: "'io bguart_t \<Rightarrow> ('io \<Rightarrow> 'io option) \<Rightarrow> 'io bglib \<Rightarrow> (pktptr option \<times> 'io bglib) option" where
  "peek_round U poll b = do { io \<leftarrow> poll (dev b); gecko_peek_event U (b\<lparr>dev := io\<rparr>) }"

fun rounds :: "'io bguart_t \<Rightarrow> ('io \<Rightarrow> 'io option) \<Rightarrow> nat \<Rightarrow> 'io bglib \<Rightarrow> (msg list \<times> 'io bglib) option" where
  "rounds U poll 0 b = Some ([], b)"
| "rounds U poll (Suc k) b = do {
     (p, b) \<leftarrow> peek_round U poll b;
     (ms, b') \<leftarrow> rounds U poll k b;
     Some ((case p of None \<Rightarrow> [] | Some p \<Rightarrow> [msg_of (deref b p)]) @ ms, b')
   }"

locale polled_source = message_source U delivers patience outs
  for U :: "'io bguart_t" and delivers patience outs +
  fixes poll :: "'io \<Rightarrow> 'io option" and peek :: "'io \<Rightarrow> (int \<times> 'io) option"
  assumes has_peek: "bglib_peek U = Some peek"
    and polls: "delivers io [] ms \<Longrightarrow>
      \<exists>io'. poll io = Some io' \<and> delivers io' [] ms \<and> patience io' \<le> patience io \<and> outs io' = outs io"
    and peeks: "delivers io [] ms \<Longrightarrow>
      \<exists>k io'. peek io = Some (k, io') \<and> delivers io' [] ms \<and> patience io' \<le> patience io \<and> outs io' = outs io
        \<and> (ms = [] \<longrightarrow> k = 0)"
    and progress: "delivers io [] ms \<Longrightarrow> ms \<noteq> [] \<Longrightarrow> poll io = Some io1 \<Longrightarrow> peek io1 = Some (0, io2) \<Longrightarrow>
      patience io2 < patience io"
begin

lemma nothing_there_spec:
  assumes "delivers (dev b) [] ms"
  shows "\<exists>k io'. peek (dev b) = Some (k, io') \<and> nothing_there U False b = Some (k = 0, b\<lparr>dev := io'\<rparr>)
    \<and> delivers io' [] ms \<and> patience io' \<le> patience (dev b) \<and> outs io' = outs (dev b) \<and> (ms = [] \<longrightarrow> k = 0)"
  using peeks [OF assms] has_peek by (auto simp: nothing_there_def)

text \<open>
  \<open>took\<close>: the next event in order is handed out, those behind it stay in order; \<open>got_none\<close>: there is none
  yet.
\<close>

definition took :: "msg list \<Rightarrow> 'io bglib \<Rightarrow> pktptr option \<Rightarrow> 'io bglib \<Rightarrow> bool" where
  "took es b r b' = (\<exists>p es'. r = Some p \<and> deref b' p = handed_out b' \<and> delivers (dev b') [] (map msg_bytes es')
     \<and> list_all proper es' \<and> list_all is_event es'
     \<and> msg_of (handed_out b') # map msg_of (waiting b') @ es' = map msg_of (waiting b) @ es)"

definition got_none :: "msg list \<Rightarrow> 'io bglib \<Rightarrow> pktptr option \<Rightarrow> 'io bglib \<Rightarrow> bool" where
  "got_none es b r b' = (r = None \<and> waiting b = [] \<and> waiting b' = [] \<and> delivers (dev b') [] (map msg_bytes es)
     \<and> (peek (dev b) = Some (0, dev b') \<or> patience (dev b') < patience (dev b)))"

lemma take_waiting:
  assumes "ring_ok b" "pending_count b \<noteq> 0" "delivers (dev b) [] (map msg_bytes es)" "list_all proper es" "list_all is_event es"
  shows "\<exists>r b'. gecko_get_event U block b = Some (r, b') \<and> ring_ok b' \<and> patience (dev b') = patience (dev b)
    \<and> outs (dev b') = outs (dev b) \<and> took es b r b'"
proof -
  have ne: "gecko_queue_w b \<noteq> gecko_queue_r b" using ring_empty [OF assms(1)] assms(2) by simp
  let ?b = "b\<lparr>gecko_queue_r := (gecko_queue_r b + 1) mod 30\<rparr>"
  note t = ring_take [OF assms(1) ne]
  have "deref ?b (Queue_slot (gecko_queue_r b)) = handed_out ?b" using t(3) by (simp add: deref_def)
  then have "took es b (Some (Queue_slot (gecko_queue_r b))) ?b"
    using t assms(3-5) by (auto simp: took_def)
  then show ?thesis
    using ne t(2) by (intro exI [of _ "Some (Queue_slot (gecko_queue_r b))"] exI [of _ ?b], subst gecko_get_event.simps) simp
qed

lemma get_event_spec:
  assumes "ring_ok b" "delivers (dev b) [] (map msg_bytes es)" "list_all proper es" "list_all is_event es"
  shows "\<exists>r b'. gecko_get_event U False b = Some (r, b') \<and> ring_ok b' \<and> patience (dev b') \<le> patience (dev b)
    \<and> outs (dev b') = outs (dev b) \<and> (took es b r b' \<or> got_none es b r b')"
  using assms
proof (induction "patience (dev b)" arbitrary: b rule: less_induct)
  case less
  show ?case
  proof (cases "pending_count b = 0")
    case False
    then show ?thesis using take_waiting [OF less.prems(1) False less.prems(2-4), of False] by fastforce
  next
    case True
    then have e: "gecko_queue_w b = gecko_queue_r b" "waiting b = []"
      using ring_empty [OF less.prems(1)] by (simp_all add: waiting_def)
    obtain k io where p: "peek (dev b) = Some (k, io)" "nothing_there U False b = Some (k = 0, b\<lparr>dev := io\<rparr>)"
      "delivers io [] (map msg_bytes es)" "patience io \<le> patience (dev b)" "outs io = outs (dev b)"
      "es = [] \<longrightarrow> k = 0"
      using nothing_there_spec [OF less.prems(2)] by auto
    let ?b = "b\<lparr>dev := io\<rparr>"
    have ok: "ring_ok ?b" using less.prems(1) by (simp add: ring_dev)
    show ?thesis
    proof (cases "k = 0")
      case True
      then show ?thesis
        using e p ok by (intro exI [of _ None] exI [of _ ?b], subst gecko_get_event.simps)
          (simp add: got_none_def ring_dev)
    next
      case False
      then obtain x es' where es: "es = x # es'" using p(6) by (cases es) auto
      have x: "proper x" "is_event x" "list_all proper es'" "list_all is_event es'" using less.prems(3,4) es by simp_all
      have d: "delivers (dev ?b) [] (msg_bytes x # map msg_bytes es')" using p(3) es by simp
      obtain r b1 where w: "gecko_wait_message U ?b = Some (r, b1)" "ring_ok b1" "wm_same ?b b1"
        "wm_step x (map msg_bytes es') ?b r b1 \<or> wm_wait x (map msg_bytes es') ?b r b1"
        using wait_message_spec [OF ok x(1) d] by blast
      have r: "r = None" using w(4) x(2) by (auto simp: wm_step_def wm_wait_def)
      have step: "gecko_get_event U False b = gecko_get_event U False b1"
        using e(1) p(2) False w(1) r by (subst gecko_get_event.simps) simp
      have le: "patience (dev b1) \<le> patience (dev b)" "outs (dev b1) = outs (dev b)"
        using w(3) p(4,5) by (simp_all add: wm_same_def)
      show ?thesis
      proof (cases "wm_wait x (map msg_bytes es') ?b r b1")
        case True
        then have w1: "waiting b1 = []" "delivers (dev b1) [] (map msg_bytes es)" "patience (dev b1) < patience (dev b)"
          using e(2) p(4) es by (simp_all add: wm_wait_def ring_dev)
        obtain r' b' where "gecko_get_event U False b1 = Some (r', b')" "ring_ok b'" "patience (dev b') \<le> patience (dev b1)"
          "outs (dev b') = outs (dev b1)" "took es b1 r' b' \<or> got_none es b1 r' b'"
          using less.hyps [OF w1(3) w(2) w1(2) less.prems(3,4)] by blast
        then show ?thesis
          using step le w1 e(2) unfolding took_def got_none_def
          by (intro exI [of _ r'] exI [of _ b']) auto
      next
        case False
        then have "map msg_of (waiting b1) = [x]" "delivers (dev b1) [] (map msg_bytes es')"
          using w(4) x(2) e(2) \<open>pending_count b = 0\<close> by (auto simp: wm_step_def ring_dev)
        moreover from this(1) have "pending_count b1 \<noteq> 0" by (metis length_map length_waiting list.size(3) list.distinct(1) length_0_conv)
        ultimately obtain r' b' where "gecko_get_event U False b1 = Some (r', b')" "ring_ok b'"
          "patience (dev b') = patience (dev b1)" "outs (dev b') = outs (dev b1)" "took es' b1 r' b'"
          using take_waiting [OF w(2) _ _ x(3,4)] by blast
        then show ?thesis
          using step le e(2) es \<open>map msg_of (waiting b1) = [x]\<close>
          by (intro exI [of _ r'] exI [of _ b']) (auto simp: took_def)
      qed
    qed
  qed
qed

lemma peek_round_spec:
  assumes "ring_ok b" "delivers (dev b) [] (map msg_bytes es)" "list_all proper es" "list_all is_event es"
  shows "\<exists>r b'. peek_round U poll b = Some (r, b') \<and> ring_ok b' \<and> patience (dev b') \<le> patience (dev b)
    \<and> (took es b r b' \<or> (r = None \<and> waiting b = [] \<and> waiting b' = [] \<and> delivers (dev b') [] (map msg_bytes es)
         \<and> (es = [] \<or> patience (dev b') < patience (dev b))))"
proof -
  obtain io where p: "poll (dev b) = Some io" "delivers io [] (map msg_bytes es)" "patience io \<le> patience (dev b)"
    using polls [OF assms(2)] by blast
  let ?b = "b\<lparr>dev := io\<rparr>"
  have ok: "ring_ok ?b" "delivers (dev ?b) [] (map msg_bytes es)" using assms(1) p(2) by (simp_all add: ring_dev)
  obtain r b' where g: "gecko_get_event U False ?b = Some (r, b')" "ring_ok b'" "patience (dev b') \<le> patience io"
    "took es ?b r b' \<or> got_none es ?b r b'"
    using get_event_spec [OF ok assms(3,4)] by auto
  have "es = [] \<or> patience (dev b') < patience (dev b)" if "got_none es ?b r b'"
    using that progress [OF assms(2) _ p(1), of "dev b'"] p(3) by (auto simp: got_none_def)
  then show ?thesis
    using g p(1,3) by (intro exI [of _ r] exI [of _ b'])
      (auto simp: peek_round_def gecko_peek_event_def took_def got_none_def ring_dev)
qed

text \<open>
  However the bytes arrive, the events are looked at in the order in which the target sent them, none
  twice and none left out; after enough rounds all of them have been looked at.
\<close>

lemma rounds_spec:
  assumes "ring_ok b" "delivers (dev b) [] (map msg_bytes es)" "list_all proper es" "list_all is_event es"
  shows "\<exists>got b' es'. rounds U poll k b = Some (got, b') \<and> got @ map msg_of (waiting b') @ es' = map msg_of (waiting b) @ es
    \<and> (pending_count b + length es + patience (dev b) \<le> k \<longrightarrow> got = map msg_of (waiting b) @ es)"
  using assms
proof (induction k arbitrary: b es)
  case (Suc k)
  obtain r b1 where r: "peek_round U poll b = Some (r, b1)" "ring_ok b1" "patience (dev b1) \<le> patience (dev b)"
    "took es b r b1 \<or> (r = None \<and> waiting b = [] \<and> waiting b1 = [] \<and> delivers (dev b1) [] (map msg_bytes es)
      \<and> (es = [] \<or> patience (dev b1) < patience (dev b)))"
    using peek_round_spec [OF Suc.prems] by blast
  show ?case
  proof (cases "took es b r b1")
    case True
    then obtain p es1 where t: "r = Some p" "deref b1 p = handed_out b1" "delivers (dev b1) [] (map msg_bytes es1)"
      "list_all proper es1" "list_all is_event es1"
      "msg_of (handed_out b1) # map msg_of (waiting b1) @ es1 = map msg_of (waiting b) @ es"
      by (auto simp: took_def)
    have len: "Suc (pending_count b1 + length es1) = pending_count b + length es"
      using arg_cong [OF t(6), of length] by simp
    from Suc.IH [OF r(2) t(3-5)] obtain got b' es' where i: "rounds U poll k b1 = Some (got, b')"
      "got @ map msg_of (waiting b') @ es' = map msg_of (waiting b1) @ es1"
      "pending_count b1 + length es1 + patience (dev b1) \<le> k \<longrightarrow> got = map msg_of (waiting b1) @ es1" by blast
    show ?thesis
      using r(1,3) t(1,2,6) i len
      by (intro exI [of _ "msg_of (handed_out b1) # got"] exI [of _ b'] exI [of _ es']) auto
  next
    case False
    then have n: "r = None" "waiting b = []" "waiting b1 = []" "delivers (dev b1) [] (map msg_bytes es)"
      "es = [] \<or> patience (dev b1) < patience (dev b)"
      using r(4) by blast+
    have c: "pending_count b = 0" "pending_count b1 = 0" using n(2,3) length_waiting by (metis list.size(3))+
    from Suc.IH [OF r(2) n(4) Suc.prems(3,4)] obtain got b' es' where i: "rounds U poll k b1 = Some (got, b')"
      "got @ map msg_of (waiting b') @ es' = map msg_of (waiting b1) @ es"
      "pending_count b1 + length es + patience (dev b1) \<le> k \<longrightarrow> got = map msg_of (waiting b1) @ es" by blast
    have "pending_count b + length es + patience (dev b) \<le> Suc k \<longrightarrow> got = map msg_of (waiting b) @ es"
      using i(2,3) n(2,3,5) c by auto
    then show ?thesis
      using r(1) n(1-3) i(1,2) by (intro exI [of _ got] exI [of _ b'] exI [of _ es']) auto
  qed
qed (auto simp: waiting_def)

end

end
