(* ===== verification/Uart.thy ===== *)
theory Uart
  imports Prelude
begin

unbundle bit_operations_syntax

text \<open>
  The serial port, \<open>hal/common/uart/uart_posix.c\<close>. The operating system is the environment of this
  theory: \<open>line\<close> lists what happens on the line before each later system call that reads from it (bytes
  arrive, the call fails, or the device is gone and every later call fails), \<open>wrote\<close> the outcome of each later \<open>write\<close>. Once \<open>line\<close> is exhausted the
  device is silent; once \<open>wrote\<close> is exhausted every write takes all it is given. A \<open>read\<close> is the one
  of a port opened with a timeout from 100 to 199, which is what the program does: it returns what has
  arrived, at most the length asked for, and 0 after a tenth of a second of silence. A loop that does
  not come to an end is the value \<^term>\<open>None\<close>.
\<close>

datatype (plugins only: code) tick = Arrives "u8 list" | Fails | Gone
datatype (plugins only: code) wres = Wrote nat | Again | WFails

text \<open>The attributes of a terminal, with the flag values of Linux.\<close>

record termios =
  c_iflag :: u32
  c_oflag :: u32
  c_cflag :: u32
  c_lflag :: u32
  c_vmin :: u8
  c_vtime :: u8

record uart_t =
  serialHandle :: int
  tty :: termios
  origTTYAttrs :: termios
  inbuf :: "u8 list"
  line :: "tick list"
  wrote :: "wres list"
  outbuf :: "u8 list"

subsection \<open>System calls\<close>

definition tick_of :: "uart_t \<Rightarrow> tick" where
  "tick_of u = (case line u of [] \<Rightarrow> Arrives [] | t # _ \<Rightarrow> t)"

definition sys_read :: "nat \<Rightarrow> uart_t \<Rightarrow> int \<times> u8 list \<times> uart_t" where
  "sys_read n u =
    (case tick_of u of
       Gone \<Rightarrow> (-1, [], u)
     | Fails \<Rightarrow> (-1, [], u\<lparr>line := tl (line u)\<rparr>)
     | Arrives bs \<Rightarrow>
         (let got = take n (inbuf u @ bs)
          in (int (length got), got, u\<lparr>line := tl (line u), inbuf := drop n (inbuf u @ bs)\<rparr>)))"

definition sys_fionread :: "uart_t \<Rightarrow> (nat option) \<times> uart_t" where
  "sys_fionread u =
    (case tick_of u of
       Gone \<Rightarrow> (None, u)
     | Fails \<Rightarrow> (None, u\<lparr>line := tl (line u)\<rparr>)
     | Arrives bs \<Rightarrow> (Some (length (inbuf u @ bs)), u\<lparr>line := tl (line u), inbuf := inbuf u @ bs\<rparr>))"

definition sys_write :: "u8 list \<Rightarrow> uart_t \<Rightarrow> wres \<times> uart_t" where
  "sys_write bs u =
    (case wrote u of
       [] \<Rightarrow> (Wrote (length bs), u\<lparr>outbuf := outbuf u @ bs\<rparr>)
     | Wrote k # ws \<Rightarrow> (Wrote (min k (length bs)), u\<lparr>wrote := ws, outbuf := outbuf u @ take k bs\<rparr>)
     | r # ws \<Rightarrow> (r, u\<lparr>wrote := ws\<rparr>))"

subsection \<open>Reading and writing\<close>

text \<open>\<open>uartRx\<close>: besides the result, the bytes stored at \<open>data\<close>, those before a failure included.\<close>

partial_function (option) rx_loop :: "nat \<Rightarrow> u8 list \<Rightarrow> uart_t \<Rightarrow> (bool \<times> u8 list \<times> uart_t) option" where
  "rx_loop dataToRead data u =
    (if dataToRead = 0 then Some (True, data, u)
     else (case sys_read dataToRead u of (dataRead, bs, u') \<Rightarrow>
       if dataRead = -1 then Some (False, data, u')
       else rx_loop (dataToRead - nat dataRead) (data @ bs) u'))"

definition uartRx :: "nat \<Rightarrow> uart_t \<Rightarrow> (int \<times> u8 list \<times> uart_t) option" where
  "uartRx dataLength u =
    (if serialHandle u = -1 then Some (-1, [], u)
     else do {
       (ok, data, u) \<leftarrow> rx_loop dataLength [] u;
       Some (if ok then int dataLength else -1, data, u)
     })"

definition uartRxNonBlocking :: "nat \<Rightarrow> uart_t \<Rightarrow> int \<times> u8 list \<times> uart_t" where
  "uartRxNonBlocking dataLength u =
    (if serialHandle u = -1 then (-1, [], u) else sys_read dataLength u)"

definition uartRxPeek :: "uart_t \<Rightarrow> int \<times> uart_t" where
  "uartRxPeek u =
    (if serialHandle u = -1 then (-1, u)
     else (case sys_fionread u of (None, u) \<Rightarrow> (-1, u) | (Some n, u) \<Rightarrow> (int n, u)))"

partial_function (option) tx_loop :: "u8 list \<Rightarrow> uart_t \<Rightarrow> (bool \<times> uart_t) option" where
  "tx_loop data u =
    (if data = [] then Some (True, u)
     else (case sys_write data u of
       (WFails, u') \<Rightarrow> Some (False, u')
     | (Again, u') \<Rightarrow> tx_loop data u'
     | (Wrote k, u') \<Rightarrow> tx_loop (drop k data) u'))"

definition uartTx :: "u8 list \<Rightarrow> uart_t \<Rightarrow> (int \<times> uart_t) option" where
  "uartTx data u =
    (if serialHandle u = -1 then Some (-1, u)
     else do {
       (ok, u) \<leftarrow> tx_loop data u;
       Some (if ok then int (length data) else -1, u)
     })"

subsection \<open>Opening and closing\<close>

definition speedTab :: "(u32 \<times> u32) list" where
  "speedTab = [(7, 300), (9, 1200), (0xb, 2400), (0xc, 4800), (0xd, 9600), (0xe, 19200), (0xf, 38400),
    (0x1001, 57600), (0x1002, 115200), (0, 0)]"

definition speed_of :: "u32 \<Rightarrow> u32 option" where
  "speed_of bps =
    (case filter (\<lambda>(c, n). n = 0 \<or> bps = n) speedTab of
       (c, n) # _ \<Rightarrow> if n = 0 then None else Some c
     | [] \<Rightarrow> None)"

abbreviation (input) IGNBRK :: u32 where "IGNBRK \<equiv> 1"
abbreviation (input) IXON :: u32 where "IXON \<equiv> 0x400"
abbreviation (input) IXOFF :: u32 where "IXOFF \<equiv> 0x1000"
abbreviation (input) CS5 :: u32 where "CS5 \<equiv> 0"
abbreviation (input) CS6 :: u32 where "CS6 \<equiv> 0x10"
abbreviation (input) CS7 :: u32 where "CS7 \<equiv> 0x20"
abbreviation (input) CS8 :: u32 where "CS8 \<equiv> 0x30"
abbreviation (input) CSIZE :: u32 where "CSIZE \<equiv> 0x30"
abbreviation (input) CSTOPB :: u32 where "CSTOPB \<equiv> 0x40"
abbreviation (input) CREAD :: u32 where "CREAD \<equiv> 0x80"
abbreviation (input) PARENB :: u32 where "PARENB \<equiv> 0x100"
abbreviation (input) PARODD :: u32 where "PARODD \<equiv> 0x200"
abbreviation (input) CLOCAL :: u32 where "CLOCAL \<equiv> 0x800"
abbreviation (input) CBAUD :: u32 where "CBAUD \<equiv> 0x100f"
abbreviation (input) CRTSCTS :: u32 where "CRTSCTS \<equiv> 0x80000000"

text \<open>\<open>cfsetspeed\<close> and \<open>cfmakeraw\<close> of the C library.\<close>

definition cfsetspeed :: "u32 \<Rightarrow> termios \<Rightarrow> termios" where
  "cfsetspeed c t = t\<lparr>c_cflag := (c_cflag t AND NOT CBAUD) OR c\<rparr>"

definition cfmakeraw :: "termios \<Rightarrow> termios" where
  "cfmakeraw t = t\<lparr>
     c_iflag := c_iflag t AND NOT 0x5eb,
     c_oflag := c_oflag t AND NOT 1,
     c_lflag := c_lflag t AND NOT 0x804b,
     c_cflag := (c_cflag t AND NOT (CSIZE OR PARENB)) OR CS8,
     c_vmin := 1, c_vtime := 0\<rparr>"

text \<open>
  The attributes \<open>uartOpenSerial\<close> sets. The cast of \<open>(cc_t)timeout / 100\<close> applies to \<open>timeout\<close>: it is
  reduced to a byte before the division.
\<close>

definition tty_attrs :: "u32 \<Rightarrow> u32 \<Rightarrow> u32 \<Rightarrow> u32 \<Rightarrow> u32 \<Rightarrow> u32 \<Rightarrow> int \<Rightarrow> termios \<Rightarrow> termios" where
  "tty_attrs cbaud dataBits parity stopBits rtsCts xOnXOff timeout orig =
    (let t = cfmakeraw (cfsetspeed cbaud orig);
         t = t\<lparr>c_iflag := IGNBRK\<rparr>;
         t = (if xOnXOff \<noteq> 0 then t\<lparr>c_iflag := c_iflag t OR (IXON OR IXOFF)\<rparr>
              else t\<lparr>c_iflag := c_iflag t AND NOT (IXON OR IXOFF)\<rparr>);
         t = t\<lparr>c_oflag := 0\<rparr>;
         t = t\<lparr>c_cflag := c_cflag t OR CLOCAL\<rparr>;
         t = t\<lparr>c_cflag := c_cflag t OR CREAD\<rparr>;
         t = (if dataBits = 5 then t\<lparr>c_cflag := c_cflag t OR CS5\<rparr>
              else if dataBits = 6 then t\<lparr>c_cflag := c_cflag t OR CS6\<rparr>
              else if dataBits = 7 then t\<lparr>c_cflag := c_cflag t OR CS7\<rparr>
              else t\<lparr>c_cflag := c_cflag t OR CS8\<rparr>);
         t = (if parity = 1 then t\<lparr>c_cflag := c_cflag t OR (PARENB OR PARODD)\<rparr>
              else if parity = 2 then t\<lparr>c_cflag := c_cflag t OR PARENB\<rparr>
              else t\<lparr>c_cflag := c_cflag t AND NOT PARENB\<rparr>);
         t = (if stopBits = 2 then t\<lparr>c_cflag := c_cflag t OR CSTOPB\<rparr>
              else t\<lparr>c_cflag := c_cflag t AND NOT CSTOPB\<rparr>);
         t = (if rtsCts \<noteq> 0 then t\<lparr>c_cflag := c_cflag t OR CRTSCTS\<rparr>
              else t\<lparr>c_cflag := c_cflag t AND NOT CRTSCTS\<rparr>);
         t = t\<lparr>c_lflag := 0\<rparr>
     in if timeout < 0 then t\<lparr>c_vmin := 1, c_vtime := 0\<rparr>
        else t\<lparr>c_vmin := 0, c_vtime := of_nat (unat (of_int timeout :: u8) div 100)\<rparr>)"

text \<open>What the operating system answers when a port is opened or closed.\<close>

record port_os =
  os_open :: int
  os_excl :: bool
  os_getattr :: "termios option"
  os_setfl :: bool
  os_speed :: bool
  os_setattr :: bool
  os_close :: int

definition uartOpenSerial ::
  "port_os \<Rightarrow> u32 \<Rightarrow> u32 \<Rightarrow> u32 \<Rightarrow> u32 \<Rightarrow> u32 \<Rightarrow> u32 \<Rightarrow> int \<Rightarrow> uart_t \<Rightarrow> int \<times> uart_t" where
  "uartOpenSerial os bps dataBits parity stopBits rtsCts xOnXOff timeout u =
    (case speed_of bps of
       None \<Rightarrow> (-1, u)
     | Some cbaud \<Rightarrow>
         if os_open os = -1 then (-1, u)
         else if \<not> os_excl os then (-1, u)
         else (case os_getattr os of
           None \<Rightarrow> (-1, u)
         | Some orig \<Rightarrow>
             let u = u\<lparr>origTTYAttrs := orig\<rparr>
             in if \<not> os_setfl os then (-1, u)
                else if \<not> os_speed os then (-1, u)
                else if \<not> os_setattr os then (-1, u)
                else (os_open os,
                      u\<lparr>tty := tty_attrs cbaud dataBits parity stopBits rtsCts xOnXOff timeout orig\<rparr>)))"

partial_function (option) flush_loop :: "uart_t \<Rightarrow> uart_t option" where
  "flush_loop u = (case uartRxNonBlocking 4 u of (r, _, u') \<Rightarrow> if r = 4 then flush_loop u' else Some u')"

definition uartOpen :: "port_os \<Rightarrow> u32 \<Rightarrow> u32 \<Rightarrow> int \<Rightarrow> uart_t \<Rightarrow> (int \<times> uart_t) option" where
  "uartOpen os baudRate rtsCts timeout u =
    (case uartOpenSerial os baudRate 8 0 1 rtsCts 0 timeout u of
       (h, u) \<Rightarrow>
         if h = -1 then Some (-1, u\<lparr>serialHandle := -1\<rparr>)
         else do { u \<leftarrow> flush_loop (u\<lparr>serialHandle := h\<rparr>); Some (0, u) })"

definition uartCloseSerial :: "port_os \<Rightarrow> int \<Rightarrow> int" where
  "uartCloseSerial os handle = os_close os"

definition uartClose :: "port_os \<Rightarrow> uart_t \<Rightarrow> int" where
  "uartClose os u = (if serialHandle u = -1 then 0 else uartCloseSerial os (serialHandle u))"

subsection \<open>The bytes to come\<close>

text \<open>
  \<open>coming\<close> are the bytes the device sends from now on, in order, however the line cuts them into
  pieces; \<open>on_line\<close> says that the port is open and no call on it is going to fail.
\<close>

fun tick_bytes :: "tick \<Rightarrow> u8 list" where
  "tick_bytes (Arrives bs) = bs"
| "tick_bytes Fails = []"
| "tick_bytes Gone = []"

definition arrives :: "tick \<Rightarrow> bool" where
  "arrives t = (t \<noteq> Fails \<and> t \<noteq> Gone)"

definition coming :: "uart_t \<Rightarrow> u8 list" where
  "coming u = inbuf u @ concat (map tick_bytes (line u))"

definition on_line :: "uart_t \<Rightarrow> bool" where
  "on_line u = (serialHandle u \<noteq> -1 \<and> list_all arrives (line u))"

text \<open>What reading leaves alone: everything but \<open>line\<close> and \<open>inbuf\<close>.\<close>

definition out_part :: "uart_t \<Rightarrow> int \<times> wres list \<times> u8 list" where
  "out_part u = (serialHandle u, wrote u, outbuf u)"

definition in_part :: "uart_t \<Rightarrow> int \<times> tick list \<times> u8 list" where
  "in_part u = (serialHandle u, line u, inbuf u)"

lemma in_part_coming: "in_part u' = in_part u \<Longrightarrow> coming u' = coming u \<and> on_line u' = on_line u"
  by (simp add: in_part_def coming_def on_line_def)

lemma tick_of_on_line:
  assumes "on_line u"
  shows "\<exists>bs. tick_of u = Arrives bs \<and> coming u = (inbuf u @ bs) @ concat (map tick_bytes (tl (line u)))
    \<and> list_all arrives (tl (line u))"
proof (cases "line u")
  case (Cons t ts)
  then show ?thesis using assms by (cases t) (auto simp: tick_of_def coming_def on_line_def arrives_def)
qed (simp add: tick_of_def coming_def)

lemma sys_read_on_line:
  assumes "on_line u"
  obtains got u' where "sys_read n u = (int (length got), got, u')" "got = take (length got) (coming u)"
    "length got \<le> n" "coming u' = drop (length got) (coming u)" "on_line u'" "out_part u' = out_part u"
    "line u' = tl (line u)" "line u = [] \<Longrightarrow> got = take n (coming u)"
proof -
  obtain bs where t: "tick_of u = Arrives bs"
    and c: "coming u = (inbuf u @ bs) @ concat (map tick_bytes (tl (line u)))" and f: "list_all arrives (tl (line u))"
    using tick_of_on_line [OF assms] by blast
  let ?got = "take n (inbuf u @ bs)"
  let ?u = "u\<lparr>line := tl (line u), inbuf := drop n (inbuf u @ bs)\<rparr>"
  have r: "sys_read n u = (int (length ?got), ?got, ?u)" by (simp add: sys_read_def t Let_def)
  have g: "?got = take (length ?got) (coming u)"
    unfolding c by (simp add: min_def)
  have d: "coming ?u = drop (length ?got) (coming u)"
    unfolding c by (simp add: coming_def min_def)
  have o: "on_line ?u" using assms f by (simp add: on_line_def)
  have e: "line u = [] \<Longrightarrow> ?got = take n (coming u)" using c by simp
  show ?thesis by (rule that [OF r g _ d o _ _ e]) (simp_all add: out_part_def)
qed

lemma rx_loop_complete:
  assumes "on_line u" "n \<le> length (coming u)"
  shows "\<exists>u'. rx_loop n data u = Some (True, data @ take n (coming u), u') \<and> coming u' = drop n (coming u)
    \<and> on_line u' \<and> out_part u' = out_part u \<and> length (line u') \<le> length (line u)"
  using assms
proof (induction "length (line u) + n" arbitrary: n data u rule: less_induct)
  case less
  show ?case
  proof (cases "n = 0")
    case True
    then show ?thesis using less.prems by (subst rx_loop.simps) simp
  next
    case False
    obtain got u1 where r: "sys_read n u = (int (length got), got, u1)" and g: "got = take (length got) (coming u)"
      and l: "length got \<le> n" and c: "coming u1 = drop (length got) (coming u)" and o: "on_line u1"
      and f: "out_part u1 = out_part u" and li: "line u1 = tl (line u)"
      and full: "line u = [] \<Longrightarrow> got = take n (coming u)"
      using sys_read_on_line [OF less.prems(1)] by blast
    have m: "length (line u1) + (n - length got) < length (line u) + n"
    proof (cases "line u")
      case Nil
      then have "length got = n" using full less.prems(2) by simp
      then show ?thesis using Nil li False by simp
    next
      case (Cons t ts)
      then show ?thesis using li False by simp
    qed
    have len: "n - length got \<le> length (coming u1)" using less.prems(2) by (simp add: c)
    obtain u2 where "rx_loop (n - length got) (data @ got) u1 =
        Some (True, (data @ got) @ take (n - length got) (coming u1), u2)"
      and "coming u2 = drop (n - length got) (coming u1)" "on_line u2" "out_part u2 = out_part u1"
      "length (line u2) \<le> length (line u1)"
      using less.hyps [OF m o len] by blast
    moreover have "got @ take (n - length got) (coming u1) = take n (coming u)"
      using l by (metis c g le_add_diff_inverse take_add)
    ultimately show ?thesis
      using False l by (intro exI [of _ u2], subst rx_loop.simps) (simp add: r c f li)
  qed
qed

text \<open>A line that falls silent in the middle: \<open>uartRx\<close> does not return, whatever timeout the port has.\<close>

lemma rx_loop_silent:
  assumes "on_line u" "length (coming u) < n"
  shows "rx_loop n data u = None"
proof -
  have main: "(\<forall>n data u. on_line u \<longrightarrow> length (coming u) < n \<longrightarrow> rx_loop n data u = Some y \<longrightarrow> False)" for y
  proof (rule allI)+
    fix n data u
    have "rx_loop n data u = Some y \<Longrightarrow> on_line u \<longrightarrow> length (coming u) < n \<longrightarrow> False"
    proof (induction rule: rx_loop.raw_induct [rotated, consumes 1])
      case (1 rx n data u y)
      show ?case
      proof (intro impI)
        assume o: "on_line u" and s: "length (coming u) < n"
        obtain got u1 where r: "sys_read n u = (int (length got), got, u1)"
          and c: "coming u1 = drop (length got) (coming u)" and o1: "on_line u1"
          and g: "got = take (length got) (coming u)"
          using sys_read_on_line [OF o] by blast
        have "length got \<le> length (coming u)" by (subst g) simp
        then have "length (coming u1) < n - length got" using s by (simp add: c)
        moreover have "rx (n - length got) (data @ got) u1 = Some y"
          using 1(2) s by (simp add: r split: if_splits)
        ultimately show False using 1(1) o1 by blast
      qed
    qed
    then show "on_line u \<longrightarrow> length (coming u) < n \<longrightarrow> rx_loop n data u = Some y \<longrightarrow> False" by blast
  qed
  show ?thesis
    using main assms by (cases "rx_loop n data u") blast+
qed

lemma uartRx_complete:
  assumes "on_line u" "n \<le> length (coming u)"
  shows "\<exists>u'. uartRx n u = Some (int n, take n (coming u), u') \<and> coming u' = drop n (coming u)
    \<and> on_line u' \<and> out_part u' = out_part u \<and> length (line u') \<le> length (line u)"
proof -
  have "serialHandle u \<noteq> -1" using assms(1) by (simp add: on_line_def)
  then show ?thesis using rx_loop_complete [OF assms, of "[]"] by (auto simp: uartRx_def)
qed

lemma uartRx_silent: "on_line u \<Longrightarrow> length (coming u) < n \<Longrightarrow> uartRx n u = None"
  by (simp add: uartRx_def rx_loop_silent on_line_def)

lemma uartRxPeek_on_line:
  assumes "on_line u"
  shows "\<exists>u'. uartRxPeek u = (int (length (inbuf u')), u') \<and> coming u' = coming u \<and> on_line u'
    \<and> out_part u' = out_part u \<and> line u' = tl (line u)"
proof -
  obtain bs where "tick_of u = Arrives bs" "coming u = (inbuf u @ bs) @ concat (map tick_bytes (tl (line u)))"
    "list_all arrives (tl (line u))"
    using tick_of_on_line [OF assms] by blast
  then show ?thesis
    using assms by (auto simp: uartRxPeek_def sys_fionread_def on_line_def coming_def out_part_def)
qed

subsection \<open>Writing\<close>

lemma tx_loop_complete:
  assumes "WFails \<notin> set (wrote u)"
  shows "\<exists>u'. tx_loop data u = Some (True, u') \<and> outbuf u' = outbuf u @ data \<and> in_part u' = in_part u
    \<and> WFails \<notin> set (wrote u')"
  using assms
proof (induction "wrote u" arbitrary: data u)
  case Nil
  have "\<exists>u'. tx_loop [] u' = Some (True, u')" for u' :: uart_t by (subst tx_loop.simps) simp
  then show ?case
    using Nil by (subst tx_loop.simps, subst tx_loop.simps) (simp add: sys_write_def in_part_def)
next
  case (Cons w ws)
  let ?n = "case w of Wrote k \<Rightarrow> k | _ \<Rightarrow> 0"
  let ?u = "u\<lparr>wrote := ws, outbuf := outbuf u @ take ?n data\<rparr>"
  have u: "ws = wrote ?u" "WFails \<notin> set (wrote ?u)" using Cons.prems Cons.hyps(2) [symmetric] by simp_all
  obtain u' where u': "tx_loop (drop ?n data) ?u = Some (True, u')" "outbuf u' = outbuf ?u @ drop ?n data"
    "in_part u' = in_part ?u" "WFails \<notin> set (wrote u')"
    using Cons.hyps(1) [OF u, of "drop ?n data"] by blast
  have m: "drop (min k (length data)) data = drop k data" for k by (simp add: min_def)
  have o: "u\<lparr>wrote := ws, outbuf := outbuf u\<rparr> = u\<lparr>wrote := ws\<rparr>" by simp
  show ?case
  proof (cases "data = []")
    case True
    then show ?thesis using Cons.prems by (subst tx_loop.simps) simp
  next
    case False
    have "tx_loop data u = tx_loop (drop ?n data) ?u"
      using Cons.prems Cons.hyps(2) [symmetric] False
      by (subst tx_loop.simps) (cases w, simp_all add: sys_write_def m)
    moreover have "outbuf u' = outbuf u @ data" using u'(2) by simp
    ultimately show ?thesis using u' by (auto simp: in_part_def)
  qed
qed

lemma uartTx_complete:
  assumes "serialHandle u \<noteq> -1" "WFails \<notin> set (wrote u)"
  shows "\<exists>u'. uartTx data u = Some (int (length data), u') \<and> outbuf u' = outbuf u @ data \<and> in_part u' = in_part u
    \<and> WFails \<notin> set (wrote u')"
  using tx_loop_complete [OF assms(2), of data] assms(1) by (auto simp: uartTx_def)

subsection \<open>The opened port\<close>

text \<open>
  Whatever the attributes of the port were, the program leaves it raw, at the speed \<open>c\<close> of the table,
  with 8 data bits, no parity, one stop bit and hardware flow control, and a tenth of a second for a read.
\<close>

lemma speed_cases:
  "speed_of bps = Some c \<Longrightarrow> c \<in> {7, 9, 0xb, 0xc, 0xd, 0xe, 0xf, 0x1001, 0x1002}"
  by (auto simp: speed_of_def speedTab_def split: if_splits)

lemma and_or_absorb:
  fixes x k r :: u32
  assumes "k AND r = k"
  shows "x AND k OR r = r"
proof (rule bit_eqI)
  fix n
  have "bit (k AND r) n = bit k n" by (simp only: assms)
  then show "bit (x AND k OR r) n = bit r n" by (auto simp: bit_and_iff bit_or_iff)
qed

lemma program_attrs:
  assumes "speed_of bps = Some c" "t = tty_attrs c 8 0 1 1 0 100 orig"
  shows "c_cflag t AND (CBAUD OR CSIZE OR CSTOPB OR CREAD OR PARENB OR CLOCAL OR CRTSCTS)
      = c OR CS8 OR CREAD OR CLOCAL OR CRTSCTS"
    "c_iflag t = IGNBRK" "c_oflag t = 0" "c_lflag t = 0" "c_vmin t = 0" "c_vtime t = 1"
proof -
  show "c_cflag t AND (CBAUD OR CSIZE OR CSTOPB OR CREAD OR PARENB OR CLOCAL OR CRTSCTS)
      = c OR CS8 OR CREAD OR CLOCAL OR CRTSCTS"
    using speed_cases [OF assms(1)] unfolding assms(2)
    by (auto simp: tty_attrs_def cfmakeraw_def cfsetspeed_def bit.conj_disj_distrib2 and.assoc or.assoc and_or_absorb)
qed (simp_all add: assms(2) tty_attrs_def cfmakeraw_def cfsetspeed_def)

lemma flush_loop_empties:
  assumes "on_line u"
  shows "\<exists>u' k. flush_loop u = Some u' \<and> coming u' = drop k (coming u) \<and> on_line u' \<and> out_part u' = out_part u
    \<and> (line u = [] \<longrightarrow> coming u' = [])"
  using assms
proof (induction "length (line u) + length (coming u)" arbitrary: u rule: less_induct)
  case less
  obtain got u1 where r: "sys_read 4 u = (int (length got), got, u1)" and l: "length got \<le> 4"
    and g: "got = take (length got) (coming u)"
    and c: "coming u1 = drop (length got) (coming u)" and o: "on_line u1" and f: "out_part u1 = out_part u"
    and li: "line u1 = tl (line u)" and full: "line u = [] \<Longrightarrow> got = take 4 (coming u)"
    using sys_read_on_line [OF less.prems] by blast
  have s: "uartRxNonBlocking 4 u = (int (length got), got, u1)"
    using less.prems r by (simp add: uartRxNonBlocking_def on_line_def)
  show ?case
  proof (cases "length got = 4")
    case False
    then have "flush_loop u = Some u1" by (subst flush_loop.simps) (simp add: s)
    moreover have "line u = [] \<longrightarrow> coming u1 = []" using full False c by auto
    ultimately show ?thesis using c o f by blast
  next
    case True
    have "length got \<le> length (coming u)" by (subst g) simp
    then have m: "length (line u1) + length (coming u1) < length (line u) + length (coming u)"
      using True by (simp add: c li)
    obtain u' k where "flush_loop u1 = Some u'" "coming u' = drop k (coming u1)" "on_line u'" "out_part u' = out_part u1"
      "line u1 = [] \<longrightarrow> coming u' = []"
      using less.hyps [OF m o] by blast
    moreover have "flush_loop u = flush_loop u1" using True by (subst flush_loop.simps) (simp add: s)
    ultimately show ?thesis using c f li by auto
  qed
qed

text \<open>
  Opening a port whose calls succeed: what had piled up in the target before is thrown away, so
  reading starts where the device starts to speak.
\<close>

definition opens :: "port_os \<Rightarrow> u32 \<Rightarrow> bool" where
  "opens os bps = (speed_of bps \<noteq> None \<and> os_open os \<noteq> -1 \<and> os_excl os \<and> os_getattr os \<noteq> None
     \<and> os_setfl os \<and> os_speed os \<and> os_setattr os)"

lemma uartOpen_ok:
  assumes "opens os bps" "list_all arrives (line u)"
  shows "\<exists>u' k. uartOpen os bps rts timeout u = Some (0, u') \<and> on_line u' \<and> serialHandle u' = os_open os
    \<and> wrote u' = wrote u \<and> outbuf u' = outbuf u
    \<and> coming u' = drop k (coming u) \<and> (line u = [] \<longrightarrow> coming u' = [])"
proof -
  obtain c orig where c: "speed_of bps = Some c" and orig: "os_getattr os = Some orig"
    using assms(1) by (auto simp: opens_def)
  let ?u = "u\<lparr>origTTYAttrs := orig, tty := tty_attrs c 8 0 1 rts 0 timeout orig, serialHandle := os_open os\<rparr>"
  have o: "on_line ?u" using assms by (simp add: on_line_def opens_def)
  obtain u' k where "flush_loop ?u = Some u'" "coming u' = drop k (coming ?u)" "on_line u'" "out_part u' = out_part ?u"
    "line ?u = [] \<longrightarrow> coming u' = []"
    using flush_loop_empties [OF o] by blast
  then show ?thesis
    using assms(1) c orig
    by (auto simp: uartOpen_def uartOpenSerial_def opens_def Let_def out_part_def coming_def)
qed

lemma uartOpen_refused:
  assumes "\<not> opens os bps"
  shows "\<exists>u'. uartOpen os bps rts timeout u = Some (-1, u') \<and> serialHandle u' = -1"
  using assms
  by (auto simp: uartOpen_def uartOpenSerial_def opens_def Let_def split: option.splits)

end
