(* ===== verification/Socket.thy ===== *)
theory Socket
  imports Uart
begin

text \<open>
  The socket to the daemon that owns the serial port, \<open>hal/socket_handler.c\<close>. The environment is
  \<open>speech\<close>, what happens on the stream before each later \<open>poll\<close>, and \<open>sends\<close>, the outcome of each
  later \<open>send\<close>. \<open>stream\<close> are the bytes the kernel holds for the program and \<open>peer\<close> the state of the
  other end. \<open>poll\<close> is not interrupted. \<open>bufPointer\<close> is an offset into \<open>buf\<close>; \<open>unhandledDataSize\<close> is
  the byte the code declares.
\<close>

datatype (plugins only: code) stick = Says "u8 list" | Hangs_up | Resets
datatype (plugins only: code) peer_t = Peer_open | Peer_closed | Peer_reset

record sock_t =
  enc_client_socket :: int
  unenc_client_socket :: int
  encrypted :: bool
  buf :: "u8 list"
  bufPointer :: nat
  unhandledDataSize :: u8
  poll_fd :: int
  poll_events :: u16
  poll_revents :: u16
  stream :: "u8 list"
  peer :: peer_t
  speech :: "stick list"
  sends :: "wres list"
  sock_out :: "(int \<times> u8 list) list"

abbreviation (input) MAX_PACKET_SIZE :: nat where "MAX_PACKET_SIZE \<equiv> 512"
abbreviation (input) POLLIN :: u16 where "POLLIN \<equiv> 1"
abbreviation (input) POLLHUP :: u16 where "POLLHUP \<equiv> 0x10"
abbreviation (input) POLLNVAL :: u16 where "POLLNVAL \<equiv> 0x20"

subsection \<open>System calls\<close>

text \<open>What has happened on the stream by the time of a poll.\<close>

definition listen :: "sock_t \<Rightarrow> sock_t" where
  "listen s =
    (case speech s of
       [] \<Rightarrow> s
     | Says bs # ts \<Rightarrow> s\<lparr>speech := ts, stream := stream s @ bs\<rparr>
     | Hangs_up # ts \<Rightarrow> s\<lparr>speech := ts, peer := Peer_closed\<rparr>
     | Resets # ts \<Rightarrow> s\<lparr>speech := ts, peer := Peer_reset\<rparr>)"

definition poll_result :: "sock_t \<Rightarrow> u16" where
  "poll_result s =
    (if poll_fd s < 0 then 0
     else if poll_fd s \<noteq> enc_client_socket s \<and> poll_fd s \<noteq> unenc_client_socket s then POLLNVAL
     else (if stream s \<noteq> [] \<or> peer s \<noteq> Peer_open then poll_events s AND POLLIN else 0)
       OR (if peer s \<noteq> Peer_open then POLLHUP else 0))"

text \<open>\<open>poll\<close> with a timeout, and without one.\<close>

definition sys_poll :: "sock_t \<Rightarrow> sock_t" where
  "sys_poll s = (let s = listen s in s\<lparr>poll_revents := poll_result s\<rparr>)"

partial_function (option) sys_poll_wait :: "sock_t \<Rightarrow> sock_t option" where
  "sys_poll_wait s = (let s = sys_poll s in if poll_revents s \<noteq> 0 then Some s else sys_poll_wait s)"

text \<open>\<open>recv\<close> once \<open>POLLIN\<close> is set: bytes, 0 at the end of the stream, -1 once after a reset.\<close>

definition sys_recv :: "nat \<Rightarrow> sock_t \<Rightarrow> int \<times> u8 list \<times> sock_t" where
  "sys_recv n s =
    (if stream s \<noteq> [] then
       (let got = take n (stream s) in (int (length got), got, s\<lparr>stream := drop n (stream s)\<rparr>))
     else if peer s = Peer_reset then (-1, [], s\<lparr>peer := Peer_closed\<rparr>)
     else (0, [], s))"

subsection \<open>Operations\<close>

definition readDomainSocket :: "int \<Rightarrow> u16 \<Rightarrow> sock_t \<Rightarrow> int \<times> sock_t" where
  "readDomainSocket fd revents s =
    (if unhandledDataSize s = 0 \<and> revents AND POLLIN \<noteq> 0
        \<and> (fd = enc_client_socket s \<or> fd = unenc_client_socket s)
     then
       (case sys_recv MAX_PACKET_SIZE (s\<lparr>bufPointer := 0\<rparr>) of (len, bs, s) \<Rightarrow>
          if len = 0 then
            (-1, (if fd = enc_client_socket s then s\<lparr>enc_client_socket := -1\<rparr>
                  else s\<lparr>unenc_client_socket := -1\<rparr>)\<lparr>unhandledDataSize := 0\<rparr>)
          else if len < 0 then (0, s\<lparr>unhandledDataSize := 0\<rparr>)
          else (len, s\<lparr>buf := bs @ drop (length bs) (buf s), unhandledDataSize := of_int len\<rparr>))
     else (0, s))"

definition poll_update :: "int \<Rightarrow> sock_t \<Rightarrow> sock_t option" where
  "poll_update timeout s = do {
     s \<leftarrow> (if timeout = 0 then sys_poll_wait s else Some (sys_poll s));
     Some (if poll_revents s \<noteq> 0 then snd (readDomainSocket (poll_fd s) (poll_revents s) s) else s)
   }"

text \<open>\<open>onMessageReceive\<close>: the result and the bytes stored at \<open>msg_data\<close>.\<close>

definition onMessageReceive :: "nat \<Rightarrow> sock_t \<Rightarrow> (int \<times> u8 list \<times> sock_t) option" where
  "onMessageReceive msg_len s = do {
     s \<leftarrow> poll_update 50 s;
     if unhandledDataSize s > 0 then
       if unat (unhandledDataSize s) \<ge> msg_len then
         if bufPointer s + msg_len \<le> length (buf s) then
           Some (int msg_len, take msg_len (drop (bufPointer s) (buf s)),
                 s\<lparr>unhandledDataSize := unhandledDataSize s - of_nat msg_len, bufPointer := bufPointer s + msg_len\<rparr>)
         else undef
       else Some (-1, [], s\<lparr>unhandledDataSize := 0\<rparr>)
     else Some (-1, [], s)
   }"

definition messagePeek :: "sock_t \<Rightarrow> int" where
  "messagePeek s = (if unhandledDataSize s > 0 then 1 else 0)"

definition turnEncryptionOn :: "sock_t \<Rightarrow> sock_t" where
  "turnEncryptionOn s = s\<lparr>encrypted := True\<rparr>"

definition turnEncryptionOff :: "sock_t \<Rightarrow> sock_t" where
  "turnEncryptionOff s = s\<lparr>encrypted := False\<rparr>"

text \<open>\<open>send\<close>; the code ignores its result. On a socket that is closed it fails.\<close>

definition sys_send :: "int \<Rightarrow> u8 list \<Rightarrow> sock_t \<Rightarrow> sock_t" where
  "sys_send fd bs s =
    (if fd = -1 then s
     else (case sends s of
       [] \<Rightarrow> s\<lparr>sock_out := sock_out s @ [(fd, bs)]\<rparr>
     | Wrote k # ws \<Rightarrow> s\<lparr>sends := ws, sock_out := sock_out s @ [(fd, take k bs)]\<rparr>
     | _ # ws \<Rightarrow> s\<lparr>sends := ws\<rparr>))"

definition onMessageSend :: "u8 list \<Rightarrow> sock_t \<Rightarrow> sock_t" where
  "onMessageSend msg_data s =
    (if encrypted s then sys_send (enc_client_socket s) msg_data s
     else sys_send (unenc_client_socket s) msg_data s)"

subsection \<open>Connecting\<close>

record sock_os =
  os_socket :: int
  os_bind :: bool
  os_connect :: bool

abbreviation (input) SUN_PATH_MAX :: nat where "SUN_PATH_MAX \<equiv> 108"

definition set_client_socket :: "bool \<Rightarrow> int \<Rightarrow> sock_t \<Rightarrow> sock_t" where
  "set_client_socket enc fd s = (if enc then s\<lparr>enc_client_socket := fd\<rparr> else s\<lparr>unenc_client_socket := fd\<rparr>)"

definition connect_domain_socket_server ::
  "sock_os \<Rightarrow> string \<Rightarrow> string \<Rightarrow> bool \<Rightarrow> sock_t \<Rightarrow> (int \<times> sock_t) option" where
  "connect_domain_socket_server os fnameServer fnameClient enc s =
    (let fd = os_socket os; s = set_client_socket enc fd s
     in if fd = -1 then Some (-1, s)
        else if SUN_PATH_MAX \<le> length fnameClient then undef
        else if \<not> os_bind os then Some (-1, s)
        else if SUN_PATH_MAX \<le> length fnameServer then undef
        else if \<not> os_connect os then Some (-1, s)
        else Some (0, s\<lparr>poll_fd := fd, poll_events := POLLIN, poll_revents := 0\<rparr>))"

subsection \<open>Whole messages\<close>

text \<open>
  \<open>held\<close> are the bytes received and not yet handed out. \<open>sock_delivers s p ms\<close>: the rest \<open>p\<close> of a
  message is held, and the messages \<open>ms\<close> are to come, held, in the kernel or still to be said, the daemon
  writes a message at a time, and no more than 255 bytes are outstanding, the size \<open>unhandledDataSize\<close>
  can count.
\<close>

definition held :: "sock_t \<Rightarrow> u8 list" where
  "held s = take (unat (unhandledDataSize s)) (drop (bufPointer s) (buf s))"

definition connected :: "sock_t \<Rightarrow> bool" where
  "connected s = (0 \<le> poll_fd s \<and> (poll_fd s = enc_client_socket s \<or> poll_fd s = unenc_client_socket s)
     \<and> poll_events s = POLLIN \<and> peer s = Peer_open \<and> length (buf s) = MAX_PACKET_SIZE
     \<and> bufPointer s + unat (unhandledDataSize s) \<le> MAX_PACKET_SIZE)"

definition sock_delivers :: "sock_t \<Rightarrow> u8 list \<Rightarrow> u8 list list \<Rightarrow> bool" where
  "sock_delivers s p ms = (connected s \<and> [] \<notin> set ms \<and> length (p @ concat ms) \<le> 255
     \<and> (\<exists>ms1 ms2 mss. held s = p @ concat ms1 \<and> stream s = concat ms2
          \<and> speech s = map (\<lambda>ms. Says (concat ms)) mss \<and> ms = ms1 @ ms2 @ concat mss))"

lemma unat_small_u8: "n \<le> 255 \<Longrightarrow> unat (of_nat n :: u8) = n"
  by (simp add: unat_of_nat take_bit_nat_def)

lemma length_held: "connected s \<Longrightarrow> length (held s) = unat (unhandledDataSize s)"
  unfolding held_def connected_def by (simp add: min_def) linarith

lemma held_Nil: "connected s \<Longrightarrow> held s = [] \<longleftrightarrow> unhandledDataSize s = 0"
  using length_held [of s] by (metis length_0_conv unat_eq_0)

definition send_part :: "sock_t \<Rightarrow> int \<times> int \<times> bool \<times> wres list \<times> (int \<times> u8 list) list" where
  "send_part s = (enc_client_socket s, unenc_client_socket s, encrypted s, sends s, sock_out s)"

lemma listen_delivers:
  assumes "sock_delivers s p ms"
  shows "sock_delivers (listen s) p ms \<and> held (listen s) = held s \<and> speech (listen s) = tl (speech s)
    \<and> send_part (listen s) = send_part s"
proof -
  obtain ms1 ms2 mss where a: "held s = p @ concat ms1" "stream s = concat ms2"
    "speech s = map (\<lambda>ms. Says (concat ms)) mss" "ms = ms1 @ ms2 @ concat mss" "connected s" "[] \<notin> set ms"
    "length (p @ concat ms) \<le> 255"
    using assms by (auto simp: sock_delivers_def)
  show ?thesis
  proof (cases mss)
    case Nil
    then show ?thesis using a assms by (simp add: listen_def)
  next
    case (Cons m mss')
    let ?s = "s\<lparr>speech := map (\<lambda>ms. Says (concat ms)) mss', stream := concat (ms2 @ m)\<rparr>"
    have l: "listen s = ?s" using a Cons by (simp add: listen_def)
    have h: "held ?s = held s" by (simp add: held_def)
    have "connected ?s" using a(5) by (simp add: connected_def)
    moreover have "ms = ms1 @ (ms2 @ m) @ concat mss'" using a(4) Cons by simp
    ultimately have "sock_delivers ?s p ms"
      unfolding sock_delivers_def using a(1,6,7) h
      by (intro conjI exI [of _ ms1] exI [of _ "ms2 @ m"] exI [of _ mss']) simp_all
    then show ?thesis using l h a(3) Cons by (simp add: send_part_def)
  qed
qed

lemma poll_result_connected:
  "connected s \<Longrightarrow> poll_result s = (if stream s \<noteq> [] then POLLIN else 0)"
  by (auto simp: poll_result_def connected_def)

lemma poll_update_delivers:
  assumes "sock_delivers s p ms"
  shows "\<exists>s'. poll_update 50 s = Some s' \<and> sock_delivers s' p ms \<and> speech s' = tl (speech s)
    \<and> send_part s' = send_part s \<and> (held s \<noteq> [] \<longrightarrow> held s' = held s)
    \<and> (held s' = [] \<longrightarrow> ms \<noteq> [] \<longrightarrow> speech s \<noteq> [])"
proof -
  let ?l = "listen s"
  have l: "sock_delivers ?l p ms" "held ?l = held s" "speech ?l = tl (speech s)" "send_part ?l = send_part s"
    using listen_delivers [OF assms] by simp_all
  obtain ms1 ms2 mss where a: "held ?l = p @ concat ms1" "stream ?l = concat ms2"
    "speech ?l = map (\<lambda>ms. Says (concat ms)) mss" "ms = ms1 @ ms2 @ concat mss" "connected ?l" "[] \<notin> set ms"
    "length (p @ concat ms) \<le> 255"
    using l(1) by (auto simp: sock_delivers_def)
  let ?q = "?l\<lparr>poll_revents := poll_result ?l\<rparr>"
  have q: "sock_delivers ?q p ms" "held ?q = held s" "send_part ?q = send_part s"
    using l by (auto simp: sock_delivers_def held_def connected_def send_part_def)
  show ?thesis
  proof (cases "held s = [] \<and> stream ?l \<noteq> []")
    case False
    then have "poll_update 50 s = Some ?q"
      using held_Nil [OF a(5)] l(2)
      by (auto simp: poll_update_def sys_poll_def Let_def poll_result_connected [OF a(5)] readDomainSocket_def)
    moreover have "held ?q = [] \<longrightarrow> ms \<noteq> [] \<longrightarrow> speech s \<noteq> []"
    proof (intro impI notI)
      assume h: "held ?q = []" "ms \<noteq> []" and n: "speech s = []"
      have "stream ?l = []" "held ?l = []" using False h(1) q(2) l(2) by simp_all
      moreover have "mss = []" using n l(3) a(3) by simp
      ultimately have "concat ms1 = []" "concat ms2 = []" "mss = []" using a(1,2) by simp_all
      then have "ms = []" using a(4,6) by (cases ms1; cases ms2) auto
      then show False using h(2) by simp
    qed
    ultimately show ?thesis using q l(3) by auto
  next
    case True
    let ?n = "length (stream ?l)"
    have n: "?n \<le> 255" using a(2,4,7) by simp
    have u: "unhandledDataSize ?l = 0" using True held_Nil [OF a(5)] l(2) by simp
    have p: "p = []" "concat ms1 = []" using True a(1) l(2) by simp_all
    let ?r = "?q\<lparr>bufPointer := 0, stream := [], buf := stream ?l @ drop ?n (buf ?l), unhandledDataSize := of_nat ?n\<rparr>"
    have d: "poll_update 50 s = Some ?r"
      using True u n a(5)
      by (auto simp: poll_update_def sys_poll_def Let_def poll_result_connected [OF a(5)] readDomainSocket_def
          sys_recv_def connected_def)
    have un: "unat (of_nat ?n :: u8) = ?n" using n by (rule unat_small_u8)
    have h: "held ?r = concat ms2" using un by (simp add: held_def a(2))
    have c: "connected ?r" using a(5) n by (auto simp: connected_def un)
    have "ms1 = []" using p(2) a(4,6) by (cases ms1) auto
    then have m: "ms = ms2 @ [] @ concat mss" using a(4) by simp
    have "sock_delivers ?r p ms"
      unfolding sock_delivers_def using c h a(3,6,7) p m
      by (intro conjI exI [of _ ms2] exI [of _ "[]"] exI [of _ mss]) simp_all
    moreover have "held ?r \<noteq> []" using h True a(2) by simp
    moreover have "send_part ?r = send_part s" using l(4) by (simp add: send_part_def)
    ultimately show ?thesis using d l(3) True by (intro exI [of _ ?r]) simp
  qed
qed

lemma take_of_held:
  assumes "connected s" "n \<le> length (held s)" "0 < n"
  defines "s' \<equiv> s\<lparr>unhandledDataSize := unhandledDataSize s - of_nat n, bufPointer := bufPointer s + n\<rparr>"
  shows "take n (drop (bufPointer s) (buf s)) = take n (held s)" "held s' = drop n (held s)" "connected s'"
    "bufPointer s + n \<le> length (buf s)" "n \<le> unat (unhandledDataSize s)" "unhandledDataSize s > 0"
proof -
  have l: "n \<le> unat (unhandledDataSize s)" using assms(1,2) by (simp add: length_held)
  have n: "unat (of_nat n :: u8) = n"
  proof (rule unat_small_u8)
    have "unat (unhandledDataSize s) < 256" using unsigned_less [of "unhandledDataSize s", where 'a = nat] by simp
    then show "n \<le> 255" using l by simp
  qed
  have u: "unat (unhandledDataSize s - of_nat n) = unat (unhandledDataSize s) - n"
    using l n by (simp add: unat_sub word_le_nat_alt)
  show "take n (drop (bufPointer s) (buf s)) = take n (held s)" using l by (simp add: held_def min_def)
  show "held s' = drop n (held s)" by (simp add: held_def s'_def u drop_take add.commute)
  show "connected s'" using assms(1) l by (simp add: connected_def s'_def u)
  show "bufPointer s + n \<le> length (buf s)" using assms(1) l by (simp add: connected_def)
  show "n \<le> unat (unhandledDataSize s)" by (rule l)
  show "unhandledDataSize s > 0" using l assms(3) by (simp add: word_less_nat_alt)
qed

definition kernel_has :: "sock_t \<Rightarrow> u8 list list \<Rightarrow> bool" where
  "kernel_has s r = (\<exists>ms2 mss. stream s = concat ms2 \<and> speech s = map (\<lambda>ms. Says (concat ms)) mss
     \<and> r = ms2 @ concat mss)"

lemma sock_delivers_alt:
  "sock_delivers s p ms \<longleftrightarrow> connected s \<and> [] \<notin> set ms \<and> length (p @ concat ms) \<le> 255
     \<and> (\<exists>ms1 r. held s = p @ concat ms1 \<and> kernel_has s r \<and> ms = ms1 @ r)"
  by (auto simp: sock_delivers_def kernel_has_def)

lemma onMessageReceive_held:
  assumes "poll_update 50 s = Some s1" "connected s1" "0 < n" "n \<le> length (held s1)"
  shows "\<exists>s'. onMessageReceive n s = Some (int n, take n (held s1), s') \<and> held s' = drop n (held s1) \<and> connected s'
    \<and> stream s' = stream s1 \<and> speech s' = speech s1 \<and> send_part s' = send_part s1"
proof -
  let ?s = "s1\<lparr>unhandledDataSize := unhandledDataSize s1 - of_nat n, bufPointer := bufPointer s1 + n\<rparr>"
  note t = take_of_held [OF assms(2,4,3)]
  have "onMessageReceive n s = Some (int n, take n (held s1), ?s)"
    unfolding onMessageReceive_def using t(1,4-6) assms(1) by simp
  then show ?thesis using t(2,3) by (simp add: send_part_def)
qed

lemma sock_cont:
  assumes "sock_delivers s p ms" "0 < n" "n \<le> length p"
  shows "\<exists>s'. onMessageReceive n s = Some (int n, take n p, s') \<and> sock_delivers s' (drop n p) ms
    \<and> speech s' = tl (speech s) \<and> send_part s' = send_part s"
proof -
  obtain s1 where s1: "poll_update 50 s = Some s1" "sock_delivers s1 p ms" "speech s1 = tl (speech s)"
    "send_part s1 = send_part s"
    using poll_update_delivers [OF assms(1)] by blast
  then obtain ms1 r where d: "connected s1" "held s1 = p @ concat ms1" "kernel_has s1 r" "ms = ms1 @ r"
    "[] \<notin> set ms" "length (p @ concat ms) \<le> 255"
    by (auto simp: sock_delivers_alt)
  have l: "n \<le> length (held s1)" using assms(3) d(2) by simp
  obtain s' where s': "onMessageReceive n s = Some (int n, take n (held s1), s')" "held s' = drop n (held s1)"
    "connected s'" "stream s' = stream s1" "speech s' = speech s1" "send_part s' = send_part s1"
    using onMessageReceive_held [OF s1(1) d(1) assms(2) l] by blast
  have "sock_delivers s' (drop n p) ms"
    unfolding sock_delivers_alt using s' d assms(3)
    by (intro conjI exI [of _ ms1] exI [of _ r]) (auto simp: kernel_has_def)
  then show ?thesis using s' s1(3,4) d(2) assms(3) by simp
qed

lemma sock_start:
  assumes "sock_delivers s [] (m # ms)" "0 < n" "n \<le> length m"
  shows "(\<exists>s'. onMessageReceive n s = Some (int n, take n m, s') \<and> sock_delivers s' (drop n m) ms
      \<and> speech s' = tl (speech s) \<and> send_part s' = send_part s)
    \<or> (held s = [] \<and> speech s \<noteq> [] \<and> (\<exists>s'. onMessageReceive n s = Some (-1, [], s') \<and> sock_delivers s' [] (m # ms)
      \<and> speech s' = tl (speech s) \<and> send_part s' = send_part s))"
proof -
  obtain s1 where s1: "poll_update 50 s = Some s1" "sock_delivers s1 [] (m # ms)" "speech s1 = tl (speech s)"
    "send_part s1 = send_part s" "held s \<noteq> [] \<longrightarrow> held s1 = held s" "held s1 = [] \<longrightarrow> speech s \<noteq> []"
    using poll_update_delivers [OF assms(1)] by blast
  have "connected s1 \<and> [] \<notin> set (m # ms) \<and> length ([] @ concat (m # ms)) \<le> 255
      \<and> (\<exists>ms1 r. held s1 = [] @ concat ms1 \<and> kernel_has s1 r \<and> m # ms = ms1 @ r)"
    using s1(2) unfolding sock_delivers_alt .
  then obtain ms1 r where d: "connected s1" "held s1 = concat ms1" "kernel_has s1 r" "m # ms = ms1 @ r"
    "[] \<notin> set (m # ms)" "length (concat (m # ms)) \<le> 255"
    unfolding append_Nil by blast
  show ?thesis
  proof (cases ms1)
    case Nil
    then have h: "held s1 = []" using d(2) by simp
    then have "onMessageReceive n s = Some (-1, [], s1)"
      using s1(1) held_Nil [OF d(1)] by (simp add: onMessageReceive_def)
    then show ?thesis using h s1 by (intro disjI2) auto
  next
    case (Cons m' ms1')
    then have c: "m' = m" "ms = ms1' @ r" using d(4) by simp_all
    have l: "n \<le> length (held s1)" using assms(3) d(2) Cons c by simp
    obtain s' where s': "onMessageReceive n s = Some (int n, take n (held s1), s')" "held s' = drop n (held s1)"
      "connected s'" "stream s' = stream s1" "speech s' = speech s1" "send_part s' = send_part s1"
      using onMessageReceive_held [OF s1(1) d(1) assms(2) l] by blast
    have h: "held s1 = m @ concat ms1'" using d(2) Cons c by simp
    have "held s' = drop n m @ concat ms1'" using s'(2) h assms(3) by simp
    moreover have "kernel_has s' r" using d(3) s'(4,5) by (simp add: kernel_has_def)
    moreover have "[] \<notin> set ms" "length (drop n m @ concat ms) \<le> 255" using d(5,6) by auto
    ultimately have "sock_delivers s' (drop n m) ms"
      unfolding sock_delivers_alt using s'(3) c(2) by blast
    then show ?thesis using s' s1(3,4) h assms(3) by (intro disjI1) simp
  qed
qed

end
