(* ===== verification/Transport.thy ===== *)
theory Transport
  imports Bglib Socket
begin

text \<open>
  The two links to the NCP target, \<open>hal/bg_uart_cbs.c\<close> and the start of \<open>mng/bgevt_hdr.c\<close>: the serial
  port, and the socket of the daemon. Which of them the library uses is decided by the arguments of the
  program. Both are interpreted as sources of messages, so the facts of the library hold over either.
\<close>

record io_t =
  uart :: uart_t
  sock :: sock_t

subsection \<open>The functions of a link\<close>

definition on_message_send :: "nat \<Rightarrow> u8 list \<Rightarrow> io_t \<Rightarrow> io_t run" where
  "on_message_send msg_len msg_data io = do {
     (ret, u) \<leftarrow> uartTx (take msg_len msg_data) (uart io);
     if ret < 0 then exits 1 else continues (io\<lparr>uart := u\<rparr>)
   }"

definition serial_input :: "nat \<Rightarrow> io_t \<Rightarrow> (int \<times> u8 list \<times> io_t) option" where
  "serial_input n io = do { (ret, bs, u) \<leftarrow> uartRx n (uart io); Some (ret, bs, io\<lparr>uart := u\<rparr>) }"

definition serial_peek :: "io_t \<Rightarrow> (int \<times> io_t) option" where
  "serial_peek io = (case uartRxPeek (uart io) of (k, u) \<Rightarrow> Some (k, io\<lparr>uart := u\<rparr>))"

definition socket_output :: "nat \<Rightarrow> u8 list \<Rightarrow> io_t \<Rightarrow> io_t run" where
  "socket_output msg_len msg_data io = continues (io\<lparr>sock := onMessageSend (take msg_len msg_data) (sock io)\<rparr>)"

definition socket_input :: "nat \<Rightarrow> io_t \<Rightarrow> (int \<times> u8 list \<times> io_t) option" where
  "socket_input n io = do { (ret, bs, s) \<leftarrow> onMessageReceive n (sock io); Some (ret, bs, io\<lparr>sock := s\<rparr>) }"

definition socket_peek :: "io_t \<Rightarrow> (int \<times> io_t) option" where
  "socket_peek io = Some (messagePeek (sock io), io)"

definition serial_link :: "io_t bguart_t" where
  "serial_link = \<lparr>bglib_output = on_message_send, bglib_input = serial_input, bglib_peek = Some serial_peek\<rparr>"

definition socket_link :: "io_t bguart_t" where
  "socket_link = \<lparr>bglib_output = socket_output, bglib_input = socket_input, bglib_peek = Some socket_peek\<rparr>"

text \<open>The static \<open>bguart\<close>; \<^term>\<open>None\<close> while its pointers are NULL.\<close>

definition bguart_init :: "proj_args_t \<Rightarrow> io_t bguart_t option \<Rightarrow> io_t bguart_t option" where
  "bguart_init arg bguart =
    (if \<not> pa_initialized arg then bguart else if pa_enc arg then Some socket_link else Some serial_link)"

definition get_bguart_impl :: "proj_args_t \<Rightarrow> io_t bguart_t option \<Rightarrow> io_t bguart_t option" where
  "get_bguart_impl arg bguart = (if pa_initialized arg then bguart else None)"

definition poll_link :: "proj_args_t \<Rightarrow> io_t \<Rightarrow> io_t option" where
  "poll_link arg io =
    (if pa_enc arg then do { s \<leftarrow> poll_update 50 (sock io); Some (io\<lparr>sock := s\<rparr>) } else Some io)"

subsection \<open>Connecting\<close>

text \<open>
  \<open>conn_ncptarget\<close>: the functions given to the library and the device. It exits when the link does not
  open.
\<close>

definition conn_ncptarget ::
  "port_os \<Rightarrow> sock_os \<Rightarrow> proj_args_t \<Rightarrow> io_t bguart_t option \<Rightarrow> io_t \<Rightarrow> (io_t bguart_t \<times> io_t) run" where
  "conn_ncptarget pos sos arg bguart io =
    (case get_bguart_impl arg bguart of
       None \<Rightarrow> undef
     | Some u \<Rightarrow>
         if pa_enc arg then do {
           (r, s) \<leftarrow> connect_domain_socket_server sos (cstr_at SRV_OFS (pa_mem arg)) (cstr_at CLT_OFS (pa_mem arg))
                       (sock_enc arg) (sock io);
           if r \<noteq> 0 then exits 1
           else continues (u, io\<lparr>sock := (if sock_enc arg then turnEncryptionOn s else s)\<rparr>)
         } else do {
           let _ = uartClose pos (uart io);
           (r, p) \<leftarrow> uartOpen pos (serial_br arg) 1 100 (uart io);
           if r \<noteq> 0 then exits 1 else continues (u, io\<lparr>uart := p\<rparr>)
         })"

definition sock_opens :: "sock_os \<Rightarrow> bool" where
  "sock_opens os = (os_socket os \<noteq> -1 \<and> os_bind os \<and> os_connect os)"

lemma connect_ok:
  assumes "sock_opens os" "length srv < 108" "length clt < 108"
  shows "connect_domain_socket_server os srv clt e s =
    Some (0, (set_client_socket e (os_socket os) s)\<lparr>poll_fd := os_socket os, poll_events := POLLIN, poll_revents := 0\<rparr>)"
  using assms by (simp add: connect_domain_socket_server_def sock_opens_def Let_def)

lemma connect_refused:
  assumes "\<not> sock_opens os" "length srv < 108" "length clt < 108"
  shows "\<exists>s'. connect_domain_socket_server os srv clt e s = Some (-1, s')"
  using assms by (auto simp: connect_domain_socket_server_def sock_opens_def Let_def)

text \<open>Whether a link opens: \<open>tr_opens\<close> of the model of the start-up.\<close>

definition link_opens :: "port_os \<Rightarrow> sock_os \<Rightarrow> proj_args_t \<Rightarrow> bool" where
  "link_opens pos sos arg = (if pa_enc arg then sock_opens sos else opens pos (serial_br arg))"

lemma conn_ncptarget_opens:
  assumes "pa_initialized arg" "length (cstr_at SRV_OFS (pa_mem arg)) < 108" "length (cstr_at CLT_OFS (pa_mem arg)) < 108"
    "list_all arrives (line (uart io))"
  shows "if link_opens pos sos arg
    then \<exists>io'. conn_ncptarget pos sos arg (bguart_init arg bg) io = continues (the (bguart_init arg bg), io')
    else conn_ncptarget pos sos arg (bguart_init arg bg) io = exits 1"
proof (cases "pa_enc arg")
  case True
  then show ?thesis
    using assms connect_refused [OF _ assms(2,3), of sos "sock_enc arg" "sock io"]
    by (auto simp: conn_ncptarget_def link_opens_def get_bguart_impl_def bguart_init_def connect_ok)
next
  case False
  show ?thesis
  proof (cases "opens pos (serial_br arg)")
    case True
    then show ?thesis
      using assms(1) False uartOpen_ok [OF True assms(4), of 1 100]
      by (auto simp: conn_ncptarget_def link_opens_def get_bguart_impl_def bguart_init_def)
  next
    case refused: False
    then show ?thesis
      using assms(1) False uartOpen_refused [OF refused, of 1 100 "uart io"]
      by (auto simp: conn_ncptarget_def link_opens_def get_bguart_impl_def bguart_init_def)
  qed
qed

subsection \<open>The links deliver messages\<close>

definition serial_delivers :: "io_t \<Rightarrow> u8 list \<Rightarrow> u8 list list \<Rightarrow> bool" where
  "serial_delivers io p ms = (on_line (uart io) \<and> coming (uart io) = p @ concat ms \<and> [] \<notin> set ms
     \<and> WFails \<notin> set (wrote (uart io)))"

definition serial_patience :: "io_t \<Rightarrow> nat" where
  "serial_patience io = length (line (uart io))"

definition serial_outs :: "io_t \<Rightarrow> u8 list" where
  "serial_outs io = outbuf (uart io)"

definition socket_delivers :: "io_t \<Rightarrow> u8 list \<Rightarrow> u8 list list \<Rightarrow> bool" where
  "socket_delivers io p ms = (sock_delivers (sock io) p ms \<and> sends (sock io) = []
     \<and> (if encrypted (sock io) then enc_client_socket (sock io) else unenc_client_socket (sock io)) \<noteq> -1)"

definition socket_patience :: "io_t \<Rightarrow> nat" where
  "socket_patience io = length (speech (sock io))"

definition socket_outs :: "io_t \<Rightarrow> u8 list" where
  "socket_outs io = concat (map snd (sock_out (sock io)))"

lemmas serial_defs = serial_link_def serial_delivers_def serial_patience_def serial_outs_def
lemmas socket_defs = socket_link_def socket_delivers_def socket_patience_def socket_outs_def

lemma serial_read:
  assumes "serial_delivers io p ms" "n \<le> length (p @ concat ms)"
  shows "\<exists>io'. serial_input n io = Some (int n, take n (p @ concat ms), io') \<and> on_line (uart io')
    \<and> coming (uart io') = drop n (p @ concat ms) \<and> wrote (uart io') = wrote (uart io)
    \<and> serial_patience io' \<le> serial_patience io \<and> serial_outs io' = serial_outs io"
proof -
  have o: "on_line (uart io)" "n \<le> length (coming (uart io))" and c: "coming (uart io) = p @ concat ms"
    using assms by (simp_all add: serial_delivers_def)
  obtain u where "uartRx n (uart io) = Some (int n, take n (p @ concat ms), u)" "coming u = drop n (p @ concat ms)"
    "on_line u" "out_part u = out_part (uart io)" "length (line u) \<le> length (line (uart io))"
    using uartRx_complete [OF o] unfolding c by blast
  then show ?thesis by (simp add: serial_input_def serial_defs out_part_def)
qed

lemma serial_look:
  assumes "serial_delivers io [] ms"
  shows "\<exists>k io'. serial_peek io = Some (int k, io') \<and> serial_delivers io' [] ms \<and> k = length (inbuf (uart io'))
    \<and> line (uart io') = tl (line (uart io)) \<and> serial_outs io' = serial_outs io"
proof -
  have "on_line (uart io)" using assms by (simp add: serial_delivers_def)
  from uartRxPeek_on_line [OF this] show ?thesis
    using assms by (auto simp: serial_peek_def serial_defs out_part_def)
qed

interpretation serial: polled_source serial_link serial_delivers serial_patience serial_outs Some serial_peek
proof (unfold_locales, goal_cases)
  case (1 io m ms n)
  obtain io' where "serial_input n io = Some (int n, take n ([] @ concat (m # ms)), io')" "on_line (uart io')"
    "coming (uart io') = drop n ([] @ concat (m # ms))" "wrote (uart io') = wrote (uart io)"
    "serial_patience io' \<le> serial_patience io" "serial_outs io' = serial_outs io"
    using serial_read [OF 1(1), of n] 1(3) by auto
  then show ?case using 1 by (intro disjI1 exI [of _ io']) (auto simp: serial_link_def serial_delivers_def)
next
  case (2 io p ms n)
  obtain io' where "serial_input n io = Some (int n, take n (p @ concat ms), io')" "on_line (uart io')"
    "coming (uart io') = drop n (p @ concat ms)" "wrote (uart io') = wrote (uart io)"
    "serial_patience io' \<le> serial_patience io" "serial_outs io' = serial_outs io"
    using serial_read [OF 2(1), of n] 2(3) by auto
  then show ?case using 2 by (intro exI [of _ io']) (auto simp: serial_link_def serial_delivers_def)
next
  case (3 io p ms bs)
  have "serialHandle (uart io) \<noteq> -1" "WFails \<notin> set (wrote (uart io))"
    using 3 by (simp_all add: serial_delivers_def on_line_def)
  from uartTx_complete [OF this, of bs]
  obtain u where "uartTx bs (uart io) = Some (int (length bs), u)" "outbuf u = outbuf (uart io) @ bs"
    "in_part u = in_part (uart io)" "WFails \<notin> set (wrote u)" by blast
  then show ?case
    using 3 in_part_coming [of u "uart io"]
    by (intro exI [of _ "io\<lparr>uart := u\<rparr>"]) (auto simp: serial_defs on_message_send_def in_part_def)
next
  case (4)
  show ?case by (simp add: serial_link_def)
next
  case (5 io ms)
  then show ?case by simp
next
  case (6 io ms)
  from serial_look [OF 6] obtain k io' where "serial_peek io = Some (int k, io')" "serial_delivers io' [] ms"
    "k = length (inbuf (uart io'))" "line (uart io') = tl (line (uart io))" "serial_outs io' = serial_outs io" by blast
  then show ?case by (intro exI [of _ "int k"] exI [of _ io']) (auto simp: serial_patience_def serial_delivers_def coming_def)
next
  case (7 io ms io1 io2)
  from serial_look [OF 7(1)] obtain k io' where k: "serial_peek io = Some (int k, io')" "serial_delivers io' [] ms"
    "k = length (inbuf (uart io'))" "line (uart io') = tl (line (uart io))" by blast
  then have "inbuf (uart io2) = []" "serial_delivers io2 [] ms" "line (uart io2) = tl (line (uart io))"
    using 7(3,4) by auto
  moreover from this 7(2) have "line (uart io2) \<noteq> []"
    by (cases ms) (auto simp: serial_delivers_def coming_def)
  ultimately show ?case by (cases "line (uart io)") (auto simp: serial_patience_def)
qed

definition poll_sock :: "io_t \<Rightarrow> io_t option" where
  "poll_sock io = do { s \<leftarrow> poll_update 50 (sock io); Some (io\<lparr>sock := s\<rparr>) }"

definition can_send :: "sock_t \<Rightarrow> bool" where
  "can_send s = (sends s = [] \<and> (if encrypted s then enc_client_socket s else unenc_client_socket s) \<noteq> -1)"

lemma same_send: "send_part s' = send_part s \<Longrightarrow> can_send s' = can_send s \<and> sock_out s' = sock_out s"
  by (auto simp: send_part_def can_send_def)

lemma socket_delivers_alt: "socket_delivers io p ms \<longleftrightarrow> sock_delivers (sock io) p ms \<and> can_send (sock io)"
  by (simp add: socket_delivers_def can_send_def)

lemma socket_poll:
  assumes "socket_delivers io [] ms"
  shows "\<exists>s. poll_update 50 (sock io) = Some s \<and> socket_delivers (io\<lparr>sock := s\<rparr>) [] ms \<and> speech s = tl (speech (sock io))
    \<and> sock_out s = sock_out (sock io) \<and> (held s = [] \<longrightarrow> ms \<noteq> [] \<longrightarrow> speech (sock io) \<noteq> [])"
proof -
  have d: "sock_delivers (sock io) [] ms" "can_send (sock io)" using assms by (simp_all add: socket_delivers_alt)
  obtain s where "poll_update 50 (sock io) = Some s" "sock_delivers s [] ms" "speech s = tl (speech (sock io))"
    "send_part s = send_part (sock io)" "held s = [] \<longrightarrow> ms \<noteq> [] \<longrightarrow> speech (sock io) \<noteq> []"
    using poll_update_delivers [OF d(1)] by blast
  then show ?thesis using d(2) same_send [of s "sock io"] by (simp add: socket_delivers_alt)
qed

lemma socket_look:
  assumes "socket_delivers io [] ms"
  shows "messagePeek (sock io) = 0 \<longleftrightarrow> held (sock io) = []" "ms = [] \<Longrightarrow> held (sock io) = []"
proof -
  have d: "connected (sock io)" using assms by (simp add: socket_delivers_alt sock_delivers_def)
  show "messagePeek (sock io) = 0 \<longleftrightarrow> held (sock io) = []"
    using held_Nil [OF d] by (simp add: messagePeek_def word_neq_0_conv [symmetric])
  show "ms = [] \<Longrightarrow> held (sock io) = []" using assms by (auto simp: socket_delivers_alt sock_delivers_def)
qed

interpretation daemon: polled_source socket_link socket_delivers socket_patience socket_outs poll_sock socket_peek
proof (unfold_locales, goal_cases)
  case (1 io m ms n)
  have d: "sock_delivers (sock io) [] (m # ms)" "can_send (sock io)" using 1(1) by (simp_all add: socket_delivers_alt)
  from sock_start [OF d(1) 1(2,3)] show ?case
  proof (elim disjE exE conjE)
    fix s
    assume "onMessageReceive n (sock io) = Some (int n, take n m, s)" "sock_delivers s (drop n m) ms"
      "speech s = tl (speech (sock io))" "send_part s = send_part (sock io)"
    then show ?thesis
      using d(2) same_send [of s "sock io"]
      by (intro disjI1 exI [of _ "io\<lparr>sock := s\<rparr>"])
        (simp add: socket_link_def socket_input_def socket_delivers_alt socket_patience_def socket_outs_def)
  next
    fix s
    assume "speech (sock io) \<noteq> []" "onMessageReceive n (sock io) = Some (-1, [], s)" "sock_delivers s [] (m # ms)"
      "speech s = tl (speech (sock io))" "send_part s = send_part (sock io)"
    then show ?thesis
      using d(2) same_send [of s "sock io"]
      by (intro disjI2 exI [of _ "io\<lparr>sock := s\<rparr>"])
        (simp add: socket_link_def socket_input_def socket_delivers_alt socket_patience_def socket_outs_def)
  qed
next
  case (2 io p ms n)
  have d: "sock_delivers (sock io) p ms" "can_send (sock io)" using 2(1) by (simp_all add: socket_delivers_alt)
  from sock_cont [OF d(1) 2(2,3)] obtain s where "onMessageReceive n (sock io) = Some (int n, take n p, s)"
    "sock_delivers s (drop n p) ms" "speech s = tl (speech (sock io))" "send_part s = send_part (sock io)" by blast
  then show ?case
    using d(2) same_send [of s "sock io"]
    by (intro exI [of _ "io\<lparr>sock := s\<rparr>"])
      (simp add: socket_link_def socket_input_def socket_delivers_alt socket_patience_def socket_outs_def)
next
  case (3 io p ms bs)
  let ?fd = "if encrypted (sock io) then enc_client_socket (sock io) else unenc_client_socket (sock io)"
  let ?s = "(sock io)\<lparr>sock_out := sock_out (sock io) @ [(?fd, bs)]\<rparr>"
  have "onMessageSend bs (sock io) = ?s"
    using 3 by (auto simp: socket_delivers_def onMessageSend_def sys_send_def split: if_splits)
  moreover have "sock_delivers ?s p ms"
    using 3 by (simp add: socket_delivers_def sock_delivers_def connected_def held_def)
  ultimately show ?case
    using 3 by (intro exI [of _ "io\<lparr>sock := ?s\<rparr>"]) (auto simp: socket_defs socket_output_def split: if_splits)
next
  case (4)
  show ?case by (simp add: socket_link_def)
next
  case (5 io ms)
  from socket_poll [OF 5] show ?case
    by (auto simp: poll_sock_def socket_patience_def socket_outs_def)
next
  case (6 io ms)
  then show ?case using socket_look [OF 6] by (auto simp: socket_peek_def)
next
  case (7 io ms io1 io2)
  from socket_poll [OF 7(1)] obtain s where s: "poll_update 50 (sock io) = Some s" "socket_delivers (io\<lparr>sock := s\<rparr>) [] ms"
    "speech s = tl (speech (sock io))" "held s = [] \<longrightarrow> ms \<noteq> [] \<longrightarrow> speech (sock io) \<noteq> []" by blast
  then have io: "io1 = io\<lparr>sock := s\<rparr>" "io2 = io1" "messagePeek s = 0"
    using 7(3,4) by (auto simp: poll_sock_def socket_peek_def)
  then have "held s = []" using socket_look(1) [OF s(2)] by simp
  then show ?case using s(3,4) 7(2) io(1,2) by (cases "speech (sock io)") (auto simp: socket_patience_def)
qed

subsection \<open>Either link\<close>

definition link_delivers :: "proj_args_t \<Rightarrow> io_t \<Rightarrow> u8 list list \<Rightarrow> bool" where
  "link_delivers arg io ms = (if pa_enc arg then socket_delivers io [] ms else serial_delivers io [] ms)"

definition link_patience :: "proj_args_t \<Rightarrow> io_t \<Rightarrow> nat" where
  "link_patience arg io = (if pa_enc arg then socket_patience io else serial_patience io)"

definition link_outs :: "proj_args_t \<Rightarrow> io_t \<Rightarrow> u8 list" where
  "link_outs arg io = (if pa_enc arg then socket_outs io else serial_outs io)"

lemma poll_link_eq: "poll_link arg = (if pa_enc arg then poll_sock else Some)"
  by (rule ext) (simp add: poll_link_def poll_sock_def)

lemma chosen_link:
  "bguart_init arg bg = Some U \<Longrightarrow> pa_initialized arg \<Longrightarrow> U = (if pa_enc arg then socket_link else serial_link)"
  by (simp add: bguart_init_def split: if_splits)

end
