(* ===== verification/LinkProps.thy ===== *)
theory LinkProps
  imports Transport
begin

text \<open>
  Properties of the transport: a command and its response, the order of the events, connecting; and
  where the code of the links does something else than it says.
\<close>

subsection \<open>Sample links\<close>

definition link_args :: "bool \<Rightarrow> proj_args_t" where
  "link_args enc = \<lparr>pa_initialized = True, pa_enc = enc, pa_mem = replicate 220 NUL\<rparr>"

definition sample_tty :: termios where
  "sample_tty = \<lparr>c_iflag = 0, c_oflag = 0, c_cflag = 0, c_lflag = 0, c_vmin = 0, c_vtime = 0\<rparr>"

definition sample_sock :: sock_t where
  "sample_sock = \<lparr>enc_client_socket = -1, unenc_client_socket = 5, encrypted = False, buf = replicate 512 0,
     bufPointer = 0, unhandledDataSize = 0, poll_fd = 5, poll_events = 1, poll_revents = 0, stream = [],
     peer = Peer_open, speech = [], sends = [], sock_out = []\<rparr>"

definition sample_io :: "tick list \<Rightarrow> wres list \<Rightarrow> io_t" where
  "sample_io ts ws = \<lparr>uart = \<lparr>serialHandle = 3, tty = sample_tty, origTTYAttrs = sample_tty, inbuf = [], line = ts,
     wrote = ws, outbuf = []\<rparr>, sock = sample_sock\<rparr>"

text \<open>An event of two bytes of payload and the response of a command, cut up on the line.\<close>

definition sample_evt :: msg where "sample_evt = (0x192702a0, [7, 8])"
definition sample_evt2 :: msg where "sample_evt2 = (0x010000a0, [])"
definition sample_rsp :: msg where "sample_rsp = (0x01010220, [0, 0])"

definition sample_line :: "tick list" where
  "sample_line = [Arrives [0xa0], Arrives [], Arrives [0x02, 0x27, 0x19, 7], Arrives [8, 0x20, 0x02], Arrives [0x01, 0x01, 0, 0]]"

lemma sample_serial: "serial_delivers (sample_io sample_line ws) [] [msg_bytes sample_evt, msg_bytes sample_rsp] \<longleftrightarrow> WFails \<notin> set ws"
  by (auto simp: serial_delivers_def sample_io_def sample_line_def on_line_def coming_def arrives_def msg_bytes_def
      sample_evt_def sample_rsp_def le_bytes4_def)

text \<open>C15: A command over the link the arguments choose: the
  bytes of the command reach the target, all and in order; the call returns with the response of the target in
  \<open>gecko_rsp_msg\<close>; the events that came before the response are appended to the ring in order, as many
  as it has room for; the event that was handed out last, which the caller is working on, is
  untouched; what follows the response stays to be read. Over the serial port the bytes come and go in any
  pieces, as long as the port stays open and no write fails. Over the socket of the daemon, which stays connected, every piece the daemon
  writes is made of whole messages, the messages to come have together at most 255 bytes, and the host's sends are taken whole:
  without that, messages are lost (\<open>split_message_is_dropped\<close>, \<open>burst_is_forgotten\<close>).
\<close>

theorem command_is_answered:
  assumes "pa_initialized arg" "bguart_init arg bg = Some U" "ring_ok b"
    "BGLIB_MSG_LEN (header (gecko_cmd_msg b)) \<le> 256" "length (payload (gecko_cmd_msg b)) = 256"
    "list_all proper es" "list_all is_event es" "proper m" "\<not> is_event m"
    "link_delivers arg (dev b) (map msg_bytes es @ msg_bytes m # ms)"
  shows "\<exists>b'. gecko_handle_command U b = Some (Inr b') \<and> ring_ok b'
    \<and> link_outs arg (dev b') = link_outs arg (dev b) @ cmd_bytes (gecko_cmd_msg b)
    \<and> msg_of (gecko_rsp_msg b') = m
    \<and> map msg_of (waiting b') = map msg_of (waiting b) @ take (29 - length (waiting b)) es
    \<and> handed_out b' = handed_out b \<and> link_delivers arg (dev b') ms"
  using assms(3-) serial.handle_command_spec [of b es m ms] daemon.handle_command_spec [of b es m ms]
  unfolding chosen_link [OF assms(2,1)] link_delivers_def link_outs_def
  by (cases "pa_enc arg") auto

definition sample_cmd :: pkt where
  "sample_cmd = \<lparr>header = 0x01010120, payload = replicate 256 0\<rparr>"

definition sample_bglib :: "io_t \<Rightarrow> io_t bglib" where
  "sample_bglib io = (BGLIB_DEFINE io)\<lparr>gecko_cmd_msg := sample_cmd\<rparr>"

lemma sample_ring: "ring_ok (sample_bglib io)" "waiting (sample_bglib io) = []" "dev (sample_bglib io) = io"
  "gecko_cmd_msg (sample_bglib io) = sample_cmd"
  by (simp_all add: sample_bglib_def BGLIB_DEFINE_def ring_ok_def Let_def waiting_def pending_count_def)

lemma sample_msgs: "proper sample_evt" "is_event sample_evt" "proper sample_rsp" "\<not> is_event sample_rsp"
    "proper sample_evt2" "is_event sample_evt2"
  by (simp_all add: sample_evt_def sample_evt2_def sample_rsp_def proper_def is_event_def BGLIB_MSG_LEN_def)

theorem command_is_answered_witness:
  "\<exists>b'. gecko_handle_command serial_link (sample_bglib (sample_io sample_line [Wrote 2, Again, Wrote 1])) = Some (Inr b')
     \<and> outbuf (uart (dev b')) = [0x20, 1, 1, 1, 0] \<and> msg_of (gecko_rsp_msg b') = sample_rsp
     \<and> map msg_of (waiting b') = [sample_evt]"
proof -
  let ?io = "sample_io sample_line [Wrote 2, Again, Wrote 1]"
  have init: "pa_initialized (link_args False)" "bguart_init (link_args False) None = Some serial_link"
    by (simp_all add: link_args_def bguart_init_def)
  have cmd: "BGLIB_MSG_LEN (header (gecko_cmd_msg (sample_bglib ?io))) \<le> 256"
    "length (payload (gecko_cmd_msg (sample_bglib ?io))) = 256" "cmd_bytes sample_cmd = [0x20, 1, 1, 1, 0]"
    by (simp_all add: sample_ring sample_cmd_def BGLIB_MSG_LEN_def cmd_bytes_def le_bytes4_def)
  have es: "list_all proper [sample_evt]" "list_all is_event [sample_evt]" using sample_msgs by simp_all
  have d: "link_delivers (link_args False) (dev (sample_bglib ?io)) (map msg_bytes [sample_evt] @ msg_bytes sample_rsp # [])"
    using sample_serial [of "[Wrote 2, Again, Wrote 1]"] by (simp add: link_delivers_def link_args_def sample_ring)
  have out: "link_outs (link_args False) x = outbuf (uart x)" "outbuf (uart (sample_io ts ws)) = []" for x ts ws
    by (simp_all add: link_outs_def link_args_def serial_outs_def sample_io_def)
  show ?thesis
    using command_is_answered [OF init sample_ring(1) cmd(1,2) es sample_msgs(3,4) d]
    by (auto simp: sample_ring cmd(3) out)
qed

text \<open>C16: The rounds of the event loop look at the events in the order in which the target
  sent them, those waiting in the ring first, none twice and none left out; after
  as many rounds as there are events and arrivals, all of them have been looked at. Over the serial port the bytes
  may arrive in any pieces, while the port stays open and no write fails; over the socket of the daemon, which stays
  connected, every piece it writes is made of whole messages, the messages to come have together at most 255 bytes, and
  sends are taken whole.
\<close>

theorem events_come_in_order:
  assumes "pa_initialized arg" "bguart_init arg bg = Some U" "ring_ok b"
    "link_delivers arg (dev b) (map msg_bytes es)" "list_all proper es" "list_all is_event es"
  shows "\<exists>got b' rest. rounds U (poll_link arg) k b = Some (got, b') \<and> got @ rest = map msg_of (waiting b) @ es
    \<and> (length (waiting b) + length es + link_patience arg (dev b) \<le> k \<longrightarrow> rest = [])"
proof (cases "pa_enc arg")
  case True
  have "socket_delivers (dev b) [] (map msg_bytes es)" using assms(4) True by (simp add: link_delivers_def)
  from daemon.rounds_spec [OF assms(3) this assms(5,6), of k] show ?thesis
    unfolding chosen_link [OF assms(2,1)] poll_link_eq using True
    by (auto simp: link_patience_def)
next
  case False
  have "serial_delivers (dev b) [] (map msg_bytes es)" using assms(4) False by (simp add: link_delivers_def)
  from serial.rounds_spec [OF assms(3) this assms(5,6), of k] show ?thesis
    unfolding chosen_link [OF assms(2,1)] poll_link_eq using False
    by (auto simp: link_patience_def)
qed

definition sample_daemon :: io_t where
  "sample_daemon = (sample_io [] [])\<lparr>sock := sample_sock\<lparr>speech :=
     [Says (msg_bytes sample_evt), Says (msg_bytes sample_evt2 @ msg_bytes sample_evt)]\<rparr>\<rparr>"

lemma sample_socket:
  "socket_delivers sample_daemon [] [msg_bytes sample_evt, msg_bytes sample_evt2, msg_bytes sample_evt]"
  unfolding socket_delivers_def sock_delivers_def
  by (intro conjI exI [of _ "[]"] exI [of _ "[[msg_bytes sample_evt], [msg_bytes sample_evt2, msg_bytes sample_evt]]"])
    (simp_all add: sample_daemon_def sample_sock_def connected_def held_def sample_evt_def sample_evt2_def
      msg_bytes_def le_bytes4_def)

theorem events_come_in_order_witness:
  "\<exists>b'. rounds socket_link (poll_link (link_args True)) 5 (sample_bglib sample_daemon)
     = Some ([sample_evt, sample_evt2, sample_evt], b')"
proof -
  let ?es = "[sample_evt, sample_evt2, sample_evt]"
  have init: "pa_initialized (link_args True)" "bguart_init (link_args True) None = Some socket_link"
    by (simp_all add: link_args_def bguart_init_def)
  have es: "list_all proper ?es" "list_all is_event ?es" using sample_msgs by simp_all
  have d: "link_delivers (link_args True) (dev (sample_bglib sample_daemon)) (map msg_bytes ?es)"
    using sample_socket by (simp add: link_delivers_def link_args_def sample_ring)
  have "link_patience (link_args True) sample_daemon = 2"
    by (simp add: link_patience_def link_args_def socket_patience_def sample_daemon_def)
  then show ?thesis
    using events_come_in_order [OF init sample_ring(1) d es, of 5] by (auto simp: sample_ring)
qed

subsection \<open>What the links do not do\<close>

text \<open>
  \<open>uart.h\<close>: the timeout is in milliseconds. The cast of \<open>(cc_t)timeout / 100\<close> takes it modulo 256 first, so a
  second becomes two tenths, and 256 milliseconds become a port that does not wait at all.
\<close>

lemma timeout_is_a_byte:
  assumes "0 \<le> timeout"
  shows "c_vtime (tty_attrs c d p s r x timeout orig) = of_nat (nat (timeout mod 256) div 100)"
    "c_vtime (tty_attrs c d p s r x 1000 orig) = 2"
  using assms by (simp_all add: tty_attrs_def Let_def unsigned_of_int take_bit_int_def nat_mod_distrib)

text \<open>
  \<open>uart.h\<close>: \<open>uartRx\<close> needs a port that blocks, and \<open>timeout = 0\<close> gives one. It gives a port where a read
  returns at once (\<open>VMIN\<close> and \<open>VTIME\<close> are 0); one that blocks has a negative timeout.
\<close>

lemma zero_timeout_does_not_block:
  "c_vmin (tty_attrs c d p s r x 0 orig) = 0 \<and> c_vtime (tty_attrs c d p s r x 0 orig) = 0"
  "c_vmin (tty_attrs c d p s r x (-1) orig) = 1"
  by (simp_all add: tty_attrs_def Let_def)

text \<open>
  \<open>cfmakeraw\<close> has set the size to 8 bits, and \<open>CS5\<close>, \<open>CS6\<close>, \<open>CS7\<close> are only added to it: every number of data
  bits gives 8.
\<close>

lemma size_8_or:
  fixes y m :: u32
  assumes "y AND CS8 = CS8"
  shows "(y OR m) AND CS8 = CS8"
proof (rule bit_eqI)
  fix n
  have "bit (y AND CS8) n = bit CS8 n" using assms by (simp only:)
  then show "bit ((y OR m) AND CS8) n = bit CS8 n" by (auto simp only: bit_and_iff bit_or_iff)
qed

lemma size_8_and:
  fixes y m :: u32
  shows "m AND CS8 = CS8 \<Longrightarrow> y AND CS8 = CS8 \<Longrightarrow> (y AND m) AND CS8 = CS8"
  by (simp only: and.assoc)

definition is_8 :: "termios \<Rightarrow> bool" where
  "is_8 t = (c_cflag t AND CS8 = CS8)"

lemma is_8_kept:
  "is_8 t \<Longrightarrow> is_8 (t\<lparr>c_iflag := i\<rparr>)" "is_8 t \<Longrightarrow> is_8 (t\<lparr>c_oflag := i\<rparr>)" "is_8 t \<Longrightarrow> is_8 (t\<lparr>c_lflag := i\<rparr>)"
  "is_8 t \<Longrightarrow> is_8 (t\<lparr>c_vmin := v, c_vtime := w\<rparr>)" "is_8 t \<Longrightarrow> is_8 (t\<lparr>c_cflag := c_cflag t OR m\<rparr>)"
  "m AND CS8 = CS8 \<Longrightarrow> is_8 t \<Longrightarrow> is_8 (t\<lparr>c_cflag := c_cflag t AND m\<rparr>)"
  by (simp_all add: is_8_def size_8_or size_8_and)

lemma is_8_if: "(b \<Longrightarrow> is_8 t) \<Longrightarrow> (\<not> b \<Longrightarrow> is_8 u) \<Longrightarrow> is_8 (if b then t else u)"
  by simp

lemma is_8_raw: "is_8 (cfmakeraw t)"
  by (simp add: is_8_def cfmakeraw_def bit.conj_disj_distrib2 and_or_absorb and.assoc)

lemma always_8_data_bits:
  "c_cflag (tty_attrs c d p s r x timeout orig) AND CSIZE = CS8"
proof -
  have "is_8 (tty_attrs c d p s r x timeout orig)"
    unfolding tty_attrs_def Let_def by (intro is_8_kept is_8_if is_8_raw) simp_all
  then show ?thesis by (simp only: is_8_def)
qed

text \<open>
  \<open>unhandledDataSize\<close> is a byte, but up to 512 bytes are received at once: 256 bytes that have piled up in the
  kernel are received and forgotten.
\<close>

lemma burst_is_forgotten:
  assumes "connected (listen s)" "unhandledDataSize (listen s) = 0" "length (stream (listen s)) = 256"
  shows "\<exists>s'. poll_update 50 s = Some s' \<and> stream s' = [] \<and> held s' = [] \<and> messagePeek s' = 0"
proof -
  let ?l = "listen s"
  have ne: "stream ?l \<noteq> []" using assms(3) by auto
  have "poll_update 50 s = Some (?l\<lparr>poll_revents := 1, bufPointer := 0, stream := [],
      buf := stream ?l @ drop 256 (buf ?l), unhandledDataSize := 0\<rparr>)"
    using assms ne
    by (auto simp: poll_update_def sys_poll_def Let_def poll_result_connected [OF assms(1)] readDomainSocket_def
        sys_recv_def connected_def)
  then show ?thesis by (simp add: held_def messagePeek_def)
qed

text \<open>
  A stream has no message boundaries, but a message of which only a part has arrived is thrown away,
  and its rest is taken for the start of the next message.
\<close>

lemma split_message_is_dropped:
  assumes "poll_update 50 s = Some s1" "unhandledDataSize s1 \<noteq> 0" "unat (unhandledDataSize s1) < n"
  shows "\<exists>s'. onMessageReceive n s = Some (-1, [], s') \<and> held s' = [] \<and> stream s' = stream s1"
  using assms by (auto simp: onMessageReceive_def held_def word_neq_0_conv)

text \<open>
  The serial device is unplugged: \<open>uartRxPeek\<close> returns -1, which \<open>gecko_get_event\<close> takes for data, and
  \<open>gecko_peek_event\<close> never returns.
\<close>

lemma gone_read: "line u = Gone # ls \<Longrightarrow> serialHandle u \<noteq> -1 \<Longrightarrow> uartRxPeek u = (-1, u) \<and> uartRx 1 u = Some (-1, [], u)"
  by (simp add: uartRxPeek_def sys_fionread_def tick_of_def uartRx_def rx_loop.simps [of 1] sys_read_def del: One_nat_def)

lemma unplugged_port_hangs:
  assumes "line (uart (dev b)) = Gone # ls" "serialHandle (uart (dev b)) \<noteq> -1" "gecko_queue_w b = gecko_queue_r b"
  shows "gecko_peek_event serial_link b = None"
proof -
  note g = gone_read [OF assms(1,2)]
  have d: "(dev b)\<lparr>uart := uart (dev b)\<rparr> = dev b" "b\<lparr>dev := dev b\<rparr> = b" by simp_all
  have pk: "nothing_there serial_link False b = Some (False, b)"
    using g d by (simp add: nothing_there_def serial_link_def serial_peek_def)
  have wm: "gecko_wait_message serial_link b = Some (None, b)"
    using g d by (simp add: gecko_wait_message_def serial_link_def serial_input_def del: One_nat_def)
  have "U = serial_link \<longrightarrow> block = False \<longrightarrow> b0 = b \<longrightarrow> False" if "gecko_get_event U block b0 = Some y" for U block b0 y
    using that
  proof (induction rule: gecko_get_event.raw_induct [rotated, consumes 1])
    case (1 get U block b0 y)
    show ?case
    proof (intro impI)
      assume e: "U = serial_link" "block = False" "b0 = b"
      then have "get serial_link False b = Some y" using 1(2) pk wm assms(3) by simp
      then show False using 1(1) by (cases y) blast
    qed
  qed
  then show ?thesis unfolding gecko_peek_event_def by (metis not_None_eq)
qed

text \<open>
  An event whose payload cannot be read is in the ring all the same, with its header and the payload
  of an older event, and will be handled.
\<close>

lemma failed_payload_is_delivered:
  assumes "ring_ok b" "pending_count b < 29" "proper m" "is_event m" "snd m \<noteq> []"
    "bglib_input U 1 (dev b) = Some (1, [ucast (fst m)], io1)"
    "bglib_input U 3 io1 = Some (3, tl (le_bytes4 (fst m)), io2)"
    "bglib_input U (length (snd m)) io2 = Some (-1, [], io3)"
  shows "\<exists>b'. gecko_wait_message U b = Some (None, b')
    \<and> waiting b' = waiting b @ [(gecko_queue b ! gecko_queue_w b)\<lparr>header := fst m\<rparr>]"
proof -
  let ?h = "fst m" and ?w = "gecko_queue_w b"
  have h: "le_word [ucast ?h] AND 0x78 = 0x20" using assms(3) low_byte [of ?h] by (simp add: proper_def)
  have hdr: "le_word ([ucast ?h] @ tl (le_bytes4 ?h)) = ?h" using le_word_bytes le_bytes4_split(1) by metis
  have len: "BGLIB_MSG_LEN ?h = length (snd m)" "length (snd m) \<le> 256" and ty: "?h AND 0x78 = 0x20"
    using assms(3) by (simp_all add: proper_def)
  have bits: "?h AND 0xf8 = 0xa0" using type_bits [OF ty] assms(4) by (simp add: is_event_def)
  have f: "(?w + 1) mod 30 \<noteq> gecko_queue_r b" using ring_full [OF assms(1)] assms(2) by simp
  have w: "?w < length (gecko_queue b)" using assms(1) by (simp add: ring_ok_def)
  let ?c = "b\<lparr>dev := io3\<rparr>" and ?p = "(gecko_queue b ! ?w)\<lparr>header := ?h\<rparr>"
  let ?b' = "?c\<lparr>gecko_queue := (gecko_queue ?c)[gecko_queue_w ?c := ?p], gecko_queue_w := (gecko_queue_w ?c + 1) mod 30\<rparr>"
  have "gecko_wait_message U b = Some (None, ?b')"
    unfolding gecko_wait_message_def using f w assms(5)
    by (simp add: assms(6-8) h [simplified] hdr [simplified] len(1) len(2) [THEN leD] bits Let_def read_payload_def
        upd_pkt_def del: One_nat_def)
  moreover have oc: "ring_ok ?c" "pending_count ?c < 29" "length (payload ?p) = 256"
    using assms(1,2) w by (simp_all add: ring_dev) (simp add: ring_ok_def)
  ultimately show ?thesis using ring_append(1) [OF oc] by (auto simp: ring_dev)
qed

end
