(* ===== verification/Deviations.thy ===== *)
theory Deviations
  imports AccProps Walks DevBl ConfigProps StartFacts
begin

text \<open>
  Places where the code does not do what it is meant to, each as a fact about the definitions. Others
  are among the properties and their lemmas.
\<close>

text \<open>
  The guard timer expires while the flag of an earlier out-of-memory answer is set: the command goes out
  again, and the next pass of the engine aborts, for it takes the slot for one that has not sent anything.
\<close>

lemma oom_then_expiry_aborts:
  assumes "has_retry (cc_state c)" and "cc_state c \<in> set (acc_states (acc s))"
    and "expired c \<noteq> 0" and "expired c < now E" and "0 \<le> now E" and "OOM c"
    and "state_send (cc_state c) E c s = Some (asr_suc, c1, s1)"
  shows "\<exists>c' s'. engine_exception E c s = Some (c', s') \<and> engine_exception E' c' s' = None"
proof -
  obtain set_end endst where ctr: "acc_send (state_send (cc_state c)) set_end endst"
    using state_send_ctr [OF assms(1)] by blast
  note suc = acc_send.send_suc [OF ctr assms(7)] and run = guard_timer_resend [OF assms(1-5,7)]
  have st: "cc_state c1 = cc_state c" "acc (stat_retry s1) = acc s"
    using acc_send.send_work [OF ctr assms(7)] suc
    by (auto simp: same_work_def stat_retry_def stat_defs upd_stat_def)
  have "as_get (cc_state c) (stat_retry s1) \<noteq> []"
    using assms(2) st by (auto simp: as_get_def dropWhile_eq_Nil_conv)
  then have "engine_exception E' (c1\<lparr>expired := 0\<rparr>) (stat_retry s1) = None"
    using suc assms(1,6) st by (simp add: engine_exception_def)
  then show ?thesis using run by blast
qed

text \<open>The first key of a node that the provisioner does not have: entering the state aborts.\<close>

lemma unknown_first_key_aborts:
  assumes "cache_node c s = Some n" and "bindings (n_config n) = Some l" and "l_len l \<noteq> 0"
    and "l_data l \<noteq> []" and "iter0 c = 0" and "appkey_by_refid s (hd (l_data l)) = Some None"
  shows "addappkey_entry E c s = None"
  using assms
  by (simp add: addappkey_entry_def addappkey_guard_def add_appkey_def add_appkey_cmd_def node_bindings_def
      idx_def hd_conv_nth)

text \<open>A key refresh update about a node that is not in the list writes past its buffer.\<close>

lemma unknown_node_update_overruns: "find_bl_node u s = Some None \<Longrightarrow> kr_node_update phase u s = None"
  by (simp add: kr_node_update_def length_fmt_uuid)

text \<open>A relay that is no low-power node gets the guard time of one: the offset is used as a mask.\<close>

lemma relay_gets_lpn_timeout:
  assumes "dcd_feature (cc_dcd c) = 1" and "p_timeout (self (db s)) = None"
  shows "expired (timer_set E s c True) = now E + 3 + 120"
  using assms by (simp add: timer_set_def Let_def)

text \<open>
  The function that lists the lights takes a mask and uses it as an offset: a node whose only function
  is lightness has bit 1 set, and bit 2 is tested.
\<close>

lemma lightness_nodes_not_found:
  assumes "db_initialized d" "nodes d \<noteq> []"
    and "\<forall>(a, r) \<in> set (nodes d). \<exists>n. heap d r = Some n \<and> n_func n = LIGHTNESS_SV_BIT"
  shows "\<exists>l. get_lights_addrs LIGHTNESS_SV_BIT d = Some l \<and> (\<forall>x. l = Some x \<longrightarrow> l_data x = [])"
proof -
  have "fold (copy_light_addr_to_user d LIGHTNESS_SV_BIT) kvs (Some []) = Some []"
    if "\<forall>(a, r) \<in> set kvs. \<exists>n. heap d r = Some n \<and> n_func n = LIGHTNESS_SV_BIT" for kvs
    using that
  proof (induction kvs)
    case (Cons kv kvs)
    obtain a r where kv: "kv = (a, r)" by (cases kv)
    then obtain n where "heap d r = Some n" "n_func n = LIGHTNESS_SV_BIT" using Cons.prems by auto
    then have "copy_light_addr_to_user d LIGHTNESS_SV_BIT kv (Some []) = Some []"
      by (simp add: copy_light_addr_to_user_def kv IS_BIT_SET_iff_bit)
    then show ?case using Cons by simp
  qed simp
  from this [OF assms(3)] show ?thesis by (auto simp: get_lights_addrs_def)
qed

text \<open>
  Three elements with one model each: the loop that counts the elements finds seven, because it takes
  the headers of the later elements for models of the first one's size, and the program reads past the
  page.
\<close>

definition three_small :: "u8 list" where
  "three_small = page_bytes (replicate 8 1) 0 [(0, [0x1000], []), (1, [0x1000], []), (2, [0x1000], [])]"

lemma small_elements_overrun:
  "idx three_small 12 = Some 1" "count_elems 1 0 (of_nat (length three_small)) 14 0 = Some 7"
  "dcd_store ok_env three_small (cache_reset\<lparr>cc_node := Some 0\<rparr>) removal_sys = None"
  by code_simp+

text \<open>A first element without models: the loop does not end while bytes are left.\<close>

lemma no_models_never_counted: "i < len \<Longrightarrow> count_elems 0 0 len i eles = None"
proof (rule ccontr)
  assume i: "i < len" and "count_elems 0 0 len i eles \<noteq> None"
  then obtain y where "count_elems 0 0 len i eles = Some y" by blast
  then have "\<not> (0 :: u8) = 0 \<or> \<not> (0 :: u8) = 0 \<or> \<not> i < len"
    by (rule count_elems.raw_induct [rotated]) (auto simp: Let_def split: if_splits)
  then show False using i by simp
qed

text \<open>A line of the file of arguments is copied once for every key that occurs in it.\<close>

lemma line_with_two_keys_is_doubled:
  assumes "ld_dirty l = 0" and "pa_enc (ld_args l)" and "ln = ''Socket Server = /tmp/Port'' @ [NL]"
    and "length (ld_buf l) + 52 < ld_size l"
  shows "\<exists>a. load_keys [0..<6] ln l = Some (Inr (l\<lparr>ld_buf := ld_buf l @ ln @ ln, ld_args := a\<rparr>))"
  using assms
  by (simp add: key_list arg_key_nth store_cache_config_def split_value_def strcpy_at_def buf_cat_def) blast

end
