(* ===== verification/Spec2Isabelle.thy ===== *)
theory Spec2Isabelle
  imports UtilProps AccProps StoreProps MngProps StartProps CliProps WalkProps NetProps Removal ConfigProps LinkProps Deviations
begin

text \<open>
  \<^bold>\<open>The Bluetooth mesh host network manager, modelled and verified.\<close>

  \<^bold>\<open>The program.\<close> A host program drives a network co-processor (the NCP target) that acts as the
  provisioner of a Bluetooth mesh. A configuration file lists the devices of the network with what
  each is to be configured with. The user enters commands at a console; \<open>sync\<close> makes the program
  bring the network in line with the file: provision the devices that are not in it, configure the
  nodes, reset the ones to remove and blacklist others by a key refresh. The console thread
  (\<open>cli/cli.c\<close>) puts commands into a queue, the manager thread (\<open>mng/mng.c\<close>) runs a loop of turns: one
  command, all waiting events of the target, a piece of the work of its current state, a possible
  change of that state, and one message to a light.

  \<^bold>\<open>Parts, in the order of the theories.\<close>

  \<^item> Helpers. \<open>Prelude\<close> (outcomes, C integers, checked arrays, \<open>ASSERT\<close>), \<open>Bits\<close> (the macros of
    \<open>include/utils/utils.h\<close>, \<open>utils_frz\<close>, \<open>utils_ctz\<close>, \<open>utils_popcount\<close>), \<open>Err\<close> (\<open>utils/err.c\<close>: error
    values with line and file), \<open>Strings\<close> and \<open>StrUtil\<close> (\<open>utils/utils.c\<close>: numbers, buffers and UUIDs as
    text).
  \<^item> Data. \<open>Types\<close> has the structs and enumerations of \<open>include/cfg/cfgdb.h\<close>, \<open>include/mng/mng.h\<close>,
    \<open>dev_config.h\<close> and \<open>stat.h\<close> as records and datatypes, \<open>Bgapi\<close> the commands, responses and events of
    the target that the program uses, \<open>Sys\<close> the state of the whole program: the static variables of
    the C files in one record, with the commands sent so far in \<open>sent\<close>.
  \<^item> Configuration store. \<open>Glib\<close> (\<open>GTree\<close> as a sorted association list, behind the locale \<open>gtree\<close>),
    \<open>Cfgdb\<close> (\<open>cfg/cfgdb.c\<close>: the trees of nodes, devices, backlog and templates over a heap of nodes),
    \<open>Json\<close> (the trees of json-c and paths into them), \<open>JsonWrite\<close>, \<open>JsonLoad\<close>, \<open>JsonOpen\<close>
    (\<open>cfg/parser/json_parser.c\<close> and \<open>cfg/cfg.c\<close>: writing a field, loading the files, opening and
    creating them), \<open>GenericParser\<close> (\<open>cfg/parser/generic_parser.c\<close>: the operations that keep database
    and file in step).
  \<^item> Configuration of nodes. \<open>AccBase\<close> (flags, timer, error recording and the pattern all states
    share), one theory per group of states: \<open>GetDcd\<close>, \<open>AppkeyStates\<close>, \<open>PubSub\<close>, \<open>SetConfig\<close>,
    \<open>EndStates\<close> (\<open>mng/states/as_*.c\<close>), and \<open>AccEngine\<close> (\<open>mng/dev_config.c\<close>: the list of states, the two
    slots, the exceptions, the search for the next state, the dispatch of events to slots).
  \<^item> The rest of the manager. \<open>Stat\<close> (\<open>mng/stat.c\<close>), \<open>DevAdd\<close> (\<open>mng/dev_add.c\<close>: provisioning sessions),
    \<open>DevBl\<close> (\<open>mng/dev_bl.c\<close>: blacklisting), \<open>Models\<close> (\<open>mng/models.c\<close>, \<open>mng/demo.c\<close>: lights), \<open>MngLists\<close> and
    \<open>MngLoop\<close> (\<open>mng/mng.c\<close>, \<open>mng/bgevt_hdr.c\<close>: work lists, commands, order of work, dispatch, a turn
    \<open>mng_turn\<close>), \<open>Nwk\<close> (\<open>mng/nwk.c\<close>: keys and self-configuration).
  \<^item> Console and start. \<open>Cli\<close> and \<open>Complete\<close> (\<open>cli/cli.c\<close>: the command table, a line up to its
    dispatch, completion), \<open>Startup\<close> (\<open>utils/startup.c\<close>: options, the file of arguments, the union of
    serial and socket arguments byte by byte, initialisation, reset), \<open>System\<close> (the program as a
    step relation \<open>prog_step\<close>: turns, lines, events and resets interleaved, \<open>reachable\<close> states).
  \<^item> Transport. \<open>Uart\<close> (\<open>hal/common/uart/uart_posix.c\<close>: the serial port) and \<open>Socket\<close>
    (\<open>hal/socket_handler.c\<close>: the socket to the NCP daemon and its receive buffer) move bytes, \<open>Bglib\<close>
    (\<open>hal/ble_stack/src/host/gecko_bglib.c\<close>) cuts them into messages and keeps events in a ring of 30
    packets while a response is awaited, \<open>Transport\<close> (\<open>hal/bg_uart_cbs.c\<close>, \<open>conn_ncptarget\<close> of
    \<open>mng/bgevt_hdr.c\<close>) chooses and opens the link. What the system calls do is a script of the state:
    the bytes that arrive before each call, short writes, failures, a device that is gone. This layer is
    below the other theories: there a command is a call of \<open>ncp\<close> and the events are the list \<open>evq\<close>;
    here a command is its bytes, answered by the next response on the line, and the events are those
    \<open>gecko_peek_event\<close> returns. \<open>LinkProps\<close> justifies that view, the decoding of a payload into the
    fields of an event by the generated structs excepted.

  \<^bold>\<open>How the code is rendered.\<close> A C function is a function on \<^typ>\<open>sys\<close>; those that may fail to return
  give an option whose \<^const>\<open>None\<close> is an abort or undefined behaviour (\<open>aborts\<close>, \<open>undef\<close>): NULL
  dereferences, reads outside an allocated array and overrun buffers are such outcomes, so that a
  theorem that a result exists includes their absence. \<open>exit\<close> is the left side of \<open>run\<close>. Error
  values of type \<open>err_t\<close> are their codes. Integers have their width wherever they can wrap;
  iterators and list positions are naturals. Nodes are shared by reference: a \<open>node_t *\<close> is a key of
  the heap in the database, and freeing removes it. The command queue is the linked list of the code:
  \<open>cmdq\<close> has \<open>head\<close>, \<open>tail\<close> and the allocated items with their \<open>next\<close>.

  \<^bold>\<open>Parameters.\<close> The record \<open>env\<close> stands for what the sources do not contain: \<open>ncp\<close>, the target's
  response to a command after the commands sent before, \<open>now\<close>, the clock during a turn, \<open>save_ok\<close>,
  whether a file can be written, and \<open>json_text\<close>, the text json-c gives a value that is not a string.
  Events of the target are arbitrary members of \<open>evq\<close>. \<open>wordexp\<close> is an argument of the functions
  that call it, \<open>rl_completion_matches\<close> of readline is the parameter \<open>rl\<close> of the completion functions, with the
  documented behaviour \<open>documented_matches\<close>, which \<open>collect_matches\<close> has; the options delivered by \<open>getopt_long\<close> are a list, and opening the transport is a
  result given to \<open>cli_proc\<close> (\<open>conn_ncptarget_opens\<close> says when it succeeds). Nothing is assumed of them but what a theorem says.

  \<^bold>\<open>Locales.\<close> \<open>gtree\<close> (laws of the ordered map, interpreted on the lists), \<open>field_store\<close> (reading
  what was written to a field of a node, on the node file), \<open>fifo_queue\<close> (any interleaving of putting in and taking out is that of a list; on the
  linked list of commands),
  \<open>acc_send\<close> (the contract of a send function: its command depends only on the work of the slot and the database,
  so a retry repeats it; on all seven states that send),
  \<open>message_source\<close> and its extension \<open>polled_source\<close> (what the BGAPI library needs of a link; on the serial
  port and on the socket) and \<open>acc_walk\<close> (a state that goes through a chain of commands, on the four states over keys, models
  and addresses).

  \<^bold>\<open>What is shown.\<close>

  \<^item> \<open>AccProps\<close>: the slots stay consistent in every turn and under every event; nodes enter slots in
    order; finished states are left for later ones; refused and unanswered commands are repeated, the
    latter by \<open>dev_config_hdr\<close> exactly as often as the budget says; the settings converge; a silent node keeps its slot once its timer fired.
  \<^item> \<open>WalkProps\<close>: a node whose commands are accepted and confirmed gets every key, every binding,
    every publication and every subscription once and in order (\<open>Walk\<close>, \<open>Walks\<close> hold the library).
  \<^item> \<open>ConfigProps\<close>: a node is configured, from the work list over every state to the database and the node
    file, with as many turns of the main loop as there are commands. The parts are in \<open>Answers\<close> (one turn with the answer
    of the node), \<open>Configuring\<close> (the four states that walk), \<open>Finishing\<close> (settings and end) and
    \<open>Composition\<close> (what a page of composition data says, and when it is read back as it was written).
  \<^item> \<open>Removal\<close>: two turns of the main loop remove a node, from the work list to the end of the work.
  \<^item> \<open>NetProps\<close>: what a provisioned device changes; scanning that stopped and is not restarted;
    pushing the blacklist; the abort after a batch that was cut short.
  \<^item> \<open>StoreProps\<close>: database and node file stay in step when devices become nodes and back; outcomes are
    on disk. \<open>UtilProps\<close>: round trips of the text forms and of the error values of every
    source file of the program (two of them are reported under the name of another one), the bit scans.
  \<^item> \<open>MngProps\<close>: filing of the work lists, the order of work against a reference search, the linked
    list of commands as a list, scanning, lights.
  \<^item> \<open>StartProps\<close>: the invariant \<open>mng_inv\<close> in every reachable state of the program (\<open>Ctl\<close>, \<open>Frame\<close>,
    \<open>Slots\<close>, \<open>MngInv\<close>, \<open>MngTurn\<close> carry it), no abort on the priorities, at most two sessions and two
    slots, the arguments of either link remembered by the next start.
  \<^item> \<open>CliProps\<close>: queued lines have a callback, completion is a filter of the table, offered priorities
    are accepted by an idle manager, numbers and their text.
  \<^item> \<open>LinkProps\<close>: over either link a command arrives whole and gets its response, events are handed
    out once and in the order they were sent, up to 29 of them survive the wait for a response, and the
    event in work is not overwritten. For the socket this needs that the daemon writes whole messages,
    together at most 255 bytes, and that sends are taken whole; the theory also shows what happens otherwise.
  \<^item> \<open>Deviations\<close>: places where the code does something else than it is meant to; more of them are among
    the properties.

  \<open>Samples\<close> holds the small network on which the witnesses run the model.

  \<^bold>\<open>Termination and fuel.\<close> Loops over lists and arrays are structural or have a measure. The calls of a
  generator by readline are the relation \<open>yields\<close>, and the generators of the program are shown to end. In statements, \<open>answer_all\<close>, \<open>turns\<close> and
  \<open>answered_turns\<close> count the rounds they are given; the theorems show that these suffice. The loop over
  the elements of the composition data may not end: \<open>count_elems\<close> is \<^const>\<open>None\<close> then. So do the loops
  of the transport, which wait for the target; the properties over them state that they return.

  \<^bold>\<open>Not modelled.\<close> Logging, printing and colours (no other state depends on them); the terminal
  handling of readline; threads and locks (\<open>System\<close> interleaves whole turns and whole lines, and the
  queue operations are atomic, as the lock makes them); the generated stubs and structs of
  \<open>host_gecko.h\<close>, one function per BGAPI command; the Windows serial port and other files under \<open>hal/\<close>
  that are not compiled; the separate NCP daemon, a vendored program; the serialisation of JSON to
  bytes, which json-c does.
\<close>

end
